(* ===== verification/Go_Prelude.thy ===== *)
theory Go_Prelude
  imports Main "HOL-Library.Word" "HOL-Library.Sublist"
begin

text \<open>
  What every component of the development shares: the Go types the source uses (bytes, strings,
  64-bit integers, instants and durations), the three ways a Go call can end, and the functions of
  the standard library's \<^verbatim>\<open>strings\<close>, \<^verbatim>\<open>time\<close> and \<^verbatim>\<open>strconv\<close> packages that more than one component
  calls, with the lemmas about them that the component proofs use.

  Go strings are byte sequences and are modelled as \<^typ>\<open>string\<close>; a \<^verbatim>\<open>[]byte\<close> is a list of
  8-bit words; the two conversions of the language are \<open>str_bytes\<close> and \<open>bytes_str\<close>.
  An instant is the number of nanoseconds since the Unix epoch, a duration is a number of
  nanoseconds that Go keeps in 64 bits.
\<close>

unbundle bit_operations_syntax

section \<open>Types\<close>

type_synonym byte = "8 word"
type_synonym bytes = "8 word list"
type_synonym instant = int
type_synonym duration = int

text \<open>A call returns a value, returns an error, or panics.\<close>

datatype ('e, 'a) res = Ok 'a | Err 'e | Panic

fun res_bind :: "('e, 'a) res \<Rightarrow> ('a \<Rightarrow> ('e, 'b) res) \<Rightarrow> ('e, 'b) res" where
  "res_bind (Ok x) f = f x"
| "res_bind (Err e) f = Err e"
| "res_bind Panic f = Panic"

text \<open>\<^verbatim>\<open>fmt.Errorf("...: %w", err)\<close>: the error is wrapped, a value or a panic passes through.\<close>

fun res_wrap :: "('e \<Rightarrow> 'f) \<Rightarrow> ('e, 'a) res \<Rightarrow> ('f, 'a) res" where
  "res_wrap g (Ok x) = Ok x"
| "res_wrap g (Err e) = Err (g e)"
| "res_wrap g Panic = Panic"

section \<open>Bytes and strings\<close>

definition str_bytes :: "string \<Rightarrow> bytes" where
  "str_bytes s = map (\<lambda>c. of_nat (of_char c)) s"

definition bytes_str :: "bytes \<Rightarrow> string" where
  "bytes_str bs = map (\<lambda>b. char_of (unat b)) bs"

text \<open>\<^verbatim>\<open>data[a:b]\<close> on a slice whose visible bytes are \<open>data\<close> and whose capacity holds \<open>spare\<close> more:
  Go allows \<open>b\<close> up to the capacity and panics beyond it, and when \<open>a > b\<close>.\<close>

definition go_slice :: "bytes \<Rightarrow> bytes \<Rightarrow> nat \<Rightarrow> nat \<Rightarrow> bytes option" where
  "go_slice data spare a b =
     (if a \<le> b \<and> b \<le> length data + length spare
      then Some (take (b - a) (drop a (data @ spare))) else None)"

text \<open>\<^verbatim>\<open>data[i]\<close>: panics unless \<open>i < len(data)\<close>.\<close>

definition go_index :: "'a list \<Rightarrow> nat \<Rightarrow> 'a option" where
  "go_index xs i = (if i < length xs then Some (xs ! i) else None)"

text \<open>\<^verbatim>\<open>binary.BigEndian.Uint16/Uint32\<close> and \<^verbatim>\<open>big.Int.SetBytes\<close> read bytes most significant first.\<close>

definition be_nat :: "bytes \<Rightarrow> nat" where
  "be_nat bs = foldl (\<lambda>acc b. 256 * acc + unat b) 0 bs"

text \<open>\<^verbatim>\<open>binary.BigEndian.PutUint32\<close>: \<open>w\<close> bytes of \<open>n\<close>, most significant first.\<close>

fun be_bytes :: "nat \<Rightarrow> nat \<Rightarrow> bytes" where
  "be_bytes 0 n = []"
| "be_bytes (Suc w) n = be_bytes w (n div 256) @ [of_nat (n mod 256)]"

section \<open>The strings package\<close>

definition HasPrefix :: "string \<Rightarrow> string \<Rightarrow> bool" where
  "HasPrefix s p \<longleftrightarrow> take (length p) s = p"

definition TrimPrefix :: "string \<Rightarrow> string \<Rightarrow> string" where
  "TrimPrefix s p = (if HasPrefix s p then drop (length p) s else s)"

fun Contains :: "string \<Rightarrow> string \<Rightarrow> bool" where
  "Contains [] w = (w = [])"
| "Contains (c # s) w = (HasPrefix (c # s) w \<or> Contains s w)"

text \<open>\<^verbatim>\<open>strings.Split(s, sep)\<close> and \<^verbatim>\<open>strings.SplitN(s, sep, 2)\<close> for a one-byte separator.\<close>

fun split_on :: "char \<Rightarrow> string \<Rightarrow> string list" where
  "split_on c [] = [[]]"
| "split_on c (x # xs) =
     (if x = c then [] # split_on c xs
      else (case split_on c xs of [] \<Rightarrow> [[x]] | y # ys \<Rightarrow> (x # y) # ys))"

fun split_first :: "char \<Rightarrow> string \<Rightarrow> string list" where
  "split_first c [] = [[]]"
| "split_first c (x # xs) =
     (if x = c then [[], xs]
      else (case split_first c xs of [] \<Rightarrow> [[x]] | y # ys \<Rightarrow> (x # y) # ys))"

text \<open>The UTF-8 encodings of the characters \<^verbatim>\<open>unicode.IsSpace\<close> accepts.\<close>

definition go_spaces :: "string list" where
  "go_spaces =
     map (\<lambda>c. [c]) [CHR 0x09, CHR 0x0A, CHR 0x0B, CHR 0x0C, CHR 0x0D, CHR 0x20] @
     [[CHR 0xC2, CHR 0x85], [CHR 0xC2, CHR 0xA0], [CHR 0xE1, CHR 0x9A, CHR 0x80]] @
     map (\<lambda>c. [CHR 0xE2, CHR 0x80, c])
       [CHR 0x80, CHR 0x81, CHR 0x82, CHR 0x83, CHR 0x84, CHR 0x85, CHR 0x86, CHR 0x87,
        CHR 0x88, CHR 0x89, CHR 0x8A, CHR 0xA8, CHR 0xA9, CHR 0xAF] @
     [[CHR 0xE2, CHR 0x81, CHR 0x9F], [CHR 0xE3, CHR 0x80, CHR 0x80]]"

function strip_front :: "string list \<Rightarrow> string \<Rightarrow> string" where
  "strip_front ws s =
     (case find (\<lambda>w. w \<noteq> [] \<and> HasPrefix s w) ws of
        None \<Rightarrow> s
      | Some w \<Rightarrow> strip_front ws (drop (length w) s))"
  by pat_completeness auto
termination
proof (relation "measure (\<lambda>(ws, s). length s)")
  fix ws :: "string list" and s w
  assume "find (\<lambda>w. w \<noteq> [] \<and> HasPrefix s w) ws = Some w"
  then have "w \<noteq> []" and "take (length w) s = w"
    by (auto simp: find_Some_iff HasPrefix_def)
  then have "s \<noteq> []" by auto
  with \<open>w \<noteq> []\<close> show "((ws, drop (length w) s), ws, s) \<in> measure (\<lambda>(ws, s). length s)"
    by simp
qed simp

definition TrimSpace :: "string \<Rightarrow> string" where
  "TrimSpace s = rev (strip_front (map rev go_spaces) (rev (strip_front go_spaces s)))"

section \<open>The strconv package\<close>

definition digit_char :: "nat \<Rightarrow> char" where
  "digit_char n = char_of (48 + n mod 10)"

fun nat_str :: "nat \<Rightarrow> string" where
  "nat_str n = (if n < 10 then [digit_char n] else nat_str (n div 10) @ [digit_char n])"

declare nat_str.simps [simp del]

text \<open>\<^verbatim>\<open>strconv.Itoa\<close>, and \<^verbatim>\<open>fmt.Sprintf("%d", n)\<close>.\<close>

definition Itoa :: "int \<Rightarrow> string" where
  "Itoa n = (if n < 0 then ''-'' @ nat_str (nat (- n)) else nat_str (nat n))"

section \<open>64-bit integers and time\<close>

definition max_int64 :: int where "max_int64 = 2 ^ 63 - 1"
definition min_int64 :: int where "min_int64 = - (2 ^ 63)"

text \<open>The value an \<^verbatim>\<open>int64\<close> operation leaves after wrap-around.\<close>

definition wrap64 :: "int \<Rightarrow> int" where
  "wrap64 x = (x + 2 ^ 63) mod 2 ^ 64 - 2 ^ 63"

definition clamp64 :: "int \<Rightarrow> int" where
  "clamp64 x = max min_int64 (min max_int64 x)"

definition Second :: duration where "Second = 1000000000"
definition Minute :: duration where "Minute = 60 * Second"
definition Hour :: duration where "Hour = 60 * Minute"

text \<open>\<^verbatim>\<open>time.Unix(sec, 0)\<close>: Go adds the offset between year 1 and 1970 in 64 bits, so a huge
  \<open>sec\<close> wraps around.\<close>

definition unixToInternal :: int where "unixToInternal = 62135596800"

definition time_Unix :: "int \<Rightarrow> instant" where
  "time_Unix sec = Second * (wrap64 (sec + unixToInternal) - unixToInternal)"

text \<open>The zero \<^verbatim>\<open>time.Time\<close>, midnight of 1 January of year 1.\<close>

definition zero_time :: instant where "zero_time = - (Second * unixToInternal)"

text \<open>\<^verbatim>\<open>t.Unix()\<close>, \<^verbatim>\<open>t.Sub(u)\<close> (saturating) and \<^verbatim>\<open>d.Abs()\<close> (of the least duration: the greatest).\<close>

definition to_unix :: "instant \<Rightarrow> int" where "to_unix t = t div Second"

definition time_Sub :: "instant \<Rightarrow> instant \<Rightarrow> duration" where
  "time_Sub t u = clamp64 (t - u)"

definition dur_Abs :: "duration \<Rightarrow> duration" where
  "dur_Abs d = (if d = min_int64 then max_int64 else \<bar>d\<bar>)"

definition dur_mul :: "int \<Rightarrow> duration \<Rightarrow> duration" where
  "dur_mul n d = wrap64 (n * d)"

section \<open>Lemmas\<close>

named_theorems go_simps \<open>rewrite rules for the standard library model\<close>

lemma res_bind_Ok_iff: "res_bind r f = Ok y \<longleftrightarrow> (\<exists>x. r = Ok x \<and> f x = Ok y)"
  by (cases r) auto

lemma res_bind_Err_iff:
  "res_bind r f = Err e \<longleftrightarrow> r = Err e \<or> (\<exists>x. r = Ok x \<and> f x = Err e)"
  by (cases r) auto

lemma res_bind_Panic_iff:
  "res_bind r f = Panic \<longleftrightarrow> r = Panic \<or> (\<exists>x. r = Ok x \<and> f x = Panic)"
  by (cases r) auto

lemma res_wrap_Ok_iff [simp]: "res_wrap g r = Ok y \<longleftrightarrow> r = Ok y"
  by (cases r) auto

lemma res_wrap_Panic_iff [simp]: "res_wrap g r = Panic \<longleftrightarrow> r = Panic"
  by (cases r) auto

lemma bytes_str_str_bytes [simp]: "bytes_str (str_bytes s) = s"
  by (simp add: bytes_str_def str_bytes_def o_def unat_of_nat)

lemma unat_byte_less: "unat (x :: byte) < 256"
  using unsigned_less [of x] by simp

lemma byte_mod_256: "unat (x :: byte) mod 256 = unat x"
  using unat_byte_less by simp

lemma str_bytes_bytes_str [simp]: "str_bytes (bytes_str bs) = bs"
  by (simp add: bytes_str_def str_bytes_def o_def byte_mod_256)

lemma length_str_bytes [simp]: "length (str_bytes s) = length s"
  by (simp add: str_bytes_def)

lemma length_bytes_str [simp]: "length (bytes_str s) = length s"
  by (simp add: bytes_str_def)

lemma str_bytes_inject [simp]: "str_bytes a = str_bytes b \<longleftrightarrow> a = b"
  by (metis bytes_str_str_bytes)

lemma bytes_str_inject [simp]: "bytes_str a = bytes_str b \<longleftrightarrow> a = b"
  by (metis str_bytes_bytes_str)

lemma str_bytes_append [simp]: "str_bytes (a @ b) = str_bytes a @ str_bytes b"
  by (simp add: str_bytes_def)

lemma str_bytes_Nil [simp]: "str_bytes [] = []"
  by (simp add: str_bytes_def)

lemma go_index_Some_iff: "go_index xs i = Some x \<longleftrightarrow> i < length xs \<and> x = xs ! i"
  by (auto simp: go_index_def)

lemma go_index_None_iff: "go_index xs i = None \<longleftrightarrow> length xs \<le> i"
  by (auto simp: go_index_def)

lemma HasPrefix_append [simp]: "HasPrefix (p @ s) p"
  by (simp add: HasPrefix_def)

lemma HasPrefix_iff: "HasPrefix s p \<longleftrightarrow> (\<exists>r. s = p @ r)"
  by (metis HasPrefix_append HasPrefix_def append_take_drop_id)

lemma TrimPrefix_append [simp]: "TrimPrefix (p @ s) p = s"
  by (simp add: TrimPrefix_def)

lemma split_on_ne [simp]: "split_on c s \<noteq> []"
  by (induction s) (auto split: list.splits)

lemma split_on_no_sep: "c \<notin> set s \<Longrightarrow> split_on c s = [s]"
  by (induction s) auto

lemma split_on_append:
  "c \<notin> set a \<Longrightarrow> split_on c (a @ c # b) = a # split_on c b"
  by (induction a) auto

lemma wrap64_id: "min_int64 \<le> x \<Longrightarrow> x \<le> max_int64 \<Longrightarrow> wrap64 x = x"
  by (simp add: wrap64_def min_int64_def max_int64_def)

lemma wrap64_bounds: "min_int64 \<le> wrap64 x" "wrap64 x \<le> max_int64"
proof -
  have "0 \<le> (x + 2 ^ 63) mod 2 ^ 64" "(x + 2 ^ 63) mod 2 ^ 64 < 2 ^ 64"
    by (simp_all del: power_numeral)
  then show "min_int64 \<le> wrap64 x" "wrap64 x \<le> max_int64"
    by (simp_all add: wrap64_def min_int64_def max_int64_def)
qed

text \<open>The keys the stores build with a separator are injective as long as the last part does not
  contain the separator.\<close>

lemma sep_key_inject:
  assumes "a @ [c] @ b = a' @ [c] @ b'" and "c \<notin> set b" and "c \<notin> set b'"
  shows "a = a' \<and> b = b'"
proof -
  have t: "takeWhile (\<lambda>x. x \<noteq> c) (rev (p @ [c] @ q)) = rev q" if "c \<notin> set q" for p q
    using that by (simp, subst takeWhile_append2) auto
  from assms have "rev b = rev b'" by (metis t)
  with assms(1) show ?thesis by simp
qed

lemma be_nat_Nil [simp]: "be_nat [] = 0"
  by (simp add: be_nat_def)

lemma be_nat_snoc [simp]: "be_nat (bs @ [b]) = 256 * be_nat bs + unat b"
  by (simp add: be_nat_def)

lemma be_nat_less: "be_nat bs < 256 ^ length bs"
proof (induction bs rule: rev_induct)
  case (snoc b bs)
  have "unat b < 256" by (rule unat_byte_less)
  with snoc show ?case by simp
qed simp

lemma length_be_bytes [simp]: "length (be_bytes w n) = w"
  by (induction w arbitrary: n) auto

lemma be_nat_be_bytes [simp]: "be_nat (be_bytes w n) = n mod 256 ^ w"
proof (induction w arbitrary: n)
  case (Suc w)
  have "unat (of_nat (n mod 256) :: byte) = n mod 256"
    by (simp add: unat_of_nat)
  then have "be_nat (be_bytes (Suc w) n) = 256 * ((n div 256) mod 256 ^ w) + n mod 256"
    using Suc by simp
  also have "\<dots> = n mod (256 * 256 ^ w)" by (simp add: mod_mult2_eq)
  finally show ?case by simp
qed simp

section \<open>State machines that work key by key\<close>

text \<open>
  The counter, the session store and the lifecycle store are maps whose operations name one key.
  The interface: an operation leaves the view of every other key alone, and on its own key it
  implements an abstract step. The client's lemma: after any sequence of operations, what is seen
  at a key is what the abstract machine of that key computes from the operations on that key alone.
\<close>

locale keyed_machine =
  fixes step :: "'e \<Rightarrow> 's \<Rightarrow> 's"
    and key :: "'e \<Rightarrow> 'k"
    and view :: "'s \<Rightarrow> 'k \<Rightarrow> 'v"
    and spec :: "'e \<Rightarrow> 'a \<Rightarrow> 'a"
    and rel :: "'v \<Rightarrow> 'a \<Rightarrow> bool"
    and inv :: "'s \<Rightarrow> bool"
  assumes inv_step: "inv s \<Longrightarrow> inv (step e s)"
    and frame: "inv s \<Longrightarrow> key e \<noteq> k \<Longrightarrow> view (step e s) k = view s k"
    and simulates: "inv s \<Longrightarrow> rel (view s (key e)) a \<Longrightarrow> rel (view (step e s) (key e)) (spec e a)"
begin

lemma inv_fold: "inv s \<Longrightarrow> inv (fold step es s)"
  by (induction es arbitrary: s) (auto intro: inv_step)

lemma fold_simulates:
  "inv s \<Longrightarrow> rel (view s k) a \<Longrightarrow>
   rel (view (fold step es s) k) (fold spec (filter (\<lambda>e. key e = k) es) a)"
proof (induction es arbitrary: s a)
  case (Cons e es)
  have i: "inv (step e s)" using Cons.prems(1) by (rule inv_step)
  show ?case
  proof (cases "key e = k")
    case True
    with Cons.prems have "rel (view (step e s) k) (spec e a)"
      using simulates by blast
    with True i Cons.IH show ?thesis by simp
  next
    case False
    with Cons.prems frame have "rel (view (step e s) k) a" by simp
    with False i Cons.IH show ?thesis by simp
  qed
qed simp

lemma untouched: "inv s \<Longrightarrow> \<forall>e \<in> set es. key e \<noteq> k \<Longrightarrow> view (fold step es s) k = view s k"
  by (induction es arbitrary: s) (auto simp: frame inv_step)

end

end
