(* ===== verification/Pake_Counter.thy ===== *)
theory Pake_Counter
  imports Go_Prelude
begin

text \<open>
  The lockout counter of \<^verbatim>\<open>internal/pake/counter.go\<close>. Each operation takes the mutex for its whole
  body, so an operation is one atomic step of the model; the instant \<open>now\<close> is the reading of
  \<^verbatim>\<open>time.Now()\<close> the operation makes. The counter is proved to implement an abstract account per
  key: the number of failures since the last reset and the instant of the last one.
\<close>

section \<open>State and operations\<close>

record attemptRecord =
  failures :: int
  lockedAt :: instant

record AttemptCounter =
  attempts :: "string \<rightharpoonup> attemptRecord"
  maxFails :: int
  lockout :: duration

datatype counter_error = Account_locked | Locked_after int

definition NewAttemptCounter :: "int \<Rightarrow> duration \<Rightarrow> AttemptCounter" where
  "NewAttemptCounter mf lo = \<lparr>attempts = Map.empty, maxFails = mf, lockout = lo\<rparr>"

definition counterKey :: "string \<Rightarrow> string \<Rightarrow> string \<Rightarrow> string" where
  "counterKey clientID kid ctx = clientID @ ''|'' @ kid @ ''|'' @ ctx"

definition counter_Check ::
  "instant \<Rightarrow> string \<Rightarrow> string \<Rightarrow> string \<Rightarrow> AttemptCounter \<Rightarrow> counter_error option \<times> AttemptCounter"
where
  "counter_Check now clientID kid ctx c =
     (let key = counterKey clientID kid ctx in
      case attempts c key of
        None \<Rightarrow> (None, c)
      | Some rec \<Rightarrow>
          if failures rec \<ge> maxFails c then
            if now < lockedAt rec + lockout c then (Some Account_locked, c)
            else (None, c\<lparr>attempts := (attempts c)(key := None)\<rparr>)
          else (None, c))"

definition counter_RecordFailure ::
  "instant \<Rightarrow> string \<Rightarrow> string \<Rightarrow> string \<Rightarrow> AttemptCounter \<Rightarrow> counter_error option \<times> AttemptCounter"
where
  "counter_RecordFailure now clientID kid ctx c =
     (let key = counterKey clientID kid ctx;
          rec = (case attempts c key of
                   None \<Rightarrow> \<lparr>failures = 0, lockedAt = zero_time\<rparr> | Some r \<Rightarrow> r);
          rec = rec\<lparr>failures := failures rec + 1\<rparr>
      in if failures rec \<ge> maxFails c
         then (Some (Locked_after (maxFails c)),
               c\<lparr>attempts := (attempts c)(key \<mapsto> rec\<lparr>lockedAt := now\<rparr>)\<rparr>)
         else (None, c\<lparr>attempts := (attempts c)(key \<mapsto> rec)\<rparr>))"

definition counter_RecordSuccess ::
  "string \<Rightarrow> string \<Rightarrow> string \<Rightarrow> AttemptCounter \<Rightarrow> AttemptCounter"
where
  "counter_RecordSuccess clientID kid ctx c =
     c\<lparr>attempts := (attempts c)(counterKey clientID kid ctx := None)\<rparr>"

section \<open>Histories of operations\<close>

datatype counter_op =
    OpCheck instant string string string
  | OpFailure instant string string string
  | OpSuccess string string string

fun counter_step :: "counter_op \<Rightarrow> AttemptCounter \<Rightarrow> AttemptCounter" where
  "counter_step (OpCheck t cid kid ctx) c = snd (counter_Check t cid kid ctx c)"
| "counter_step (OpFailure t cid kid ctx) c = snd (counter_RecordFailure t cid kid ctx c)"
| "counter_step (OpSuccess cid kid ctx) c = counter_RecordSuccess cid kid ctx c"

fun op_key :: "counter_op \<Rightarrow> string" where
  "op_key (OpCheck t cid kid ctx) = counterKey cid kid ctx"
| "op_key (OpFailure t cid kid ctx) = counterKey cid kid ctx"
| "op_key (OpSuccess cid kid ctx) = counterKey cid kid ctx"

text \<open>The abstract account of one key: how many failures since the last reset, and when the last
  one was. Its only operation on the outside is \<open>spec_locked\<close>.\<close>

type_synonym account = "(int \<times> instant) option"

definition spec_locked :: "int \<Rightarrow> duration \<Rightarrow> account \<Rightarrow> instant \<Rightarrow> bool" where
  "spec_locked mf lo a now = (case a of None \<Rightarrow> False | Some (n, t) \<Rightarrow> mf \<le> n \<and> now < t + lo)"

fun spec_step :: "int \<Rightarrow> duration \<Rightarrow> counter_op \<Rightarrow> account \<Rightarrow> account" where
  "spec_step mf lo (OpCheck t _ _ _) a =
     (case a of None \<Rightarrow> None
      | Some (n, u) \<Rightarrow> if mf \<le> n \<and> \<not> t < u + lo then None else a)"
| "spec_step mf lo (OpFailure t _ _ _) a =
     (case a of None \<Rightarrow> Some (1, t) | Some (n, _) \<Rightarrow> Some (n + 1, t))"
| "spec_step mf lo (OpSuccess _ _ _) a = None"

definition account_rel :: "int \<Rightarrow> attemptRecord option \<Rightarrow> account \<Rightarrow> bool" where
  "account_rel mf r a =
     (case (r, a) of
        (None, None) \<Rightarrow> True
      | (Some rec, Some (n, t)) \<Rightarrow> failures rec = n \<and> (mf \<le> n \<longrightarrow> lockedAt rec = t)
      | _ \<Rightarrow> False)"

section \<open>Lemmas\<close>

lemma Check_error_iff:
  "fst (counter_Check now cid kid ctx c) \<noteq> None \<longleftrightarrow>
     (\<exists>rec. attempts c (counterKey cid kid ctx) = Some rec \<and> maxFails c \<le> failures rec
        \<and> now < lockedAt rec + lockout c)"
  by (auto simp: counter_Check_def Let_def split: option.splits)

lemma counter_step_config [simp]:
  "maxFails (counter_step e c) = maxFails c" "lockout (counter_step e c) = lockout c"
  by (cases e; auto simp: counter_Check_def counter_RecordFailure_def counter_RecordSuccess_def
      Let_def split: option.splits)+

lemma counter_step_other_key:
  "op_key e \<noteq> k \<Longrightarrow> attempts (counter_step e c) k = attempts c k"
  by (cases e) (auto simp: counter_Check_def counter_RecordFailure_def
      counter_RecordSuccess_def Let_def split: option.splits)

lemma counter_step_refines:
  assumes "account_rel (maxFails c) (attempts c (op_key e)) a"
  shows "account_rel (maxFails c) (attempts (counter_step e c) (op_key e))
           (spec_step (maxFails c) (lockout c) e a)"
  using assms
  by (cases e) (auto simp: account_rel_def counter_Check_def counter_RecordFailure_def
      counter_RecordSuccess_def Let_def split: option.splits)

lemma Check_spec_locked:
  assumes "account_rel (maxFails c) (attempts c (counterKey cid kid ctx)) a"
  shows "fst (counter_Check now cid kid ctx c) \<noteq> None \<longleftrightarrow>
           spec_locked (maxFails c) (lockout c) a now"
  unfolding Check_error_iff using assms
  by (auto simp: account_rel_def spec_locked_def split: option.splits)

text \<open>The counter is a keyed machine: each key's account evolves on its own.\<close>

interpretation lockouts: keyed_machine counter_step op_key attempts "spec_step mf lo"
    "account_rel mf" "\<lambda>c. maxFails c = mf \<and> lockout c = lo" for mf lo
  by unfold_locales (auto simp: counter_step_other_key intro: counter_step_refines)

lemma fold_counter_config [simp]:
  "maxFails (fold counter_step es c) = maxFails c"
  "lockout (fold counter_step es c) = lockout c"
  using lockouts.inv_fold [of c "maxFails c" "lockout c" es] by auto

lemma spec_fold_failures:
  assumes "\<forall>e \<in> set es. \<exists>t cid kid ctx. e = OpFailure t cid kid ctx" and "es \<noteq> []"
  shows "\<exists>t cid kid ctx. last es = OpFailure t cid kid ctx \<and>
     fold (spec_step mf lo) es None = Some (int (length es), t)"
  using assms
proof (induction es rule: rev_induct)
  case (snoc e es)
  then show ?case by (cases "es = []") auto
qed simp

lemma lockout_account:
  "fst (counter_Check now cid kid ctx (fold counter_step es (NewAttemptCounter mf lo))) \<noteq> None
   \<longleftrightarrow> spec_locked mf lo
         (fold (spec_step mf lo) (filter (\<lambda>e. op_key e = counterKey cid kid ctx) es) None) now"
proof -
  let ?c = "NewAttemptCounter mf lo" and ?k = "counterKey cid kid ctx"
  have init: "maxFails ?c = mf" "lockout ?c = lo" "account_rel mf (attempts ?c ?k) None"
    by (simp_all add: NewAttemptCounter_def account_rel_def)
  have "account_rel mf (attempts (fold counter_step es ?c) ?k)
          (fold (spec_step mf lo) (filter (\<lambda>e. op_key e = ?k) es) None)"
    by (rule lockouts.fold_simulates) (simp_all add: init)
  with Check_spec_locked [of "fold counter_step es ?c" cid kid ctx] show ?thesis
    by (simp add: init)
qed

section \<open>Properties\<close>

text \<open>C26: A fresh counter implements one independent account per key: after any interleaving of
  checks, failures and successes of any clients, \<^verbatim>\<open>Check\<close> refuses a client exactly when the abstract
  account, computed from the operations on that client's own key alone, is locked.\<close>

theorem lockout_refines_account:
  "fst (counter_Check now cid kid ctx (fold counter_step es (NewAttemptCounter mf lo))) \<noteq> None
   \<longleftrightarrow> spec_locked mf lo
         (fold (spec_step mf lo) (filter (\<lambda>e. op_key e = counterKey cid kid ctx) es) None) now"
  by (rule lockout_account)

text \<open>C27: Lockout policy. When all a key has seen since the counter was created are failures, the
  key is locked exactly if there were at least \<open>maxFails\<close> of them, and then until \<open>lockout\<close> after
  the last one, whatever the other clients did in between.\<close>

theorem lockout_after_max_failures:
  assumes own: "filter (\<lambda>e. op_key e = counterKey cid kid ctx) es = fs" and "fs \<noteq> []"
    and fails: "\<forall>e \<in> set fs. \<exists>t cid kid ctx. e = OpFailure t cid kid ctx"
    and last: "last fs = OpFailure t0 cid0 kid0 ctx0"
  shows "fst (counter_Check now cid kid ctx (fold counter_step es (NewAttemptCounter mf lo))) \<noteq> None
         \<longleftrightarrow> mf \<le> int (length fs) \<and> now < t0 + lo"
  unfolding lockout_account own
  using spec_fold_failures [OF fails \<open>fs \<noteq> []\<close>, of mf lo] last
  by (auto simp: spec_locked_def)

theorem lockout_after_max_failures_witness:
  "fst (counter_Check 50 ''alice'' ''hsm'' ''hsm''
      (fold counter_step [OpFailure 5 ''alice'' ''hsm'' ''hsm'', OpFailure 6 ''bob'' ''hsm'' ''hsm'',
         OpSuccess ''bob'' ''hsm'' ''hsm'', OpFailure 10 ''alice'' ''hsm'' ''hsm'']
        (NewAttemptCounter 2 100))) \<noteq> None"
  using lockout_after_max_failures [of "''alice''" "''hsm''" "''hsm''"
      "[OpFailure 5 ''alice'' ''hsm'' ''hsm'', OpFailure 6 ''bob'' ''hsm'' ''hsm'',
        OpSuccess ''bob'' ''hsm'' ''hsm'', OpFailure 10 ''alice'' ''hsm'' ''hsm'']"
      "[OpFailure 5 ''alice'' ''hsm'' ''hsm'', OpFailure 10 ''alice'' ''hsm'' ''hsm'']"
      10 "''alice''" "''hsm''" "''hsm''" 50 2 100]
  by (simp add: counterKey_def)

end
