(* ===== verification/Pake_Session.thy ===== *)
theory Pake_Session
  imports Go_Prelude "HOL-Library.AList"
begin

text \<open>
  The session store of \<^verbatim>\<open>internal/pake/session.go\<close>: an in-memory map from session identifiers to
  sessions, each operation atomic under the store's lock. The map is an association list with
  distinct keys, since \<^verbatim>\<open>CleanExpired\<close> iterates over it. \<^verbatim>\<open>Get\<close> hides expired sessions without
  removing them and \<^verbatim>\<open>CleanExpired\<close> removes them; the lemmas show that the clean-up is invisible to
  readers, and how a session evolves under any sequence of operations.
\<close>

section \<open>State and operations\<close>

record Session =
  s_ID :: string
  s_ClientID :: string
  s_Context :: string
  s_SessionKey :: bytes
  s_ClientMAC :: bytes
  s_ExpiresAt :: instant
  s_Verified :: bool
  s_Task :: string

type_synonym SessionStore = "(string \<times> Session) list"

datatype session_error = Session_already_exists string | Session_not_found string

definition NewSessionStore :: SessionStore where
  "NewSessionStore = []"

definition session_Create :: "Session \<Rightarrow> SessionStore \<Rightarrow> session_error option \<times> SessionStore" where
  "session_Create session st =
     (case map_of st (s_ID session) of
        Some _ \<Rightarrow> (Some (Session_already_exists (s_ID session)), st)
      | None \<Rightarrow> (None, AList.update (s_ID session) session st))"

text \<open>\<^verbatim>\<open>time.Now().After(sess.ExpiresAt)\<close>\<close>

definition session_expired :: "instant \<Rightarrow> Session \<Rightarrow> bool" where
  "session_expired now sess \<longleftrightarrow> s_ExpiresAt sess < now"

definition session_Get :: "instant \<Rightarrow> string \<Rightarrow> SessionStore \<Rightarrow> Session option" where
  "session_Get now sid st =
     (case map_of st sid of
        None \<Rightarrow> None
      | Some sess \<Rightarrow> if session_expired now sess then None else Some sess)"

definition session_MarkVerified :: "string \<Rightarrow> SessionStore \<Rightarrow> session_error option \<times> SessionStore" where
  "session_MarkVerified sid st =
     (case map_of st sid of
        None \<Rightarrow> (Some (Session_not_found sid), st)
      | Some sess \<Rightarrow> (None, AList.update sid (sess\<lparr>s_Verified := True\<rparr>) st))"

definition session_Delete :: "string \<Rightarrow> SessionStore \<Rightarrow> SessionStore" where
  "session_Delete sid st = AList.delete sid st"

text \<open>The loop of \<^verbatim>\<open>CleanExpired\<close>: delete each expired entry as it is visited and count it.\<close>

fun clean_loop :: "instant \<Rightarrow> (string \<times> Session) list \<Rightarrow> nat \<Rightarrow> SessionStore \<Rightarrow> nat \<times> SessionStore" where
  "clean_loop now [] count st = (count, st)"
| "clean_loop now ((sid, sess) # es) count st =
     (if session_expired now sess then clean_loop now es (count + 1) (session_Delete sid st)
      else clean_loop now es count st)"

definition session_CleanExpired :: "instant \<Rightarrow> SessionStore \<Rightarrow> nat \<times> SessionStore" where
  "session_CleanExpired now st = clean_loop now st 0 st"

definition session_Count :: "SessionStore \<Rightarrow> nat" where
  "session_Count st = length st"

section \<open>Lemmas\<close>

text \<open>A store filled by \<^verbatim>\<open>Create\<close> files every session once, under its own identifier.\<close>

definition wf_sessions :: "SessionStore \<Rightarrow> bool" where
  "wf_sessions st \<longleftrightarrow> distinct (map fst st) \<and> (\<forall>(sid, sess) \<in> set st. s_ID sess = sid)"

lemma wf_sessions_ID: "wf_sessions st \<Longrightarrow> map_of st sid = Some sess \<Longrightarrow> s_ID sess = sid"
  by (auto simp: wf_sessions_def dest: map_of_SomeD)

lemma session_Get_Some_iff:
  "session_Get now sid st = Some sess \<longleftrightarrow> map_of st sid = Some sess \<and> now \<le> s_ExpiresAt sess"
  by (auto simp: session_Get_def session_expired_def split: option.splits)

lemma map_of_Create:
  "map_of (snd (session_Create sess st)) sid =
     (if sid = s_ID sess \<and> map_of st sid = None then Some sess else map_of st sid)"
  by (auto simp: session_Create_def update_conv' split: option.splits)

lemma map_of_MarkVerified:
  "map_of (snd (session_MarkVerified sid st)) sid' =
     (if sid' = sid then map_option (s_Verified_update (\<lambda>_. True)) (map_of st sid)
      else map_of st sid')"
  by (auto simp: session_MarkVerified_def update_conv' split: option.splits)

lemma map_of_Delete: "map_of (session_Delete sid st) sid' = (if sid' = sid then None else map_of st sid')"
  by (simp add: session_Delete_def delete_conv')

lemma session_Get_Delete [simp]:
  "session_Get now sid (session_Delete sid' st) = (if sid = sid' then None else session_Get now sid st)"
  by (simp add: session_Get_def map_of_Delete)

abbreviation expired_entry :: "instant \<Rightarrow> string \<times> Session \<Rightarrow> bool" where
  "expired_entry now \<equiv> \<lambda>(sid, sess). session_expired now sess"

lemma clean_loop_eq:
  "clean_loop now es n st =
     (n + length (filter (expired_entry now) es),
      filter (\<lambda>e. fst e \<notin> fst ` set (filter (expired_entry now) es)) st)"
proof (induction es arbitrary: n st)
  case (Cons e es)
  then show ?case
    by (cases e) (auto simp: session_Delete_def AList.delete_eq case_prod_unfold intro!: filter_cong)
qed simp

lemma CleanExpired_eq:
  assumes "wf_sessions st"
  shows "session_CleanExpired now st =
     (length (filter (expired_entry now) st), filter (\<lambda>(sid, sess). \<not> session_expired now sess) st)"
proof -
  from assms have "inj_on fst (set st)" by (simp add: wf_sessions_def distinct_map)
  then have "fst e \<notin> fst ` set (filter (expired_entry now) st) \<longleftrightarrow> \<not> expired_entry now e"
    if "e \<in> set st" for e
    using that by (fastforce simp: inj_on_def image_iff)
  then have "filter (\<lambda>e. fst e \<notin> fst ` set (filter (expired_entry now) st)) st =
      filter (\<lambda>e. \<not> expired_entry now e) st"
    by (auto intro!: filter_cong)
  then show ?thesis
    by (simp add: session_CleanExpired_def clean_loop_eq case_prod_unfold)
qed

lemma map_of_filter_values:
  "distinct (map fst xs) \<Longrightarrow>
   map_of (filter (\<lambda>(k, v). P v) xs) k =
     (case map_of xs k of None \<Rightarrow> None | Some v \<Rightarrow> if P v then Some v else None)"
  by (induction xs) (auto split: option.splits dest: map_of_SomeD intro: rev_image_eqI)

lemma wf_sessions_new [simp]: "wf_sessions NewSessionStore"
  by (simp add: wf_sessions_def NewSessionStore_def)

lemma wf_sessions_update:
  assumes "wf_sessions st" and "s_ID sess = sid"
  shows "wf_sessions (AList.update sid sess st)"
proof -
  have "set (AList.update sid sess st) \<subseteq> insert (sid, sess) (set st)"
    by (induction st) auto
  with assms show ?thesis by (auto simp: wf_sessions_def AList.distinct_update)
qed

lemma wf_sessions_Create: "wf_sessions st \<Longrightarrow> wf_sessions (snd (session_Create sess st))"
  by (auto simp: session_Create_def intro: wf_sessions_update split: option.splits)

lemma wf_sessions_MarkVerified: "wf_sessions st \<Longrightarrow> wf_sessions (snd (session_MarkVerified sid st))"
  by (auto simp: session_MarkVerified_def wf_sessions_ID intro!: wf_sessions_update
      split: option.splits)

lemma wf_sessions_Delete: "wf_sessions st \<Longrightarrow> wf_sessions (session_Delete sid st)"
  using AList.distinct_delete [of st sid]
  by (auto simp: wf_sessions_def session_Delete_def AList.delete_eq)

lemma wf_sessions_CleanExpired: "wf_sessions st \<Longrightarrow> wf_sessions (snd (session_CleanExpired now st))"
  by (auto simp: CleanExpired_eq) (auto simp: wf_sessions_def distinct_map_filter)

lemmas wf_sessions_ops = wf_sessions_Create wf_sessions_MarkVerified wf_sessions_Delete
  wf_sessions_CleanExpired

lemma map_of_CleanExpired:
  "wf_sessions st \<Longrightarrow> map_of (snd (session_CleanExpired now st)) sid =
     (case map_of st sid of None \<Rightarrow> None
      | Some sess \<Rightarrow> if session_expired now sess then None else Some sess)"
  by (simp add: CleanExpired_eq map_of_filter_values [of _ "\<lambda>x. \<not> session_expired now x"]
      wf_sessions_def if_not_P split: option.splits)

section \<open>The clean-up\<close>

text \<open>The background clean-up removes exactly the expired sessions, reports how many there were
  (the store's count drops by that number), keeps the store well-formed, and is invisible to
  readers: every later \<^verbatim>\<open>Get\<close> answers as it would have without it.\<close>

lemma clean_expired_invisible:
  assumes "wf_sessions st" and "session_CleanExpired now st = (n, st')" and "now \<le> later"
  shows "session_Get later sid st' = session_Get later sid st
    \<and> session_Count st = session_Count st' + n
    \<and> (map_of st' sid = None \<longleftrightarrow> (\<forall>sess. map_of st sid = Some sess \<longrightarrow> s_ExpiresAt sess < now))
    \<and> wf_sessions st'"
proof -
  have st': "st' = snd (session_CleanExpired now st)" and n: "n = fst (session_CleanExpired now st)"
    using assms(2) by auto
  have "session_Get later sid st' = session_Get later sid st"
    using assms(1,3)
    by (auto simp: st' map_of_CleanExpired session_Get_def session_expired_def split: option.splits)
  moreover have "session_Count st = session_Count st' + n"
    using assms(1) sum_length_filter_compl [of "\<lambda>(sid, sess). session_expired now sess" st]
    by (simp add: st' n CleanExpired_eq session_Count_def case_prod_unfold)
  ultimately show ?thesis
    using assms(1)
    by (auto simp: st' map_of_CleanExpired session_expired_def wf_sessions_CleanExpired
        split: option.splits)
qed

end
