(* ===== verification/Store_Memory.thy ===== *)
theory Store_Memory
  imports Go_Prelude "HOL-Library.AList" "HOL-Library.Multiset"
begin

text \<open>
  The lifecycle store. \<open>store_ops\<close> is the \<^verbatim>\<open>Store\<close> interface of \<^verbatim>\<open>internal/store/store.go\<close>: a Go
  interface value is a record of operations on the state \<open>'s\<close> behind it, and the components that
  hold a \<^verbatim>\<open>store.Store\<close> take such a record. \<open>MemoryStore\<close> and its operations are
  \<^verbatim>\<open>internal/store/memory.go\<close>; every method holds the store's mutex from its first line to its
  return, so each is one atomic step. Maps the code iterates over are association lists with
  distinct keys, the others are partial functions; a map the code reads without a presence test
  gives the zero value where the key is absent.

  The locale \<open>status_store\<close> states what the attestation handlers and the status list rely on; the
  in-memory store is proved to provide it.
\<close>

section \<open>The Store interface\<close>

definition StatusValid :: byte where "StatusValid = 0"
definition StatusInvalid :: byte where "StatusInvalid = 1"
definition StatusSuspended :: byte where "StatusSuspended = 2"

record PublicKeyInfo =
  pk_Kid :: string
  pk_Curve :: string
  pk_PubKey :: bytes
  pk_CreationTime :: int
  pk_ClientID :: string

record WebAuthnCredential =
  wc_CredentialID :: bytes
  wc_PublicKey :: bytes
  wc_SignCount :: "32 word"
  wc_AAGUID :: bytes
  wc_CreatedAt :: int

datatype store_error =
    Category_not_found string
  | Index_not_found int string
  | Key_not_found string
  | No_record string string
  | No_webauthn_credentials string string
  | Credential_not_found
  | Backend_error string

record 's store_ops =
  AllocateIndex :: "string \<Rightarrow> 's \<Rightarrow> (store_error, int) res \<times> 's"
  GetStatus :: "string \<Rightarrow> int \<Rightarrow> 's \<Rightarrow> (store_error, byte) res"
  SetStatus :: "string \<Rightarrow> int \<Rightarrow> byte \<Rightarrow> 's \<Rightarrow> (store_error, unit) res \<times> 's"
  GetAllStatuses :: "string \<Rightarrow> 's \<Rightarrow> (store_error, (int \<times> byte) list) res"
  RecordWUA :: "string \<Rightarrow> string \<Rightarrow> int \<Rightarrow> 's \<Rightarrow> (store_error, unit) res \<times> 's"
  GetClientIndices :: "string \<Rightarrow> string \<Rightarrow> 's \<Rightarrow> (store_error, int list) res"
  RecordUsage :: "string \<Rightarrow> int \<Rightarrow> 's \<Rightarrow> (store_error, unit) res \<times> 's"
  IsUsed :: "string \<Rightarrow> int \<Rightarrow> 's \<Rightarrow> (store_error, bool) res"
  PutPublicKey :: "PublicKeyInfo \<Rightarrow> 's \<Rightarrow> (store_error, unit) res \<times> 's"
  GetPublicKey :: "string \<Rightarrow> 's \<Rightarrow> (store_error, PublicKeyInfo) res"
  ListPublicKeys :: "string \<Rightarrow> 's \<Rightarrow> (store_error, PublicKeyInfo list) res"
  PutRecord :: "string \<Rightarrow> string \<Rightarrow> bytes \<Rightarrow> 's \<Rightarrow> (store_error, unit) res \<times> 's"
  GetRecord :: "string \<Rightarrow> string \<Rightarrow> 's \<Rightarrow> (store_error, bytes) res"
  PutWebAuthnCredential :: "string \<Rightarrow> string \<Rightarrow> WebAuthnCredential \<Rightarrow> 's \<Rightarrow> (store_error, unit) res \<times> 's"
  GetWebAuthnCredential :: "string \<Rightarrow> string \<Rightarrow> 's \<Rightarrow> (store_error, WebAuthnCredential list) res"
  UpdateWebAuthnSignCount ::
    "string \<Rightarrow> string \<Rightarrow> bytes \<Rightarrow> 32 word \<Rightarrow> 's \<Rightarrow> (store_error, unit) res \<times> 's"

section \<open>The in-memory store\<close>

record MemoryStore =
  m_counters :: "string \<rightharpoonup> int"
  m_statuses :: "string \<rightharpoonup> (int \<times> byte) list"
  m_clientIndices :: "string \<rightharpoonup> int list"
  m_usage :: "string \<rightharpoonup> bool"
  m_publicKeys :: "(string \<times> PublicKeyInfo) list"
  m_records :: "string \<rightharpoonup> bytes"
  m_webauthn :: "string \<rightharpoonup> WebAuthnCredential list"

definition NewMemoryStore :: MemoryStore where
  "NewMemoryStore =
     \<lparr>m_counters = Map.empty, m_statuses = Map.empty, m_clientIndices = Map.empty,
      m_usage = Map.empty, m_publicKeys = [], m_records = Map.empty, m_webauthn = Map.empty\<rparr>"

text \<open>A map read without a presence test.\<close>

definition map_get :: "'v \<Rightarrow> ('k \<rightharpoonup> 'v) \<Rightarrow> 'k \<Rightarrow> 'v" where
  "map_get z m k = (case m k of None \<Rightarrow> z | Some v \<Rightarrow> v)"

definition pair_key :: "string \<Rightarrow> string \<Rightarrow> string" where
  "pair_key a b = a @ ''|'' @ b"

definition mem_AllocateIndex :: "string \<Rightarrow> MemoryStore \<Rightarrow> (store_error, int) res \<times> MemoryStore" where
  "mem_AllocateIndex category m =
     (let idx = map_get 0 (m_counters m) category;
          m = m\<lparr>m_counters := (m_counters m)(category \<mapsto> idx + 1)\<rparr>;
          entries = map_get [] (m_statuses m) category
      in (Ok idx, m\<lparr>m_statuses := (m_statuses m)(category \<mapsto> AList.update idx StatusValid entries)\<rparr>))"

definition mem_GetStatus :: "string \<Rightarrow> int \<Rightarrow> MemoryStore \<Rightarrow> (store_error, byte) res" where
  "mem_GetStatus category idx m =
     (case m_statuses m category of
        None \<Rightarrow> Err (Category_not_found category)
      | Some entries \<Rightarrow>
          (case map_of entries idx of
             None \<Rightarrow> Err (Index_not_found idx category)
           | Some status \<Rightarrow> Ok status))"

definition mem_SetStatus ::
  "string \<Rightarrow> int \<Rightarrow> byte \<Rightarrow> MemoryStore \<Rightarrow> (store_error, unit) res \<times> MemoryStore"
where
  "mem_SetStatus category idx status m =
     (case m_statuses m category of
        None \<Rightarrow> (Err (Category_not_found category), m)
      | Some entries \<Rightarrow>
          (case map_of entries idx of
             None \<Rightarrow> (Err (Index_not_found idx category), m)
           | Some _ \<Rightarrow>
               (Ok (), m\<lparr>m_statuses := (m_statuses m)(category \<mapsto> AList.update idx status entries)\<rparr>)))"

definition mem_GetAllStatuses :: "string \<Rightarrow> MemoryStore \<Rightarrow> (store_error, (int \<times> byte) list) res" where
  "mem_GetAllStatuses category m =
     (case m_statuses m category of None \<Rightarrow> Ok [] | Some entries \<Rightarrow> Ok entries)"

definition mem_RecordWUA ::
  "string \<Rightarrow> string \<Rightarrow> int \<Rightarrow> MemoryStore \<Rightarrow> (store_error, unit) res \<times> MemoryStore"
where
  "mem_RecordWUA clientID category idx m =
     (let key = pair_key clientID category in
      (Ok (), m\<lparr>m_clientIndices :=
                  (m_clientIndices m)(key \<mapsto> map_get [] (m_clientIndices m) key @ [idx])\<rparr>))"

definition mem_GetClientIndices :: "string \<Rightarrow> string \<Rightarrow> MemoryStore \<Rightarrow> (store_error, int list) res" where
  "mem_GetClientIndices clientID category m =
     Ok (map_get [] (m_clientIndices m) (pair_key clientID category))"

definition usage_key :: "string \<Rightarrow> int \<Rightarrow> string" where
  "usage_key category idx = category @ ''|'' @ Itoa idx"

definition mem_RecordUsage :: "string \<Rightarrow> int \<Rightarrow> MemoryStore \<Rightarrow> (store_error, unit) res \<times> MemoryStore" where
  "mem_RecordUsage category idx m =
     (Ok (), m\<lparr>m_usage := (m_usage m)(usage_key category idx \<mapsto> True)\<rparr>)"

definition mem_IsUsed :: "string \<Rightarrow> int \<Rightarrow> MemoryStore \<Rightarrow> (store_error, bool) res" where
  "mem_IsUsed category idx m = Ok (map_get False (m_usage m) (usage_key category idx))"

definition mem_PutPublicKey :: "PublicKeyInfo \<Rightarrow> MemoryStore \<Rightarrow> (store_error, unit) res \<times> MemoryStore" where
  "mem_PutPublicKey key m =
     (Ok (), m\<lparr>m_publicKeys := AList.update (pk_Kid key) key (m_publicKeys m)\<rparr>)"

definition mem_GetPublicKey :: "string \<Rightarrow> MemoryStore \<Rightarrow> (store_error, PublicKeyInfo) res" where
  "mem_GetPublicKey kid m =
     (case map_of (m_publicKeys m) kid of None \<Rightarrow> Err (Key_not_found kid) | Some k \<Rightarrow> Ok k)"

definition mem_ListPublicKeys :: "string \<Rightarrow> MemoryStore \<Rightarrow> (store_error, PublicKeyInfo list) res" where
  "mem_ListPublicKeys clientID m =
     Ok (filter (\<lambda>k. clientID = [] \<or> pk_ClientID k = clientID) (map snd (m_publicKeys m)))"

definition mem_PutRecord ::
  "string \<Rightarrow> string \<Rightarrow> bytes \<Rightarrow> MemoryStore \<Rightarrow> (store_error, unit) res \<times> MemoryStore"
where
  "mem_PutRecord clientID ctx record_bytes m =
     (Ok (), m\<lparr>m_records := (m_records m)(pair_key clientID ctx \<mapsto> record_bytes)\<rparr>)"

definition mem_GetRecord :: "string \<Rightarrow> string \<Rightarrow> MemoryStore \<Rightarrow> (store_error, bytes) res" where
  "mem_GetRecord clientID ctx m =
     (case m_records m (pair_key clientID ctx) of
        None \<Rightarrow> Err (No_record clientID ctx) | Some r \<Rightarrow> Ok r)"

definition mem_PutWebAuthnCredential ::
  "string \<Rightarrow> string \<Rightarrow> WebAuthnCredential \<Rightarrow> MemoryStore \<Rightarrow> (store_error, unit) res \<times> MemoryStore"
where
  "mem_PutWebAuthnCredential clientID ctx cred m =
     (let key = pair_key clientID ctx in
      (Ok (), m\<lparr>m_webauthn := (m_webauthn m)(key \<mapsto> map_get [] (m_webauthn m) key @ [cred])\<rparr>))"

definition mem_GetWebAuthnCredential ::
  "string \<Rightarrow> string \<Rightarrow> MemoryStore \<Rightarrow> (store_error, WebAuthnCredential list) res"
where
  "mem_GetWebAuthnCredential clientID ctx m =
     (let creds = map_get [] (m_webauthn m) (pair_key clientID ctx) in
      if creds = [] then Err (No_webauthn_credentials clientID ctx) else Ok creds)"

text \<open>\<^verbatim>\<open>bytesEqual\<close>: compare the lengths, then byte by byte.\<close>

fun bytes_same :: "bytes \<Rightarrow> bytes \<Rightarrow> bool" where
  "bytes_same (a # as) (b # bs) = (if a \<noteq> b then False else bytes_same as bs)"
| "bytes_same _ _ = True"

definition bytesEqual :: "bytes \<Rightarrow> bytes \<Rightarrow> bool" where
  "bytesEqual a b = (if length a \<noteq> length b then False else bytes_same a b)"

text \<open>The loop sets the counter of the first credential with the given identifier.\<close>

fun set_sign_count :: "bytes \<Rightarrow> 32 word \<Rightarrow> WebAuthnCredential list \<Rightarrow> WebAuthnCredential list option" where
  "set_sign_count credID n [] = None"
| "set_sign_count credID n (c # cs) =
     (if bytesEqual (wc_CredentialID c) credID then Some (c\<lparr>wc_SignCount := n\<rparr> # cs)
      else map_option (\<lambda>r. c # r) (set_sign_count credID n cs))"

definition mem_UpdateWebAuthnSignCount ::
  "string \<Rightarrow> string \<Rightarrow> bytes \<Rightarrow> 32 word \<Rightarrow> MemoryStore \<Rightarrow> (store_error, unit) res \<times> MemoryStore"
where
  "mem_UpdateWebAuthnSignCount clientID ctx credentialID signCount m =
     (let key = pair_key clientID ctx in
      case set_sign_count credentialID signCount (map_get [] (m_webauthn m) key) of
        None \<Rightarrow> (Err Credential_not_found, m)
      | Some cs \<Rightarrow> (Ok (), m\<lparr>m_webauthn := (m_webauthn m)(key \<mapsto> cs)\<rparr>))"

definition memory_ops :: "MemoryStore store_ops" where
  "memory_ops =
     \<lparr>AllocateIndex = mem_AllocateIndex, GetStatus = mem_GetStatus, SetStatus = mem_SetStatus,
      GetAllStatuses = mem_GetAllStatuses, RecordWUA = mem_RecordWUA,
      GetClientIndices = mem_GetClientIndices, RecordUsage = mem_RecordUsage, IsUsed = mem_IsUsed,
      PutPublicKey = mem_PutPublicKey, GetPublicKey = mem_GetPublicKey,
      ListPublicKeys = mem_ListPublicKeys, PutRecord = mem_PutRecord, GetRecord = mem_GetRecord,
      PutWebAuthnCredential = mem_PutWebAuthnCredential,
      GetWebAuthnCredential = mem_GetWebAuthnCredential,
      UpdateWebAuthnSignCount = mem_UpdateWebAuthnSignCount\<rparr>"

section \<open>Lemmas\<close>

lemma map_get_update [simp]: "map_get z (m(k := v)) k' = (if k' = k then (case v of None \<Rightarrow> z | Some x \<Rightarrow> x) else map_get z m k')"
  by (simp add: map_get_def)

lemma bytes_same_iff: "length a = length b \<Longrightarrow> bytes_same a b \<longleftrightarrow> a = b"
  by (induction a b rule: list_induct2) auto

lemma bytesEqual_iff [simp]: "bytesEqual a b \<longleftrightarrow> a = b"
  by (auto simp: bytesEqual_def bytes_same_iff)

lemma pair_key_inject:
  assumes "CHR ''|'' \<notin> set b" and "CHR ''|'' \<notin> set b'"
  shows "pair_key a b = pair_key a' b' \<longleftrightarrow> a = a' \<and> b = b'"
  using sep_key_inject [of a "CHR ''|''" b a' b'] assms by (auto simp: pair_key_def)

text \<open>The status entry of an index, and the indices recorded for a client.\<close>

definition mem_entry :: "MemoryStore \<Rightarrow> string \<Rightarrow> int \<Rightarrow> byte option" where
  "mem_entry m cat i = map_of (map_get [] (m_statuses m) cat) i"

definition mem_owned :: "MemoryStore \<Rightarrow> string \<Rightarrow> string \<Rightarrow> int list" where
  "mem_owned m client cat = map_get [] (m_clientIndices m) (pair_key client cat)"

text \<open>The invariant of the status tables: the entries of a category are exactly the indices below its
  counter, each once.\<close>

definition wf_cat :: "int \<Rightarrow> (int \<times> byte) list \<Rightarrow> bool" where
  "wf_cat n es \<longleftrightarrow> distinct (map fst es) \<and> fst ` set es = {0..<n} \<and> 0 \<le> n"

definition wf_mem :: "MemoryStore \<Rightarrow> bool" where
  "wf_mem m \<longleftrightarrow> (\<forall>cat. wf_cat (map_get 0 (m_counters m) cat) (map_get [] (m_statuses m) cat))"

lemma wf_cat_new: "wf_cat n es \<Longrightarrow> wf_cat (n + 1) (AList.update n v es)"
  by (auto simp: wf_cat_def AList.distinct_update dom_update)

lemma wf_cat_set: "wf_cat n es \<Longrightarrow> map_of es i = Some w \<Longrightarrow> wf_cat n (AList.update i v es)"
proof -
  assume w: "wf_cat n es" and e: "map_of es i = Some w"
  have "i \<in> fst ` set es" using map_of_SomeD [OF e] by force
  with w show "wf_cat n (AList.update i v es)"
    by (auto simp: wf_cat_def AList.distinct_update dom_update)
qed

lemma wf_mem_new [simp]: "wf_mem NewMemoryStore"
  by (simp add: wf_mem_def wf_cat_def NewMemoryStore_def map_get_def)

lemma mem_entry_None_iff:
  "wf_mem m \<Longrightarrow> mem_entry m cat i = None \<longleftrightarrow> \<not> (0 \<le> i \<and> i < map_get 0 (m_counters m) cat)"
  unfolding wf_mem_def wf_cat_def mem_entry_def map_of_eq_None_iff by auto

lemma mem_entry_fresh [simp]: "wf_mem m \<Longrightarrow> mem_entry m cat (map_get 0 (m_counters m) cat) = None"
  by (simp add: mem_entry_None_iff)

lemma wf_mem_Allocate: "wf_mem m \<Longrightarrow> wf_mem (snd (mem_AllocateIndex cat m))"
  by (simp add: wf_mem_def mem_AllocateIndex_def Let_def wf_cat_new)

lemma wf_mem_SetStatus:
  assumes "wf_mem m"
  shows "wf_mem (snd (mem_SetStatus cat i v m))"
proof -
  have "wf_cat (map_get 0 (m_counters m) cat) es" if "m_statuses m cat = Some es" for es
    using assms that by (auto simp: wf_mem_def map_get_def dest: spec [of _ cat])
  with assms show ?thesis
    by (auto simp: wf_mem_def mem_SetStatus_def wf_cat_set split: option.splits)
qed

lemma mem_Allocate_eq:
  assumes "mem_AllocateIndex cat m = (r, m')"
  shows "r = Ok (map_get 0 (m_counters m) cat)"
    and "mem_entry m' c j =
       (if c = cat \<and> j = map_get 0 (m_counters m) cat then Some StatusValid else mem_entry m c j)"
    and "mem_owned m' = mem_owned m"
  using assms
  by (auto simp: mem_AllocateIndex_def Let_def mem_entry_def mem_owned_def update_conv' fun_eq_iff)

lemma mem_SetStatus_eq:
  assumes "mem_SetStatus cat i v m = (r, m')"
  shows "r = Ok () \<longleftrightarrow> mem_entry m cat i \<noteq> None"
    and "r \<noteq> Ok () \<Longrightarrow> m' = m"
    and "r = Ok () \<Longrightarrow> mem_entry m' c j = (if c = cat \<and> j = i then Some v else mem_entry m c j)"
    and "mem_owned m' = mem_owned m"
  using assms
  by (auto simp: mem_SetStatus_def mem_entry_def map_get_def mem_owned_def update_conv' fun_eq_iff
      split: option.splits if_splits)

lemma mem_RecordWUA_eq:
  assumes "mem_RecordWUA client cat i m = (r, m')"
    and "CHR ''|'' \<notin> set cat" and "CHR ''|'' \<notin> set k"
  shows "mem_owned m' c k =
       (if c = client \<and> k = cat then mem_owned m client cat @ [i] else mem_owned m c k)"
  using assms
  by (auto simp: mem_RecordWUA_def Let_def mem_owned_def pair_key_inject)

lemma mem_RecordWUA_status:
  assumes "mem_RecordWUA client cat i m = (r, m')"
  shows "mem_entry m' = mem_entry m" and "wf_mem m' = wf_mem m"
  using assms by (auto simp: mem_RecordWUA_def Let_def mem_entry_def wf_mem_def fun_eq_iff)

section \<open>The contract of a status store\<close>

text \<open>
  What the clients of a \<^verbatim>\<open>Store\<close> rely on when an operation succeeds. \<open>entry\<close> is the abstract status
  table, \<open>owned\<close> the indices recorded for a client, in an order that need not be kept; \<open>cats\<close> are the
  categories in use. A store whose
  backend can fail (the MongoDB one) may answer with an error, so the laws speak of successful
  calls; \<open>revocable_status_store\<close> adds that statuses can be set and indices read, \<open>reliable_status_store\<close> that
  new indices can be issued too.
\<close>

locale status_store =
  fixes ops :: "'s store_ops"
    and inv :: "'s \<Rightarrow> bool"
    and entry :: "'s \<Rightarrow> string \<Rightarrow> int \<Rightarrow> byte option"
    and owned :: "'s \<Rightarrow> string \<Rightarrow> string \<Rightarrow> int list"
    and cats :: "string set"
  assumes allocate: "inv s \<Longrightarrow> AllocateIndex ops cat s = (Ok i, s') \<Longrightarrow>
      inv s' \<and> 0 \<le> i \<and> entry s cat i = None \<and> owned s' = owned s
      \<and> entry s' = (entry s)(cat := (entry s cat)(i \<mapsto> StatusValid))"
    and set_status: "inv s \<Longrightarrow> SetStatus ops cat i v s = (Ok (), s') \<Longrightarrow>
      inv s' \<and> entry s cat i \<noteq> None \<and> owned s' = owned s
      \<and> entry s' = (entry s)(cat := (entry s cat)(i \<mapsto> v))"
    and record_wua: "inv s \<Longrightarrow> cat \<in> cats \<Longrightarrow> RecordWUA ops client cat i s = (Ok (), s') \<Longrightarrow>
      inv s' \<and> entry s' = entry s
      \<and> (\<forall>c. \<forall>k \<in> cats. mset (owned s' c k) =
            (if c = client \<and> k = cat then add_mset i (mset (owned s client cat)) else mset (owned s c k)))"
    and client_indices: "inv s \<Longrightarrow> GetClientIndices ops client cat s = Ok is \<Longrightarrow> mset is = mset (owned s client cat)"
    and get_status: "inv s \<Longrightarrow> GetStatus ops cat i s = Ok v \<Longrightarrow> entry s cat i = Some v"
    and all_statuses: "inv s \<Longrightarrow> GetAllStatuses ops cat s = Ok es \<Longrightarrow>
      distinct (map fst es) \<and> map_of es = entry s cat \<and> (\<forall>(i, v) \<in> set es. 0 \<le> i)"

locale revocable_status_store = status_store +
  assumes set_status_total: "inv s \<Longrightarrow> entry s cat i \<noteq> None \<Longrightarrow> fst (SetStatus ops cat i v s) = Ok ()"
    and client_indices_total: "inv s \<Longrightarrow> \<exists>is. GetClientIndices ops client cat s = Ok is"
    and set_status_absent: "inv s \<Longrightarrow> entry s cat i = None \<Longrightarrow>
      \<exists>e s'. SetStatus ops cat i v s = (Err e, s') \<and> inv s' \<and> entry s' = entry s \<and> owned s' = owned s"

locale reliable_status_store = revocable_status_store +
  assumes allocate_total: "inv s \<Longrightarrow> \<exists>i. fst (AllocateIndex ops cat s) = Ok i"
    and record_wua_total: "inv s \<Longrightarrow> fst (RecordWUA ops client cat i s) = Ok ()"

definition att_categories :: "string list" where
  "att_categories = [''ka'', ''wia'']"

lemma memory_all_statuses:
  assumes "wf_mem m" and "mem_GetAllStatuses cat m = Ok es"
  shows "distinct (map fst es) \<and> map_of es = mem_entry m cat \<and> (\<forall>(i, v) \<in> set es. 0 \<le> i)"
proof -
  have es: "es = map_get [] (m_statuses m) cat"
    using assms(2) by (auto simp: mem_GetAllStatuses_def map_get_def split: option.splits)
  have w: "wf_cat (map_get 0 (m_counters m) cat) es"
    using assms(1) by (simp add: wf_mem_def es)
  have "0 \<le> i" if "(i, v) \<in> set es" for i v
    using w that by (force simp: wf_cat_def)
  with w show ?thesis by (auto simp: wf_cat_def mem_entry_def es fun_eq_iff)
qed

interpretation memory: reliable_status_store memory_ops wf_mem mem_entry mem_owned
  "set att_categories"
proof (unfold_locales, goal_cases)
  case (1 s cat i s')
  then show ?case
    using mem_Allocate_eq [of cat s] wf_mem_Allocate [of s cat] mem_entry_fresh [of s cat]
    by (auto simp: memory_ops_def fun_eq_iff wf_mem_def wf_cat_def)
next
  case (2 s cat i v s')
  then show ?case
    using mem_SetStatus_eq [of cat i v s] wf_mem_SetStatus [of s cat i v]
    by (auto simp: memory_ops_def fun_eq_iff)
next
  case (3 s cat client i s')
  then show ?case
    using mem_RecordWUA_eq [of client cat i s "Ok ()" s'] mem_RecordWUA_status [of client cat i s "Ok ()" s']
    by (auto simp: memory_ops_def att_categories_def)
next
  case (4 s client cat "is")
  then show ?case by (simp add: memory_ops_def mem_GetClientIndices_def mem_owned_def)
next
  case (5 s cat i v)
  then show ?case
    by (auto simp: memory_ops_def mem_GetStatus_def mem_entry_def map_get_def split: option.splits)
next
  case (6 s cat es)
  then show ?case using memory_all_statuses by (simp add: memory_ops_def)
next
  case (7 s cat i v)
  then show ?case
    using mem_SetStatus_eq(1) [of cat i v s] by (auto simp: memory_ops_def) (metis fst_conv surj_pair)
next
  case (8 s client cat)
  then show ?case by (simp add: memory_ops_def mem_GetClientIndices_def)
next
  case (9 s cat i v)
  then show ?case
    by (auto simp: memory_ops_def mem_SetStatus_def mem_entry_def map_get_def split: option.splits)
next
  case (10 s cat)
  then show ?case by (simp add: memory_ops_def mem_AllocateIndex_def Let_def)
next
  case (11 s client cat i)
  then show ?case by (simp add: memory_ops_def mem_RecordWUA_def Let_def)
qed

section \<open>Sequences of operations\<close>

text \<open>Every state-changing operation of the store as an event, so that the store can be studied over
  arbitrary interleavings of its callers.\<close>

datatype store_event =
    Ev_Allocate string
  | Ev_SetStatus string int byte
  | Ev_RecordWUA string string int
  | Ev_RecordUsage string int
  | Ev_PutKey PublicKeyInfo
  | Ev_PutRecord string string bytes
  | Ev_PutCred string string WebAuthnCredential
  | Ev_SignCount string string bytes "32 word"

primrec mem_step :: "store_event \<Rightarrow> MemoryStore \<Rightarrow> MemoryStore" where
  "mem_step (Ev_Allocate cat) m = snd (mem_AllocateIndex cat m)"
| "mem_step (Ev_SetStatus cat i v) m = snd (mem_SetStatus cat i v m)"
| "mem_step (Ev_RecordWUA c cat i) m = snd (mem_RecordWUA c cat i m)"
| "mem_step (Ev_RecordUsage cat i) m = snd (mem_RecordUsage cat i m)"
| "mem_step (Ev_PutKey k) m = snd (mem_PutPublicKey k m)"
| "mem_step (Ev_PutRecord c x r) m = snd (mem_PutRecord c x r m)"
| "mem_step (Ev_PutCred c x cr) m = snd (mem_PutWebAuthnCredential c x cr m)"
| "mem_step (Ev_SignCount c x cid n) m = snd (mem_UpdateWebAuthnSignCount c x cid n m)"

lemmas mem_defs = mem_AllocateIndex_def mem_SetStatus_def mem_RecordWUA_def mem_RecordUsage_def
  mem_PutPublicKey_def mem_PutRecord_def mem_PutWebAuthnCredential_def
  mem_UpdateWebAuthnSignCount_def

lemma wf_mem_step: "wf_mem m \<Longrightarrow> wf_mem (mem_step e m)"
  by (cases e) (simp_all add: wf_mem_Allocate wf_mem_SetStatus,
      simp_all add: mem_defs wf_mem_def Let_def split: option.splits)

text \<open>The indices the allocations of one category answer, in order.\<close>

primrec allocated :: "string \<Rightarrow> store_event list \<Rightarrow> MemoryStore \<Rightarrow> (store_error, int) res list" where
  "allocated cat [] m = []"
| "allocated cat (e # es) m =
     (if e = Ev_Allocate cat then [fst (mem_AllocateIndex cat m)] else [])
     @ allocated cat es (mem_step e m)"

lemma counter_step:
  "map_get 0 (m_counters (mem_step e m)) cat =
     map_get 0 (m_counters m) cat + (if e = Ev_Allocate cat then 1 else 0)"
  by (cases e) (auto simp: mem_defs Let_def split: option.splits)

lemma allocated_upto:
  "allocated cat es m =
     map (\<lambda>k. Ok (map_get 0 (m_counters m) cat + int k)) [0..<count_list es (Ev_Allocate cat)]"
proof (induction es arbitrary: m)
  case (Cons e es)
  show ?case
  proof (cases "e = Ev_Allocate cat")
    case True
    have "fst (mem_AllocateIndex cat m) = Ok (map_get 0 (m_counters m) cat)"
      by (simp add: mem_AllocateIndex_def Let_def)
    with True Cons counter_step [of e m cat] show ?thesis
      by (simp add: map_upt_Suc algebra_simps del: upt_Suc mem_step.simps)
  next
    case False
    with Cons counter_step [of e m cat] show ?thesis by simp
  qed
qed simp

text \<open>The records of one key: what a sequence of events leaves there is the last record put there.\<close>

fun record_key :: "store_event \<Rightarrow> string option" where
  "record_key (Ev_PutRecord c x r) = Some (pair_key c x)"
| "record_key _ = None"

fun record_spec :: "store_event \<Rightarrow> bytes option \<Rightarrow> bytes option" where
  "record_spec (Ev_PutRecord c x r) _ = Some r"
| "record_spec _ b = b"

interpretation records: keyed_machine mem_step record_key
  "\<lambda>m k. Option.bind k (m_records m)" record_spec "(=)" "\<lambda>_. True"
proof (unfold_locales, goal_cases)
  case (2 s e k)
  then show ?case
    by (cases e; cases k) (auto simp: mem_defs Let_def split: option.splits)
next
  case (3 s e a)
  then show ?case by (cases e) (auto simp: mem_defs Let_def split: option.splits)
qed simp

lemma record_spec_fold:
  assumes "\<forall>e \<in> set es. record_key e \<noteq> None"
  shows "fold record_spec es b = (if es = [] then b else record_spec (last es) None)"
proof (cases es rule: rev_cases)
  case (snoc ys e)
  with assms show ?thesis by (cases e) auto
qed simp

text \<open>The credentials of one key, as the operations on that key alone make them.\<close>

fun cred_key :: "store_event \<Rightarrow> string option" where
  "cred_key (Ev_PutCred c x cr) = Some (pair_key c x)"
| "cred_key (Ev_SignCount c x cid n) = Some (pair_key c x)"
| "cred_key _ = None"

fun cred_spec :: "store_event \<Rightarrow> WebAuthnCredential list \<Rightarrow> WebAuthnCredential list" where
  "cred_spec (Ev_PutCred c x cr) cs = cs @ [cr]"
| "cred_spec (Ev_SignCount c x cid n) cs =
     (case set_sign_count cid n cs of None \<Rightarrow> cs | Some cs' \<Rightarrow> cs')"
| "cred_spec _ cs = cs"

interpretation creds: keyed_machine mem_step cred_key
  "\<lambda>m k. case k of None \<Rightarrow> [] | Some k \<Rightarrow> map_get [] (m_webauthn m) k" cred_spec "(=)" "\<lambda>_. True"
proof (unfold_locales, goal_cases)
  case (2 s e k)
  then show ?case
    by (cases e; cases k) (auto simp: mem_defs Let_def split: option.splits)
next
  case (3 s e a)
  then show ?case by (cases e) (auto simp: mem_defs Let_def split: option.splits)
qed simp

lemma set_sign_count_ids:
  "set_sign_count cid n cs = Some cs' \<Longrightarrow> map wc_CredentialID cs' = map wc_CredentialID cs
     \<and> map wc_PublicKey cs' = map wc_PublicKey cs"
  by (induction cs arbitrary: cs') (auto split: if_splits)

text \<open>A collision of the joined keys: a context that contains the separator reads another client's
  record.\<close>

lemma record_key_collision:
  "mem_GetRecord ''a'' ''b|c'' (snd (mem_PutRecord ''a|b'' ''c'' r NewMemoryStore)) = Ok r"
  by (simp add: mem_GetRecord_def mem_PutRecord_def pair_key_def)

section \<open>Properties\<close>

text \<open>C33: Whatever the interleaving of store operations, the allocations of a category answer
  0, 1, 2, ... without gaps and without repeating an index, and at the end the status list holds
  an entry for exactly the indices handed out, each once.\<close>

theorem allocation_dense_and_fresh:
  "allocated cat es NewMemoryStore = map (\<lambda>k. Ok (int k)) [0..<count_list es (Ev_Allocate cat)]
   \<and> (case mem_GetAllStatuses cat (fold mem_step es NewMemoryStore) of
        Ok entries \<Rightarrow> distinct (map fst entries)
          \<and> fst ` set entries = {0..<int (count_list es (Ev_Allocate cat))}
      | _ \<Rightarrow> False)"
proof -
  have cnt: "map_get 0 (m_counters (fold mem_step es m)) cat =
      map_get 0 (m_counters m) cat + int (count_list es (Ev_Allocate cat))" for m
    by (induction es arbitrary: m) (auto simp: counter_step simp del: mem_step.simps)
  have 0: "map_get 0 (m_counters NewMemoryStore) cat = 0"
    by (simp add: NewMemoryStore_def map_get_def)
  have wf: "wf_mem (fold mem_step es m)" if "wf_mem m" for m
    using that by (induction es arbitrary: m) (auto simp: wf_mem_step simp del: mem_step.simps)
  have "wf_cat (int (count_list es (Ev_Allocate cat)))
      (map_get [] (m_statuses (fold mem_step es NewMemoryStore)) cat)"
    using wf [OF wf_mem_new] cnt [of NewMemoryStore] 0 by (simp add: wf_mem_def) metis
  moreover have "mem_GetAllStatuses cat m = Ok (map_get [] (m_statuses m) cat)" for m
    by (simp add: mem_GetAllStatuses_def map_get_def split: option.splits)
  ultimately show ?thesis by (simp add: allocated_upto 0 wf_cat_def)
qed

text \<open>The OPAQUE record store: after any interleaving of store operations by any callers, a
  record is found exactly when one was put for that client and context, and it is the last one put;
  operations on other clients, other contexts and other parts of the store do not disturb it.
  Contexts are assumed not to contain the separator of the store's keys.\<close>

lemma record_last_put_wins:
  assumes "CHR ''|'' \<notin> set ctx"
    and "\<forall>c x r. Ev_PutRecord c x r \<in> set es \<longrightarrow> CHR ''|'' \<notin> set x"
  shows "mem_GetRecord client ctx (fold mem_step es NewMemoryStore) =
     (case [r. Ev_PutRecord c x r \<leftarrow> es, c = client \<and> x = ctx] of
        [] \<Rightarrow> Err (No_record client ctx)
      | r # rs \<Rightarrow> Ok (last (r # rs)))"
proof -
  define own where "own = filter (\<lambda>e. record_key e = Some (pair_key client ctx)) es"
  define rs where "rs = [r. Ev_PutRecord c x r \<leftarrow> es, c = client \<and> x = ctx]"
  have own_rs: "own = map (Ev_PutRecord client ctx) rs"
    using assms(2) unfolding own_def rs_def
  proof (induction es)
    case (Cons e es)
    then show ?case using assms(1) by (cases e) (auto simp: pair_key_inject)
  qed simp
  have "m_records (fold mem_step es NewMemoryStore) (pair_key client ctx) = fold record_spec own None"
    using records.fold_simulates [of "Some (pair_key client ctx)" NewMemoryStore None es]
    by (simp add: own_def NewMemoryStore_def)
  also have "\<dots> = (if rs = [] then None else Some (last rs))"
    using record_spec_fold [of own None] by (auto simp: own_rs last_map)
  finally show ?thesis
    by (cases rs) (auto simp: mem_GetRecord_def rs_def [symmetric])
qed

text \<open>C34: The WebAuthn credential store: after any interleaving, the credentials found for a client
  and context are those the puts and counter updates of that key alone produce, in the order they
  were put; the identifiers and public keys of credentials never change.\<close>

theorem credentials_by_key:
  "mem_GetWebAuthnCredential client ctx (fold mem_step es m) =
     (let cs = fold cred_spec (filter (\<lambda>e. cred_key e = Some (pair_key client ctx)) es)
                 (map_get [] (m_webauthn m) (pair_key client ctx))
      in if cs = [] then Err (No_webauthn_credentials client ctx) else Ok cs)
   \<and> map (\<lambda>c. (wc_CredentialID c, wc_PublicKey c))
       (map_get [] (m_webauthn (fold mem_step es m)) (pair_key client ctx)) =
     map (\<lambda>c. (wc_CredentialID c, wc_PublicKey c)) (map_get [] (m_webauthn m) (pair_key client ctx))
       @ [(wc_CredentialID cr, wc_PublicKey cr).
          Ev_PutCred c x cr \<leftarrow> filter (\<lambda>e. cred_key e = Some (pair_key client ctx)) es]"
proof -
  have a: "map_get [] (m_webauthn (fold mem_step es m)) (pair_key client ctx) =
     fold cred_spec (filter (\<lambda>e. cred_key e = Some (pair_key client ctx)) es)
       (map_get [] (m_webauthn m) (pair_key client ctx))"
    using creds.fold_simulates [of m "Some (pair_key client ctx)" _ es] by simp
  have "map (\<lambda>c. (wc_CredentialID c, wc_PublicKey c)) (fold cred_spec xs cs) =
     map (\<lambda>c. (wc_CredentialID c, wc_PublicKey c)) cs
       @ [(wc_CredentialID cr, wc_PublicKey cr). Ev_PutCred c x cr \<leftarrow> xs]" for xs cs
  proof (induction xs arbitrary: cs)
    case (Cons e xs)
    have "map (\<lambda>c. (wc_CredentialID c, wc_PublicKey c)) cs' =
      map (\<lambda>c. (wc_CredentialID c, wc_PublicKey c)) cs" if "set_sign_count i n cs = Some cs'" for i n cs'
      using that by (induction cs arbitrary: cs') (auto split: if_splits)
    with Cons show ?case by (cases e) (auto split: option.splits)
  qed simp
  with a show ?thesis by (simp add: mem_GetWebAuthnCredential_def)
qed

end
