(* ===== verification/Go_Encoding.thy ===== *)
theory Go_Encoding
  imports Go_Prelude
begin

text \<open>
  The parts of \<^verbatim>\<open>encoding/base64\<close> and \<^verbatim>\<open>encoding/hex\<close> the program calls: the padded and the raw
  base64url alphabets and hexadecimal strings. Decoding follows the Go decoder: carriage returns and
  line feeds are skipped anywhere, the last group must carry its padding (padded alphabet) or must
  not (raw alphabet), and the unused low bits of the last character are ignored. The wrappers of
  \<^verbatim>\<open>internal/service/encoding.go\<close> and \<^verbatim>\<open>internal/webauthn/types.go\<close> are modelled here too.
\<close>

section \<open>Base64url\<close>

definition b64_char :: "nat \<Rightarrow> char" where
  "b64_char n =
     char_of (if n < 26 then n + 65 else if n < 52 then n + 71 else if n < 62 then n - 4
              else if n = 62 then 45 else 95)"

definition b64_val :: "char \<Rightarrow> nat option" where
  "b64_val c =
     (let n = of_char c in
      if 65 \<le> n \<and> n \<le> 90 then Some (n - 65)
      else if 97 \<le> n \<and> n \<le> 122 then Some (n - 71)
      else if 48 \<le> n \<and> n \<le> 57 then Some (n + 4)
      else if n = 45 then Some 62
      else if n = 95 then Some 63 else None)"

definition b64_group :: "nat \<Rightarrow> string" where
  "b64_group n =
     [b64_char (n div 262144), b64_char (n div 4096 mod 64), b64_char (n div 64 mod 64),
      b64_char (n mod 64)]"

fun b64_encode :: "bool \<Rightarrow> bytes \<Rightarrow> string" where
  "b64_encode pad [] = []"
| "b64_encode pad [a] = take 2 (b64_group (65536 * unat a)) @ (if pad then ''=='' else [])"
| "b64_encode pad [a, b] =
     take 3 (b64_group (65536 * unat a + 256 * unat b)) @ (if pad then ''='' else [])"
| "b64_encode pad (a # b # c # bs) =
     b64_group (65536 * unat a + 256 * unat b + unat c) @ b64_encode pad bs"

definition b64_bytes :: "nat \<Rightarrow> bytes" where
  "b64_bytes n = [of_nat (n div 65536), of_nat (n div 256 mod 256), of_nat (n mod 256)]"

text \<open>The value of two, three or four characters of one group, and the bytes it stands for.\<close>

definition b64_quantum :: "char \<Rightarrow> char \<Rightarrow> char option \<Rightarrow> char option \<Rightarrow> bytes option" where
  "b64_quantum c1 c2 c3 c4 =
     (case (b64_val c1, b64_val c2) of
        (Some x1, Some x2) \<Rightarrow>
          (case c3 of
             None \<Rightarrow> Some (take 1 (b64_bytes (262144 * x1 + 4096 * x2)))
           | Some d3 \<Rightarrow>
               (case b64_val d3 of
                  None \<Rightarrow> None
                | Some x3 \<Rightarrow>
                    (case c4 of
                       None \<Rightarrow> Some (take 2 (b64_bytes (262144 * x1 + 4096 * x2 + 64 * x3)))
                     | Some d4 \<Rightarrow>
                         map_option
                           (\<lambda>x4. b64_bytes (262144 * x1 + 4096 * x2 + 64 * x3 + x4))
                           (b64_val d4))))
      | _ \<Rightarrow> None)"

fun b64_decode_groups :: "bool \<Rightarrow> string \<Rightarrow> bytes option" where
  "b64_decode_groups pad [] = Some []"
| "b64_decode_groups pad [c1] = None"
| "b64_decode_groups pad [c1, c2] = (if pad then None else b64_quantum c1 c2 None None)"
| "b64_decode_groups pad [c1, c2, c3] = (if pad then None else b64_quantum c1 c2 (Some c3) None)"
| "b64_decode_groups pad (c1 # c2 # c3 # c4 # cs) =
     (if pad \<and> c4 = CHR ''='' then
        (if cs \<noteq> [] then None
         else if c3 = CHR ''='' then b64_quantum c1 c2 None None
         else b64_quantum c1 c2 (Some c3) None)
      else (case b64_quantum c1 c2 (Some c3) (Some c4) of
              None \<Rightarrow> None
            | Some bs \<Rightarrow> map_option (\<lambda>r. bs @ r) (b64_decode_groups pad cs)))"

definition b64_decode :: "bool \<Rightarrow> string \<Rightarrow> bytes option" where
  "b64_decode pad s =
     b64_decode_groups pad (filter (\<lambda>c. c \<noteq> CHR 0x0A \<and> c \<noteq> CHR 0x0D) s)"

text \<open>\<^verbatim>\<open>base64.URLEncoding\<close> (padded) and \<^verbatim>\<open>base64.RawURLEncoding\<close>.\<close>

abbreviation URLEncoding_Encode :: "bytes \<Rightarrow> string" where
  "URLEncoding_Encode \<equiv> b64_encode True"
abbreviation URLEncoding_Decode :: "string \<Rightarrow> bytes option" where
  "URLEncoding_Decode \<equiv> b64_decode True"
abbreviation RawURLEncoding_Encode :: "bytes \<Rightarrow> string" where
  "RawURLEncoding_Encode \<equiv> b64_encode False"
abbreviation RawURLEncoding_Decode :: "string \<Rightarrow> bytes option" where
  "RawURLEncoding_Decode \<equiv> b64_decode False"

section \<open>The program's wrappers\<close>

definition decodeBase64 :: "string \<Rightarrow> bytes option" where
  "decodeBase64 s = URLEncoding_Decode s"

definition encodeBase64 :: "bytes \<Rightarrow> string" where
  "encodeBase64 b = URLEncoding_Encode b"

definition EncodeBase64URL :: "bytes \<Rightarrow> string" where
  "EncodeBase64URL data = RawURLEncoding_Encode data"

definition DecodeBase64URL :: "string \<Rightarrow> bytes option" where
  "DecodeBase64URL s =
     (case RawURLEncoding_Decode s of
        None \<Rightarrow> URLEncoding_Decode s
      | Some b \<Rightarrow> Some b)"

section \<open>Hexadecimal\<close>

definition hex_char :: "nat \<Rightarrow> char" where
  "hex_char n = char_of (if n < 10 then n + 48 else n + 87)"

definition hex_val :: "char \<Rightarrow> nat option" where
  "hex_val c =
     (let n = of_char c in
      if 48 \<le> n \<and> n \<le> 57 then Some (n - 48)
      else if 97 \<le> n \<and> n \<le> 102 then Some (n - 87)
      else if 65 \<le> n \<and> n \<le> 70 then Some (n - 55) else None)"

fun hex_encode :: "bytes \<Rightarrow> string" where
  "hex_encode [] = []"
| "hex_encode (b # bs) = hex_char (unat b div 16) # hex_char (unat b mod 16) # hex_encode bs"

fun hex_decode :: "string \<Rightarrow> bytes option" where
  "hex_decode [] = Some []"
| "hex_decode [c] = None"
| "hex_decode (c # d # cs) =
     (case (hex_val c, hex_val d) of
        (Some x, Some y) \<Rightarrow> map_option (\<lambda>r. of_nat (16 * x + y) # r) (hex_decode cs)
      | _ \<Rightarrow> None)"

section \<open>Lemmas\<close>

lemma b64_val_char [simp]:
  assumes "n < 64"
  shows "b64_val (b64_char n) = Some n"
proof -
  have val: "b64_val (char_of k) =
     (if 65 \<le> k \<and> k \<le> 90 then Some (k - 65) else if 97 \<le> k \<and> k \<le> 122 then Some (k - 71)
      else if 48 \<le> k \<and> k \<le> 57 then Some (k + 4) else if k = 45 then Some 62
      else if k = 95 then Some 63 else None)" if "k < 256" for k :: nat
    using that by (simp add: b64_val_def)
  from assms consider "n < 26" | "26 \<le> n \<and> n < 52" | "52 \<le> n \<and> n < 62" | "n = 62" | "n = 63"
    by linarith
  then show ?thesis
  proof cases
    case 3
    then obtain m where m: "n = 4 + m" using le_Suc_ex [of 4 n] by auto
    with 3 have "48 \<le> m" "m \<le> 57" by simp_all
    with m show ?thesis by (simp add: b64_char_def val)
  qed (simp_all add: b64_char_def val)
qed

lemma b64_char_special [simp]:
  "n < 64 \<Longrightarrow> b64_char n \<noteq> CHR ''=''" "n < 64 \<Longrightarrow> b64_char n \<noteq> CHR 0x0A"
  "n < 64 \<Longrightarrow> b64_char n \<noteq> CHR 0x0D"
  using b64_val_char [of n] by (auto simp: b64_val_def Let_def simp del: b64_val_char)

lemma b64_split:
  "262144 * (n div 262144) + 4096 * (n div 4096 mod 64) + 64 * (n div 64 mod 64) + n mod 64 = (n::nat)"
proof -
  have "n div 64 div 64 = n div 4096" "n div 4096 div 64 = n div 262144"
    by (simp_all flip: div_mult2_eq)
  moreover have "64 * (n div 64) + n mod 64 = n"
    "64 * (n div 64 div 64) + n div 64 mod 64 = n div 64"
    "64 * (n div 4096 div 64) + n div 4096 mod 64 = n div 4096"
    by (rule mult_div_mod_eq)+
  ultimately show ?thesis by linarith
qed

lemma b64_bytes_3:
  "b64_bytes (65536 * unat (a :: byte) + 256 * unat (b :: byte) + unat (c :: byte)) = [a, b, c]"
proof -
  define n where "n = 65536 * unat a + 256 * unat b + unat c"
  have low: "(x + 256 * m) mod 256 = x" "(x + 256 * m) div 256 = m" if "x < 256" for x m :: nat
    using that by simp_all
  have n: "n = unat c + 256 * (unat b + 256 * unat a)" by (simp add: n_def)
  have 1: "n mod 256 = unat c" "n div 256 = unat b + 256 * unat a"
    unfolding n by (rule low [OF unat_byte_less])+
  have "n div 65536 = n div 256 div 256" by (simp flip: div_mult2_eq)
  with 1 show ?thesis
    by (simp add: b64_bytes_def unat_byte_less byte_mod_256 flip: n_def)
qed

lemma b64_triple_less:
  "65536 * unat (a :: byte) + 256 * unat (b :: byte) + unat (c :: byte) < 16777216"
  using unat_byte_less [of a] unat_byte_less [of b] unat_byte_less [of c] by linarith

lemma b64_quantum_group:
  assumes "n = 65536 * unat (a :: byte) + 256 * unat (b :: byte) + unat (c :: byte)"
  shows "b64_quantum (b64_char (n div 262144)) (b64_char (n div 4096 mod 64))
           (Some (b64_char (n div 64 mod 64))) (Some (b64_char (n mod 64))) = Some [a, b, c]"
proof -
  have "n < 262144 * 64" using b64_triple_less assms by simp
  then have "n div 262144 < 64" by (simp add: div_less_iff_less_mult)
  then have "b64_quantum (b64_char (n div 262144)) (b64_char (n div 4096 mod 64))
           (Some (b64_char (n div 64 mod 64))) (Some (b64_char (n mod 64))) = Some (b64_bytes n)"
    by (simp add: b64_quantum_def b64_split)
  then show ?thesis by (simp only: assms b64_bytes_3)
qed

lemma b64_quantum_two:
  assumes "n = 65536 * unat (a :: byte) + 256 * unat (b :: byte)"
  shows "b64_quantum (b64_char (n div 262144)) (b64_char (n div 4096 mod 64))
           (Some (b64_char (n div 64 mod 64))) None = Some [a, b]"
proof -
  have n: "n = 65536 * unat a + 256 * unat b + unat (0 :: byte)" by (simp add: assms)
  have "n < 262144 * 64" using b64_triple_less [of a b 0] assms by simp
  then have "n div 262144 < 64" by (simp add: div_less_iff_less_mult)
  moreover have "n = 64 * (1024 * unat a + 4 * unat b)" by (simp add: assms)
  then have "n mod 64 = 0" by simp
  then have "262144 * (n div 262144) + 4096 * (n div 4096 mod 64) + 64 * (n div 64 mod 64) = n"
    using b64_split [of n] by linarith
  ultimately have "b64_quantum (b64_char (n div 262144)) (b64_char (n div 4096 mod 64))
           (Some (b64_char (n div 64 mod 64))) None = Some (take 2 (b64_bytes n))"
    by (simp add: b64_quantum_def)
  then show ?thesis by (simp only: n b64_bytes_3) simp
qed

lemma b64_quantum_one:
  assumes "n = 65536 * unat (a :: byte)"
  shows "b64_quantum (b64_char (n div 262144)) (b64_char (n div 4096 mod 64)) None None = Some [a]"
proof -
  have n: "n = 65536 * unat a + 256 * unat (0 :: byte) + unat (0 :: byte)" by (simp add: assms)
  have "n < 262144 * 64" using b64_triple_less [of a 0 0] assms by simp
  then have "n div 262144 < 64" by (simp add: div_less_iff_less_mult)
  moreover have "n = 64 * (64 * (16 * unat a))" by (simp add: assms)
  then have "n mod 64 = 0" "n div 64 mod 64 = 0" by simp_all
  then have "262144 * (n div 262144) + 4096 * (n div 4096 mod 64) = n"
    using b64_split [of n] by linarith
  ultimately have "b64_quantum (b64_char (n div 262144)) (b64_char (n div 4096 mod 64)) None None
           = Some (take 1 (b64_bytes n))"
    by (simp add: b64_quantum_def)
  then show ?thesis by (simp only: n b64_bytes_3) simp
qed

lemma b64_decode_groups_encode:
  "b64_decode_groups pad (b64_encode pad bs) = Some bs"
proof (induction pad bs rule: b64_encode.induct)
  case (2 pad a)
  then show ?case using b64_quantum_one [OF refl, of a] by (simp add: b64_group_def)
next
  case (3 pad a b)
  have "65536 * unat a + 256 * unat b < 16777216" using b64_triple_less [of a b 0] by simp
  then show ?case using b64_quantum_two [OF refl, of a b] by (auto simp: b64_group_def)
next
  case (4 pad a b c bs)
  then show ?case
    using b64_quantum_group [OF refl, of a b c] by (simp add: b64_group_def)
qed simp

lemma b64_group_chars:
  "n < 16777216 \<Longrightarrow> c \<in> set (b64_group n) \<Longrightarrow> c \<noteq> CHR 0x0A \<and> c \<noteq> CHR 0x0D \<and> c \<noteq> CHR ''=''"
  by (auto simp: b64_group_def)

lemma b64_encode_no_newline:
  "c \<in> set (b64_encode pad bs) \<Longrightarrow> c \<noteq> CHR 0x0A \<and> c \<noteq> CHR 0x0D"
proof (induction pad bs rule: b64_encode.induct)
  case (2 pad a)
  then show ?case using b64_triple_less [of a 0 0]
    by (auto split: if_splits dest: b64_group_chars [rotated, OF in_set_takeD])
next
  case (3 pad a b)
  then show ?case using b64_triple_less [of a b 0]
    by (auto split: if_splits dest: b64_group_chars [rotated, OF in_set_takeD])
next
  case (4 pad a b c bs)
  then show ?case using b64_triple_less [of a b c] by (auto dest: b64_group_chars [rotated])
qed simp

lemma b64_decode_encode [simp]: "b64_decode pad (b64_encode pad bs) = Some bs"
proof -
  have "filter (\<lambda>c. c \<noteq> CHR 0x0A \<and> c \<noteq> CHR 0x0D) (b64_encode pad bs) = b64_encode pad bs"
    by (simp add: filter_id_conv b64_encode_no_newline)
  then show ?thesis by (simp add: b64_decode_def b64_decode_groups_encode)
qed

lemma b64_encode_inject [simp]: "b64_encode pad a = b64_encode pad b \<longleftrightarrow> a = b"
  by (metis b64_decode_encode option.inject)

lemma length_b64_encode_pad: "length (b64_encode True bs) = 4 * ((length bs + 2) div 3)"
proof (induction True bs rule: b64_encode.induct)
  case (4 a b c bs)
  have "length (a # b # c # bs) + 2 = (length bs + 2) + 3" by simp
  then have "(length (a # b # c # bs) + 2) div 3 = Suc ((length bs + 2) div 3)"
    by (simp add: div_add_self2 del: length_Cons)
  with 4 show ?case by (simp add: b64_group_def)
qed (simp_all add: b64_group_def)

lemma length_b64_encode_raw: "length (b64_encode False bs) = (4 * length bs + 2) div 3"
  by (induction False bs rule: b64_encode.induct) (simp_all add: b64_group_def)

lemma hex_val_char [simp]: "n < 16 \<Longrightarrow> hex_val (hex_char n) = Some n"
  by (auto simp: hex_val_def hex_char_def Let_def)

lemma hex_decode_encode [simp]: "hex_decode (hex_encode bs) = Some bs"
proof (induction bs)
  case (Cons b bs)
  have "unat b div 16 < 16" using unat_byte_less [of b] by auto
  with Cons show ?case by simp
qed simp

lemma hex_decode_length: "hex_decode s = Some bs \<Longrightarrow> length s = 2 * length bs"
  by (induction s arbitrary: bs rule: hex_decode.induct) (auto split: option.splits)

end
