(* ===== verification/Service_SAD.thy ===== *)
theory Service_SAD
  imports Go_Encoding
begin

text \<open>
  \<^verbatim>\<open>internal/service/sad.go\<close>: the binding of a session to the hashes it may sign. \<open>sha256\<close> is a
  parameter throughout. \<open>ParseSADTask\<close> returns \<^verbatim>\<open>nil\<close> (\<open>None\<close>) or a non-empty list.
\<close>

section \<open>The code\<close>

definition sadTaskPrefix :: string where "sadTaskPrefix = ''sign:''"

text \<open>The loop over the comma-separated parts.\<close>

fun sad_hashes :: "string list \<Rightarrow> bytes list" where
  "sad_hashes [] = []"
| "sad_hashes (p # ps) =
     (let p = TrimSpace p in
      if p = [] then sad_hashes ps
      else
        (case hex_decode p of
           None \<Rightarrow> sad_hashes ps
         | Some h \<Rightarrow>
             if length h = 32 \<or> length h = 48 \<or> length h = 64 then h # sad_hashes ps
             else sad_hashes ps))"

definition ParseSADTask :: "string \<Rightarrow> bytes list option" where
  "ParseSADTask task =
     (if \<not> HasPrefix task sadTaskPrefix then None
      else
        (let hashList = TrimPrefix task sadTaskPrefix in
         if hashList = [] then None
         else
           (let hashes = sad_hashes (split_on CHR '','' hashList) in
            if hashes = [] then None else Some hashes)))"

text \<open>The constant-time comparison accumulates the differences of all bytes.\<close>

fun diff_bits :: "byte \<Rightarrow> bytes \<Rightarrow> bytes \<Rightarrow> byte" where
  "diff_bits acc (x # xs) (y # ys) = diff_bits (acc OR (x XOR y)) xs ys"
| "diff_bits acc _ _ = acc"

definition bytesEqualConstant :: "bytes \<Rightarrow> bytes \<Rightarrow> bool" where
  "bytesEqualConstant a b = (if length a \<noteq> length b then False else diff_bits 0 a b = 0)"

datatype sad_error = SAD_violation

definition ValidateSAD :: "(bytes \<Rightarrow> bytes) \<Rightarrow> string \<Rightarrow> bytes \<Rightarrow> (sad_error, unit) res" where
  "ValidateSAD sha256 sessionTask tbsHash =
     (case ParseSADTask sessionTask of
        None \<Rightarrow> Ok ()
      | Some authorizedHashes \<Rightarrow>
          if list_ex (\<lambda>auth. bytesEqualConstant auth tbsHash) authorizedHashes then Ok ()
          else
            (let commitment = sha256 tbsHash in
             if list_ex (\<lambda>auth. length auth = 32 \<and> bytesEqualConstant auth commitment) authorizedHashes
             then Ok () else Err SAD_violation))"

section \<open>Lemmas\<close>

lemma diff_bits_zero:
  "length a = length b \<Longrightarrow> diff_bits acc a b = 0 \<longleftrightarrow> acc = 0 \<and> a = b"
proof (induction acc a b rule: diff_bits.induct)
  case (1 acc x xs y ys)
  have "acc OR (x XOR y) = 0 \<longleftrightarrow> acc = 0 \<and> x = y"
    by (auto simp: bit_eq_iff bit_xor_iff bit_or_iff)
  with 1 show ?case by auto
qed auto

lemma bytesEqualConstant_iff [simp]: "bytesEqualConstant a b \<longleftrightarrow> a = b"
  by (auto simp: bytesEqualConstant_def diff_bits_zero)

lemma ValidateSAD_iff:
  "ValidateSAD sha256 task h = Ok () \<longleftrightarrow>
   (case ParseSADTask task of
      None \<Rightarrow> True
    | Some hs \<Rightarrow> h \<in> set hs \<or> (sha256 h \<in> set hs \<and> length (sha256 h) = 32))"
  by (auto simp: ValidateSAD_def list_ex_iff Let_def split: option.splits)

lemma strip_front_id:
  assumes "\<forall>w \<in> set ws. w \<noteq> [] \<longrightarrow> \<not> HasPrefix s w"
  shows "strip_front ws s = s"
proof -
  have "find (\<lambda>w. w \<noteq> [] \<and> HasPrefix s w) ws = None"
    using assms by (auto simp: find_None_iff)
  then show ?thesis by simp
qed

lemma strip_front_printable:
  assumes "\<forall>w \<in> set ws. w \<noteq> [] \<and> hd w \<notin> C" and "s = [] \<or> hd s \<in> C"
  shows "strip_front ws s = s"
proof (rule strip_front_id, intro ballI impI notI)
  fix w
  assume w: "w \<in> set ws" "w \<noteq> []" "HasPrefix s w"
  then have "s \<noteq> []" and "hd s = hd w" by (auto simp: HasPrefix_iff)
  with assms w show False by auto
qed

definition hex_chars :: "char set" where
  "hex_chars = {c. (48 \<le> (of_char c :: nat) \<and> of_char c \<le> (57 :: nat))
     \<or> (97 \<le> (of_char c :: nat) \<and> of_char c \<le> (102 :: nat))}"

lemma hex_char_in: "n < 16 \<Longrightarrow> hex_char n \<in> hex_chars"
  by (auto simp: hex_char_def hex_chars_def)

lemma hex_encode_chars: "c \<in> set (hex_encode bs) \<Longrightarrow> c \<in> hex_chars"
proof (induction bs)
  case (Cons b bs)
  have "unat b div 16 < 16" using unat_byte_less [of b] by auto
  with Cons show ?case by (auto intro: hex_char_in)
qed simp

lemma TrimSpace_hex: "set s \<subseteq> hex_chars \<Longrightarrow> TrimSpace s = s"
proof -
  assume s: "set s \<subseteq> hex_chars"
  have f: "\<forall>w \<in> set go_spaces. w \<noteq> [] \<and> hd w \<notin> hex_chars"
    by (simp add: go_spaces_def hex_chars_def)
  have b: "\<forall>w \<in> set (map rev go_spaces). w \<noteq> [] \<and> hd w \<notin> hex_chars"
    by (simp add: go_spaces_def hex_chars_def)
  have "hd s \<in> hex_chars" if "s \<noteq> []" using that s by (cases s) auto
  then have "strip_front go_spaces s = s" using strip_front_printable [OF f] by blast
  moreover have "hd (rev s) \<in> hex_chars" if "s \<noteq> []" using that s by (cases s rule: rev_cases) auto
  then have "strip_front (map rev go_spaces) (rev s) = rev s"
    using strip_front_printable [OF b, of "rev s"] by auto
  ultimately show ?thesis by (simp add: TrimSpace_def)
qed

text \<open>The task a client builds for a list of hashes, and what the server reads from it.\<close>

fun comma_join :: "string list \<Rightarrow> string" where
  "comma_join [] = []"
| "comma_join [x] = x"
| "comma_join (x # y # xs) = x @ '','' @ comma_join (y # xs)"

definition sign_task :: "bytes list \<Rightarrow> string" where
  "sign_task hs = sadTaskPrefix @ comma_join (map hex_encode hs)"

lemma split_comma_join:
  assumes "xs \<noteq> []" and "\<forall>x \<in> set xs. CHR '','' \<notin> set x"
  shows "split_on CHR '','' (comma_join xs) = xs"
  using assms by (induction xs rule: comma_join.induct) (auto simp: split_on_no_sep split_on_append)

lemma hex_encode_no_comma: "CHR '','' \<notin> set (hex_encode h)"
proof
  assume "CHR '','' \<in> set (hex_encode h)"
  from hex_encode_chars [OF this] show False by (simp add: hex_chars_def)
qed

lemma hex_encode_ne: "h \<noteq> [] \<Longrightarrow> hex_encode h \<noteq> []"
  by (cases h) auto

lemma sad_hashes_encode:
  assumes "\<forall>h \<in> set hs. length h \<in> {32, 48, 64}"
  shows "sad_hashes (map hex_encode hs) = hs"
  using assms
proof (induction hs)
  case (Cons h hs)
  have "TrimSpace (hex_encode h) = hex_encode h"
    by (rule TrimSpace_hex) (auto dest: hex_encode_chars)
  moreover have "hex_encode h \<noteq> []" using Cons.prems by (intro hex_encode_ne) auto
  ultimately show ?case using Cons by auto
qed simp

lemma ParseSADTask_sign_task:
  assumes "hs \<noteq> []" and "\<forall>h \<in> set hs. length h \<in> {32, 48, 64}"
  shows "ParseSADTask (sign_task hs) = Some hs"
proof -
  have ne: "comma_join (map hex_encode hs) \<noteq> []"
  proof (cases hs)
    case (Cons h t)
    then have "hex_encode h \<noteq> []" using assms by (intro hex_encode_ne) auto
    with Cons show ?thesis by (cases t) auto
  qed (use assms in simp)
  have "split_on CHR '','' (comma_join (map hex_encode hs)) = map hex_encode hs"
    by (rule split_comma_join) (use assms(1) hex_encode_no_comma in auto)
  with ne assms sad_hashes_encode [OF assms(2)] show ?thesis
    by (simp add: ParseSADTask_def sign_task_def Let_def)
qed

text \<open>A task whose hashes are all malformed binds nothing.\<close>

lemma malformed_task_binds_nothing:
  "ValidateSAD sha256 ''sign:abc,zz'' h = Ok ()"
proof -
  have "sad_hashes [''abc'', ''zz''] = []"
  proof -
    have t: "TrimSpace ''abc'' = ''abc''" by (rule TrimSpace_hex) (simp add: hex_chars_def)
    have z: "strip_front ws ''zz'' = ''zz''" if "\<forall>w \<in> set ws. w \<noteq> [] \<and> hd w \<noteq> CHR ''z''" for ws
      using that by (intro strip_front_printable [where C = "{CHR ''z''}"]) auto
    have "TrimSpace ''zz'' = ''zz''"
    proof -
      have "strip_front go_spaces ''zz'' = ''zz''" "strip_front (map rev go_spaces) ''zz'' = ''zz''"
        by (rule z, simp add: go_spaces_def)+
      then show ?thesis by (simp add: TrimSpace_def)
    qed
    with t show ?thesis by (simp add: hex_val_def)
  qed
  then show ?thesis
    by (simp add: ValidateSAD_iff ParseSADTask_def sadTaskPrefix_def HasPrefix_def TrimPrefix_def)
qed

section \<open>Properties\<close>

text \<open>C28: The task a client builds for a non-empty list of SHA-256, SHA-384 or SHA-512 hashes is read
  back exactly, and such a session authorises a hash if and only if it is one of them, or its
  SHA-256 digest is.\<close>

theorem sad_binding_exact:
  assumes "hs \<noteq> []" and "\<forall>h \<in> set hs. length h \<in> {32, 48, 64}" and "\<forall>x. length (sha256 x) = 32"
  shows "ParseSADTask (sign_task hs) = Some hs
     \<and> (ValidateSAD sha256 (sign_task hs) h = Ok () \<longleftrightarrow> h \<in> set hs \<or> sha256 h \<in> set hs)
     \<and> (ValidateSAD sha256 (sign_task hs) h \<noteq> Ok () \<longrightarrow>
          ValidateSAD sha256 (sign_task hs) h = Err SAD_violation)"
  using ParseSADTask_sign_task [OF assms(1,2)] assms(3)
  by (auto simp: ValidateSAD_iff) (auto simp: ValidateSAD_def Let_def list_ex_iff)

theorem sad_binding_exact_witness:
  "ValidateSAD (\<lambda>x. replicate 32 0) (sign_task [replicate 32 7, replicate 48 9]) (replicate 48 9) = Ok ()
   \<and> ValidateSAD (\<lambda>x. replicate 32 0) (sign_task [replicate 32 7, replicate 48 9]) (replicate 32 8) = Err SAD_violation"
proof -
  have ne: "replicate 32 (8 :: byte) \<noteq> replicate 32 7" "replicate 32 (0 :: byte) \<noteq> replicate 32 7"
    by (simp_all add: replicate_eq_replicate)
  have len: "replicate 32 a \<noteq> replicate 48 b" for a b :: byte by (auto simp: replicate_eq_replicate)
  show ?thesis
    using sad_binding_exact [of "[replicate 32 7, replicate 48 9]" "\<lambda>x. replicate 32 0" "replicate 48 9"]
      sad_binding_exact [of "[replicate 32 7, replicate 48 9]" "\<lambda>x. replicate 32 0" "replicate 32 8"] ne len
    by (auto simp del: replicate.simps)
qed

end
