(* ===== verification/Crypto_Keys.thy ===== *)
theory Crypto_Keys
  imports Go_Prelude
begin

text \<open>
  \<^verbatim>\<open>internal/crypto/ecdh.go\<close>: elliptic-curve keys and their encodings, over the curves of
  \<^verbatim>\<open>crypto/elliptic\<close> that the program names. Curve points are integers with affine arithmetic modulo
  the field prime, \<^verbatim>\<open>big.Int\<close> values are \<^typ>\<open>int\<close>; the nil interface or pointer results of the
  library are \<open>None\<close>. \<^verbatim>\<open>elliptic.Marshal\<close> and \<^verbatim>\<open>ScalarMult\<close> panic on a point that is not on the curve.
  \<^verbatim>\<open>ModSqrt\<close> is modelled for primes congruent to 3 modulo 4, which the three NIST curves have.
  Fresh randomness is an argument.
\<close>

section \<open>Curves\<close>

record CurveParams =
  cv_Name :: string
  cv_P :: int
  cv_B :: int
  cv_BitSize :: nat

datatype Curve = P256 | P384 | P521 | OtherCurve CurveParams

definition P256_params :: CurveParams where
  "P256_params = \<lparr>cv_Name = ''P-256'',
     cv_P = 0xffffffff00000001000000000000000000000000ffffffffffffffffffffffff,
     cv_B = 0x5ac635d8aa3a93e7b3ebbd55769886bc651d06b0cc53b0f63bce3c3e27d2604b, cv_BitSize = 256\<rparr>"

definition P384_params :: CurveParams where
  "P384_params = \<lparr>cv_Name = ''P-384'',
     cv_P = 0xfffffffffffffffffffffffffffffffffffffffffffffffffffffffffffffffeffffffff0000000000000000ffffffff,
     cv_B = 0xb3312fa7e23ee7e4988e056be3f82d19181d9c6efe8141120314088f5013875ac656398d8a2ed19d2a85c8edd3ec2aef,
     cv_BitSize = 384\<rparr>"

definition P521_params :: CurveParams where
  "P521_params = \<lparr>cv_Name = ''P-521'', cv_P = 2 ^ 521 - 1,
     cv_B = 0x0051953eb9618e1c9a1f929a21a0b68540eea2da725b99b315f3b8b489918ef109e156193951ec7e937b1652c0bd3bb1bf073573df883d2c34f1ef451fd46b503f00,
     cv_BitSize = 521\<rparr>"

fun Params :: "Curve \<Rightarrow> CurveParams" where
  "Params P256 = P256_params"
| "Params P384 = P384_params"
| "Params P521 = P521_params"
| "Params (OtherCurve c) = c"

definition byte_len :: "Curve \<Rightarrow> nat" where
  "byte_len c = (cv_BitSize (Params c) + 7) div 8"

definition IsOnCurve :: "Curve \<Rightarrow> int \<Rightarrow> int \<Rightarrow> bool" where
  "IsOnCurve c x y \<longleftrightarrow>
     (let p = cv_P (Params c) in
      0 \<le> x \<and> x < p \<and> 0 \<le> y \<and> y < p \<and> \<not> (x = 0 \<and> y = 0)
      \<and> (y * y - (x * x * x - 3 * x + cv_B (Params c))) mod p = 0)"

record PublicKey =
  pub_Curve :: Curve
  pub_X :: int
  pub_Y :: int

record PrivateKey =
  priv_PublicKey :: PublicKey
  priv_D :: int

text \<open>\<^verbatim>\<open>big.Int.Bytes\<close>: big-endian without leading zeros.\<close>

function nat_bytes :: "nat \<Rightarrow> bytes" where
  "nat_bytes n = (if n = 0 then [] else nat_bytes (n div 256) @ [of_nat (n mod 256)])"
  by pat_completeness auto
termination by (relation "measure id") auto

declare nat_bytes.simps [simp del]

text \<open>Square-and-multiply modulo \<open>p\<close>, and the square root it gives when \<open>p\<close> is 3 modulo 4.\<close>

function mod_pow :: "int \<Rightarrow> nat \<Rightarrow> int \<Rightarrow> int" where
  "mod_pow b e p =
     (if e = 0 then 1 mod p
      else if even e then mod_pow (b * b mod p) (e div 2) p
      else b * mod_pow (b * b mod p) (e div 2) p mod p)"
  by pat_completeness auto
termination by (relation "measure (\<lambda>(b, e, p). e)") auto

declare mod_pow.simps [simp del]

definition ModSqrt :: "int \<Rightarrow> int \<Rightarrow> int option" where
  "ModSqrt x p =
     (let z = mod_pow x (nat ((p + 1) div 4)) p in
      if (z * z - x) mod p = 0 then Some z else None)"

text \<open>Affine addition and double-and-add; \<open>None\<close> is the point at infinity.\<close>

definition mod_inv :: "int \<Rightarrow> int \<Rightarrow> int" where
  "mod_inv a p = mod_pow a (nat (p - 2)) p"

fun point_add :: "Curve \<Rightarrow> (int \<times> int) option \<Rightarrow> (int \<times> int) option \<Rightarrow> (int \<times> int) option" where
  "point_add c None q = q"
| "point_add c (Some q) None = Some q"
| "point_add c (Some (x1, y1)) (Some (x2, y2)) =
     (let p = cv_P (Params c) in
      if x1 = x2 \<and> (y1 + y2) mod p = 0 then None
      else
        (let l = (if x1 = x2 then (3 * x1 * x1 - 3) * mod_inv (2 * y1 mod p) p mod p
                  else (y2 - y1) * mod_inv ((x2 - x1) mod p) p mod p);
             x3 = (l * l - x1 - x2) mod p
         in Some (x3, (l * (x1 - x3) - y1) mod p)))"

fun scalar_bits :: "Curve \<Rightarrow> bool list \<Rightarrow> int \<times> int \<Rightarrow> (int \<times> int) option \<Rightarrow> (int \<times> int) option" where
  "scalar_bits c [] g acc = acc"
| "scalar_bits c (b # bs) g acc =
     (let acc2 = point_add c acc acc
      in scalar_bits c bs g (if b then point_add c acc2 (Some g) else acc2))"

definition byte_bits :: "byte \<Rightarrow> bool list" where
  "byte_bits w = map (\<lambda>i. bit w (7 - i)) [0..<8]"

definition ScalarMult :: "Curve \<Rightarrow> int \<Rightarrow> int \<Rightarrow> bytes \<Rightarrow> (int \<times> int) option" where
  "ScalarMult c x y k =
     (if \<not> IsOnCurve c x y then None
      else Some (case scalar_bits c (concat (map byte_bits k)) (x, y) None of
                   None \<Rightarrow> (0, 0) | Some q \<Rightarrow> q))"

section \<open>The code\<close>

datatype key_error =
    Curve_mismatch
  | Invalid_EC_point
  | Empty_data
  | Invalid_compressed_length
  | Unsupported_point_format byte
  | No_square_root
  | Generate_ephemeral

text \<open>\<^verbatim>\<open>RandomBytes(n)\<close> returns \<open>n\<close> bytes of the random source, or panics when the source fails.\<close>

definition RandomBytes :: "(nat \<Rightarrow> byte) option \<Rightarrow> nat \<Rightarrow> (unit, bytes) res" where
  "RandomBytes src n = (case src of None \<Rightarrow> Panic | Some f \<Rightarrow> Ok (map f [0..<n]))"

definition pad_left :: "nat \<Rightarrow> bytes \<Rightarrow> bytes" where
  "pad_left n bs = (if length bs < n then replicate (n - length bs) 0 @ bs else bs)"

definition ECDHSharedSecret :: "PrivateKey \<Rightarrow> PublicKey \<Rightarrow> (key_error, bytes) res" where
  "ECDHSharedSecret privKey pubKey =
     (let c = pub_Curve (priv_PublicKey privKey) in
      if c \<noteq> pub_Curve pubKey then Err Curve_mismatch
      else
        (case ScalarMult c (pub_X pubKey) (pub_Y pubKey) (nat_bytes (nat \<bar>priv_D privKey\<bar>)) of
           None \<Rightarrow> Panic
         | Some (x, _) \<Rightarrow> Ok (pad_left (byte_len c) (nat_bytes (nat x)))))"

text \<open>\<^verbatim>\<open>ecdsa.GenerateKey\<close> is the argument \<open>gen\<close>.\<close>

definition GenerateEphemeralECDH ::
  "(Curve \<Rightarrow> PrivateKey option) \<Rightarrow> PublicKey \<Rightarrow> (key_error, PublicKey \<times> bytes) res"
where
  "GenerateEphemeralECDH gen peerPubKey =
     (case gen (pub_Curve peerPubKey) of
        None \<Rightarrow> Err Generate_ephemeral
      | Some ephemeral \<Rightarrow>
          res_bind (ECDHSharedSecret ephemeral peerPubKey)
            (\<lambda>secret. Ok (priv_PublicKey ephemeral, secret)))"

definition elliptic_Marshal :: "Curve \<Rightarrow> int \<Rightarrow> int \<Rightarrow> bytes option" where
  "elliptic_Marshal c x y =
     (if IsOnCurve c x y
      then Some (4 # be_bytes (byte_len c) (nat x) @ be_bytes (byte_len c) (nat y)) else None)"

definition elliptic_Unmarshal :: "Curve \<Rightarrow> bytes \<Rightarrow> (int \<times> int) option" where
  "elliptic_Unmarshal c data =
     (let n = byte_len c in
      if length data \<noteq> 1 + 2 * n \<or> hd data \<noteq> 4 then None
      else
        (let x = int (be_nat (take n (tl data))); y = int (be_nat (drop n (tl data))) in
         if IsOnCurve c x y then Some (x, y) else None))"

text \<open>\<^verbatim>\<open>elliptic.UnmarshalCompressed\<close> and \<^verbatim>\<open>elliptic.MarshalCompressed\<close> of the standard library.\<close>

definition elliptic_UnmarshalCompressed :: "Curve \<Rightarrow> bytes \<Rightarrow> (int \<times> int) option" where
  "elliptic_UnmarshalCompressed c data =
     (if length data \<noteq> 1 + byte_len c \<or> (hd data \<noteq> 2 \<and> hd data \<noteq> 3) then None
      else
        (let p = cv_P (Params c); x = int (be_nat (tl data)) in
         if p \<le> x then None
         else
           (case ModSqrt ((x * x * x - 3 * x + cv_B (Params c)) mod p) p of
              None \<Rightarrow> None
            | Some y \<Rightarrow>
                (let y = (if odd y \<noteq> (hd data = 3) then p - y else y) in
                 if IsOnCurve c x y then Some (x, y) else None))))"

definition elliptic_MarshalCompressed :: "Curve \<Rightarrow> int \<Rightarrow> int \<Rightarrow> bytes option" where
  "elliptic_MarshalCompressed c x y =
     (if IsOnCurve c x y then Some ((if odd y then 3 else 2) # be_bytes (byte_len c) (nat x)) else None)"

text \<open>\<^verbatim>\<open>MarshalUncompressedPublicKey\<close> and \<^verbatim>\<open>webauthn.MarshalPublicKey\<close> are the same call.\<close>

definition MarshalUncompressedPublicKey :: "PublicKey \<Rightarrow> (key_error, bytes) res" where
  "MarshalUncompressedPublicKey pub =
     (case elliptic_Marshal (pub_Curve pub) (pub_X pub) (pub_Y pub) of None \<Rightarrow> Panic | Some b \<Rightarrow> Ok b)"

definition UnmarshalPublicKey :: "Curve \<Rightarrow> bytes \<Rightarrow> (key_error, PublicKey) res" where
  "UnmarshalPublicKey curve data =
     (case elliptic_Unmarshal curve data of
        None \<Rightarrow> Err Invalid_EC_point
      | Some (x, y) \<Rightarrow> Ok \<lparr>pub_Curve = curve, pub_X = x, pub_Y = y\<rparr>)"

definition boolToBit :: "bool \<Rightarrow> nat" where
  "boolToBit b = (if b then 1 else 0)"

definition big_Bit0 :: "int \<Rightarrow> nat" where
  "big_Bit0 y = (if odd y then 1 else 0)"

text \<open>\<^verbatim>\<open>compressed[1+byteLen-len(xBytes):]\<close> panics when the coordinate is longer than the field.\<close>

definition MarshalCompressedPublicKey :: "PublicKey \<Rightarrow> (key_error, bytes) res" where
  "MarshalCompressedPublicKey pub =
     (let byteLen = byte_len (pub_Curve pub);
          compressed = (if big_Bit0 (pub_Y pub) = 0 then 2 else 3) # replicate byteLen 0;
          xBytes = nat_bytes (nat \<bar>pub_X pub\<bar>)
      in if 1 + byteLen < length xBytes then Panic
         else Ok (take (1 + byteLen - length xBytes) compressed @ xBytes))"

definition decompressY :: "Curve \<Rightarrow> int \<Rightarrow> bool \<Rightarrow> (key_error, int) res" where
  "decompressY curve x odd_y =
     (let p = cv_P (Params curve);
          x3 = x * x * x mod p;
          threeX = 3 * x mod p;
          y2 = (x3 - threeX + cv_B (Params curve)) mod p
      in case ModSqrt y2 p of
           None \<Rightarrow> Err No_square_root
         | Some y \<Rightarrow> Ok (if big_Bit0 y \<noteq> boolToBit odd_y then p - y else y))"

definition DecompressPublicKey :: "Curve \<Rightarrow> bytes \<Rightarrow> (key_error, PublicKey) res" where
  "DecompressPublicKey curve data =
     (if data = [] then Err Empty_data
      else if hd data = 4 then UnmarshalPublicKey curve data
      else if hd data = 2 \<or> hd data = 3 then
        (if length data \<noteq> 1 + byte_len curve then Err Invalid_compressed_length
         else
           (let x = int (be_nat (tl data)) in
            res_bind (decompressY curve x (hd data = 3))
              (\<lambda>y. Ok \<lparr>pub_Curve = curve, pub_X = x, pub_Y = y\<rparr>)))
      else Err (Unsupported_point_format (hd data)))"

section \<open>Lemmas\<close>

lemma be_bytes_be_nat: "be_bytes (length bs) (be_nat bs) = bs"
proof (induction bs rule: rev_induct)
  case (snoc b bs)
  have "(256 * be_nat bs + unat b) div 256 = be_nat bs" "(256 * be_nat bs + unat b) mod 256 = unat b"
    using unat_byte_less [of b] by simp_all
  with snoc show ?case by simp
qed simp

lemma length_nat_bytes: "n < 256 ^ w \<Longrightarrow> length (nat_bytes n) \<le> w"
proof (induction w arbitrary: n)
  case (Suc w)
  then have "n div 256 < 256 ^ w" by (simp add: less_mult_imp_div_less mult.commute)
  with Suc.IH [of "n div 256"] show ?case by (subst nat_bytes.simps) simp
qed (simp add: nat_bytes.simps)

lemma pad_nat_bytes: "n < 256 ^ w \<Longrightarrow> replicate (w - length (nat_bytes n)) 0 @ nat_bytes n = be_bytes w n"
proof (induction w arbitrary: n)
  case 0
  then show ?case by (simp add: nat_bytes.simps)
next
  case (Suc w)
  have z: "be_bytes k 0 = replicate k 0" for k by (induction k) (simp_all add: replicate_append_same)
  show ?case
  proof (cases "n = 0")
    case True
    then show ?thesis using z [of "Suc w"] by (simp add: nat_bytes.simps del: be_bytes.simps replicate.simps)
  next
    case False
    have "n div 256 < 256 ^ w" using Suc.prems by (simp add: less_mult_imp_div_less mult.commute)
    with Suc.IH [of "n div 256"] length_nat_bytes [of "n div 256" w] False show ?thesis
      by (subst (1 2) nat_bytes.simps) simp
  qed
qed

lemma mod_pow_bounds: "0 < p \<Longrightarrow> 0 \<le> mod_pow b e p \<and> mod_pow b e p < p"
proof (induction b e p rule: mod_pow.induct)
  case (1 b e p)
  then show ?case by (subst (1 2) mod_pow.simps) auto
qed

lemma ModSqrt_sound:
  "ModSqrt x p = Some z \<Longrightarrow> 0 < p \<Longrightarrow> (z * z - x) mod p = 0 \<and> 0 \<le> z \<and> z < p"
  using mod_pow_bounds [of p x] by (auto simp: ModSqrt_def Let_def split: if_splits)

text \<open>What the proofs use of a curve: an odd field prime that fits the byte length. The NIST curves
  have it.\<close>

definition field_ok :: "Curve \<Rightarrow> bool" where
  "field_ok c \<longleftrightarrow> odd (cv_P (Params c)) \<and> 0 < cv_P (Params c) \<and> cv_P (Params c) < 256 ^ byte_len c"

lemma nist_field_ok [simp]: "field_ok P256" "field_ok P384" "field_ok P521"
  by (simp_all add: field_ok_def P256_params_def P384_params_def P521_params_def byte_len_def)

lemma field_params:
  assumes "field_ok c"
  shows "odd (cv_P (Params c))" and "0 < cv_P (Params c)" and "cv_P (Params c) < 256 ^ byte_len c"
  using assms by (auto simp: field_ok_def)

lemma elliptic_iff:
  assumes "field_ok c"
  shows "elliptic_Unmarshal c data = Some (x, y) \<longleftrightarrow> elliptic_Marshal c x y = Some data"
proof
  let ?n = "byte_len c"
  assume "elliptic_Unmarshal c data = Some (x, y)"
  then have l: "length data = 1 + 2 * ?n" "hd data = 4"
    and xy: "x = int (be_nat (take ?n (tl data)))" "y = int (be_nat (drop ?n (tl data)))" "IsOnCurve c x y"
    by (auto simp: elliptic_Unmarshal_def Let_def split: if_splits)
  then obtain t where d: "data = 4 # t" "length t = 2 * ?n" by (cases data) auto
  have "be_bytes ?n (be_nat (take ?n t)) = take ?n t" "be_bytes ?n (be_nat (drop ?n t)) = drop ?n t"
    using be_bytes_be_nat [of "take ?n t"] be_bytes_be_nat [of "drop ?n t"] d(2) by simp_all
  with xy d show "elliptic_Marshal c x y = Some data" by (simp add: elliptic_Marshal_def)
next
  let ?n = "byte_len c"
  assume "elliptic_Marshal c x y = Some data"
  then have on: "IsOnCurve c x y" and d: "data = 4 # be_bytes ?n (nat x) @ be_bytes ?n (nat y)"
    by (auto simp: elliptic_Marshal_def split: if_splits)
  have "0 \<le> x" "x < 256 ^ ?n" "0 \<le> y" "y < 256 ^ ?n"
    using on field_params(3) [OF assms] by (auto simp: IsOnCurve_def Let_def)
  then have "int (nat x mod 256 ^ ?n) = x" "int (nat y mod 256 ^ ?n) = y"
    by (simp_all add: zmod_int)
  with on d show "elliptic_Unmarshal c data = Some (x, y)" by (simp add: elliptic_Unmarshal_def)
qed

lemma decompressY_sound:
  assumes "decompressY c x b = Ok y" and "field_ok c"
  shows "(y * y - (x * x * x - 3 * x + cv_B (Params c))) mod cv_P (Params c) = 0"
    and "0 \<le> y" and "y \<le> cv_P (Params c)" and "odd y \<longleftrightarrow> b"
proof -
  let ?p = "cv_P (Params c)" and ?r = "x * x * x - 3 * x + cv_B (Params c)"
  note p = field_params(1,2) [OF assms(2)]
  have e: "(x * x * x mod ?p - 3 * x mod ?p + cv_B (Params c)) mod ?p = ?r mod ?p"
    by (metis mod_add_left_eq mod_diff_eq)
  obtain z where z: "ModSqrt (?r mod ?p) ?p = Some z" and y: "y = (if big_Bit0 z \<noteq> boolToBit b then ?p - z else z)"
    using assms(1) e by (auto simp: decompressY_def Let_def split: option.splits)
  from ModSqrt_sound [OF z p(2)] have zz: "(z * z - ?r mod ?p) mod ?p = 0" and zb: "0 \<le> z" "z < ?p" by auto
  have "(z * z - ?r) mod ?p = 0" using zz by (simp add: mod_simps)
  moreover have "((?p - z) * (?p - z) - ?r) mod ?p = (z * z - ?r) mod ?p"
  proof -
    have "(?p - z) * (?p - z) - ?r = (z * z - ?r) + ?p * (?p - 2 * z)" by (simp add: algebra_simps)
    then show ?thesis by (simp only: mod_mult_self2)
  qed
  ultimately show "(y * y - ?r) mod ?p = 0" using y by simp
  show "0 \<le> y" "y \<le> ?p" using y zb by simp_all
  show "odd y \<longleftrightarrow> b" using y p(1) by (auto simp: big_Bit0_def boolToBit_def split: if_splits)
qed

section \<open>Properties\<close>

text \<open>Public keys and the uncompressed encoding on the NIST curves correspond one to one:
  decoding succeeds with a key exactly when that key encodes to those bytes, so encoding a key and
  decoding it gives the key back, no two byte strings decode to the same key, and every decoded key
  is a point of the curve, which the encoder accepts without panicking.\<close>

lemma uncompressed_key_roundtrip:
  assumes "field_ok c"
  shows "(UnmarshalPublicKey c data = Ok pub \<longleftrightarrow> pub_Curve pub = c \<and> MarshalUncompressedPublicKey pub = Ok data)
     \<and> (UnmarshalPublicKey c data = Ok pub \<longrightarrow> IsOnCurve c (pub_X pub) (pub_Y pub))"
proof -
  have "UnmarshalPublicKey c data = Ok pub \<longleftrightarrow> pub_Curve pub = c \<and> elliptic_Unmarshal c data = Some (pub_X pub, pub_Y pub)"
    by (cases pub) (auto simp: UnmarshalPublicKey_def split: option.splits)
  moreover have "MarshalUncompressedPublicKey pub = Ok data \<longleftrightarrow> elliptic_Marshal (pub_Curve pub) (pub_X pub) (pub_Y pub) = Some data"
    by (auto simp: MarshalUncompressedPublicKey_def split: option.splits)
  moreover have "elliptic_Marshal c x y = Some data \<Longrightarrow> IsOnCurve c x y" for x y
    by (simp add: elliptic_Marshal_def split: if_splits)
  ultimately show ?thesis using elliptic_iff [OF assms] by auto
qed

text \<open>C36: A key that is decompressed from its 33, 49 or 67 byte form compresses back to the same
  bytes, and its coordinates satisfy the equation of the curve modulo the field prime.\<close>

theorem decompress_sound:
  assumes "field_ok c" and "DecompressPublicKey c data = Ok pub" and "hd data \<noteq> 4"
  shows "MarshalCompressedPublicKey pub = Ok data \<and> pub_Curve pub = c
     \<and> (pub_Y pub * pub_Y pub - (pub_X pub * pub_X pub * pub_X pub - 3 * pub_X pub + cv_B (Params c)))
         mod cv_P (Params c) = 0
     \<and> 0 \<le> pub_Y pub \<and> pub_Y pub \<le> cv_P (Params c)"
proof -
  let ?n = "byte_len c"
  define t where "t = tl data"
  define b where "b = (hd data = 3)"
  from assms(2,3) obtain y where d: "data = (if b then 3 else 2) # t" and l: "length t = ?n"
    and y: "decompressY c (int (be_nat t)) b = Ok y"
    and pub: "pub = \<lparr>pub_Curve = c, pub_X = int (be_nat t), pub_Y = y\<rparr>"
    by (cases data) (auto simp: t_def b_def DecompressPublicKey_def Let_def res_bind_Ok_iff split: if_splits)
  note s = decompressY_sound [OF y assms(1)]
  have lt: "be_nat t < 256 ^ ?n" using be_nat_less [of t] l by simp
  have k: "length (nat_bytes (be_nat t)) \<le> ?n" by (rule length_nat_bytes [OF lt])
  have "replicate (?n - length (nat_bytes (be_nat t))) 0 @ nat_bytes (be_nat t) = t"
    using pad_nat_bytes [OF lt] be_bytes_be_nat [of t] l by simp
  with k s(4) d pub have "MarshalCompressedPublicKey pub = Ok data"
    by (auto simp: MarshalCompressedPublicKey_def Let_def big_Bit0_def Suc_diff_le)
  with s pub show ?thesis by simp
qed

definition toy_curve :: Curve where
  "toy_curve = OtherCurve \<lparr>cv_Name = ''toy'', cv_P = 23, cv_B = 1, cv_BitSize = 5\<rparr>"

theorem decompress_sound_witness:
  "DecompressPublicKey toy_curve [3, 0] = Ok \<lparr>pub_Curve = toy_curve, pub_X = 0, pub_Y = 1\<rparr>
   \<and> MarshalCompressedPublicKey \<lparr>pub_Curve = toy_curve, pub_X = 0, pub_Y = 1\<rparr> = Ok [3, 0]"
proof -
  have f: "field_ok toy_curve" by (simp add: field_ok_def toy_curve_def byte_len_def)
  have d: "DecompressPublicKey toy_curve [3, 0] = Ok \<lparr>pub_Curve = toy_curve, pub_X = 0, pub_Y = 1\<rparr>"
  proof -
    have "mod_pow 1 6 23 = 1"
      by (simp add: mod_pow.simps [of 1 6 23] mod_pow.simps [of 1 3 23] mod_pow.simps [of 1 "Suc 0" 23]
          mod_pow.simps [of 1 0 23])
    then show ?thesis
      by (simp add: DecompressPublicKey_def toy_curve_def byte_len_def decompressY_def ModSqrt_def
          be_nat_def big_Bit0_def boolToBit_def)
  qed
  from decompress_sound [OF f d] d show ?thesis by simp
qed

end
