(* ===== verification/Go_Json.thy ===== *)
theory Go_Json
  imports Go_Encoding
begin

text \<open>
  The parts of \<^verbatim>\<open>encoding/json\<close> the program calls: \<^verbatim>\<open>Valid\<close>, \<^verbatim>\<open>Unmarshal\<close> into structs and \<^verbatim>\<open>Marshal\<close> of
  structs. JSON text is a Go string. The reader keeps the text of every member and element beside
  its value, because a \<^verbatim>\<open>json.RawMessage\<close> field holds exactly that span. Decoding into a struct
  follows the package: a key selects the field with that name and otherwise the field whose name
  agrees with it up to case, unknown keys are skipped, \<^verbatim>\<open>null\<close> leaves a field as it is, a value of the
  wrong kind makes the whole call fail, strings that are not UTF-8 get the replacement character.
  Encoding escapes as the package does by default, HTML characters included.

  The reader recurses on a fuel argument; \<open>json_fuel\<close> shows that the fuel it is started with is
  always enough, and the equations after it are free of fuel. Nesting is limited to 10000, as in Go.
\<close>

section \<open>UTF-8\<close>

definition utf8_cont :: "char \<Rightarrow> bool" where
  "utf8_cont c = (0x80 \<le> (of_char c :: nat) \<and> of_char c \<le> (0xBF :: nat))"

text \<open>The length of the encoded character at the head of a string, 0 where there is none.\<close>

fun utf8_len :: "string \<Rightarrow> nat" where
  "utf8_len [] = 0"
| "utf8_len (a # s) =
     (let x = of_char a :: nat in
      if x < 0x80 then 1
      else if 0xC2 \<le> x \<and> x \<le> 0xDF then
        (case s of b # _ \<Rightarrow> if utf8_cont b then 2 else 0 | _ \<Rightarrow> 0)
      else if 0xE0 \<le> x \<and> x \<le> 0xEF then
        (case s of
           b # c # _ \<Rightarrow>
             if utf8_cont b \<and> utf8_cont c \<and> (x = 0xE0 \<longrightarrow> 0xA0 \<le> (of_char b :: nat))
                \<and> (x = 0xED \<longrightarrow> of_char b \<le> (0x9F :: nat)) then 3 else 0
         | _ \<Rightarrow> 0)
      else if 0xF0 \<le> x \<and> x \<le> 0xF4 then
        (case s of
           b # c # d # _ \<Rightarrow>
             if utf8_cont b \<and> utf8_cont c \<and> utf8_cont d \<and> (x = 0xF0 \<longrightarrow> 0x90 \<le> (of_char b :: nat))
                \<and> (x = 0xF4 \<longrightarrow> of_char b \<le> (0x8F :: nat)) then 4 else 0
         | _ \<Rightarrow> 0)
      else 0)"

definition utf8_bad :: string where "utf8_bad = [CHR 0xEF, CHR 0xBF, CHR 0xBD]"

text \<open>\<^verbatim>\<open>utf8.AppendRune\<close>.\<close>

definition utf8_encode :: "nat \<Rightarrow> string" where
  "utf8_encode n =
     (if n < 0x80 then [char_of n]
      else if n < 0x800 then [char_of (0xC0 + n div 64), char_of (0x80 + n mod 64)]
      else if (0xD800 \<le> n \<and> n \<le> 0xDFFF) \<or> 0x10FFFF < n then utf8_bad
      else if n < 0x10000 then
        [char_of (0xE0 + n div 4096), char_of (0x80 + n div 64 mod 64), char_of (0x80 + n mod 64)]
      else
        [char_of (0xF0 + n div 262144), char_of (0x80 + n div 4096 mod 64),
         char_of (0x80 + n div 64 mod 64), char_of (0x80 + n mod 64)])"

text \<open>Strings that are UTF-8 throughout.\<close>

function utf8_valid :: "string \<Rightarrow> bool" where
  "utf8_valid s =
     (if s = [] then True else if utf8_len s = 0 then False else utf8_valid (drop (utf8_len s) s))"
  by pat_completeness auto
termination
  by (relation "measure length") (auto simp: neq_Nil_conv simp del: utf8_len.simps)

declare utf8_valid.simps [simp del]

section \<open>Reading\<close>

datatype json =
    JNull
  | JBool bool
  | JNum string
  | JStr string
  | JArr "(json \<times> string) list"
  | JObj "(string \<times> json \<times> string) list"

definition json_ws :: "char \<Rightarrow> bool" where
  "json_ws c \<longleftrightarrow> c \<in> {CHR 0x20, CHR 0x09, CHR 0x0A, CHR 0x0D}"

abbreviation skip_ws :: "string \<Rightarrow> string" where
  "skip_ws s \<equiv> dropWhile json_ws s"

definition is_digit :: "char \<Rightarrow> bool" where
  "is_digit c \<longleftrightarrow> 48 \<le> (of_char c :: nat) \<and> of_char c \<le> (57 :: nat)"

text \<open>A number: the longest numeral at the head of the text.\<close>

definition num_int :: "string \<Rightarrow> (string \<times> string) option" where
  "num_int s =
     (case s of
        [] \<Rightarrow> None
      | c # r \<Rightarrow>
          if c = CHR ''0'' then Some ([c], r)
          else if is_digit c then Some (takeWhile is_digit s, dropWhile is_digit s)
          else None)"

definition num_frac :: "string \<Rightarrow> (string \<times> string) option" where
  "num_frac s =
     (case s of
        [] \<Rightarrow> Some ([], s)
      | c # r \<Rightarrow>
          if c \<noteq> CHR ''.'' then Some ([], s)
          else if takeWhile is_digit r = [] then None
          else Some (c # takeWhile is_digit r, dropWhile is_digit r))"

definition num_exp :: "string \<Rightarrow> (string \<times> string) option" where
  "num_exp s =
     (case s of
        [] \<Rightarrow> Some ([], s)
      | c # r \<Rightarrow>
          if c \<noteq> CHR ''e'' \<and> c \<noteq> CHR ''E'' then Some ([], s)
          else
            (let (sg, r') = (case r of d # t \<Rightarrow> if d = CHR ''+'' \<or> d = CHR ''-'' then ([d], t) else ([], r)
                             | [] \<Rightarrow> ([], r))
             in if takeWhile is_digit r' = [] then None
                else Some (c # sg @ takeWhile is_digit r', dropWhile is_digit r')))"

definition json_num :: "string \<Rightarrow> (string \<times> string) option" where
  "json_num s =
     (let (sg, s1) = (case s of c # t \<Rightarrow> if c = CHR ''-'' then ([c], t) else ([], s) | [] \<Rightarrow> ([], s)) in
      case num_int s1 of
        None \<Rightarrow> None
      | Some (i, s2) \<Rightarrow>
          (case num_frac s2 of
             None \<Rightarrow> None
           | Some (f, s3) \<Rightarrow>
               (case num_exp s3 of
                  None \<Rightarrow> None
                | Some (e, s4) \<Rightarrow> Some (sg @ i @ f @ e, s4))))"

definition hex4 :: "string \<Rightarrow> (nat \<times> string) option" where
  "hex4 s =
     (case s of
        a # b # c # d # r \<Rightarrow>
          (case (hex_val a, hex_val b, hex_val c, hex_val d) of
             (Some w, Some x, Some y, Some z) \<Rightarrow> Some (4096 * w + 256 * x + 16 * y + z, r)
           | _ \<Rightarrow> None)
      | _ \<Rightarrow> None)"

text \<open>The text after a backslash: what it stands for, and the rest.\<close>

definition json_surrogate :: "nat \<Rightarrow> string \<Rightarrow> string \<times> string" where
  "json_surrogate u s =
     (case s of
        a # b # t \<Rightarrow>
          (if a = CHR 0x5C \<and> b = CHR ''u'' then
             (case hex4 t of
                Some (v, r) \<Rightarrow>
                  if u < 0xDC00 \<and> 0xDC00 \<le> v \<and> v \<le> 0xDFFF
                  then (utf8_encode (0x10000 + (u - 0xD800) * 0x400 + (v - 0xDC00)), r)
                  else (utf8_bad, s)
              | None \<Rightarrow> (utf8_bad, s))
           else (utf8_bad, s))
      | _ \<Rightarrow> (utf8_bad, s))"

definition json_escape :: "string \<Rightarrow> (string \<times> string) option" where
  "json_escape s =
     (case s of
        [] \<Rightarrow> None
      | e # t \<Rightarrow>
          if e = CHR 0x22 \<or> e = CHR 0x5C \<or> e = CHR ''/'' then Some ([e], t)
          else if e = CHR ''b'' then Some ([CHR 0x08], t)
          else if e = CHR ''f'' then Some ([CHR 0x0C], t)
          else if e = CHR ''n'' then Some ([CHR 0x0A], t)
          else if e = CHR ''r'' then Some ([CHR 0x0D], t)
          else if e = CHR ''t'' then Some ([CHR 0x09], t)
          else if e = CHR ''u'' then
            (case hex4 t of
               None \<Rightarrow> None
             | Some (u, r) \<Rightarrow>
                 Some (if 0xD800 \<le> u \<and> u \<le> 0xDFFF then json_surrogate u r else (utf8_encode u, r)))
          else None)"

lemma hex4_shorter: "hex4 s = Some (n, r) \<Longrightarrow> length r < length s"
  by (auto simp: hex4_def split: list.splits option.splits)

lemma json_surrogate_shorter: "json_surrogate u s = (x, r) \<Longrightarrow> length r \<le> length s"
  by (auto simp: json_surrogate_def dest!: hex4_shorter split: list.splits option.splits if_splits)

lemma json_escape_shorter:
  assumes "json_escape s = Some (x, r)"
  shows "length r < length s"
proof (cases s)
  case (Cons e t)
  with assms show ?thesis
    using hex4_shorter [of t] json_surrogate_shorter
    by (fastforce simp: json_escape_def split: if_splits option.splits)
qed (use assms in \<open>simp add: json_escape_def\<close>)

text \<open>The text after an opening quote: the string and the rest after the closing quote.\<close>

abbreviation opt_prepend :: "'a list \<Rightarrow> ('a list \<times> 'b) option \<Rightarrow> ('a list \<times> 'b) option" where
  "opt_prepend x \<equiv> map_option (\<lambda>(y, r). (x @ y, r))"

function json_str :: "string \<Rightarrow> (string \<times> string) option" where
  "json_str [] = None"
| "json_str (c # s) =
     (if c = CHR 0x22 then Some ([], s)
      else if c = CHR 0x5C then
        (case json_escape s of None \<Rightarrow> None | Some (x, r) \<Rightarrow> opt_prepend x (json_str r))
      else if (of_char c :: nat) < 0x20 then None
      else if utf8_len (c # s) = 0 then opt_prepend utf8_bad (json_str s)
      else opt_prepend (take (utf8_len (c # s)) (c # s)) (json_str (drop (utf8_len (c # s)) (c # s))))"
  by pat_completeness auto
termination
proof (relation "measure length")
  fix c s p x r
  assume "json_escape s = Some p" and "(x, r) = p"
  then show "(r, c # s) \<in> measure length"
    using json_escape_shorter [of s x r] by simp
qed (simp_all del: utf8_len.simps)

declare json_str.simps(2) [simp del]

text \<open>One step of the reader for a value, for the elements of an array after its bracket and for the
  members of an object after its brace; the readers of the parts are arguments.\<close>

type_synonym 'a reader = "nat \<Rightarrow> string \<Rightarrow> ('a \<times> string) option"

definition value_step ::
  "(json \<times> string) list reader \<Rightarrow> (string \<times> json \<times> string) list reader \<Rightarrow> json reader"
where
  "value_step el mem d s =
     (case s of
        [] \<Rightarrow> None
      | c # t \<Rightarrow>
          if c = CHR 0x22 then map_option (\<lambda>(x, r). (JStr x, r)) (json_str t)
          else if c = CHR ''['' then
            (if d = 0 then None
             else (case skip_ws t of
                     [] \<Rightarrow> None
                   | e # r \<Rightarrow> if e = CHR '']'' then Some (JArr [], r)
                             else map_option (\<lambda>(xs, r). (JArr xs, r)) (el (d - 1) (skip_ws t))))
          else if c = CHR ''{'' then
            (if d = 0 then None
             else (case skip_ws t of
                     [] \<Rightarrow> None
                   | e # r \<Rightarrow> if e = CHR ''}'' then Some (JObj [], r)
                             else map_option (\<lambda>(xs, r). (JObj xs, r)) (mem (d - 1) (skip_ws t))))
          else if HasPrefix s ''true'' then Some (JBool True, drop 4 s)
          else if HasPrefix s ''false'' then Some (JBool False, drop 5 s)
          else if HasPrefix s ''null'' then Some (JNull, drop 4 s)
          else map_option (\<lambda>(x, r). (JNum x, r)) (json_num s))"

text \<open>After an element or member: the end, or a comma and more.\<close>

definition more_step :: "char \<Rightarrow> 'a list reader \<Rightarrow> nat \<Rightarrow> 'a \<Rightarrow> string \<Rightarrow> ('a list \<times> string) option" where
  "more_step close next_read d item r =
     (case skip_ws r of
        [] \<Rightarrow> None
      | c # t \<Rightarrow>
          if c = close then Some ([item], t)
          else if c = CHR '','' then opt_prepend [item] (next_read d (skip_ws t))
          else None)"

definition elems_step ::
  "json reader \<Rightarrow> (json \<times> string) list reader \<Rightarrow> (json \<times> string) list reader"
where
  "elems_step val el d s =
     (case val d s of
        None \<Rightarrow> None
      | Some (v, r) \<Rightarrow> more_step CHR '']'' el d (v, take (length s - length r) s) r)"

definition members_step ::
  "json reader \<Rightarrow> (string \<times> json \<times> string) list reader \<Rightarrow> (string \<times> json \<times> string) list reader"
where
  "members_step val mem d s =
     (case s of
        [] \<Rightarrow> None
      | q # t0 \<Rightarrow>
          if q \<noteq> CHR 0x22 then None
          else
            (case json_str t0 of
               None \<Rightarrow> None
             | Some (k, r0) \<Rightarrow>
                 (case skip_ws r0 of
                    [] \<Rightarrow> None
                  | c0 # t1 \<Rightarrow>
                      if c0 \<noteq> CHR '':'' then None
                      else
                        (case val d (skip_ws t1) of
                           None \<Rightarrow> None
                         | Some (v, r) \<Rightarrow>
                             more_step CHR ''}'' mem d
                               (k, v, take (length (skip_ws t1) - length r) (skip_ws t1)) r))))"

fun json_value :: "nat \<Rightarrow> json reader"
and json_elems :: "nat \<Rightarrow> (json \<times> string) list reader"
and json_members :: "nat \<Rightarrow> (string \<times> json \<times> string) list reader"
where
  "json_value 0 = (\<lambda>d s. None)"
| "json_value (Suc n) = value_step (json_elems n) (json_members n)"
| "json_elems 0 = (\<lambda>d s. None)"
| "json_elems (Suc n) = elems_step (json_value n) (json_elems n)"
| "json_members 0 = (\<lambda>d s. None)"
| "json_members (Suc n) = members_step (json_value n) (json_members n)"

definition json_fuel_for :: "string \<Rightarrow> nat" where
  "json_fuel_for s = 2 * length s + 1"

definition json_parse :: "string \<Rightarrow> json option" where
  "json_parse s =
     (let t = skip_ws s in
      case json_value (json_fuel_for t) 10000 t of
        None \<Rightarrow> None
      | Some (v, r) \<Rightarrow> if skip_ws r = [] then Some v else None)"

definition json_Valid :: "string \<Rightarrow> bool" where
  "json_Valid s \<longleftrightarrow> json_parse s \<noteq> None"

section \<open>Writing\<close>

definition u_escape :: "nat \<Rightarrow> string" where
  "u_escape n =
     [CHR 0x5C, CHR ''u'', hex_char (n div 4096), hex_char (n div 256 mod 16),
      hex_char (n div 16 mod 16), hex_char (n mod 16)]"

definition quote_ascii :: "char \<Rightarrow> string" where
  "quote_ascii c =
     (if c = CHR 0x22 \<or> c = CHR 0x5C then [CHR 0x5C, c]
      else if c = CHR 0x08 then [CHR 0x5C, CHR ''b'']
      else if c = CHR 0x0C then [CHR 0x5C, CHR ''f'']
      else if c = CHR 0x0A then [CHR 0x5C, CHR ''n'']
      else if c = CHR 0x0D then [CHR 0x5C, CHR ''r'']
      else if c = CHR 0x09 then [CHR 0x5C, CHR ''t'']
      else if (of_char c :: nat) < 0x20 \<or> c = CHR ''<'' \<or> c = CHR ''>'' \<or> c = CHR ''&''
        then u_escape (of_char c)
      else [c])"

definition line_sep :: string where "line_sep = [CHR 0xE2, CHR 0x80, CHR 0xA8]"
definition para_sep :: string where "para_sep = [CHR 0xE2, CHR 0x80, CHR 0xA9]"

function quote_body :: "string \<Rightarrow> string" where
  "quote_body [] = []"
| "quote_body (c # s) =
     (if (of_char c :: nat) < 0x80 then quote_ascii c @ quote_body s
      else if utf8_len (c # s) = 0 then u_escape 0xFFFD @ quote_body s
      else if take 3 (c # s) = line_sep then u_escape 0x2028 @ quote_body (drop 3 (c # s))
      else if take 3 (c # s) = para_sep then u_escape 0x2029 @ quote_body (drop 3 (c # s))
      else take (utf8_len (c # s)) (c # s) @ quote_body (drop (utf8_len (c # s)) (c # s)))"
  by pat_completeness auto
termination
  by (relation "measure length") (simp_all del: utf8_len.simps)

declare quote_body.simps(2) [simp del]

definition json_quote :: "string \<Rightarrow> string" where
  "json_quote s = CHR 0x22 # quote_body s @ [CHR 0x22]"

fun comma_sep :: "string list \<Rightarrow> string" where
  "comma_sep [] = []"
| "comma_sep [x] = x"
| "comma_sep (x # y # xs) = x @ CHR '','' # comma_sep (y # xs)"

definition json_array :: "string list \<Rightarrow> string" where
  "json_array xs = CHR ''['' # comma_sep xs @ '']''"

text \<open>A struct: its fields with their encoded values, in order.\<close>

definition json_object :: "(string \<times> string) list \<Rightarrow> string" where
  "json_object fs = CHR ''{'' # comma_sep (map (\<lambda>(k, v). json_quote k @ CHR '':'' # v) fs) @ ''}''"

definition json_bool :: "bool \<Rightarrow> string" where
  "json_bool b = (if b then ''true'' else ''false'')"

text \<open>The \<^verbatim>\<open>omitempty\<close> option on strings and integers.\<close>

definition omit_str :: "string \<Rightarrow> string \<Rightarrow> (string \<times> string) list" where
  "omit_str k s = (if s = [] then [] else [(k, json_quote s)])"

definition omit_int :: "string \<Rightarrow> int \<Rightarrow> (string \<times> string) list" where
  "omit_int k i = (if i = 0 then [] else [(k, Itoa i)])"

text \<open>\<^verbatim>\<open>appendCompact\<close>: white space outside strings goes, HTML characters are escaped.\<close>

fun compact :: "bool \<Rightarrow> string \<Rightarrow> string" where
  "compact q [] = []"
| "compact q (c # s) =
     (if c = CHR ''<'' \<or> c = CHR ''>'' \<or> c = CHR ''&'' then u_escape (of_char c) @ compact q s
      else if c = CHR 0xE2 \<and> take 2 s = [CHR 0x80, CHR 0xA8] then u_escape 0x2028 @ compact q (drop 2 s)
      else if c = CHR 0xE2 \<and> take 2 s = [CHR 0x80, CHR 0xA9] then u_escape 0x2029 @ compact q (drop 2 s)
      else if q then
        (if c = CHR 0x22 then c # compact False s
         else if c = CHR 0x5C then (case s of [] \<Rightarrow> [c] | d # t \<Rightarrow> c # d # compact True t)
         else c # compact True s)
      else if json_ws c then compact False s
      else c # compact (c = CHR 0x22) s)"

text \<open>\<^verbatim>\<open>Marshal\<close> of a \<^verbatim>\<open>json.RawMessage\<close>; the empty string stands for a nil message.\<close>

definition json_raw :: "string \<Rightarrow> string option" where
  "json_raw r = (if r = [] then Some ''null'' else if json_Valid r then Some (compact False r) else None)"

section \<open>Decoding into structs\<close>

definition ascii_upper :: "char \<Rightarrow> char" where
  "ascii_upper c =
     (let n = of_char c :: nat in if 97 \<le> n \<and> n \<le> 122 then char_of (n - 32) else c)"

text \<open>\<^verbatim>\<open>foldName\<close>: besides the ASCII letters, the long s and the Kelvin sign fold to ASCII.\<close>

fun foldName :: "string \<Rightarrow> string" where
  "foldName [] = []"
| "foldName (c # s) =
     (if c = CHR 0xC5 \<and> take 1 s = [CHR 0xBF] then CHR ''S'' # foldName (drop 1 s)
      else if c = CHR 0xE2 \<and> take 2 s = [CHR 0x84, CHR 0xAA] then CHR ''K'' # foldName (drop 2 s)
      else ascii_upper c # foldName s)"

type_synonym 'r field = "json \<Rightarrow> string \<Rightarrow> 'r \<Rightarrow> 'r option"

definition find_field :: "(string \<times> 'r field) list \<Rightarrow> string \<Rightarrow> 'r field option" where
  "find_field fs k =
     (case map_of fs k of
        Some f \<Rightarrow> Some f
      | None \<Rightarrow> map_of (map (\<lambda>(n, f). (foldName n, f)) fs) (foldName k))"

fun decode_members ::
  "(string \<times> 'r field) list \<Rightarrow> (string \<times> json \<times> string) list \<Rightarrow> 'r \<Rightarrow> 'r option"
where
  "decode_members fs [] r = Some r"
| "decode_members fs ((k, v, raw) # ms) r =
     (case find_field fs k of
        None \<Rightarrow> decode_members fs ms r
      | Some f \<Rightarrow> (case f v raw r of None \<Rightarrow> None | Some r' \<Rightarrow> decode_members fs ms r'))"

definition decode_struct :: "(string \<times> 'r field) list \<Rightarrow> 'r field" where
  "decode_struct fs v raw r =
     (case v of JNull \<Rightarrow> Some r | JObj ms \<Rightarrow> decode_members fs ms r | _ \<Rightarrow> None)"

definition json_Unmarshal :: "(string \<times> 'r field) list \<Rightarrow> string \<Rightarrow> 'r \<Rightarrow> 'r option" where
  "json_Unmarshal fs s r =
     (case json_parse s of None \<Rightarrow> None | Some v \<Rightarrow> decode_struct fs v s r)"

definition field_str :: "(string \<Rightarrow> 'r \<Rightarrow> 'r) \<Rightarrow> 'r field" where
  "field_str upd v raw r = (case v of JNull \<Rightarrow> Some r | JStr s \<Rightarrow> Some (upd s r) | _ \<Rightarrow> None)"

definition digits_val :: "string \<Rightarrow> nat" where
  "digits_val ds = foldl (\<lambda>a c. 10 * a + (of_char c - 48)) 0 ds"

text \<open>\<^verbatim>\<open>strconv.ParseInt(s, 10, 64)\<close> on a JSON number.\<close>

definition json_int64 :: "string \<Rightarrow> int option" where
  "json_int64 s =
     (let neg = (HasPrefix s ''-''); ds = TrimPrefix s ''-'';
          n = (if neg then - int (digits_val ds) else int (digits_val ds))
      in if ds \<noteq> [] \<and> list_all is_digit ds \<and> min_int64 \<le> n \<and> n \<le> max_int64 then Some n else None)"

definition field_int64 :: "(int \<Rightarrow> 'r \<Rightarrow> 'r) \<Rightarrow> 'r field" where
  "field_int64 upd v raw r =
     (case v of
        JNull \<Rightarrow> Some r
      | JNum s \<Rightarrow> map_option (\<lambda>n. upd n r) (json_int64 s)
      | _ \<Rightarrow> None)"

definition field_raw :: "(string \<Rightarrow> 'r \<Rightarrow> 'r) \<Rightarrow> 'r field" where
  "field_raw upd v raw r = Some (upd raw r)"

text \<open>A pointer to a boolean: \<^verbatim>\<open>null\<close> clears it.\<close>

definition field_bool_ptr :: "(bool option \<Rightarrow> 'r \<Rightarrow> 'r) \<Rightarrow> 'r field" where
  "field_bool_ptr upd v raw r =
     (case v of JNull \<Rightarrow> Some (upd None r) | JBool b \<Rightarrow> Some (upd (Some b) r) | _ \<Rightarrow> None)"

definition field_bool :: "(bool \<Rightarrow> 'r \<Rightarrow> 'r) \<Rightarrow> 'r field" where
  "field_bool upd v raw r = (case v of JNull \<Rightarrow> Some r | JBool b \<Rightarrow> Some (upd b r) | _ \<Rightarrow> None)"

text \<open>A \<^verbatim>\<open>[]string\<close>: a \<^verbatim>\<open>null\<close> element leaves what the slice held there.\<close>

fun decode_strings :: "(json \<times> string) list \<Rightarrow> string list \<Rightarrow> string list option" where
  "decode_strings [] old = Some []"
| "decode_strings ((v, raw) # vs) old =
     (case v of
        JNull \<Rightarrow> map_option (\<lambda>r. (if old = [] then [] else hd old) # r) (decode_strings vs (tl old))
      | JStr s \<Rightarrow> map_option (\<lambda>r. s # r) (decode_strings vs (tl old))
      | _ \<Rightarrow> None)"

definition field_strs :: "('r \<Rightarrow> string list) \<Rightarrow> (string list \<Rightarrow> 'r \<Rightarrow> 'r) \<Rightarrow> 'r field" where
  "field_strs get upd v raw r =
     (case v of
        JNull \<Rightarrow> Some (upd [] r)
      | JArr vs \<Rightarrow> map_option (\<lambda>l. upd l r) (decode_strings vs (get r))
      | _ \<Rightarrow> None)"

text \<open>A struct inside a struct: its fields decode on top of what it holds.\<close>

definition field_struct :: "(string \<times> 'i field) list \<Rightarrow> ('r \<Rightarrow> 'i) \<Rightarrow> ('i \<Rightarrow> 'r \<Rightarrow> 'r) \<Rightarrow> 'r field" where
  "field_struct fs get upd v raw r = map_option (\<lambda>i. upd i r) (decode_struct fs v raw (get r))"

end
