(* ===== verification/Json_Roundtrip.thy ===== *)
theory Json_Roundtrip
  imports Go_Json
begin

text \<open>
  Lemmas about the JSON model: the reader's fuel is always enough, so the reader satisfies
  equations without fuel; what the writer prints, the reader reads back, whatever follows it; and
  printed text is unchanged by \<open>compact\<close>. \<open>encodes\<close> packages the latter two for one value, and its
  rules are the interface the codecs of the protocol messages are built on.
\<close>

section \<open>The fuel is enough\<close>

lemma num_int_shorter: "num_int s = Some (x, r) \<Longrightarrow> s = x @ r \<and> x \<noteq> []"
  by (auto simp: num_int_def split: list.splits if_splits)

lemma num_frac_append: "num_frac s = Some (x, r) \<Longrightarrow> s = x @ r"
  by (auto simp: num_frac_def split: list.splits if_splits)

lemma num_exp_append: "num_exp s = Some (x, r) \<Longrightarrow> s = x @ r"
  by (auto simp: num_exp_def Let_def split: list.splits if_splits prod.splits)

lemma json_num_append:
  assumes "json_num s = Some (x, r)"
  shows "s = x @ r \<and> x \<noteq> []"
proof -
  obtain sg s1 where a: "(case s of c # t \<Rightarrow> if c = CHR ''-'' then ([c], t) else ([], s) | [] \<Rightarrow> ([], s)) = (sg, s1)"
    by force
  then have s: "s = sg @ s1" by (auto split: list.splits if_splits)
  from assms a show ?thesis unfolding s
    by (auto simp: json_num_def s dest!: num_int_shorter num_frac_append num_exp_append
        split: option.splits)
qed

lemma json_str_shorter: "json_str s = Some (x, r) \<Longrightarrow> length r < length s"
proof (induction s arbitrary: x r rule: json_str.induct)
  case (2 c s)
  show ?case
  proof (cases "c = CHR 0x22 \<or> (c \<noteq> CHR 0x5C \<and> (of_char c :: nat) < 0x20)")
    case True
    with 2(4) show ?thesis by (auto simp: json_str.simps(2) split: if_splits)
  next
    case False
    show ?thesis
    proof (cases "c = CHR 0x5C")
      case True
      with 2(4) obtain y t z where "json_escape s = Some (y, t)" "json_str t = Some (z, r)"
        by (auto simp: json_str.simps(2) split: option.splits)
      with True False 2(1) json_escape_shorter show ?thesis by fastforce
    next
      case c: False
      show ?thesis
      proof (cases "utf8_len (c # s) = 0")
        case True
        with 2(2,4) c False show ?thesis
          by (auto simp: json_str.simps(2) simp del: utf8_len.simps split: if_splits)
      next
        case n: False
        with 2(4) c False obtain z where "json_str (drop (utf8_len (c # s)) (c # s)) = Some (z, r)"
          by (auto simp: json_str.simps(2) simp del: utf8_len.simps split: if_splits)
        from 2(3) [OF _ _ _ n this] c False show ?thesis by (simp del: utf8_len.simps)
      qed
    qed
  qed
qed simp

lemma skip_ws_length: "length (skip_ws s) \<le> length s"
  by (rule length_dropWhile_le)

lemma skip_ws_shorter: "skip_ws s = c # t \<Longrightarrow> length t < length s"
  using skip_ws_length [of s] by simp

definition shortens :: "'a reader \<Rightarrow> bool" where
  "shortens f \<longleftrightarrow> (\<forall>d s x r. f d s = Some (x, r) \<longrightarrow> length r < length s)"

lemma shortensD: "shortens f \<Longrightarrow> f d s = Some (x, r) \<Longrightarrow> length r < length s"
  by (simp add: shortens_def)

lemma value_step_shortens:
  assumes "shortens el" and "shortens mem"
  shows "shortens (value_step el mem)"
  unfolding shortens_def
proof (intro allI impI)
  fix d s x r
  assume a: "value_step el mem d s = Some (x, r)"
  then obtain c t where s: "s = c # t" by (cases s) (auto simp: value_step_def)
  have w: "length (skip_ws t) \<le> length t" by (rule skip_ws_length)
  show "length r < length s"
  proof (cases "c = CHR ''['' \<or> c = CHR ''{''")
    case True
    with a w s show ?thesis
      by (auto simp: value_step_def split: if_splits list.splits
          dest!: shortensD [OF assms(1)] shortensD [OF assms(2)])
  next
    case False
    have "length r < length s" if "json_num s = Some (y, r)" for y
      using json_num_append [OF that] by (cases y) auto
    with False a s show ?thesis
      by (auto simp: value_step_def split: if_splits dest!: json_str_shorter)
  qed
qed

lemma more_step_shorter:
  assumes "shortens f" and "more_step cl f d item r = Some (x, r')"
  shows "length r' < length r"
proof -
  obtain c t where t: "skip_ws r = c # t"
    using assms(2) by (cases "skip_ws r") (auto simp: more_step_def)
  then have "length t < length r" by (rule skip_ws_shorter)
  with t assms(2) skip_ws_length [of t] show ?thesis
    by (auto simp: more_step_def split: if_splits dest!: shortensD [OF assms(1)])
qed

lemma elems_step_shortens:
  assumes "shortens val" and "shortens el"
  shows "shortens (elems_step val el)"
  unfolding shortens_def elems_step_def
  by (auto split: option.splits dest!: shortensD [OF assms(1)] more_step_shorter [OF assms(2)])

lemma members_step_shortens:
  assumes "shortens val" and "shortens mem"
  shows "shortens (members_step val mem)"
  unfolding shortens_def
proof (intro allI impI)
  fix d s x r
  assume "members_step val mem d s = Some (x, r)"
  then obtain q t0 k r0 t1 v r1 y where "s = q # t0" "json_str t0 = Some (k, r0)"
    "skip_ws r0 = CHR '':'' # t1" "val d (skip_ws t1) = Some (v, r1)"
    "more_step CHR ''}'' mem d y r1 = Some (x, r)"
    by (auto simp: members_step_def split: list.splits if_splits option.splits prod.splits)
  moreover from this have "length r0 < length t0" "length t1 < length r0" "length r1 < length (skip_ws t1)"
    "length r < length r1"
    using json_str_shorter skip_ws_shorter shortensD [OF assms(1)] more_step_shorter [OF assms(2)]
    by blast+
  ultimately show "length r < length s" using skip_ws_length [of t1] by simp
qed

lemma readers_shorten: "shortens (json_value n) \<and> shortens (json_elems n) \<and> shortens (json_members n)"
proof (induction n)
  case 0
  show ?case by (simp add: shortens_def)
next
  case (Suc n)
  then show ?case
    by (simp add: value_step_shortens elems_step_shortens members_step_shortens)
qed

text \<open>Two readers that agree on all texts up to a length.\<close>

definition agree :: "nat \<Rightarrow> 'a reader \<Rightarrow> 'a reader \<Rightarrow> bool" where
  "agree m f g \<longleftrightarrow> (\<forall>d s. length s \<le> m \<longrightarrow> f d s = g d s)"

lemma value_step_agree:
  assumes "agree m el el'" and "agree m mem mem'"
  shows "agree (Suc m) (value_step el mem) (value_step el' mem')"
  unfolding agree_def
proof (intro allI impI)
  fix d :: nat and s :: string
  assume l: "length s \<le> Suc m"
  show "value_step el mem d s = value_step el' mem' d s"
  proof (cases s)
    case (Cons c t)
    with l skip_ws_length [of t] have "length (skip_ws t) \<le> m" by simp
    with assms have "el k (skip_ws t) = el' k (skip_ws t)" "mem k (skip_ws t) = mem' k (skip_ws t)" for k
      by (simp_all add: agree_def)
    then show ?thesis by (simp only: value_step_def Cons list.case)
  qed (simp add: value_step_def)
qed

lemma more_step_agree:
  assumes "agree m f f'" and "length r \<le> Suc m"
  shows "more_step cl f d item r = more_step cl f' d item r"
proof (cases "skip_ws r")
  case (Cons c t)
  then have "length (skip_ws t) \<le> m"
    using skip_ws_shorter [OF Cons] skip_ws_length [of t] assms(2) by simp
  with Cons assms show ?thesis by (simp add: more_step_def agree_def)
qed (unfold more_step_def, simp only: list.case)

lemma elems_step_agree:
  assumes "agree (Suc m) val val'" and "agree m el el'" and "shortens val'"
  shows "agree (Suc m) (elems_step val el) (elems_step val' el')"
  unfolding agree_def
proof (intro allI impI)
  fix d :: nat and s :: string
  assume l: "length s \<le> Suc m"
  then have v: "val d s = val' d s" using assms(1) by (simp add: agree_def)
  have "more_step cl el d y r = more_step cl el' d y r" if "val' d s = Some (x, r)" for cl y x r
    using shortensD [OF assms(3) that] l by (intro more_step_agree [OF assms(2)]) simp
  with v show "elems_step val el d s = elems_step val' el' d s"
    by (auto simp: elems_step_def split: option.splits)
qed

lemma members_step_agree:
  assumes "agree (Suc m) val val'" and "agree m mem mem'" and "shortens val'"
  shows "agree (Suc m) (members_step val mem) (members_step val' mem')"
  unfolding agree_def
proof (intro allI impI)
  fix d :: nat and s :: string
  assume l: "length s \<le> Suc m"
  have v: "val d (skip_ws t1) = val' d (skip_ws t1) \<and>
      (val' d (skip_ws t1) = Some (x, r) \<longrightarrow>
         more_step cl mem d y r = more_step cl mem' d y r)"
    if "s = q # t0" "json_str t0 = Some (k, r0)" "skip_ws r0 = c # t1" for q t0 k r0 c t1 cl y x r
  proof -
    have t1: "length (skip_ws t1) \<le> m"
      using that l json_str_shorter [OF that(2)] skip_ws_shorter [OF that(3)] skip_ws_length [of t1] by simp
    moreover have "length r \<le> Suc m" if "val' d (skip_ws t1) = Some (x, r)"
      using shortensD [OF assms(3) that] t1 by simp
    ultimately show ?thesis
      using assms(1) more_step_agree [OF assms(2), of r] by (simp add: agree_def)
  qed
  show "members_step val mem d s = members_step val' mem' d s"
    unfolding members_step_def
    by (auto simp del: dropWhile_eq_Nil_conv split: list.splits option.splits dest: v)
qed

lemma json_fuel:
  "(2 * m + 1 \<le> n \<longrightarrow> agree m (json_value n) (json_value (Suc n)))
   \<and> (2 * m + 2 \<le> n \<longrightarrow> agree m (json_elems n) (json_elems (Suc n)))
   \<and> (2 * m + 2 \<le> n \<longrightarrow> agree m (json_members n) (json_members (Suc n)))"
proof (induction n arbitrary: m)
  case (Suc n)
  show ?case
  proof (cases m)
    case 0
    have "agree 0 (value_step a b) (value_step a' b')" for a b a' b'
      by (simp add: agree_def value_step_def)
    moreover have "agree 0 (members_step a b) (members_step a' b')" for a b a' b'
      by (simp add: agree_def members_step_def)
    moreover have "json_value n d [] = None" for n d
      by (cases n) (simp_all add: value_step_def)
    then have "agree 0 (elems_step (json_value n) b) (elems_step (json_value (Suc n)) b')" for b b'
      by (simp add: agree_def elems_step_def del: json_value.simps)
    ultimately show ?thesis
      using 0 by (auto simp del: json_value.simps(2)) (simp add: json_value.simps(2))
  next
    case m: (Suc k)
    from Suc [of k] Suc [of m] m
    have "2 * m + 1 \<le> Suc n \<longrightarrow> agree k (json_elems n) (json_elems (Suc n)) \<and> agree k (json_members n) (json_members (Suc n))"
      and "2 * m + 2 \<le> Suc n \<longrightarrow> agree m (json_value n) (json_value (Suc n))
         \<and> agree k (json_elems n) (json_elems (Suc n)) \<and> agree k (json_members n) (json_members (Suc n))"
      by simp_all
    then show ?thesis
      using value_step_agree [of k "json_elems n" "json_elems (Suc n)" "json_members n" "json_members (Suc n)"]
        elems_step_agree [of k "json_value n" "json_value (Suc n)" "json_elems n" "json_elems (Suc n)"]
        members_step_agree [of k "json_value n" "json_value (Suc n)" "json_members n" "json_members (Suc n)"]
        readers_shorten [of "Suc n"] m
      by simp
  qed
qed simp

declare json_value.simps(2) [simp del] json_elems.simps(2) [simp del] json_members.simps(2) [simp del]

section \<open>The reader without fuel\<close>

definition read_value :: "json reader" where
  "read_value d s = json_value (json_fuel_for s) d s"
definition read_elems :: "(json \<times> string) list reader" where
  "read_elems d s = json_elems (2 * length s + 2) d s"
definition read_members :: "(string \<times> json \<times> string) list reader" where
  "read_members d s = json_members (2 * length s + 2) d s"

lemma read_stable:
  "2 * length s + 1 \<le> n \<Longrightarrow> json_value n d s = read_value d s"
  "2 * length s + 2 \<le> n \<Longrightarrow> json_elems n d s = read_elems d s"
  "2 * length s + 2 \<le> n \<Longrightarrow> json_members n d s = read_members d s"
proof -
  have v: "json_value (Suc n) d s = json_value n d s" if "2 * length s + 1 \<le> n" for n
    using json_fuel [of "length s" n] that by (auto simp: agree_def)
  have e: "json_elems (Suc n) d s = json_elems n d s" if "2 * length s + 2 \<le> n" for n
    using json_fuel [of "length s" n] that by (auto simp: agree_def)
  have m: "json_members (Suc n) d s = json_members n d s" if "2 * length s + 2 \<le> n" for n
    using json_fuel [of "length s" n] that by (auto simp: agree_def)
  show "2 * length s + 1 \<le> n \<Longrightarrow> json_value n d s = read_value d s"
    unfolding read_value_def json_fuel_for_def
    by (induction n rule: dec_induct) (simp_all add: v)
  show "2 * length s + 2 \<le> n \<Longrightarrow> json_elems n d s = read_elems d s"
    unfolding read_elems_def by (induction n rule: dec_induct) (simp_all add: e)
  show "2 * length s + 2 \<le> n \<Longrightarrow> json_members n d s = read_members d s"
    unfolding read_members_def by (induction n rule: dec_induct) (simp_all add: m)
qed

lemma read_shortens: "shortens read_value" "shortens read_elems" "shortens read_members"
  using readers_shorten
  by (auto simp: shortens_def read_value_def read_elems_def read_members_def)

lemma read_value_eq: "read_value d s = value_step read_elems read_members d s"
proof (cases "length s")
  case (Suc k)
  have "agree k (json_elems (2 * k + 2)) read_elems" "agree k (json_members (2 * k + 2)) read_members"
    by (auto simp: agree_def read_stable)
  from value_step_agree [OF this] have
    "value_step (json_elems (2 * k + 2)) (json_members (2 * k + 2)) d s = value_step read_elems read_members d s"
    by (simp add: agree_def Suc)
  moreover have "read_value d s = json_value (Suc (2 * k + 2)) d s"
    by (rule read_stable(1) [symmetric]) (simp add: Suc)
  ultimately show ?thesis by (simp only: json_value.simps)
qed (simp add: read_value_def json_fuel_for_def value_step_def json_value.simps(2))

lemma read_elems_eq: "read_elems d s = elems_step read_value read_elems d s"
proof (cases "length s")
  case 0
  then show ?thesis
    by (simp add: read_elems_def numeral_2_eq_2 json_elems.simps(2) json_value.simps(2) elems_step_def
        read_value_eq value_step_def)
next
  case (Suc k)
  have "agree (Suc k) (json_value (2 * k + 3)) read_value" "agree k (json_elems (2 * k + 3)) read_elems"
    by (auto simp: agree_def read_stable)
  from elems_step_agree [OF this read_shortens(1)] have
    "elems_step (json_value (2 * k + 3)) (json_elems (2 * k + 3)) d s = elems_step read_value read_elems d s"
    by (simp add: agree_def Suc)
  moreover have "read_elems d s = json_elems (Suc (2 * k + 3)) d s"
    by (rule read_stable(2) [symmetric]) (simp add: Suc)
  ultimately show ?thesis by (simp only: json_elems.simps)
qed

lemma read_members_eq: "read_members d s = members_step read_value read_members d s"
proof (cases "length s")
  case 0
  then show ?thesis by (simp add: read_members_def numeral_2_eq_2 json_members.simps(2) members_step_def)
next
  case (Suc k)
  have "agree (Suc k) (json_value (2 * k + 3)) read_value" "agree k (json_members (2 * k + 3)) read_members"
    by (auto simp: agree_def read_stable)
  from members_step_agree [OF this read_shortens(1)] have
    "members_step (json_value (2 * k + 3)) (json_members (2 * k + 3)) d s
       = members_step read_value read_members d s"
    by (simp add: agree_def Suc)
  moreover have "read_members d s = json_members (Suc (2 * k + 3)) d s"
    by (rule read_stable(3) [symmetric]) (simp add: Suc)
  ultimately show ?thesis by (simp only: json_members.simps)
qed

lemma json_parse_eq:
  "json_parse s =
     (case read_value 10000 (skip_ws s) of
        None \<Rightarrow> None
      | Some (v, r) \<Rightarrow> if skip_ws r = [] then Some v else None)"
  by (simp add: json_parse_def read_value_def Let_def)

section \<open>Strings read back\<close>

lemma utf8_len_pos_ascii: "(of_char c :: nat) < 0x80 \<Longrightarrow> utf8_len (c # s) = 1"
  by simp

lemma utf8_len_le: "utf8_len s \<le> length s"
  by (cases s) (auto simp: Let_def split: list.splits)

lemma utf8_len_take:
  assumes "utf8_len s = n" and "n \<noteq> 0"
  shows "utf8_len (take n s @ t) = n"
proof (cases s)
  case (Cons a r)
  define x where "x = (of_char a :: nat)"
  consider "x < 0x80" | "0xC2 \<le> x \<and> x \<le> 0xDF" | "0xE0 \<le> x \<and> x \<le> 0xEF" | "0xF0 \<le> x \<and> x \<le> 0xF4"
    using assms Cons by (auto simp: Let_def x_def split: if_splits)
  then show ?thesis
    using assms Cons by cases (auto simp: Let_def x_def [symmetric] split: list.splits if_splits)
qed (use assms in simp)

lemma utf8_len_bounds:
  assumes "\<not> (of_char c :: nat) < 0x80" and "utf8_len (c # s) \<noteq> 0"
  shows "\<exists>t. take (utf8_len (c # s)) (c # s) = c # t \<and> (\<forall>y \<in> set t. utf8_cont y) \<and> t \<noteq> []"
  using assms by (auto simp: Let_def split: list.splits if_splits)

lemma utf8_valid_step: "utf8_valid (c # s) \<longleftrightarrow> utf8_len (c # s) \<noteq> 0 \<and> utf8_valid (drop (utf8_len (c # s)) (c # s))"
  by (subst utf8_valid.simps) simp

lemma utf8_valid_Nil [simp]: "utf8_valid []"
  by (simp add: utf8_valid.simps)

lemma utf8_valid_ascii: "list_all (\<lambda>c. (of_char c :: nat) < 0x80) s \<Longrightarrow> utf8_valid s"
  by (induction s) (auto simp: utf8_valid_step simp del: utf8_len.simps simp: utf8_len_pos_ascii)

lemma hex_digits: "n < 0x10000 \<Longrightarrow>
  hex4 (hex_char (n div 4096) # hex_char (n div 256 mod 16) # hex_char (n div 16 mod 16)
        # hex_char (n mod 16) # r) = Some (n, r)"
proof -
  assume "n < 0x10000"
  then have "n div 4096 < 16" by simp
  moreover have "16 * (n div 16) + n mod 16 = n" "16 * (n div 16 div 16) + n div 16 mod 16 = n div 16"
    "16 * (n div 256 div 16) + n div 256 mod 16 = n div 256"
    by (rule mult_div_mod_eq)+
  moreover have "n div 16 div 16 = n div 256" "n div 256 div 16 = n div 4096"
    by (simp_all flip: div_mult2_eq)
  ultimately have "4096 * (n div 4096) + 256 * (n div 256 mod 16) + 16 * (n div 16 mod 16) + n mod 16 = n"
    by linarith
  with \<open>n div 4096 < 16\<close> show ?thesis by (simp add: hex4_def)
qed

lemma json_escape_u:
  "n < 0x10000 \<Longrightarrow> \<not> (0xD800 \<le> n \<and> n \<le> 0xDFFF) \<Longrightarrow>
   json_escape (tl (u_escape n) @ r) = Some (utf8_encode n, r)"
  by (auto simp: json_escape_def u_escape_def hex_digits)

lemma json_str_u:
  assumes "n < 0x10000" and "\<not> (0xD800 \<le> n \<and> n \<le> 0xDFFF)"
  shows "json_str (u_escape n @ r) = opt_prepend (utf8_encode n) (json_str r)"
proof -
  have u: "u_escape n @ r = CHR 0x5C # (tl (u_escape n) @ r)" by (simp add: u_escape_def)
  show ?thesis unfolding u json_str.simps(2) by (simp add: json_escape_u [OF assms])
qed

lemma json_str_ascii:
  assumes "(of_char c :: nat) < 0x80"
  shows "json_str (quote_ascii c @ r) = opt_prepend [c] (json_str r)"
proof (cases "(of_char c :: nat) < 0x20 \<or> c = CHR ''<'' \<or> c = CHR ''>'' \<or> c = CHR ''&''")
  case True
  have u: "json_str (u_escape (of_char c) @ r) = opt_prepend [c] (json_str r)"
    using assms json_str_u [of "of_char c" r] by (simp add: utf8_encode_def)
  show ?thesis
    by (cases "c \<in> {CHR 0x22, CHR 0x5C, CHR 0x08, CHR 0x0C, CHR 0x0A, CHR 0x0D, CHR 0x09}")
      (use True u in \<open>auto simp: quote_ascii_def json_str.simps(2) json_escape_def\<close>)
next
  case False
  then show ?thesis
    using assms by (auto simp: quote_ascii_def json_str.simps(2) json_escape_def utf8_len_pos_ascii simp del: utf8_len.simps)
qed

lemma utf8_encode_seps: "line_sep = utf8_encode 0x2028" "para_sep = utf8_encode 0x2029"
  by (simp_all add: utf8_encode_def line_sep_def para_sep_def char_of_def bit_0)

lemma json_str_quote_body:
  "utf8_valid s \<Longrightarrow> json_str (quote_body s @ CHR 0x22 # r) = Some (s, r)"
proof (induction s rule: quote_body.induct)
  case 1
  then show ?case by (simp add: json_str.simps(2))
next
  case (2 c s)
  show ?case
  proof (cases "(of_char c :: nat) < 0x80")
    case True
    with 2 show ?thesis
      by (simp add: quote_body.simps(2) json_str_ascii utf8_valid_step utf8_len_pos_ascii del: utf8_len.simps)
  next
    case False
    let ?n = "utf8_len (c # s)"
    from 2(6) have n: "?n \<noteq> 0" and v: "utf8_valid (drop ?n (c # s))"
      using utf8_valid_step by blast+
    have sep: "json_str (u_escape m @ quote_body (drop 3 (c # s)) @ CHR 0x22 # r) = Some (c # s, r)"
      if "take 3 (c # s) = w" "w = utf8_encode m" "m < 0x10000" "\<not> (0xD800 \<le> m \<and> m \<le> 0xDFFF)"
        "hd w = CHR 0xE2" "json_str (quote_body (drop 3 (c # s)) @ CHR 0x22 # r) = Some (drop 3 (c # s), r)"
      for m w
    proof -
      have "utf8_encode m @ drop 3 (c # s) = c # s"
        using that(1,2) append_take_drop_id [of 3 "c # s"] by simp
      with that show ?thesis by (simp add: json_str_u)
    qed
    have 3: "?n = 3" if "c = CHR 0xE2" using n that by (auto simp: Let_def split: list.splits if_splits)
    have hd3: "hd (take 3 (c # s)) = c" by simp
    consider "take 3 (c # s) = line_sep" | "take 3 (c # s) = para_sep"
      | "take 3 (c # s) \<noteq> line_sep" "take 3 (c # s) \<noteq> para_sep" by blast
    then show ?thesis
    proof cases
      case 1
      then have c: "c = CHR 0xE2" using hd3 by (simp add: line_sep_def)
      have "json_str (quote_body (drop 3 (c # s)) @ CHR 0x22 # r) = Some (drop 3 (c # s), r)"
        using 2(3) [OF False n 1] v 3 [OF c] by simp
      from sep [OF 1 utf8_encode_seps(1) _ _ _ this] have
        "json_str (u_escape 0x2028 @ quote_body (drop 3 (c # s)) @ CHR 0x22 # r) = Some (c # s, r)"
        by (simp add: line_sep_def)
      with False n 1 show ?thesis by (simp only: quote_body.simps(2) if_True if_False append_assoc simp_thms)
    next
      case 2
      then have c: "c = CHR 0xE2" using hd3 by (simp add: para_sep_def)
      have ne: "take 3 (c # s) \<noteq> line_sep" using 2 by (simp add: para_sep_def line_sep_def)
      have "json_str (quote_body (drop 3 (c # s)) @ CHR 0x22 # r) = Some (drop 3 (c # s), r)"
        using "2.IH"(4) [OF False n ne 2] v 3 [OF c] by simp
      from sep [OF 2 utf8_encode_seps(2) _ _ _ this] have
        "json_str (u_escape 0x2029 @ quote_body (drop 3 (c # s)) @ CHR 0x22 # r) = Some (c # s, r)"
        by (simp add: para_sep_def)
      with False n 2 ne show ?thesis
        by (simp only: quote_body.simps(2) if_True if_False append_assoc simp_thms)
    next
      case 3
      obtain w where w: "take ?n (c # s) = c # w" using utf8_len_bounds [OF False n] by blast
      let ?t = "quote_body (drop ?n (c # s)) @ CHR 0x22 # r"
      have ih: "json_str ?t = Some (drop ?n (c # s), r)"
        using "2.IH"(5) [OF False n 3] v by simp
      have len: "utf8_len (c # w @ ?t) = ?n"
        using utf8_len_take [OF refl n, of ?t] w by simp
      have tk: "take ?n (c # w @ ?t) = c # w" "drop ?n (c # w @ ?t) = ?t"
        using w utf8_len_le [of "c # s"] by (auto dest: arg_cong [of _ _ length] simp del: utf8_len.simps)
      have c: "c \<noteq> CHR 0x22" "c \<noteq> CHR 0x5C" "\<not> (of_char c :: nat) < 0x20" using False by auto
      have "json_str (c # w @ ?t) = Some ((c # w) @ drop ?n (c # s), r)"
        unfolding json_str.simps(2) len tk ih using c n by (simp del: utf8_len.simps)
      moreover have "(c # w) @ drop ?n (c # s) = c # s"
        using w append_take_drop_id [of ?n "c # s"] by simp
      ultimately show ?thesis
        using False n 3 w by (simp add: quote_body.simps(2) del: utf8_len.simps)
    qed
  qed
qed

section \<open>Numbers read back\<close>

lemma digit_char_val: "of_char (digit_char n) = 48 + n mod 10"
proof -
  have "(48 + n mod 10) mod 256 = 48 + n mod 10" by (rule mod_less) (simp add: less_imp_le)
  then show ?thesis by (simp add: digit_char_def)
qed

lemma digit_char_digit: "is_digit (digit_char n)"
  by (simp add: is_digit_def digit_char_val less_Suc_eq_le [symmetric])

lemma nat_str_digits: "list_all is_digit (nat_str n)"
proof (induction n rule: nat_str.induct)
  case (1 n)
  then show ?case by (cases "n < 10") (auto simp: nat_str.simps [of n] digit_char_digit)
qed

lemma nat_str_ne [simp]: "nat_str n \<noteq> []"
  by (subst nat_str.simps) simp

lemma nat_str_val: "digits_val (nat_str n) = n"
proof (induction n rule: nat_str.induct)
  case (1 n)
  show ?case
  proof (cases "n < 10")
    case True
    then show ?thesis by (subst nat_str.simps) (simp add: digits_val_def digit_char_val)
  next
    case False
    with 1 show ?thesis by (subst nat_str.simps) (simp add: digits_val_def digit_char_val)
  qed
qed

lemma nat_str_head: "\<exists>c t. nat_str n = c # t \<and> (c = CHR ''0'' \<longrightarrow> t = [])"
proof (induction n rule: nat_str.induct)
  case (1 n)
  show ?case
  proof (cases "n < 10")
    case True
    then show ?thesis by (subst nat_str.simps) simp
  next
    case False
    with 1 obtain c t where ct: "nat_str (n div 10) = c # t" "c = CHR ''0'' \<longrightarrow> t = []" by blast
    have "c \<noteq> CHR ''0''"
    proof
      assume "c = CHR ''0''"
      with ct have "digits_val (nat_str (n div 10)) = 0" by (simp add: digits_val_def)
      then show False using False by (simp add: nat_str_val)
    qed
    with False ct show ?thesis by (subst nat_str.simps) simp
  qed
qed

definition delim :: "string \<Rightarrow> bool" where
  "delim r \<longleftrightarrow> (r = [] \<or> hd r \<in> {CHR '','', CHR '']'', CHR ''}''})"

lemma delim_not_digit: "delim r \<Longrightarrow> takeWhile is_digit r = [] \<and> dropWhile is_digit r = r"
  by (cases r) (auto simp: delim_def is_digit_def)

lemma delim_num: "delim r \<Longrightarrow> num_frac r = Some ([], r) \<and> num_exp r = Some ([], r)"
  by (cases r) (auto simp: delim_def num_frac_def num_exp_def)

lemma num_int_nat_str:
  assumes "delim r"
  shows "num_int (nat_str n @ r) = Some (nat_str n, r)"
proof -
  obtain c t where ct: "nat_str n = c # t" "c = CHR ''0'' \<longrightarrow> t = []" using nat_str_head by blast
  have d: "\<forall>x \<in> set (nat_str n). is_digit x" using nat_str_digits by (simp add: list_all_iff)
  then have "takeWhile is_digit (nat_str n @ r) = nat_str n" "dropWhile is_digit (nat_str n @ r) = r"
    using delim_not_digit [OF assms] by simp_all
  with ct d show ?thesis by (auto simp: num_int_def)
qed

lemma digit_not_minus: "is_digit c \<Longrightarrow> c \<noteq> CHR ''-''"
  by (auto simp: is_digit_def)

lemma nat_str_no_minus: "\<exists>c t. nat_str n = c # t \<and> c \<noteq> CHR ''-''"
  using nat_str_digits [of n] digit_not_minus by (cases "nat_str n") auto

lemma json_num_Itoa: "delim r \<Longrightarrow> json_num (Itoa i @ r) = Some (Itoa i, r)"
proof -
  assume r: "delim r"
  have "json_num (nat_str n @ r) = Some (nat_str n, r)" for n
  proof -
    obtain c t where "nat_str n = c # t" "c \<noteq> CHR ''-''" using nat_str_no_minus by blast
    then show ?thesis using num_int_nat_str [OF r, of n] delim_num [OF r] by (simp add: json_num_def)
  qed
  moreover have "json_num (CHR ''-'' # nat_str n @ r) = Some (CHR ''-'' # nat_str n, r)" for n
    using num_int_nat_str [OF r, of n] delim_num [OF r] by (simp add: json_num_def)
  ultimately show ?thesis by (simp add: Itoa_def)
qed

lemma json_int64_Itoa:
  assumes "min_int64 \<le> i" and "i \<le> max_int64"
  shows "json_int64 (Itoa i) = Some i"
proof -
  obtain c t where ct: "nat_str (nat i) = c # t" "c \<noteq> CHR ''-''"
    using nat_str_no_minus by blast
  have p: "HasPrefix (CHR ''-'' # x) ''-''" "TrimPrefix (CHR ''-'' # x) ''-'' = x" for x
    by (simp_all add: HasPrefix_def TrimPrefix_def)
  show ?thesis
  proof (cases "i < 0")
    case True
    with assms show ?thesis
      by (simp add: json_int64_def Itoa_def p nat_str_digits nat_str_val)
  next
    case False
    have "\<not> HasPrefix (nat_str (nat i)) ''-''" using ct by (simp add: HasPrefix_def)
    with False assms show ?thesis
      by (simp add: json_int64_def Itoa_def nat_str_digits nat_str_val TrimPrefix_def)
  qed
qed

section \<open>Compaction leaves printed text alone\<close>

definition plain :: "char \<Rightarrow> bool" where
  "plain c \<longleftrightarrow> c \<notin> {CHR ''<'', CHR ''>'', CHR ''&'', CHR 0xE2, CHR 0x22, CHR 0x5C} \<and> \<not> json_ws c"

lemma compact_plain: "list_all plain w \<Longrightarrow> compact q (w @ r) = w @ compact q r"
  by (induction w) (auto simp: plain_def)

lemma compact_copy:
  "c \<notin> {CHR ''<'', CHR ''>'', CHR ''&'', CHR 0xE2, CHR 0x22, CHR 0x5C} \<Longrightarrow> compact True (c # z) = c # compact True z"
  by simp

lemma plainI: "(of_char c :: nat) \<notin> {60, 62, 38, 226, 34, 92, 32, 9, 10, 13} \<Longrightarrow> plain c"
  by (auto simp: plain_def json_ws_def)

lemma hex_char_plain: "m < 16 \<Longrightarrow> plain (hex_char m)"
  by (rule plainI) (auto simp: hex_char_def)

lemma compact_u_escape:
  assumes "n < 0x10000"
  shows "compact True (u_escape n @ r) = u_escape n @ compact True r"
proof -
  define h where "h = [hex_char (n div 4096), hex_char (n div 256 mod 16), hex_char (n div 16 mod 16), hex_char (n mod 16)]"
  have "n div 4096 < 16" using assms by simp
  then have "list_all plain h" by (simp add: h_def hex_char_plain)
  from compact_plain [OF this, of True r]
  have "compact True (CHR 0x5C # CHR ''u'' # h @ r) = CHR 0x5C # CHR ''u'' # h @ compact True r" by simp
  then show ?thesis by (simp add: u_escape_def h_def)
qed

lemma compact_quote_ascii:
  assumes "(of_char c :: nat) < 0x80"
  shows "compact True (quote_ascii c @ r) = quote_ascii c @ compact True r"
proof -
  have u: "compact True (u_escape (of_char c) @ r) = u_escape (of_char c) @ compact True r"
    by (rule compact_u_escape) (use assms in simp)
  have "c \<noteq> CHR 0xE2" using assms by auto
  with u show ?thesis by (auto simp: quote_ascii_def)
qed

lemma compact_cont:
  assumes "\<forall>y \<in> set w. utf8_cont y"
  shows "compact True (w @ r) = w @ compact True r"
proof -
  have "compact True (y # z) = y # compact True z" if "utf8_cont y" for y z
    by (rule compact_copy) (use that in \<open>auto simp: utf8_cont_def\<close>)
  with assms show ?thesis by (induction w) (simp_all del: compact.simps(2))
qed

lemma compact_quote_body: "compact True (quote_body s @ CHR 0x22 # r) = quote_body s @ CHR 0x22 # compact False r"
proof (induction s rule: quote_body.induct)
  case (2 c s)
  let ?n = "utf8_len (c # s)"
  show ?case
  proof (cases "(of_char c :: nat) < 0x80")
    case True
    with 2 show ?thesis by (simp add: quote_body.simps(2) compact_quote_ascii)
  next
    case False
    show ?thesis
    proof (cases "?n = 0 \<or> take 3 (c # s) = line_sep \<or> take 3 (c # s) = para_sep")
      case True
      with False 2(2,3,4) show ?thesis
        unfolding quote_body.simps(2) by (auto simp: compact_u_escape simp del: utf8_len.simps take_Suc_Cons drop_Suc_Cons)
    next
      case nsep: False
      from utf8_len_bounds [OF False] nsep obtain w where w: "take ?n (c # s) = c # w" "\<forall>y \<in> set w. utf8_cont y"
        by (auto simp del: utf8_len.simps)
      have sp: "c \<notin> {CHR ''<'', CHR ''>'', CHR ''&'', CHR 0x22, CHR 0x5C}" using False by auto
      have sep: "\<not> (c = CHR 0xE2 \<and> take 2 (w @ x) = [CHR 0x80, a])" if "a = CHR 0xA8 \<or> a = CHR 0xA9" for x a
      proof
        assume e: "c = CHR 0xE2 \<and> take 2 (w @ x) = [CHR 0x80, a]"
        with nsep have "?n = 3" by (auto simp: Let_def split: list.splits if_splits)
        with w have "take 3 (c # s) = c # w" "length w = 2"
          using utf8_len_le [of "c # s"] by (auto dest: arg_cong [of _ _ length] simp del: utf8_len.simps)
        with e nsep that show False by (auto simp: line_sep_def para_sep_def)
      qed
      have "compact True (c # w @ x) = c # w @ compact True x" for x
        using sp sep [of "CHR 0xA8" x] sep [of "CHR 0xA9" x] compact_cont [OF w(2), of x]
        by (auto simp del: take_append drop_append)
      with False nsep w(1) 2(5) show ?thesis
        by (simp add: quote_body.simps(2) del: utf8_len.simps compact.simps(2) take_Suc_Cons drop_Suc_Cons)
    qed
  qed
qed simp

section \<open>Encoded values\<close>

text \<open>The text \<open>w\<close> is how the value \<open>j\<close> is printed; \<open>k\<close> bounds its nesting.\<close>

definition encodes :: "nat \<Rightarrow> string \<Rightarrow> json \<Rightarrow> bool" where
  "encodes k w j \<longleftrightarrow>
     (w \<noteq> [] \<and> \<not> json_ws (hd w) \<and> hd w \<noteq> CHR '']'' \<and> hd w \<noteq> CHR ''}'')
     \<and> (\<forall>d r. k \<le> d \<and> delim r \<longrightarrow> read_value d (w @ r) = Some (j, r))
     \<and> (\<forall>r. compact False (w @ r) = w @ compact False r)"

lemma encodesI:
  assumes "w \<noteq> []" and "\<not> json_ws (hd w)" and "hd w \<notin> {CHR '']'', CHR ''}''}"
    and "\<And>d r. k \<le> d \<Longrightarrow> delim r \<Longrightarrow> read_value d (w @ r) = Some (j, r)"
    and "\<And>r. compact False (w @ r) = w @ compact False r"
  shows "encodes k w j"
  using assms by (auto simp: encodes_def)

lemma encodes_read: "encodes k w j \<Longrightarrow> k \<le> d \<Longrightarrow> delim r \<Longrightarrow> read_value d (w @ r) = Some (j, r)"
  by (simp add: encodes_def)

lemma encodes_compact: "encodes k w j \<Longrightarrow> compact False (w @ r) = w @ compact False r"
  by (simp add: encodes_def)

lemma encodes_skip: "encodes k w j \<Longrightarrow> skip_ws (w @ r) = w @ r"
  by (cases w) (auto simp: encodes_def)

lemma encodes_mono: "encodes k w j \<Longrightarrow> k \<le> k' \<Longrightarrow> encodes k' w j"
  by (auto simp: encodes_def)

lemma encodes_parse:
  assumes "encodes k w j" and "k \<le> 10000"
  shows "json_parse w = Some j" and "json_Valid w" and "json_raw w = Some w"
proof -
  show p: "json_parse w = Some j"
    using encodes_read [OF assms, of "[]"] encodes_skip [OF assms(1), of "[]"]
    by (simp add: json_parse_eq delim_def)
  then show v: "json_Valid w" by (simp add: json_Valid_def)
  have "w \<noteq> []" using assms by (simp add: encodes_def)
  with v show "json_raw w = Some w"
    using encodes_compact [OF assms(1), of "[]"] by (simp add: json_raw_def)
qed

named_theorems enc_intros \<open>how printed values are built\<close>

lemma enc_quote [enc_intros]:
  assumes "utf8_valid s"
  shows "encodes 0 (json_quote s) (JStr s)"
proof (rule encodesI)
  fix d r
  show "read_value d (json_quote s @ r) = Some (JStr s, r)"
    using json_str_quote_body [OF assms, of r]
    by (simp add: read_value_eq value_step_def json_quote_def)
  show "compact False (json_quote s @ r) = json_quote s @ compact False r"
    using compact_quote_body [of s r] by (simp add: json_quote_def json_ws_def)
qed (simp_all add: json_quote_def json_ws_def)

lemma Itoa_head: "\<exists>c t. Itoa i = c # t \<and> (c = CHR ''-'' \<or> is_digit c)"
  using nat_str_digits [of "nat i"] by (cases "nat_str (nat i)") (auto simp: Itoa_def)

lemma digit_plain: "is_digit c \<Longrightarrow> plain c"
  by (rule plainI) (auto simp: is_digit_def)

lemma enc_int [enc_intros]: "encodes 0 (Itoa i) (JNum (Itoa i))"
proof -
  obtain c t where ct: "Itoa i = c # t" and c: "c = CHR ''-'' \<or> is_digit c" using Itoa_head by blast
  have sp: "c \<notin> {CHR 0x22, CHR ''['', CHR ''{'', CHR '']'', CHR ''}'', CHR ''t'', CHR ''f'', CHR ''n''}" "\<not> json_ws c"
    using c by (auto simp: is_digit_def json_ws_def)
  have all: "list_all plain (Itoa i)"
    using nat_str_digits digit_plain
    by (auto simp: Itoa_def plain_def json_ws_def list_all_iff)
  show ?thesis
  proof (rule encodesI)
    fix d r
    assume r: "delim r"
    have "\<not> HasPrefix (Itoa i @ r) ''true''" "\<not> HasPrefix (Itoa i @ r) ''false''" "\<not> HasPrefix (Itoa i @ r) ''null''"
      using sp by (simp_all add: ct HasPrefix_def)
    moreover have "json_num (Itoa i @ r) = Some (Itoa i, r)" by (rule json_num_Itoa [OF r])
    ultimately show "read_value d (Itoa i @ r) = Some (JNum (Itoa i), r)"
      using sp by (simp add: read_value_eq value_step_def ct)
  next
    fix r
    show "compact False (Itoa i @ r) = Itoa i @ compact False r"
      by (rule compact_plain [OF all])
  qed (use sp in \<open>simp_all add: ct\<close>)
qed

lemma enc_bool [enc_intros]: "encodes 0 (json_bool b) (JBool b)"
  by (rule encodesI)
    (auto simp: json_bool_def json_ws_def read_value_eq value_step_def HasPrefix_def)

lemma enc_null [enc_intros]: "encodes 0 ''null'' JNull"
  by (rule encodesI)
    (auto simp: json_ws_def read_value_eq value_step_def HasPrefix_def)

lemma delim_cons [simp]: "delim (CHR '','' # r)" "delim (CHR '']'' # r)" "delim (CHR ''}'' # r)"
  by (simp_all add: delim_def)

lemma comma_sep_step: "comma_sep (x # xs) = x @ (if xs = [] then [] else CHR '','' # comma_sep xs)"
  by (cases xs) auto

lemma read_elems_print:
  assumes "vs \<noteq> []" and "\<forall>(j, w) \<in> set vs. encodes k w j" and "k \<le> d"
  shows "read_elems d (comma_sep (map snd vs) @ CHR '']'' # r) = Some (vs, r)"
  using assms
proof (induction vs)
  case (Cons v vs)
  obtain j w where v: "v = (j, w)" by force
  with Cons have e: "encodes k w j" by simp
  have ws: "\<not> json_ws (CHR '','')" "\<not> json_ws (CHR '']'')" by (simp_all add: json_ws_def)
  show ?case
  proof (cases vs)
    case Nil
    with encodes_read [OF e Cons.prems(3), of "CHR '']'' # r"] v ws show ?thesis
      by (simp add: read_elems_eq [of d] elems_step_def more_step_def)
  next
    case vs: (Cons v' vs')
    let ?r = "comma_sep (map snd vs) @ CHR '']'' # r"
    have ih: "read_elems d ?r = Some (vs, r)" using Cons vs by simp
    have "encodes k (snd v') (fst v')" using Cons.prems(2) vs by (auto simp: case_prod_beta)
    then have sk: "skip_ws ?r = ?r"
      using encodes_skip [of k "snd v'" "fst v'"] by (simp add: vs comma_sep_step)
    from encodes_read [OF e Cons.prems(3), of "CHR '','' # ?r"]
    have "read_value d (w @ CHR '','' # ?r) = Some (j, CHR '','' # ?r)" by simp
    moreover have "comma_sep (map snd (v # vs)) @ CHR '']'' # r = w @ CHR '','' # ?r"
      using v vs by (simp add: comma_sep_step [of w])
    ultimately show ?thesis
      using ih sk ws v by (simp only: read_elems_eq [of d "w @ CHR '','' # ?r"])
        (simp add: elems_step_def more_step_def)
  qed
qed simp

lemma compact_comma_sep:
  assumes "\<forall>w \<in> set ws. \<forall>r. compact False (w @ r) = w @ compact False r"
  shows "compact False (comma_sep ws @ r) = comma_sep ws @ compact False r"
  using assms
proof (induction ws)
  case (Cons w ws)
  then show ?case by (cases ws) (simp_all add: comma_sep_step json_ws_def)
qed simp

lemma enc_array:
  assumes "\<forall>(j, w) \<in> set vs. encodes k w j"
  shows "encodes (Suc k) (json_array (map snd vs)) (JArr vs)"
proof (rule encodesI)
  fix d r
  assume d: "Suc k \<le> d"
  show "read_value d (json_array (map snd vs) @ r) = Some (JArr vs, r)"
  proof (cases vs)
    case Nil
    with d show ?thesis by (simp add: read_value_eq value_step_def json_array_def json_ws_def)
  next
    case (Cons v vs')
    let ?t = "comma_sep (map snd vs) @ CHR '']'' # r"
    have e: "encodes k (snd v) (fst v)" using assms Cons by (auto simp: case_prod_beta)
    then obtain c t where ct: "?t = c # t" and c: "\<not> json_ws c" "c \<noteq> CHR '']''"
      by (cases "snd v") (auto simp: Cons comma_sep_step encodes_def)
    have "read_elems (d - 1) ?t = Some (vs, r)"
      by (rule read_elems_print [OF _ assms]) (use Cons d in simp_all)
    with ct c d show ?thesis
      by (simp add: read_value_eq value_step_def json_array_def)
  qed
next
  fix r
  have "\<forall>w \<in> set (map snd vs). \<forall>r. compact False (w @ r) = w @ compact False r"
    using assms encodes_compact by fastforce
  from compact_comma_sep [OF this] show
    "compact False (json_array (map snd vs) @ r) = json_array (map snd vs) @ compact False r"
    by (simp add: json_array_def json_ws_def)
qed (simp_all add: json_array_def json_ws_def)

abbreviation print_member :: "string \<times> json \<times> string \<Rightarrow> string" where
  "print_member m \<equiv> (case m of (n, j, w) \<Rightarrow> json_quote n @ CHR '':'' # w)"

lemma read_member_print:
  assumes "utf8_valid n" and "encodes k w j" and "k \<le> d" and "delim r"
  shows "read_members d (json_quote n @ CHR '':'' # w @ r) = more_step CHR ''}'' read_members d (n, j, w) r"
proof -
  have "json_str (quote_body n @ CHR 0x22 # CHR '':'' # w @ r) = Some (n, CHR '':'' # w @ r)"
    by (rule json_str_quote_body [OF assms(1)])
  moreover have "read_value d (w @ r) = Some (j, r)" by (rule encodes_read [OF assms(2-4)])
  ultimately show ?thesis
    using encodes_skip [OF assms(2), of r]
    unfolding read_members_eq [of d "json_quote n @ CHR '':'' # w @ r"]
    by (simp add: members_step_def json_quote_def json_ws_def)
qed

lemma read_members_print:
  assumes "ms \<noteq> []" and "\<forall>(n, j, w) \<in> set ms. utf8_valid n \<and> encodes k w j" and "k \<le> d"
  shows "read_members d (comma_sep (map print_member ms) @ CHR ''}'' # r) = Some (ms, r)"
  using assms
proof (induction ms)
  case (Cons m ms)
  obtain n j w where m: "m = (n, j, w)" by (cases m)
  with Cons have e: "utf8_valid n" "encodes k w j" by auto
  have ws: "\<not> json_ws (CHR '','')" "\<not> json_ws (CHR ''}'')" by (simp_all add: json_ws_def)
  show ?case
  proof (cases ms)
    case Nil
    with read_member_print [OF e Cons.prems(3), of "CHR ''}'' # r"] m ws show ?thesis
      by (simp add: more_step_def)
  next
    case ms: (Cons m' ms')
    let ?r = "comma_sep (map print_member ms) @ CHR ''}'' # r"
    have ih: "read_members d ?r = Some (ms, r)" using Cons ms by auto
    have sk: "skip_ws ?r = ?r"
      by (cases m') (simp add: ms comma_sep_step json_quote_def json_ws_def)
    have "comma_sep (map print_member (m # ms)) @ CHR ''}'' # r = json_quote n @ CHR '':'' # w @ CHR '','' # ?r"
      using ms by (simp add: m comma_sep_step [of "json_quote n @ CHR '':'' # w"])
    with read_member_print [OF e Cons.prems(3), of "CHR '','' # ?r"] ih sk ws m show ?thesis
      by (simp add: more_step_def)
  qed
qed simp

lemma enc_object:
  assumes "\<forall>(n, j, w) \<in> set ms. utf8_valid n \<and> encodes k w j"
  shows "encodes (Suc k) (json_object (map (\<lambda>(n, j, w). (n, w)) ms)) (JObj ms)"
proof -
  have o: "json_object (map (\<lambda>(n, j, w). (n, w)) ms) = CHR ''{'' # comma_sep (map print_member ms) @ ''}''"
    by (simp add: json_object_def case_prod_beta' comp_def)
  show ?thesis
  proof (rule encodesI)
    fix d r
    assume d: "Suc k \<le> d"
    show "read_value d (json_object (map (\<lambda>(n, j, w). (n, w)) ms) @ r) = Some (JObj ms, r)"
    proof (cases ms)
      case Nil
      with d show ?thesis by (simp add: read_value_eq value_step_def json_object_def json_ws_def)
    next
      case (Cons m ms')
      let ?t = "comma_sep (map print_member ms) @ CHR ''}'' # r"
      obtain t where ct: "?t = CHR 0x22 # t"
        by (cases m) (simp add: Cons comma_sep_step json_quote_def)
      have "read_members (d - 1) ?t = Some (ms, r)"
        by (rule read_members_print [OF _ assms]) (use Cons d in simp_all)
      with ct d show ?thesis by (simp add: read_value_eq value_step_def o json_ws_def)
    qed
  next
    fix r
    have "compact False (json_quote n @ CHR '':'' # w @ r) = json_quote n @ CHR '':'' # w @ compact False r"
      if "encodes k w j" for n w j r
      using compact_quote_body [of n "CHR '':'' # w @ r"] encodes_compact [OF that, of r]
      by (simp add: json_quote_def json_ws_def)
    then have "\<forall>w \<in> set (map print_member ms). \<forall>r. compact False (w @ r) = w @ compact False r"
      using assms by fastforce
    from compact_comma_sep [OF this] show
      "compact False (json_object (map (\<lambda>(n, j, w). (n, w)) ms) @ r) = json_object (map (\<lambda>(n, j, w). (n, w)) ms) @ compact False r"
      by (simp add: o json_ws_def)
  qed (simp_all add: o json_ws_def)
qed

text \<open>A struct read back: decoding its printed text is decoding its members.\<close>

lemma Unmarshal_object:
  assumes "\<forall>(n, j, w) \<in> set ms. utf8_valid n \<and> encodes k w j" and "k < 10000"
  shows "json_Unmarshal fs (json_object (map (\<lambda>(n, j, w). (n, w)) ms)) r = decode_members fs ms r"
  using encodes_parse(1) [OF enc_object [OF assms(1)]] assms(2)
  by (simp add: json_Unmarshal_def decode_struct_def)

end
