(* ===== verification/WebAuthn.thy ===== *)
theory WebAuthn
  imports Crypto_Keys Json_Roundtrip
begin

text \<open>
  \<^verbatim>\<open>internal/webauthn/types.go\<close> and \<^verbatim>\<open>internal/webauthn/verify.go\<close>: the parsers of authenticator data,
  COSE keys and attestation objects, and the verification of assertions and registrations. Indexing
  and slicing that the code does not guard can panic, which is the result \<open>Panic\<close>; a slice may reach
  into the capacity behind its visible bytes, which the argument \<open>spare\<close> holds. SHA-256, the ASN.1
  reader of signatures and ECDSA verification are the parameter \<open>wa_prims\<close>.

  \<^verbatim>\<open>skipCBORValue\<close> recurses on fuel, one unit per nesting level; \<open>skip_fuel_enough\<close> shows that the fuel
  it is called with never runs out.
\<close>

section \<open>Types\<close>

record wa_prims =
  wp_sha256 :: "bytes \<Rightarrow> bytes"
  wp_asn1_sig :: "bytes \<Rightarrow> (int \<times> int) option"
  wp_ecdsa_Verify :: "PublicKey \<Rightarrow> bytes \<Rightarrow> int \<Rightarrow> int \<Rightarrow> bool"

record Credential =
  cr_CredentialID :: bytes
  cr_PublicKey :: PublicKey
  cr_SignCount :: "32 word"
  cr_AAGUID :: bytes
  cr_CreatedAt :: int

record ClientDataJSON =
  cd_Type :: string
  cd_Challenge :: string
  cd_Origin :: string
  cd_CrossOrigin :: bool

record AuthenticatorData =
  ad_RPIDHash :: bytes
  ad_Flags :: byte
  ad_SignCount :: "32 word"
  ad_AAGUID :: bytes
  ad_CredentialID :: bytes
  ad_PublicKey :: "PublicKey option"

record AssertionData =
  as_CredentialID :: bytes
  as_AuthenticatorData :: bytes
  as_ClientDataJSON :: bytes
  as_Signature :: bytes

definition FlagUP :: byte where "FlagUP = 0x01"
definition FlagUV :: byte where "FlagUV = 0x04"
definition FlagAT :: byte where "FlagAT = 0x40"

datatype wa_error =
    Bad_clientDataJSON
  | AuthData_too_short
  | Attested_too_short
  | CredID_too_short
  | Empty_CBOR
  | Not_a_map nat
  | Truncated_CBOR
  | Unsupported_additional nat
  | Missing_x
  | Missing_y
  | Not_on_curve
  | RPIDHash_mismatch
  | Unexpected_type string
  | Challenge_mismatch
  | Origin_not_allowed string
  | UP_not_set
  | UV_not_set
  | AT_not_set
  | No_public_key
  | Signature_invalid
  | SignCount_not_incremented
  | Attestation_too_short
  | Truncated_key
  | AuthData_not_bytes nat
  | Truncated_authData
  | AuthData_not_found
  | Fuel_exhausted

section \<open>Client data\<close>

definition ClientDataJSON_fields :: "(string \<times> ClientDataJSON field) list" where
  "ClientDataJSON_fields =
     [(''type'', field_str (\<lambda>x r. r\<lparr>cd_Type := x\<rparr>)),
      (''challenge'', field_str (\<lambda>x r. r\<lparr>cd_Challenge := x\<rparr>)),
      (''origin'', field_str (\<lambda>x r. r\<lparr>cd_Origin := x\<rparr>)),
      (''crossOrigin'', field_bool (\<lambda>x r. r\<lparr>cd_CrossOrigin := x\<rparr>))]"

definition ParseClientDataJSON :: "bytes \<Rightarrow> (wa_error, ClientDataJSON) res" where
  "ParseClientDataJSON raw =
     (case json_Unmarshal ClientDataJSON_fields (bytes_str raw)
             \<lparr>cd_Type = [], cd_Challenge = [], cd_Origin = [], cd_CrossOrigin = False\<rparr> of
        None \<Rightarrow> Err Bad_clientDataJSON
      | Some cd \<Rightarrow> Ok cd)"

section \<open>CBOR\<close>

definition cbor_major :: "byte \<Rightarrow> nat" where "cbor_major b = unat (drop_bit 5 b)"
definition cbor_additional :: "byte \<Rightarrow> nat" where "cbor_additional b = unat (b AND 0x1f)"

text \<open>Reading a byte, and reading a big-endian integer from a slice.\<close>

definition at :: "bytes \<Rightarrow> nat \<Rightarrow> (byte \<Rightarrow> ('e, 'a) res) \<Rightarrow> ('e, 'a) res" where
  "at data i f = (case go_index data i of None \<Rightarrow> Panic | Some b \<Rightarrow> f b)"

definition at_be :: "bytes \<Rightarrow> bytes \<Rightarrow> nat \<Rightarrow> nat \<Rightarrow> (nat \<Rightarrow> ('e, 'a) res) \<Rightarrow> ('e, 'a) res" where
  "at_be data spare i w f =
     (case go_slice data spare i (i + w) of None \<Rightarrow> Panic | Some bs \<Rightarrow> f (be_nat bs))"

definition decodeCBORInt :: "bytes \<Rightarrow> (wa_error, int \<times> nat) res" where
  "decodeCBORInt data =
     (if data = [] then Err Empty_CBOR
      else
        at data 0 (\<lambda>b.
          let major = cbor_major b; additional = cbor_additional b;
              finish = (\<lambda>value consumed. Ok (if major = 1 then - 1 - int value else int value, consumed))
          in if additional < 24 then finish additional 1
             else if additional = 24 then
               (if length data < 2 then Err Truncated_CBOR else at data 1 (\<lambda>c. finish (unat c) 2))
             else if additional = 25 then
               (if length data < 3 then Err Truncated_CBOR
                else at_be data [] 1 2 (\<lambda>n. finish n 3))
             else Err (Unsupported_additional additional)))"

text \<open>The loop over the pairs: at most \<open>k\<close> more of them, at position \<open>pos\<close>.\<close>

fun cbor_pairs :: "bytes \<Rightarrow> nat \<Rightarrow> nat \<Rightarrow> (int \<rightharpoonup> bytes) \<Rightarrow> (wa_error, int \<rightharpoonup> bytes) res" where
  "cbor_pairs data 0 pos result = Ok result"
| "cbor_pairs data (Suc k) pos result =
     (if \<not> pos < length data then Ok result
      else
        res_bind (decodeCBORInt (drop pos data)) (\<lambda>(key, n).
          let pos = pos + n in
          if length data \<le> pos then Err Truncated_CBOR
          else
            at data pos (\<lambda>b.
              let valMajor = cbor_major b; valAdditional = cbor_additional b; pos = pos + 1;
                  skip = (if valAdditional < 24 then pos
                          else if valAdditional = 24 then pos + 1
                          else if valAdditional = 25 then pos + 2 else pos);
                  take_bytes = (\<lambda>len pos.
                    if length data < pos + len then Err Truncated_CBOR
                    else cbor_pairs data k (pos + len) (result(key \<mapsto> take len (drop pos data))))
              in if valMajor = 2 then
                   (if valAdditional = 24 then
                      (if length data \<le> pos then Err Truncated_CBOR
                       else at data pos (\<lambda>c. take_bytes (unat c) (pos + 1)))
                    else if valAdditional = 25 then
                      (if length data \<le> pos + 1 then Err Truncated_CBOR
                       else at_be data [] pos 2 (\<lambda>n. take_bytes n (pos + 2)))
                    else take_bytes valAdditional pos)
                 else if valMajor = 0 \<or> valMajor = 1 then cbor_pairs data k skip result
                 else Ok result)))"

definition decodeCBORMap :: "bytes \<Rightarrow> (wa_error, int \<rightharpoonup> bytes) res" where
  "decodeCBORMap data =
     (if data = [] then Err Empty_CBOR
      else
        at data 0 (\<lambda>b.
          let major = cbor_major b; additional = cbor_additional b in
          if major \<noteq> 5 then Err (Not_a_map major)
          else if additional = 24 then
            (if length data \<le> 1 then Err Truncated_CBOR
             else at data 1 (\<lambda>c. cbor_pairs data (unat c) 2 Map.empty))
          else cbor_pairs data additional 1 Map.empty))"

definition parseCOSEKey :: "bytes \<Rightarrow> (wa_error, PublicKey) res" where
  "parseCOSEKey data =
     res_bind (decodeCBORMap data) (\<lambda>m.
       case m (- 2) of
         None \<Rightarrow> Err Missing_x
       | Some xBytes \<Rightarrow>
           if length xBytes \<noteq> 32 then Err Missing_x
           else
             (case m (- 3) of
                None \<Rightarrow> Err Missing_y
              | Some yBytes \<Rightarrow>
                  if length yBytes \<noteq> 32 then Err Missing_y
                  else
                    (let x = int (be_nat xBytes); y = int (be_nat yBytes) in
                     if \<not> IsOnCurve P256 x y then Err Not_on_curve
                     else Ok \<lparr>pub_Curve = P256, pub_X = x, pub_Y = y\<rparr>)))"

section \<open>Authenticator data\<close>

text \<open>\<^verbatim>\<open>55+credIDLen\<close> is a 16-bit sum: the constant takes the type of the other operand.\<close>

definition credID_end :: "nat \<Rightarrow> nat" where
  "credID_end credIDLen = (55 + credIDLen) mod 2 ^ 16"

definition ParseAuthenticatorData :: "bytes \<Rightarrow> (wa_error, AuthenticatorData) res" where
  "ParseAuthenticatorData data =
     (if length data < 37 then Err AuthData_too_short
      else
        at data 32 (\<lambda>flags.
          at_be data [] 33 4 (\<lambda>count.
            let ad = \<lparr>ad_RPIDHash = take 32 data, ad_Flags = flags, ad_SignCount = of_nat count,
                      ad_AAGUID = [], ad_CredentialID = [], ad_PublicKey = None\<rparr>
            in if flags AND FlagAT = 0 then Ok ad
               else if length data < 55 then Err Attested_too_short
               else
                 at_be data [] 53 2 (\<lambda>credIDLen.
                   if length data < 55 + credIDLen then Err CredID_too_short
                   else
                     (case go_slice data [] 55 (credID_end credIDLen) of
                        None \<Rightarrow> Panic
                      | Some credID \<Rightarrow>
                          (case go_slice data [] (credID_end credIDLen) (length data) of
                             None \<Rightarrow> Panic
                           | Some coseKeyData \<Rightarrow>
                               res_bind (parseCOSEKey coseKeyData) (\<lambda>pubKey.
                                 Ok (ad\<lparr>ad_AAGUID := take 16 (drop 37 data), ad_CredentialID := credID,
                                        ad_PublicKey := Some pubKey\<rparr>))))))))"

definition VerifyRPIDHash :: "(bytes \<Rightarrow> bytes) \<Rightarrow> AuthenticatorData \<Rightarrow> string \<Rightarrow> (wa_error, unit) res" where
  "VerifyRPIDHash sha256 authData rpID =
     (if ad_RPIDHash authData \<noteq> sha256 (str_bytes rpID) then Err RPIDHash_mismatch else Ok ())"

section \<open>Assertions\<close>

definition verifyECDSASignature :: "wa_prims \<Rightarrow> PublicKey \<Rightarrow> bytes \<Rightarrow> bytes \<Rightarrow> bool" where
  "verifyECDSASignature pr pub hash sig =
     (case wp_asn1_sig pr sig of None \<Rightarrow> False | Some (r, s) \<Rightarrow> wp_ecdsa_Verify pr pub hash r s)"

definition guard_that :: "bool \<Rightarrow> 'e \<Rightarrow> ('e, unit) res" where
  "guard_that b e = (if b then Ok () else Err e)"

definition VerifyAssertion ::
  "wa_prims \<Rightarrow> AssertionData \<Rightarrow> Credential \<Rightarrow> string \<Rightarrow> string \<Rightarrow> string list
   \<Rightarrow> (wa_error, AuthenticatorData) res"
where
  "VerifyAssertion pr assertion credential expectedChallenge rpID allowedOrigins =
     res_bind (ParseClientDataJSON (as_ClientDataJSON assertion)) (\<lambda>clientData.
     res_bind (guard_that (cd_Type clientData = ''webauthn.get'') (Unexpected_type (cd_Type clientData))) (\<lambda>_.
     res_bind (guard_that (cd_Challenge clientData = expectedChallenge) Challenge_mismatch) (\<lambda>_.
     res_bind (guard_that (list_ex (\<lambda>x. cd_Origin clientData = x) allowedOrigins)
                 (Origin_not_allowed (cd_Origin clientData))) (\<lambda>_.
     res_bind (ParseAuthenticatorData (as_AuthenticatorData assertion)) (\<lambda>authData.
     res_bind (VerifyRPIDHash (wp_sha256 pr) authData rpID) (\<lambda>_.
     res_bind (guard_that (ad_Flags authData AND FlagUP \<noteq> 0) UP_not_set) (\<lambda>_.
     res_bind (guard_that (ad_Flags authData AND FlagUV \<noteq> 0) UV_not_set) (\<lambda>_.
       let clientDataHash = wp_sha256 pr (as_ClientDataJSON assertion);
           verificationData = as_AuthenticatorData assertion @ clientDataHash;
           hash = wp_sha256 pr verificationData
       in res_bind (guard_that (verifyECDSASignature pr (cr_PublicKey credential) hash (as_Signature assertion))
                      Signature_invalid) (\<lambda>_.
          if (ad_SignCount authData \<noteq> 0 \<or> cr_SignCount credential \<noteq> 0)
             \<and> ad_SignCount authData \<le> cr_SignCount credential
          then Err SignCount_not_incremented
          else Ok authData)))))))))"

section \<open>Registrations\<close>

text \<open>The loops of \<^verbatim>\<open>skipCBORValue\<close> over the items of an array or map: the reader of one value, applied
  \<open>n\<close> times.\<close>

primrec skip_times :: "(nat \<Rightarrow> (wa_error, nat) res) \<Rightarrow> nat \<Rightarrow> nat \<Rightarrow> (wa_error, nat) res" where
  "skip_times f 0 pos = Ok pos"
| "skip_times f (Suc n) pos = res_bind (f pos) (skip_times f n)"

fun skip_value :: "nat \<Rightarrow> bytes \<Rightarrow> bytes \<Rightarrow> nat \<Rightarrow> (wa_error, nat) res" where
  "skip_value 0 data spare pos = (if length data \<le> pos then Ok pos else Err Fuel_exhausted)"
| "skip_value (Suc fuel) data spare pos =
     (if length data \<le> pos then Ok pos
      else
        at data pos (\<lambda>b.
          let major = cbor_major b; additional = cbor_additional b; pos = pos + 1;
              body = (\<lambda>len pos.
                if major = 0 \<or> major = 1 then Ok pos
                else if major = 2 \<or> major = 3 then Ok (pos + len)
                else if major = 4 then skip_times (skip_value fuel data spare) len pos
                else if major = 5 then
                  skip_times (\<lambda>p. res_bind (skip_value fuel data spare p) (skip_value fuel data spare)) len pos
                else Ok pos)
          in if additional < 24 then body additional pos
             else if additional = 24 then at data pos (\<lambda>c. body (unat c) (pos + 1))
             else if additional = 25 then at_be data spare pos 2 (\<lambda>n. body n (pos + 2))
             else if additional = 26 then at_be data spare pos 4 (\<lambda>n. body n (pos + 4))
             else body 0 pos))"

definition skipCBORValue :: "bytes \<Rightarrow> bytes \<Rightarrow> nat \<Rightarrow> (wa_error, nat) res" where
  "skipCBORValue data spare pos = skip_value (length data - pos) data spare pos"

text \<open>The value of the \<^verbatim>\<open>authData\<close> key, at \<open>pos\<close>.\<close>

definition extract_value :: "bytes \<Rightarrow> bytes \<Rightarrow> nat \<Rightarrow> (wa_error, bytes) res" where
  "extract_value data spare pos =
     at data pos (\<lambda>b.
       let valMajor = cbor_major b; valAdditional = cbor_additional b; pos = pos + 1;
           finish = (\<lambda>valLen pos.
             if length data < pos + valLen then Err Truncated_authData
             else Ok (take valLen (drop pos data)))
       in if valMajor \<noteq> 2 then Err (AuthData_not_bytes valMajor)
          else if valAdditional = 24 then at data pos (\<lambda>c. finish (unat c) (pos + 1))
          else if valAdditional = 25 then at_be data spare pos 2 (\<lambda>n. finish n (pos + 2))
          else if valAdditional = 26 then at_be data spare pos 4 (\<lambda>n. finish n (pos + 4))
          else finish valAdditional pos)"

fun extract_pairs :: "bytes \<Rightarrow> bytes \<Rightarrow> nat \<Rightarrow> nat \<Rightarrow> (wa_error, bytes) res" where
  "extract_pairs data spare 0 pos = Err AuthData_not_found"
| "extract_pairs data spare (Suc k) pos =
     (if \<not> pos < length data then Err AuthData_not_found
      else
        at data pos (\<lambda>b.
          let keyMajor = cbor_major b; keyAdditional = cbor_additional b in
          if keyMajor \<noteq> 3 then
            res_bind (skipCBORValue data spare pos) (\<lambda>p.
            res_bind (skipCBORValue data spare p) (\<lambda>p.
              extract_pairs data spare k p))
          else
            (let with_key = (\<lambda>keyLen pos.
                   if length data < pos + keyLen then Err Truncated_key
                   else if bytes_str (take keyLen (drop pos data)) = ''authData''
                   then extract_value data spare (pos + keyLen)
                   else
                     res_bind (skipCBORValue data spare (pos + keyLen)) (\<lambda>p.
                       extract_pairs data spare k p))
             in if keyAdditional = 24 then at data (pos + 1) (\<lambda>c. with_key (unat c) (pos + 2))
                else with_key keyAdditional (pos + 1))))"

definition extractAuthDataFromAttestation :: "bytes \<Rightarrow> bytes \<Rightarrow> (wa_error, bytes) res" where
  "extractAuthDataFromAttestation data spare =
     (if length data < 3 then Err Attestation_too_short
      else
        at data 0 (\<lambda>b.
          let major = cbor_major b; additional = cbor_additional b in
          if major \<noteq> 5 then Err (Not_a_map major)
          else if additional = 24 then at data 1 (\<lambda>c. extract_pairs data spare (unat c) 2)
          else extract_pairs data spare additional 1))"

definition VerifyRegistration ::
  "wa_prims \<Rightarrow> bytes \<Rightarrow> bytes \<Rightarrow> bytes \<Rightarrow> string \<Rightarrow> string \<Rightarrow> string list
   \<Rightarrow> (wa_error, AuthenticatorData) res"
where
  "VerifyRegistration pr attestationObject spare clientDataJSON expectedChallenge rpID allowedOrigins =
     res_bind (ParseClientDataJSON clientDataJSON) (\<lambda>clientData.
     res_bind (guard_that (cd_Type clientData = ''webauthn.create'') (Unexpected_type (cd_Type clientData))) (\<lambda>_.
     res_bind (guard_that (cd_Challenge clientData = expectedChallenge) Challenge_mismatch) (\<lambda>_.
     res_bind (guard_that (list_ex (\<lambda>x. cd_Origin clientData = x) allowedOrigins)
                 (Origin_not_allowed (cd_Origin clientData))) (\<lambda>_.
     res_bind (extractAuthDataFromAttestation attestationObject spare) (\<lambda>authDataBytes.
     res_bind (ParseAuthenticatorData authDataBytes) (\<lambda>authData.
     res_bind (VerifyRPIDHash (wp_sha256 pr) authData rpID) (\<lambda>_.
     res_bind (guard_that (ad_Flags authData AND FlagUP \<noteq> 0) UP_not_set) (\<lambda>_.
     res_bind (guard_that (ad_Flags authData AND FlagUV \<noteq> 0) UV_not_set) (\<lambda>_.
     res_bind (guard_that (ad_Flags authData AND FlagAT \<noteq> 0) AT_not_set) (\<lambda>_.
       case ad_PublicKey authData of None \<Rightarrow> Err No_public_key | Some _ \<Rightarrow> Ok authData))))))))))"

definition webauthn_MarshalPublicKey :: "PublicKey \<Rightarrow> bytes option" where
  "webauthn_MarshalPublicKey pub = elliptic_Marshal (pub_Curve pub) (pub_X pub) (pub_Y pub)"

section \<open>Lemmas: panics and fuel\<close>

lemma guard_Ok [simp]: "guard_that b e = Ok () \<longleftrightarrow> b"
  by (simp add: guard_that_def)

lemma guard_bind_Ok [simp]: "res_bind (guard_that b e) f = Ok y \<longleftrightarrow> b \<and> f () = Ok y"
  by (simp add: guard_that_def)

lemma guard_bind_Panic [simp]: "res_bind (guard_that b e) f = Panic \<longleftrightarrow> b \<and> f () = Panic"
  by (simp add: guard_that_def)

lemma at_in: "i < length data \<Longrightarrow> at data i f = f (data ! i)"
  by (simp add: at_def go_index_def)

lemma at_be_in: "i + w \<le> length data \<Longrightarrow> at_be data spare i w f = f (be_nat (take w (drop i data)))"
  by (simp add: at_be_def go_slice_def)

lemma decodeCBORInt_no_panic: "decodeCBORInt data \<noteq> Panic"
  by (auto simp: decodeCBORInt_def at_in at_be_in Let_def)

lemma decodeCBORInt_consumed: "decodeCBORInt data = Ok (k, n) \<Longrightarrow> 1 \<le> n \<and> n \<le> length data"
  by (cases data) (auto simp: decodeCBORInt_def at_in at_be_in Let_def Suc_le_eq split: if_splits)

lemma cbor_pairs_no_panic: "cbor_pairs data k pos m \<noteq> Panic"
proof (induction k arbitrary: pos m)
  case (Suc k)
  show ?case
  proof (cases "decodeCBORInt (drop pos data)")
    case (Ok p)
    then obtain key n where p: "p = (key, n)" by force
    show ?thesis
    proof (cases "pos < length data \<and> pos + n < length data")
      case True
      with Ok p Suc show ?thesis by (auto simp: at_in at_be_in Let_def)
    next
      case False
      with Ok p show ?thesis by auto
    qed
  qed (use decodeCBORInt_no_panic [of "drop pos data"] in auto)
qed simp

lemma decodeCBORMap_no_panic: "decodeCBORMap data \<noteq> Panic"
  by (auto simp: decodeCBORMap_def at_in Let_def cbor_pairs_no_panic)

lemma parseCOSEKey_no_panic: "parseCOSEKey data \<noteq> Panic"
  by (auto simp: parseCOSEKey_def res_bind_Panic_iff decodeCBORMap_no_panic Let_def
      split: option.splits if_splits)

lemma parseCOSEKey_on_curve:
  assumes "parseCOSEKey data = Ok pub"
  shows "pub_Curve pub = P256 \<and> IsOnCurve P256 (pub_X pub) (pub_Y pub)"
proof (cases "decodeCBORMap data")
  case (Ok m)
  with assms show ?thesis
    by (cases "m (- 2)"; cases "m (- 3)") (auto simp: parseCOSEKey_def Let_def split: if_splits)
qed (use assms in \<open>simp_all add: parseCOSEKey_def\<close>)

abbreviation cred_len :: "bytes \<Rightarrow> nat" where
  "cred_len data \<equiv> be_nat (take 2 (drop 53 data))"

lemma cred_len_less: "cred_len data < 65536"
proof -
  have "be_nat (take 2 (drop 53 data)) < 256 ^ length (take 2 (drop 53 data))" by (rule be_nat_less)
  also have "\<dots> \<le> 256 ^ 2" by (rule power_increasing) auto
  finally show ?thesis by simp
qed

lemma credID_slice:
  assumes "55 + n \<le> length data" and "n < 65536"
  shows "go_slice data [] 55 (credID_end n) = (if n < 65481 then Some (take n (drop 55 data)) else None)"
    and "n < 65481 \<Longrightarrow> go_slice data [] (credID_end n) (length data) = Some (drop (55 + n) data)"
  using assms by (cases "n < 65481"; simp add: go_slice_def credID_end_def le_mod_geq)+

text \<open>The parser with its offsets read off: every branch.\<close>

lemma ParseAuthenticatorData_eq:
  "ParseAuthenticatorData data =
     (if length data < 37 then Err AuthData_too_short
      else
        let ad = \<lparr>ad_RPIDHash = take 32 data, ad_Flags = data ! 32,
                  ad_SignCount = of_nat (be_nat (take 4 (drop 33 data))),
                  ad_AAGUID = [], ad_CredentialID = [], ad_PublicKey = None\<rparr>
        in if data ! 32 AND FlagAT = 0 then Ok ad
           else if length data < 55 then Err Attested_too_short
           else if length data < 55 + cred_len data then Err CredID_too_short
           else if 65481 \<le> cred_len data then Panic
           else res_bind (parseCOSEKey (drop (55 + cred_len data) data)) (\<lambda>pubKey.
                  Ok (ad\<lparr>ad_AAGUID := take 16 (drop 37 data),
                         ad_CredentialID := take (cred_len data) (drop 55 data),
                         ad_PublicKey := Some pubKey\<rparr>)))"
proof (cases "length data < 37 \<or> data ! 32 AND FlagAT = 0 \<or> length data < 55 \<or> length data < 55 + cred_len data")
  case True
  then show ?thesis by (auto simp: ParseAuthenticatorData_def at_in at_be_in Let_def)
next
  case False
  with credID_slice [of "cred_len data" data] cred_len_less [of data] show ?thesis
    by (simp add: ParseAuthenticatorData_def at_in at_be_in Let_def)
qed

lemma ParseAuthenticatorData_panic_iff:
  "ParseAuthenticatorData data = Panic \<longleftrightarrow>
     37 \<le> length data \<and> data ! 32 AND FlagAT \<noteq> 0 \<and> 65481 \<le> cred_len data \<and> 55 + cred_len data \<le> length data"
  by (auto simp: ParseAuthenticatorData_eq Let_def res_bind_Panic_iff parseCOSEKey_no_panic)

lemma skip_times_ge:
  "(\<And>p q. f p = Ok q \<Longrightarrow> p \<le> q) \<Longrightarrow> skip_times f n pos = Ok r \<Longrightarrow> pos \<le> r"
  by (induction n arbitrary: pos) (fastforce simp: res_bind_Ok_iff)+

lemma skip_value_ge: "skip_value fuel data spare pos = Ok r \<Longrightarrow> pos \<le> r"
proof (induction fuel arbitrary: pos r)
  case 0
  then show ?case by (auto split: if_splits)
next
  case (Suc fuel)
  have t: "p \<le> q" if "skip_times (skip_value fuel data spare) n p = Ok q" for n p q
    using skip_times_ge [OF Suc.IH that] by simp
  have t2: "p \<le> q"
    if "skip_times (\<lambda>p. res_bind (skip_value fuel data spare p) (skip_value fuel data spare)) n p = Ok q" for n p q
    by (rule skip_times_ge [OF _ that]) (auto simp: res_bind_Ok_iff dest!: Suc.IH)
  from Suc.prems show ?case
    by (auto simp: at_def at_be_def Let_def split: if_splits option.splits dest!: t t2)
qed

lemma skip_times_fuel:
  assumes "\<And>p. p0 \<le> p \<Longrightarrow> f p \<noteq> Err e" and "\<And>p q. f p = Ok q \<Longrightarrow> p \<le> q" and "p0 \<le> pos"
  shows "skip_times f n pos \<noteq> Err e"
  using assms(3)
proof (induction n arbitrary: pos)
  case (Suc n)
  then show ?case using assms(1,2) by (auto simp: res_bind_Err_iff) (meson assms(2) order_trans)
qed simp

text \<open>The recursion of \<^verbatim>\<open>skipCBORValue\<close> ends: nesting cannot be deeper than the bytes that are left.\<close>

lemma skip_fuel_enough: "length data - pos \<le> fuel \<Longrightarrow> skip_value fuel data spare pos \<noteq> Err Fuel_exhausted"
proof (induction fuel arbitrary: pos)
  case (Suc fuel)
  have f: "skip_value fuel data spare p \<noteq> Err Fuel_exhausted" if "Suc pos \<le> p" for p
    using Suc.IH [of p] Suc.prems that by simp
  have f2: "res_bind (skip_value fuel data spare p) (skip_value fuel data spare) \<noteq> Err Fuel_exhausted"
    if "Suc pos \<le> p" for p
    using f [OF that] f that skip_value_ge by (auto simp: res_bind_Err_iff) (meson order_trans f skip_value_ge)
  have t: "skip_times (skip_value fuel data spare) n p \<noteq> Err Fuel_exhausted" if "Suc pos \<le> p" for n p
    by (rule skip_times_fuel [OF f skip_value_ge that])
  have t2: "skip_times (\<lambda>p. res_bind (skip_value fuel data spare p) (skip_value fuel data spare)) n p \<noteq> Err Fuel_exhausted"
    if "Suc pos \<le> p" for n p
    by (rule skip_times_fuel [OF f2 _ that]) (auto simp: res_bind_Ok_iff dest!: skip_value_ge)
  show ?case using t t2 by (auto simp: at_def at_be_def Let_def split: option.splits)
qed simp

section \<open>Lemmas: well-formed input\<close>

text \<open>The canonical COSE key of a P-256 point, authenticator data around it, and an attestation object
  of format \<^verbatim>\<open>none\<close>.\<close>

definition cose_key :: "PublicKey \<Rightarrow> bytes" where
  "cose_key pub =
     [0xa5, 0x01, 0x02, 0x03, 0x26, 0x20, 0x01, 0x21, 0x58, 32] @ be_bytes 32 (nat (pub_X pub))
     @ [0x22, 0x58, 32] @ be_bytes 32 (nat (pub_Y pub))"

lemma pairs_int:
  assumes "drop pos data = k # v # rest"
    and "cbor_major k = 0 \<or> cbor_major k = 1" "cbor_additional k < 24"
    and "cbor_major v = 0 \<or> cbor_major v = 1" "cbor_additional v < 24"
  shows "cbor_pairs data (Suc n) pos m = cbor_pairs data n (pos + 2) m"
proof -
  have l: "Suc pos < length data"
    using arg_cong [OF assms(1), of length] by simp
  have "drop (Suc pos) data = v # rest" using assms(1) by (metis drop_Suc list.sel(3) tl_drop)
  then have v: "data ! Suc pos = v" using l by (metis nth_via_drop)
  show ?thesis using assms l v
    by (auto simp: decodeCBORInt_def at_in Let_def)
qed

lemma pairs_bytes:
  assumes "drop pos data = k # 0x58 # c # bs @ rest" and "length bs = unat c"
    and "cbor_major k = 1" "cbor_additional k < 24"
  shows "cbor_pairs data (Suc n) pos m = cbor_pairs data n (pos + 3 + unat c) (m(- 1 - int (cbor_additional k) \<mapsto> bs))"
proof -
  have l: "length data = pos + 3 + length bs + length rest"
  proof -
    have "pos < length data" using assms(1) by (metis drop_all list.distinct(1) not_le)
    with arg_cong [OF assms(1), of length] show ?thesis by simp
  qed
  have d1: "drop (Suc pos) data = 0x58 # c # bs @ rest" using assms(1) by (metis drop_Suc list.sel(3) tl_drop)
  then have d2: "drop (Suc (Suc pos)) data = c # bs @ rest" by (metis drop_Suc list.sel(3) tl_drop)
  then have d3: "drop (Suc (Suc (Suc pos))) data = bs @ rest" by (metis drop_Suc list.sel(3) tl_drop)
  have v: "data ! Suc pos = 0x58" "data ! Suc (Suc pos) = c"
    using d1 d2 by (metis nth_via_drop)+
  have h: "cbor_major 0x58 = 2" "cbor_additional 0x58 = 24"
    by (simp_all add: cbor_major_def cbor_additional_def)
  have s3: "pos + 3 = Suc (Suc (Suc pos))" by simp
  show ?thesis using assms l v h d3 unfolding s3
    by (simp add: decodeCBORInt_def at_in Let_def add.commute)
qed

lemma be_nat_pub:
  assumes "IsOnCurve P256 x y"
  shows "int (be_nat (be_bytes 32 (nat x))) = x" "int (be_nat (be_bytes 32 (nat y))) = y"
proof -
  have "0 \<le> x" "0 \<le> y" "x < 256 ^ 32" "y < 256 ^ 32"
    using assms by (auto simp: IsOnCurve_def Let_def P256_params_def)
  then show "int (be_nat (be_bytes 32 (nat x))) = x" "int (be_nat (be_bytes 32 (nat y))) = y"
    by (simp_all add: zmod_int)
qed

lemma parse_cose_key:
  assumes "pub_Curve pub = P256" and "IsOnCurve P256 (pub_X pub) (pub_Y pub)"
  shows "parseCOSEKey (cose_key pub) = Ok pub"
proof -
  define x y where "x = be_bytes 32 (nat (pub_X pub))" and "y = be_bytes 32 (nat (pub_Y pub))"
  define d where "d = cose_key pub"
  have lx: "length x = 32" "length y = 32" by (simp_all add: x_def y_def)
  have d: "d = [0xa5, 0x01, 0x02, 0x03, 0x26, 0x20, 0x01, 0x21, 0x58, 32] @ x @ [0x22, 0x58, 32] @ y"
    by (simp add: d_def cose_key_def x_def y_def)
  have h: "cbor_major 0xa5 = 5" "cbor_additional 0xa5 = 5"
    by (simp_all add: cbor_major_def cbor_additional_def)
  have k: "cbor_major 0x21 = 1" "cbor_additional 0x21 = 1" "cbor_major 0x22 = 1" "cbor_additional 0x22 = 2"
    by (simp_all add: cbor_major_def cbor_additional_def)
  have d7: "drop 7 d = 0x21 # 0x58 # 32 # x @ 0x22 # 0x58 # 32 # y" by (simp add: d)
  have d42: "drop 42 d = 0x22 # 0x58 # 32 # y @ []" by (simp add: d lx)
  have p0: "decodeCBORMap d = cbor_pairs d 5 1 Map.empty"
    by (simp add: decodeCBORMap_def d at_in Let_def h)
  have "cbor_pairs d 5 1 Map.empty = cbor_pairs d 4 3 Map.empty"
    using pairs_int [of 1 d "0x01" "0x02" _ 4 Map.empty]
    by (simp add: d cbor_major_def cbor_additional_def numeral_3_eq_3)
  also have "\<dots> = cbor_pairs d 3 5 Map.empty"
    using pairs_int [of 3 d "0x03" "0x26" _ 3 Map.empty] by (simp add: d cbor_major_def cbor_additional_def)
  also have "\<dots> = cbor_pairs d 2 7 Map.empty"
    using pairs_int [of 5 d "0x20" "0x01" _ 2 Map.empty] by (simp add: d cbor_major_def cbor_additional_def)
  also have "\<dots> = cbor_pairs d (Suc (Suc 0)) 7 Map.empty" by (simp only: numeral_2_eq_2)
  also have "\<dots> = cbor_pairs d (Suc 0) 42 [- 2 \<mapsto> x]"
    using pairs_bytes [OF d7, of "Suc 0" Map.empty] by (simp add: lx k del: cbor_pairs.simps)
  also have "\<dots> = cbor_pairs d 0 77 [- 2 \<mapsto> x, - 3 \<mapsto> y]"
    using pairs_bytes [OF d42, of 0 "[- 2 \<mapsto> x]"] by (simp add: lx k del: cbor_pairs.simps)
  finally have "decodeCBORMap d = Ok [- 2 \<mapsto> x, - 3 \<mapsto> y]" using p0 by simp
  then have "parseCOSEKey d = Ok pub"
    using assms be_nat_pub [OF assms(2)] lx by (simp add: parseCOSEKey_def x_def y_def del: be_nat_be_bytes)
  then show ?thesis by (simp add: d_def)
qed

definition auth_data_bytes :: "bytes \<Rightarrow> byte \<Rightarrow> 32 word \<Rightarrow> bytes \<Rightarrow> bytes \<Rightarrow> PublicKey \<Rightarrow> bytes" where
  "auth_data_bytes rpHash flags count aaguid credID pub =
     rpHash @ flags # be_bytes 4 (unat count) @ aaguid @ be_bytes 2 (length credID) @ credID @ cose_key pub"

lemma parse_auth_data_bytes:
  assumes "length rpHash = 32" and "length aaguid = 16" and "length credID < 65481"
    and "flags AND FlagAT \<noteq> 0" and "pub_Curve pub = P256" and "IsOnCurve P256 (pub_X pub) (pub_Y pub)"
  shows "ParseAuthenticatorData (auth_data_bytes rpHash flags count aaguid credID pub) =
     Ok \<lparr>ad_RPIDHash = rpHash, ad_Flags = flags, ad_SignCount = count, ad_AAGUID = aaguid,
         ad_CredentialID = credID, ad_PublicKey = Some pub\<rparr>"
proof -
  define d where "d = auth_data_bytes rpHash flags count aaguid credID pub"
  have d: "d = rpHash @ flags # be_bytes 4 (unat count) @ aaguid @ be_bytes 2 (length credID) @ credID @ cose_key pub"
    by (simp add: d_def auth_data_bytes_def)
  have f: "d ! 32 = flags" using assms(1) by (simp add: d nth_append)
  have c4: "take 4 (drop 33 d) = be_bytes 4 (unat count)" using assms(1) by (simp add: d)
  have "unat count < 256 ^ 4" using unsigned_less [of count] by simp
  then have cnt: "of_nat (be_nat (take 4 (drop 33 d))) = count" unfolding c4 by simp
  have cl: "cred_len d = length credID" using assms(1,2,3) by (simp add: d)
  have 55: "drop 55 d = credID @ cose_key pub" using assms(1,2) by (simp add: d)
  have rest: "take 16 (drop 37 d) = aaguid" "take 32 d = rpHash" using assms(1,2) by (simp_all add: d)
  have key: "drop (55 + length credID) d = cose_key pub" "take (length credID) (drop 55 d) = credID"
  proof -
    have "drop (55 + length credID) d = drop (length credID) (drop 55 d)" by (simp add: add.commute)
    then show "drop (55 + length credID) d = cose_key pub" "take (length credID) (drop 55 d) = credID"
      by (simp_all only: 55) simp_all
  qed
  have len: "length d = 55 + length credID + length (cose_key pub)" using assms(1,2) by (simp add: d)
  have "ParseAuthenticatorData d = Ok \<lparr>ad_RPIDHash = rpHash, ad_Flags = flags, ad_SignCount = count, ad_AAGUID = aaguid,
         ad_CredentialID = credID, ad_PublicKey = Some pub\<rparr>"
    unfolding ParseAuthenticatorData_eq cl f cnt rest key
    using assms(3,4) len by (simp add: parse_cose_key [OF assms(5,6)])
  then show ?thesis by (simp add: d_def)
qed

definition attestation_none :: "bytes \<Rightarrow> bytes" where
  "attestation_none authData =
     0xa3 # 0x63 # str_bytes ''fmt'' @ 0x64 # str_bytes ''none'' @ 0x67 # str_bytes ''attStmt'' @ 0xa0
     # 0x68 # str_bytes ''authData'' @ 0x59 # be_bytes 2 (length authData) @ authData"

lemma extract_attestation_none:
  assumes "length authData < 65536"
  shows "extractAuthDataFromAttestation (attestation_none authData) spare = Ok authData"
proof -
  define d where "d = attestation_none authData"
  have sb: "str_bytes (c # s) = of_nat (of_char c) # str_bytes s" for c s by (simp add: str_bytes_def)
  have d: "d = [0xa3, 0x63, 0x66, 0x6d, 0x74, 0x64, 0x6e, 0x6f, 0x6e, 0x65, 0x67, 0x61, 0x74, 0x74, 0x53, 0x74, 0x6d, 0x74,
     0xa0, 0x68, 0x61, 0x75, 0x74, 0x68, 0x44, 0x61, 0x74, 0x61, 0x59] @ be_bytes 2 (length authData) @ authData"
    by (simp add: d_def attestation_none_def sb)
  have l: "length d = 31 + length authData" by (simp add: d)
  note hs = cbor_major_def cbor_additional_def
  have n: "d ! 0 = 0xa3" "d ! 1 = 0x63" "d ! 5 = 0x64" "d ! 10 = 0x67" "d ! 18 = 0xa0" "d ! 19 = 0x68" "d ! 28 = 0x59"
    by (simp_all add: d)
  have k: "bytes_str (take 3 (drop 2 d)) = ''fmt''" "bytes_str (take 7 (drop 11 d)) = ''attStmt''"
    "bytes_str (take 8 (drop 20 d)) = ''authData''"
    by (simp_all add: d bytes_str_def char_of_def bit_0)
  have n1: "d ! Suc 0 = 0x63" "bytes_str (take 3 (drop (Suc (Suc 0)) d)) = ''fmt''"
    using n(2) k(1) by (simp_all add: numeral_2_eq_2)
  have s5: "skipCBORValue d spare 5 = Ok 10" and s18: "skipCBORValue d spare 18 = Ok 19"
  proof -
    obtain m where m: "length d - 5 = Suc m" using l by (cases "length d - 5") auto
    show "skipCBORValue d spare 5 = Ok 10"
      unfolding skipCBORValue_def m skip_value.simps(2) using l by (simp add: at_in Let_def n hs)
    obtain m where m: "length d - 18 = Suc m" using l by (cases "length d - 18") auto
    show "skipCBORValue d spare 18 = Ok 19"
      unfolding skipCBORValue_def m skip_value.simps(2) using l by (simp add: at_in Let_def n hs)
  qed
  have "take 2 (drop 29 d) = be_bytes 2 (length authData)" "drop 31 d = authData" by (simp_all add: d)
  then have v: "extract_value d spare 28 = Ok authData"
    using l assms by (simp add: extract_value_def at_in at_be_in n hs Let_def)
  have "extract_pairs d spare (Suc 0) 19 = Ok authData"
    using l v k by (simp add: at_in n hs Let_def)
  then have "extract_pairs d spare (Suc (Suc 0)) 10 = Ok authData"
    using l k s18 by (subst extract_pairs.simps(2)) (simp add: at_in n hs Let_def del: extract_pairs.simps)
  then have "extract_pairs d spare (Suc (Suc (Suc 0))) 1 = Ok authData"
    using l k s5 n1 by (subst extract_pairs.simps(2)) (simp add: at_in n hs Let_def del: extract_pairs.simps)
  then have "extract_pairs d spare 3 1 = Ok authData" by (simp only: numeral_3_eq_3)
  then have "extractAuthDataFromAttestation d spare = Ok authData"
    using l by (simp add: extractAuthDataFromAttestation_def at_in n hs Let_def)
  then show ?thesis by (simp add: d_def)
qed

lemma VerifyAssertion_iff:
  "VerifyAssertion pr a cred ch rpID origins = Ok ad \<longleftrightarrow>
     (\<exists>cd. ParseClientDataJSON (as_ClientDataJSON a) = Ok cd \<and> cd_Type cd = ''webauthn.get''
        \<and> cd_Challenge cd = ch \<and> cd_Origin cd \<in> set origins)
     \<and> ParseAuthenticatorData (as_AuthenticatorData a) = Ok ad
     \<and> ad_RPIDHash ad = wp_sha256 pr (str_bytes rpID)
     \<and> ad_Flags ad AND FlagUP \<noteq> 0 \<and> ad_Flags ad AND FlagUV \<noteq> 0
     \<and> verifyECDSASignature pr (cr_PublicKey cred)
         (wp_sha256 pr (as_AuthenticatorData a @ wp_sha256 pr (as_ClientDataJSON a))) (as_Signature a)
     \<and> (ad_SignCount ad = 0 \<and> cr_SignCount cred = 0 \<or> cr_SignCount cred < ad_SignCount ad)"
proof -
  have c: "\<not> ((x \<noteq> 0 \<or> y \<noteq> 0) \<and> x \<le> y) \<longleftrightarrow> (x = 0 \<and> y = 0 \<or> y < x)" for x y :: "32 word"
    by auto
  have r: "VerifyRPIDHash sha ad rpID = Ok () \<longleftrightarrow> ad_RPIDHash ad = sha (str_bytes rpID)" for sha ad
    by (simp add: VerifyRPIDHash_def)
  have ok: "(if b then Err e else Ok y) = Ok z \<longleftrightarrow> \<not> b \<and> y = z" for b and e :: wa_error and y z :: AuthenticatorData
    by simp
  show ?thesis
    unfolding VerifyAssertion_def Let_def
    by (auto simp: res_bind_Ok_iff r list_ex_iff ok c simp del: if_split_eq1 if_split_eq2)
qed

lemma VerifyRegistration_iff:
  "VerifyRegistration pr att spare cdj ch rpID origins = Ok ad \<longleftrightarrow>
     (\<exists>cd. ParseClientDataJSON cdj = Ok cd \<and> cd_Type cd = ''webauthn.create''
        \<and> cd_Challenge cd = ch \<and> cd_Origin cd \<in> set origins)
     \<and> (\<exists>bs. extractAuthDataFromAttestation att spare = Ok bs \<and> ParseAuthenticatorData bs = Ok ad)
     \<and> ad_RPIDHash ad = wp_sha256 pr (str_bytes rpID)
     \<and> ad_Flags ad AND FlagUP \<noteq> 0 \<and> ad_Flags ad AND FlagUV \<noteq> 0 \<and> ad_Flags ad AND FlagAT \<noteq> 0
     \<and> ad_PublicKey ad \<noteq> None"
proof -
  have r: "VerifyRPIDHash sha ad rpID = Ok () \<longleftrightarrow> ad_RPIDHash ad = sha (str_bytes rpID)" for sha ad
    by (simp add: VerifyRPIDHash_def)
  have ok: "(case p of None \<Rightarrow> Err e | Some _ \<Rightarrow> Ok y) = Ok z \<longleftrightarrow> p \<noteq> None \<and> y = z"
    for p :: "PublicKey option" and e :: wa_error and y z :: AuthenticatorData
    by (cases p) auto
  show ?thesis
    unfolding VerifyRegistration_def
    by (auto simp: res_bind_Ok_iff r list_ex_iff ok)
qed

lemma parsed_key_on_curve:
  "ParseAuthenticatorData bs = Ok ad \<Longrightarrow> ad_PublicKey ad = Some pub \<Longrightarrow>
   pub_Curve pub = P256 \<and> IsOnCurve P256 (pub_X pub) (pub_Y pub)"
  by (auto simp: ParseAuthenticatorData_eq Let_def res_bind_Ok_iff parseCOSEKey_on_curve split: if_splits)

lemma parsed_no_key: "ParseAuthenticatorData bs = Ok ad \<Longrightarrow> ad_PublicKey ad = None \<longleftrightarrow> ad_Flags ad AND FlagAT = 0"
  by (auto simp: ParseAuthenticatorData_eq Let_def res_bind_Ok_iff split: if_splits)

text \<open>Client data as a browser prints it.\<close>

definition client_data :: "string \<Rightarrow> string \<Rightarrow> string \<Rightarrow> bytes" where
  "client_data ty ch org =
     str_bytes (json_object [(''type'', json_quote ty), (''challenge'', json_quote ch), (''origin'', json_quote org)])"

lemma parse_client_data:
  assumes "utf8_valid ty" "utf8_valid ch" "utf8_valid org"
  shows "ParseClientDataJSON (client_data ty ch org) =
     Ok \<lparr>cd_Type = ty, cd_Challenge = ch, cd_Origin = org, cd_CrossOrigin = False\<rparr>"
proof -
  define ms where "ms = [(''type'', JStr ty, json_quote ty), (''challenge'', JStr ch, json_quote ch),
     (''origin'', JStr org, json_quote org)]"
  have n: "utf8_valid ''type''" "utf8_valid ''challenge''" "utf8_valid ''origin''"
    by (simp_all add: utf8_valid_ascii)
  have "\<forall>(n, j, w) \<in> set ms. utf8_valid n \<and> encodes 0 w j"
    using assms n by (simp add: ms_def enc_intros)
  from Unmarshal_object [OF this, of ClientDataJSON_fields
      "\<lparr>cd_Type = [], cd_Challenge = [], cd_Origin = [], cd_CrossOrigin = False\<rparr>"]
  show ?thesis
    by (simp add: ms_def ParseClientDataJSON_def client_data_def ClientDataJSON_fields_def find_field_def field_str_def)
qed

section \<open>Properties\<close>

text \<open>C29: An assertion is accepted exactly when every check the WebAuthn ceremony asks for holds: the
  client data is of type \<^verbatim>\<open>webauthn.get\<close> with the expected challenge and an allowed origin, the
  authenticator data parses and names the relying party, the user-present and user-verified flags
  are set, the signature verifies over the authenticator data followed by the hash of the client
  data, and the signature counter has grown (or both counters are zero).\<close>

theorem assertion_accepted_iff:
  "VerifyAssertion pr a cred ch rpID origins = Ok ad \<longleftrightarrow>
     (\<exists>cd. ParseClientDataJSON (as_ClientDataJSON a) = Ok cd \<and> cd_Type cd = ''webauthn.get''
        \<and> cd_Challenge cd = ch \<and> cd_Origin cd \<in> set origins)
     \<and> ParseAuthenticatorData (as_AuthenticatorData a) = Ok ad
     \<and> ad_RPIDHash ad = wp_sha256 pr (str_bytes rpID)
     \<and> ad_Flags ad AND FlagUP \<noteq> 0 \<and> ad_Flags ad AND FlagUV \<noteq> 0
     \<and> verifyECDSASignature pr (cr_PublicKey cred)
         (wp_sha256 pr (as_AuthenticatorData a @ wp_sha256 pr (as_ClientDataJSON a))) (as_Signature a)
     \<and> (ad_SignCount ad = 0 \<and> cr_SignCount cred = 0 \<or> cr_SignCount cred < ad_SignCount ad)"
  by (rule VerifyAssertion_iff)

text \<open>C30: Replay of an accepted assertion: once the counter of the credential has been moved to the
  counter the assertion carried, the same assertion is rejected under every challenge, origin list
  and relying party, unless the authenticator does not count (its counter is zero).\<close>

theorem replayed_assertion_rejected:
  assumes "VerifyAssertion pr a cred ch rpID origins = Ok ad" and "ad_SignCount ad \<noteq> 0"
  shows "VerifyAssertion pr a (cred\<lparr>cr_SignCount := ad_SignCount ad\<rparr>) ch' rpID' origins' \<noteq> Ok ad'"
  using assms by (auto simp: VerifyAssertion_iff)

text \<open>C32: Authenticator data with attested credential data in its canonical encoding (a P-256 key, a
  16-byte AAGUID, a credential identifier of up to 65480 bytes, any flags with AT set) is parsed back
  into exactly its parts.\<close>

theorem authenticator_data_roundtrip:
  assumes "length rpHash = 32" and "length aaguid = 16" and "length credID < 65481"
    and "flags AND FlagAT \<noteq> 0" and "pub_Curve pub = P256" and "IsOnCurve P256 (pub_X pub) (pub_Y pub)"
    and "length (auth_data_bytes rpHash flags count aaguid credID pub) < 65536"
  shows "ParseAuthenticatorData (auth_data_bytes rpHash flags count aaguid credID pub) =
       Ok \<lparr>ad_RPIDHash = rpHash, ad_Flags = flags, ad_SignCount = count, ad_AAGUID = aaguid,
           ad_CredentialID = credID, ad_PublicKey = Some pub\<rparr>
     \<and> extractAuthDataFromAttestation
         (attestation_none (auth_data_bytes rpHash flags count aaguid credID pub)) spare
       = Ok (auth_data_bytes rpHash flags count aaguid credID pub)"
  using parse_auth_data_bytes [OF assms(1-6)] extract_attestation_none [OF assms(7)] by simp

definition P256_G :: PublicKey where
  "P256_G = \<lparr>pub_Curve = P256,
     pub_X = 0x6b17d1f2e12c4247f8bce6e563a440f277037d812deb33a0f4a13945d898c296,
     pub_Y = 0x4fe342e2fe1a7f9b8ee7eb4a7c0f9e162bce33576b315ececbb6406837bf51f5\<rparr>"

lemma P256_G_on_curve: "IsOnCurve P256 (pub_X P256_G) (pub_Y P256_G)"
proof -
  have "pub_Y P256_G * pub_Y P256_G - (pub_X P256_G * pub_X P256_G * pub_X P256_G - 3 * pub_X P256_G + cv_B P256_params)
    = cv_P P256_params * (- 0x12bdd1ad23dfc833dccf5f6141d6bb4a1f365dc1430b0e600b52dd851938d2d6933106a72efbf035fdaf43963b37fd5456e90c6581a8fb7a0d8a46a3629f0458)"
    by (simp add: P256_G_def P256_params_def)
  then have "(pub_Y P256_G * pub_Y P256_G
      - (pub_X P256_G * pub_X P256_G * pub_X P256_G - 3 * pub_X P256_G + cv_B P256_params)) mod cv_P P256_params = 0"
    by (simp only: mod_mult_self1_is_0)
  moreover have "0 \<le> pub_X P256_G" "pub_X P256_G < cv_P P256_params" "0 \<le> pub_Y P256_G"
    "pub_Y P256_G < cv_P P256_params" "pub_X P256_G \<noteq> 0"
    by (simp_all add: P256_G_def P256_params_def)
  ultimately show ?thesis by (simp add: IsOnCurve_def)
qed

theorem authenticator_data_roundtrip_witness:
  "ParseAuthenticatorData (auth_data_bytes (replicate 32 7) 0x45 5 (replicate 16 1) [1, 2, 3] P256_G) =
     Ok \<lparr>ad_RPIDHash = replicate 32 7, ad_Flags = 0x45, ad_SignCount = 5, ad_AAGUID = replicate 16 1,
         ad_CredentialID = [1, 2, 3], ad_PublicKey = Some P256_G\<rparr>"
proof -
  have "pub_Curve P256_G = P256" by (simp add: P256_G_def)
  moreover have "length (auth_data_bytes (replicate 32 7) 0x45 5 (replicate 16 1) [1, 2, 3] P256_G) < 65536"
    by (simp add: auth_data_bytes_def cose_key_def)
  ultimately show ?thesis
    using authenticator_data_roundtrip [of "replicate 32 7" "replicate 16 1" "[1, 2, 3]" "0x45" P256_G 5 "[]"] P256_G_on_curve
    by (simp add: FlagAT_def)
qed

definition demo_prims :: wa_prims where
  "demo_prims = \<lparr>wp_sha256 = (\<lambda>b. replicate 32 7), wp_asn1_sig = (\<lambda>s. Some (1, 1)),
     wp_ecdsa_Verify = (\<lambda>p h r s. p = P256_G)\<rparr>"

definition demo_assertion :: AssertionData where
  "demo_assertion = \<lparr>as_CredentialID = [1], as_AuthenticatorData = replicate 32 7 @ [5, 0, 0, 0, 9],
     as_ClientDataJSON = client_data ''webauthn.get'' ''abc'' ''https://rp'', as_Signature = []\<rparr>"

definition demo_credential :: "32 word \<Rightarrow> Credential" where
  "demo_credential n = \<lparr>cr_CredentialID = [1], cr_PublicKey = P256_G, cr_SignCount = n, cr_AAGUID = [], cr_CreatedAt = 0\<rparr>"

theorem replayed_assertion_rejected_witness:
  "\<exists>ad. VerifyAssertion demo_prims demo_assertion (demo_credential 4) ''abc'' ''rp'' [''https://rp''] = Ok ad
     \<and> VerifyAssertion demo_prims demo_assertion (demo_credential 9) ''abc'' ''rp'' [''https://rp''] \<noteq> Ok ad"
proof -
  define ad where "ad = \<lparr>ad_RPIDHash = replicate 32 7, ad_Flags = 5, ad_SignCount = 9, ad_AAGUID = [],
    ad_CredentialID = [], ad_PublicKey = None\<rparr>"
  have d: "ParseAuthenticatorData (as_AuthenticatorData demo_assertion) = Ok ad"
    by (simp add: demo_assertion_def ParseAuthenticatorData_eq nth_append FlagAT_def ad_def be_nat_def)
  have c: "ParseClientDataJSON (as_ClientDataJSON demo_assertion) =
      Ok \<lparr>cd_Type = ''webauthn.get'', cd_Challenge = ''abc'', cd_Origin = ''https://rp'', cd_CrossOrigin = False\<rparr>"
    unfolding demo_assertion_def by (simp add: parse_client_data utf8_valid_ascii)
  have v: "VerifyAssertion demo_prims demo_assertion (demo_credential 4) ''abc'' ''rp'' [''https://rp''] = Ok ad"
    unfolding VerifyAssertion_iff c d
    by (simp add: ad_def demo_prims_def demo_credential_def FlagUP_def FlagUV_def verifyECDSASignature_def)
  have n: "ad_SignCount ad \<noteq> 0" by (simp add: ad_def)
  have "(demo_credential 4)\<lparr>cr_SignCount := ad_SignCount ad\<rparr> = demo_credential 9"
    by (simp add: demo_credential_def ad_def)
  with replayed_assertion_rejected [OF v n, of "''abc''" "''rp''" "[''https://rp'']" ad] v show ?thesis by auto
qed

end
