(* ===== verification/R2PS_Types.thy ===== *)
theory R2PS_Types
  imports Json_Roundtrip
begin

text \<open>
  \<^verbatim>\<open>pkg/r2ps/types.go\<close>: the messages of the protocol, their JSON field tags and the constants. A
  struct with tags is a record, the table of its fields for decoding, and its encoder. The encoder of
  a struct that holds a \<^verbatim>\<open>json.RawMessage\<close> fails where the raw text is not JSON.
\<close>

section \<open>Requests and responses\<close>

record ServiceRequest =
  sr_Ver :: string
  sr_Nonce :: string
  sr_Iat :: int
  sr_Data :: string
  sr_ClientID :: string
  sr_Context :: string
  sr_Type :: string
  sr_TFASessionID :: string
  sr_JWEHash :: string

definition zero_ServiceRequest :: ServiceRequest where
  "zero_ServiceRequest =
     \<lparr>sr_Ver = [], sr_Nonce = [], sr_Iat = 0, sr_Data = [], sr_ClientID = [], sr_Context = [],
      sr_Type = [], sr_TFASessionID = [], sr_JWEHash = []\<rparr>"

definition ServiceRequest_fields :: "(string \<times> ServiceRequest field) list" where
  "ServiceRequest_fields =
     [(''ver'', field_str (\<lambda>x r. r\<lparr>sr_Ver := x\<rparr>)),
      (''nonce'', field_str (\<lambda>x r. r\<lparr>sr_Nonce := x\<rparr>)),
      (''iat'', field_int64 (\<lambda>x r. r\<lparr>sr_Iat := x\<rparr>)),
      (''data'', field_raw (\<lambda>x r. r\<lparr>sr_Data := x\<rparr>)),
      (''client_id'', field_str (\<lambda>x r. r\<lparr>sr_ClientID := x\<rparr>)),
      (''context'', field_str (\<lambda>x r. r\<lparr>sr_Context := x\<rparr>)),
      (''type'', field_str (\<lambda>x r. r\<lparr>sr_Type := x\<rparr>)),
      (''2fa_session_id'', field_str (\<lambda>x r. r\<lparr>sr_TFASessionID := x\<rparr>)),
      (''jwe_hash'', field_str (\<lambda>x r. r\<lparr>sr_JWEHash := x\<rparr>))]"

definition Unmarshal_ServiceRequest :: "string \<Rightarrow> ServiceRequest option" where
  "Unmarshal_ServiceRequest s = json_Unmarshal ServiceRequest_fields s zero_ServiceRequest"

definition Marshal_ServiceRequest :: "ServiceRequest \<Rightarrow> string option" where
  "Marshal_ServiceRequest r =
     map_option (\<lambda>d. json_object
       ([(''ver'', json_quote (sr_Ver r)), (''nonce'', json_quote (sr_Nonce r)), (''iat'', Itoa (sr_Iat r)),
         (''data'', d), (''client_id'', json_quote (sr_ClientID r)), (''context'', json_quote (sr_Context r)),
         (''type'', json_quote (sr_Type r))]
        @ omit_str ''2fa_session_id'' (sr_TFASessionID r) @ omit_str ''jwe_hash'' (sr_JWEHash r)))
     (json_raw (sr_Data r))"

record ServiceResponse =
  sp_Ver :: string
  sp_Nonce :: string
  sp_Iat :: int
  sp_Data :: string
  sp_Success :: "bool option"

definition zero_ServiceResponse :: ServiceResponse where
  "zero_ServiceResponse = \<lparr>sp_Ver = [], sp_Nonce = [], sp_Iat = 0, sp_Data = [], sp_Success = None\<rparr>"

definition ServiceResponse_fields :: "(string \<times> ServiceResponse field) list" where
  "ServiceResponse_fields =
     [(''ver'', field_str (\<lambda>x r. r\<lparr>sp_Ver := x\<rparr>)),
      (''nonce'', field_str (\<lambda>x r. r\<lparr>sp_Nonce := x\<rparr>)),
      (''iat'', field_int64 (\<lambda>x r. r\<lparr>sp_Iat := x\<rparr>)),
      (''data'', field_raw (\<lambda>x r. r\<lparr>sp_Data := x\<rparr>)),
      (''success'', field_bool_ptr (\<lambda>x r. r\<lparr>sp_Success := x\<rparr>))]"

definition Unmarshal_ServiceResponse :: "string \<Rightarrow> ServiceResponse option" where
  "Unmarshal_ServiceResponse s = json_Unmarshal ServiceResponse_fields s zero_ServiceResponse"

definition Marshal_ServiceResponse :: "ServiceResponse \<Rightarrow> string option" where
  "Marshal_ServiceResponse r =
     map_option (\<lambda>d. json_object
       ([(''ver'', json_quote (sp_Ver r)), (''nonce'', json_quote (sp_Nonce r)), (''iat'', Itoa (sp_Iat r)),
         (''data'', d)]
        @ (case sp_Success r of None \<Rightarrow> [] | Some b \<Rightarrow> [(''success'', json_bool b)])))
     (json_raw (sp_Data r))"

record ErrorResponse =
  er_ErrorCode :: string
  er_ErrorMessage :: string

definition Marshal_ErrorResponse :: "ErrorResponse \<Rightarrow> string" where
  "Marshal_ErrorResponse r =
     json_object [(''error_code'', json_quote (er_ErrorCode r)), (''error_message'', json_quote (er_ErrorMessage r))]"

section \<open>The second factor\<close>

record TFARequestData =
  tfa_Protocol :: string
  tfa_TFAMode :: string
  tfa_State :: string
  tfa_PData :: string
  tfa_Request :: string
  tfa_Authorization :: string
  tfa_AuthorizationType :: string
  tfa_SessionDuration :: int

definition zero_TFARequestData :: TFARequestData where
  "zero_TFARequestData =
     \<lparr>tfa_Protocol = [], tfa_TFAMode = [], tfa_State = [], tfa_PData = [], tfa_Request = [],
      tfa_Authorization = [], tfa_AuthorizationType = [], tfa_SessionDuration = 0\<rparr>"

definition TFARequestData_fields :: "(string \<times> TFARequestData field) list" where
  "TFARequestData_fields =
     [(''protocol'', field_str (\<lambda>x r. r\<lparr>tfa_Protocol := x\<rparr>)),
      (''2fa_mode'', field_str (\<lambda>x r. r\<lparr>tfa_TFAMode := x\<rparr>)),
      (''state'', field_str (\<lambda>x r. r\<lparr>tfa_State := x\<rparr>)),
      (''p_data'', field_str (\<lambda>x r. r\<lparr>tfa_PData := x\<rparr>)),
      (''request'', field_str (\<lambda>x r. r\<lparr>tfa_Request := x\<rparr>)),
      (''authorization'', field_str (\<lambda>x r. r\<lparr>tfa_Authorization := x\<rparr>)),
      (''authorization_type'', field_str (\<lambda>x r. r\<lparr>tfa_AuthorizationType := x\<rparr>)),
      (''session_duration'', field_int64 (\<lambda>x r. r\<lparr>tfa_SessionDuration := x\<rparr>))]"

definition Unmarshal_TFARequestData :: "string \<Rightarrow> TFARequestData option" where
  "Unmarshal_TFARequestData s = json_Unmarshal TFARequestData_fields s zero_TFARequestData"

definition Marshal_TFARequestData :: "TFARequestData \<Rightarrow> string" where
  "Marshal_TFARequestData r =
     json_object
       ([(''protocol'', json_quote (tfa_Protocol r))]
        @ omit_str ''2fa_mode'' (tfa_TFAMode r) @ omit_str ''state'' (tfa_State r)
        @ omit_str ''p_data'' (tfa_PData r) @ omit_str ''request'' (tfa_Request r)
        @ omit_str ''authorization'' (tfa_Authorization r)
        @ omit_str ''authorization_type'' (tfa_AuthorizationType r)
        @ omit_int ''session_duration'' (tfa_SessionDuration r))"

definition tfa_GetProtocol :: "TFARequestData \<Rightarrow> string" where
  "tfa_GetProtocol t = (if tfa_Protocol t \<noteq> [] then tfa_Protocol t else tfa_TFAMode t)"

definition tfa_GetPData :: "TFARequestData \<Rightarrow> string" where
  "tfa_GetPData t = (if tfa_PData t \<noteq> [] then tfa_PData t else tfa_Request t)"

record TFAResponseData =
  tr_PData :: string
  tr_Response :: string
  tr_Message :: string

definition zero_TFAResponseData :: TFAResponseData where
  "zero_TFAResponseData = \<lparr>tr_PData = [], tr_Response = [], tr_Message = []\<rparr>"

definition TFAResponseData_fields :: "(string \<times> TFAResponseData field) list" where
  "TFAResponseData_fields =
     [(''p_data'', field_str (\<lambda>x r. r\<lparr>tr_PData := x\<rparr>)),
      (''response'', field_str (\<lambda>x r. r\<lparr>tr_Response := x\<rparr>)),
      (''message'', field_str (\<lambda>x r. r\<lparr>tr_Message := x\<rparr>))]"

definition Unmarshal_TFAResponseData :: "string \<Rightarrow> TFAResponseData option" where
  "Unmarshal_TFAResponseData s = json_Unmarshal TFAResponseData_fields s zero_TFAResponseData"

definition Marshal_TFAResponseData :: "TFAResponseData \<Rightarrow> string" where
  "Marshal_TFAResponseData r =
     json_object (omit_str ''p_data'' (tr_PData r) @ omit_str ''response'' (tr_Response r)
       @ omit_str ''message'' (tr_Message r))"

definition tr_GetPData :: "TFAResponseData \<Rightarrow> string" where
  "tr_GetPData t = (if tr_PData t \<noteq> [] then tr_PData t else tr_Response t)"

record TFAAuthResponseData =
  ta_SessionID :: string
  ta_TFASessionID :: string
  ta_PData :: string
  ta_Response :: string
  ta_Message :: string
  ta_SessionExpirationTime :: int
  ta_Task :: string

definition zero_TFAAuthResponseData :: TFAAuthResponseData where
  "zero_TFAAuthResponseData =
     \<lparr>ta_SessionID = [], ta_TFASessionID = [], ta_PData = [], ta_Response = [], ta_Message = [],
      ta_SessionExpirationTime = 0, ta_Task = []\<rparr>"

definition TFAAuthResponseData_fields :: "(string \<times> TFAAuthResponseData field) list" where
  "TFAAuthResponseData_fields =
     [(''session_id'', field_str (\<lambda>x r. r\<lparr>ta_SessionID := x\<rparr>)),
      (''2fa_session_id'', field_str (\<lambda>x r. r\<lparr>ta_TFASessionID := x\<rparr>)),
      (''p_data'', field_str (\<lambda>x r. r\<lparr>ta_PData := x\<rparr>)),
      (''response'', field_str (\<lambda>x r. r\<lparr>ta_Response := x\<rparr>)),
      (''message'', field_str (\<lambda>x r. r\<lparr>ta_Message := x\<rparr>)),
      (''session_expiration_time'', field_int64 (\<lambda>x r. r\<lparr>ta_SessionExpirationTime := x\<rparr>)),
      (''task'', field_str (\<lambda>x r. r\<lparr>ta_Task := x\<rparr>))]"

definition Unmarshal_TFAAuthResponseData :: "string \<Rightarrow> TFAAuthResponseData option" where
  "Unmarshal_TFAAuthResponseData s = json_Unmarshal TFAAuthResponseData_fields s zero_TFAAuthResponseData"

definition Marshal_TFAAuthResponseData :: "TFAAuthResponseData \<Rightarrow> string" where
  "Marshal_TFAAuthResponseData r =
     json_object
       (omit_str ''session_id'' (ta_SessionID r) @ omit_str ''2fa_session_id'' (ta_TFASessionID r)
        @ omit_str ''p_data'' (ta_PData r) @ omit_str ''response'' (ta_Response r)
        @ omit_str ''message'' (ta_Message r)
        @ omit_int ''session_expiration_time'' (ta_SessionExpirationTime r)
        @ omit_str ''task'' (ta_Task r))"

definition ta_GetSessionID :: "TFAAuthResponseData \<Rightarrow> string" where
  "ta_GetSessionID t = (if ta_SessionID t \<noteq> [] then ta_SessionID t else ta_TFASessionID t)"

definition ta_GetPData :: "TFAAuthResponseData \<Rightarrow> string" where
  "ta_GetPData t = (if ta_PData t \<noteq> [] then ta_PData t else ta_Response t)"

section \<open>Constants\<close>

definition ProtocolVersion :: string where "ProtocolVersion = ''1.0''"

definition TFAModePassword :: string where "TFAModePassword = ''password''"
definition TFAModeOPAQUE :: string where "TFAModeOPAQUE = ''opaque''"
definition TFAModeFIDO2 :: string where "TFAModeFIDO2 = ''fido2''"

definition StateEvaluate :: string where "StateEvaluate = ''evaluate''"
definition StateFinalize :: string where "StateFinalize = ''finalize''"
definition StateChallenge :: string where "StateChallenge = ''challenge''"
definition StateRegister :: string where "StateRegister = ''register''"

definition Type2FARegistration :: string where "Type2FARegistration = ''2fa_registration''"
definition TypeCreateSession :: string where "TypeCreateSession = ''create_session''"
definition Type2FAUpdate :: string where "Type2FAUpdate = ''2fa_update''"
definition Type2FAAuthenticate :: string where "Type2FAAuthenticate = ''2fa_authenticate''"
definition Type2FAChange :: string where "Type2FAChange = ''2fa_change''"

definition TypeP256Generate :: string where "TypeP256Generate = ''p256_generate''"
definition TypeSignECDSA :: string where "TypeSignECDSA = ''sign_ecdsa''"
definition TypeAgreeECDH :: string where "TypeAgreeECDH = ''agree_ecdh''"
definition TypeHSMListKeys :: string where "TypeHSMListKeys = ''hsm_list_keys''"

definition TypeEUDIWWKAETSI :: string where "TypeEUDIWWKAETSI = ''eudiw_wka_etsi''"
definition TypeEUDIWWIAETSI :: string where "TypeEUDIWWIAETSI = ''eudiw_wia_etsi''"
definition TypeEUDIWWIRevoke :: string where "TypeEUDIWWIRevoke = ''eudiw_wi_revoke''"
definition TypeEUDIWWISuspend :: string where "TypeEUDIWWISuspend = ''eudiw_wi_suspend''"

definition TypRequest :: string where "TypRequest = ''r2ps-request+jwt''"
definition TypResponse :: string where "TypResponse = ''r2ps-response+jwt''"

definition ErrIllegalRequestData :: string where "ErrIllegalRequestData = ''ILLEGAL_REQUEST_DATA''"
definition ErrUnauthorized :: string where "ErrUnauthorized = ''UNAUTHORIZED''"
definition ErrAccessDenied :: string where "ErrAccessDenied = ''ACCESS_DENIED''"
definition ErrIllegalState :: string where "ErrIllegalState = ''ILLEGAL_STATE''"
definition ErrUnsupportedType :: string where "ErrUnsupportedType = ''UNSUPPORTED_REQUEST_TYPE''"
definition ErrServerError :: string where "ErrServerError = ''SERVER_ERROR''"
definition ErrTryLater :: string where "ErrTryLater = ''TRY_LATER''"

lemmas r2ps_type_defs = Type2FARegistration_def TypeCreateSession_def Type2FAUpdate_def
  Type2FAAuthenticate_def Type2FAChange_def TypeP256Generate_def TypeSignECDSA_def TypeAgreeECDH_def
  TypeHSMListKeys_def TypeEUDIWWKAETSI_def TypeEUDIWWIAETSI_def TypeEUDIWWIRevoke_def TypeEUDIWWISuspend_def

lemmas r2ps_state_defs = StateEvaluate_def StateFinalize_def StateChallenge_def StateRegister_def

lemmas r2ps_err_defs = ErrIllegalRequestData_def ErrUnauthorized_def ErrAccessDenied_def
  ErrIllegalState_def ErrUnsupportedType_def ErrServerError_def ErrTryLater_def

section \<open>Wallet attestations\<close>

record EUDIWAttestationRequest =
  ar_KeysToAttest :: "string list"
  ar_Ver :: string

definition EUDIWAttestationRequest_fields :: "(string \<times> EUDIWAttestationRequest field) list" where
  "EUDIWAttestationRequest_fields =
     [(''keys_to_attest'', field_strs ar_KeysToAttest (\<lambda>x r. r\<lparr>ar_KeysToAttest := x\<rparr>)),
      (''ver'', field_str (\<lambda>x r. r\<lparr>ar_Ver := x\<rparr>))]"

definition Unmarshal_EUDIWAttestationRequest :: "string \<Rightarrow> EUDIWAttestationRequest option" where
  "Unmarshal_EUDIWAttestationRequest s =
     json_Unmarshal EUDIWAttestationRequest_fields s \<lparr>ar_KeysToAttest = [], ar_Ver = []\<rparr>"

record StatusListRef =
  sl_Idx :: int
  sl_URI :: string

record StatusObject =
  so_StatusList :: StatusListRef
  so_Exp :: int

definition Marshal_StatusListRef :: "StatusListRef \<Rightarrow> string" where
  "Marshal_StatusListRef r = json_object [(''idx'', Itoa (sl_Idx r)), (''uri'', json_quote (sl_URI r))]"

text \<open>The \<^verbatim>\<open>status\<close> member is a \<^verbatim>\<open>StatusListStatus\<close>, a struct around the reference.\<close>

definition Marshal_StatusListStatus :: "StatusListRef \<Rightarrow> string" where
  "Marshal_StatusListStatus r = json_object [(''status_list'', Marshal_StatusListRef r)]"

definition Marshal_StatusObject :: "StatusObject \<Rightarrow> string" where
  "Marshal_StatusObject r =
     json_object ([(''status'', Marshal_StatusListStatus (so_StatusList r))] @ omit_int ''exp'' (so_Exp r))"

record WKAPayload =
  wka_Iat :: int
  wka_Exp :: int
  wka_AttestedKeys :: "string list"
  wka_KeyStorage :: "string list option"
  wka_UserAuthentication :: "string list option"
  wka_Certification :: string
  wka_WalletLink :: string
  wka_KeyStorageStatus :: StatusObject

text \<open>A nil \<^verbatim>\<open>[]string\<close> (\<open>None\<close>) is encoded as \<^verbatim>\<open>null\<close>.\<close>

definition json_strings :: "string list option \<Rightarrow> string" where
  "json_strings l = (case l of None \<Rightarrow> ''null'' | Some xs \<Rightarrow> json_array (map json_quote xs))"

fun all_some :: "'a option list \<Rightarrow> 'a list option" where
  "all_some [] = Some []"
| "all_some (None # xs) = None"
| "all_some (Some x # xs) = map_option (\<lambda>r. x # r) (all_some xs)"

definition Marshal_WKAPayload :: "WKAPayload \<Rightarrow> string option" where
  "Marshal_WKAPayload p =
     map_option (\<lambda>ks. json_object
       ([(''iat'', Itoa (wka_Iat p)), (''exp'', Itoa (wka_Exp p)), (''attested_keys'', json_array ks),
         (''key_storage'', json_strings (wka_KeyStorage p)),
         (''user_authentication'', json_strings (wka_UserAuthentication p)),
         (''certification'', json_quote (wka_Certification p))]
        @ omit_str ''wallet_link'' (wka_WalletLink p)
        @ [(''key_storage_status'', Marshal_StatusObject (wka_KeyStorageStatus p))]))
     (all_some (map json_raw (wka_AttestedKeys p)))"

text \<open>\<^verbatim>\<open>WalletSolutionCertificationInformation\<close> is an \<^verbatim>\<open>interface{}\<close>: the model keeps the JSON text its
  value is encoded as. \<open>wia_CnfJWK\<close> is the only member of \<^verbatim>\<open>CnfClaim\<close>.\<close>

record WIAPayload =
  wia_Iat :: int
  wia_Exp :: int
  wia_Sub :: string
  wia_WalletName :: string
  wia_WalletVersion :: string
  wia_CertificationInformation :: string
  wia_WalletLink :: string
  wia_ClientStatus :: StatusObject
  wia_CnfJWK :: string

definition Marshal_WIAPayload :: "WIAPayload \<Rightarrow> string option" where
  "Marshal_WIAPayload p =
     map_option (\<lambda>k. json_object
       ([(''iat'', Itoa (wia_Iat p)), (''exp'', Itoa (wia_Exp p)), (''sub'', json_quote (wia_Sub p)),
         (''wallet_name'', json_quote (wia_WalletName p)),
         (''wallet_version'', json_quote (wia_WalletVersion p)),
         (''wallet_solution_certification_information'', wia_CertificationInformation p)]
        @ omit_str ''wallet_link'' (wia_WalletLink p)
        @ [(''client_status'', Marshal_StatusObject (wia_ClientStatus p)),
           (''cnf'', json_object [(''jwk'', k)])]))
     (json_raw (wia_CnfJWK p))"

definition Marshal_WKAResponse :: "string \<Rightarrow> string" where
  "Marshal_WKAResponse jwt = json_object [(''wka'', json_quote jwt)]"

definition Marshal_WIAResponse :: "string \<Rightarrow> string" where
  "Marshal_WIAResponse jwt = json_object [(''wia'', json_quote jwt)]"

text \<open>\<^verbatim>\<open>WIRevokeRequest\<close> and \<^verbatim>\<open>WISuspendRequest\<close>: one member, the reason.\<close>

definition reason_fields :: "(string \<times> string field) list" where
  "reason_fields = [(''reason'', field_str (\<lambda>x r. x))]"

definition Unmarshal_reason :: "string \<Rightarrow> string option" where
  "Unmarshal_reason s = json_Unmarshal reason_fields s []"

definition Marshal_WIRevokeResponse :: "int \<Rightarrow> string \<Rightarrow> string" where
  "Marshal_WIRevokeResponse n msg =
     json_object [(''revoked_indices'', Itoa n), (''message'', json_quote msg)]"

definition Marshal_WISuspendResponse :: "int \<Rightarrow> string \<Rightarrow> string" where
  "Marshal_WISuspendResponse n msg =
     json_object [(''suspended_indices'', Itoa n), (''message'', json_quote msg)]"

section \<open>The messages round-trip\<close>

lemma utf8_names [simp]:
  "utf8_valid ''ver''" "utf8_valid ''nonce''" "utf8_valid ''iat''" "utf8_valid ''data''"
  "utf8_valid ''client_id''" "utf8_valid ''context''" "utf8_valid ''type''" "utf8_valid ''2fa_session_id''"
  "utf8_valid ''jwe_hash''" "utf8_valid ''success''" "utf8_valid ''protocol''" "utf8_valid ''2fa_mode''"
  "utf8_valid ''state''" "utf8_valid ''p_data''" "utf8_valid ''request''" "utf8_valid ''authorization''"
  "utf8_valid ''authorization_type''" "utf8_valid ''session_duration''" "utf8_valid ''response''"
  "utf8_valid ''message''" "utf8_valid ''session_id''" "utf8_valid ''session_expiration_time''"
  "utf8_valid ''task''" "utf8_valid ''reason''"
  by (simp_all add: utf8_valid_ascii)

text \<open>The members an optional field contributes.\<close>

definition opt_mem :: "string \<Rightarrow> string \<Rightarrow> (string \<times> json \<times> string) list" where
  "opt_mem k s = (if s = [] then [] else [(k, JStr s, json_quote s)])"

definition opt_mem_int :: "string \<Rightarrow> int \<Rightarrow> (string \<times> json \<times> string) list" where
  "opt_mem_int k i = (if i = 0 then [] else [(k, JNum (Itoa i), Itoa i)])"

lemma omit_str_members: "omit_str k s = map (\<lambda>(n, j, w). (n, w)) (opt_mem k s)"
  by (simp add: omit_str_def opt_mem_def)

lemma omit_int_members: "omit_int k i = map (\<lambda>(n, j, w). (n, w)) (opt_mem_int k i)"
  by (simp add: omit_int_def opt_mem_int_def)

lemma opt_mem_ok: "utf8_valid k \<Longrightarrow> utf8_valid s \<Longrightarrow> \<forall>(n, j, w) \<in> set (opt_mem k s). utf8_valid n \<and> encodes 0 w j"
  by (simp add: opt_mem_def enc_intros)

lemma opt_mem_int_ok: "utf8_valid k \<Longrightarrow> \<forall>(n, j, w) \<in> set (opt_mem_int k i). utf8_valid n \<and> encodes 0 w j"
  by (simp add: opt_mem_int_def enc_intros)

lemma decode_members_append:
  "decode_members fs (xs @ ys) r =
     (case decode_members fs xs r of None \<Rightarrow> None | Some r' \<Rightarrow> decode_members fs ys r')"
  by (induction fs xs r rule: decode_members.induct) (auto split: option.splits)

lemma decode_opt_mem:
  "map_of fs k = Some (field_str upd) \<Longrightarrow>
   decode_members fs (opt_mem k s) r = Some (if s = [] then r else upd s r)"
  by (simp add: opt_mem_def find_field_def field_str_def)

lemma decode_opt_mem_int:
  "map_of fs k = Some (field_int64 upd) \<Longrightarrow> min_int64 \<le> i \<Longrightarrow> i \<le> max_int64 \<Longrightarrow>
   decode_members fs (opt_mem_int k i) r = Some (if i = 0 then r else upd i r)"
  by (simp add: opt_mem_int_def find_field_def field_int64_def json_int64_Itoa)

text \<open>Strings of a message that came from JSON are UTF-8; the integers fit 64 bits.\<close>

definition request_ok :: "ServiceRequest \<Rightarrow> bool" where
  "request_ok r \<longleftrightarrow>
     utf8_valid (sr_Ver r) \<and> utf8_valid (sr_Nonce r) \<and> utf8_valid (sr_ClientID r)
     \<and> utf8_valid (sr_Context r) \<and> utf8_valid (sr_Type r) \<and> utf8_valid (sr_TFASessionID r)
     \<and> utf8_valid (sr_JWEHash r) \<and> min_int64 \<le> sr_Iat r \<and> sr_Iat r \<le> max_int64"

lemma request_roundtrip:
  assumes "request_ok r" and "encodes k (sr_Data r) j" and "k < 9999"
  shows "\<exists>s. Marshal_ServiceRequest r = Some s \<and> Unmarshal_ServiceRequest s = Some r"
proof -
  define ms where "ms =
    [(''ver'', JStr (sr_Ver r), json_quote (sr_Ver r)), (''nonce'', JStr (sr_Nonce r), json_quote (sr_Nonce r)),
     (''iat'', JNum (Itoa (sr_Iat r)), Itoa (sr_Iat r)), (''data'', j, sr_Data r),
     (''client_id'', JStr (sr_ClientID r), json_quote (sr_ClientID r)),
     (''context'', JStr (sr_Context r), json_quote (sr_Context r)), (''type'', JStr (sr_Type r), json_quote (sr_Type r))]
    @ opt_mem ''2fa_session_id'' (sr_TFASessionID r) @ opt_mem ''jwe_hash'' (sr_JWEHash r)"
  have raw: "json_raw (sr_Data r) = Some (sr_Data r)"
    using encodes_parse(3) [OF assms(2)] assms(3) by simp
  have m: "Marshal_ServiceRequest r = Some (json_object (map (\<lambda>(n, j, w). (n, w)) ms))"
    by (simp add: Marshal_ServiceRequest_def raw ms_def omit_str_members)
  have ok: "\<forall>(n, j, w) \<in> set ms. utf8_valid n \<and> encodes k w j"
    using assms(1,2) opt_mem_ok [of "''2fa_session_id''" "sr_TFASessionID r"] opt_mem_ok [of "''jwe_hash''" "sr_JWEHash r"]
    by (auto simp: ms_def request_ok_def intro: enc_intros encodes_mono [of 0])
  have "decode_members ServiceRequest_fields ms zero_ServiceRequest = Some r"
    using assms(1)
    by (simp add: ms_def decode_members_append decode_opt_mem ServiceRequest_fields_def find_field_def
        field_str_def [abs_def] field_int64_def field_raw_def json_int64_Itoa request_ok_def)
      (cases r, auto simp: zero_ServiceRequest_def)
  with m Unmarshal_object [OF ok, of ServiceRequest_fields] assms(3) show ?thesis
    by (simp add: Unmarshal_ServiceRequest_def)
qed

definition response_ok :: "ServiceResponse \<Rightarrow> bool" where
  "response_ok r \<longleftrightarrow> utf8_valid (sp_Ver r) \<and> utf8_valid (sp_Nonce r) \<and> min_int64 \<le> sp_Iat r \<and> sp_Iat r \<le> max_int64"

lemma response_roundtrip:
  assumes "response_ok r" and "encodes k (sp_Data r) j" and "k < 9999"
  shows "\<exists>s. Marshal_ServiceResponse r = Some s \<and> Unmarshal_ServiceResponse s = Some r"
proof -
  define ms where "ms =
    [(''ver'', JStr (sp_Ver r), json_quote (sp_Ver r)), (''nonce'', JStr (sp_Nonce r), json_quote (sp_Nonce r)),
     (''iat'', JNum (Itoa (sp_Iat r)), Itoa (sp_Iat r)), (''data'', j, sp_Data r)]
    @ (case sp_Success r of None \<Rightarrow> [] | Some b \<Rightarrow> [(''success'', JBool b, json_bool b)])"
  have raw: "json_raw (sp_Data r) = Some (sp_Data r)"
    using encodes_parse(3) [OF assms(2)] assms(3) by simp
  have m: "Marshal_ServiceResponse r = Some (json_object (map (\<lambda>(n, j, w). (n, w)) ms))"
    by (simp add: Marshal_ServiceResponse_def raw ms_def split: option.splits)
  have ok: "\<forall>(n, j, w) \<in> set ms. utf8_valid n \<and> encodes k w j"
    using assms(1,2)
    by (auto simp: ms_def response_ok_def split: option.splits intro: enc_intros encodes_mono [of 0])
  have "decode_members ServiceResponse_fields ms zero_ServiceResponse = Some r"
    using assms(1)
    by (simp add: ms_def decode_members_append ServiceResponse_fields_def find_field_def field_bool_ptr_def
        field_str_def field_int64_def field_raw_def json_int64_Itoa response_ok_def split: option.splits)
      (cases r, auto simp: zero_ServiceResponse_def)
  with m Unmarshal_object [OF ok, of ServiceResponse_fields] assms(3) show ?thesis
    by (simp add: Unmarshal_ServiceResponse_def)
qed

definition tfa_ok :: "TFARequestData \<Rightarrow> bool" where
  "tfa_ok t \<longleftrightarrow> utf8_valid (tfa_Protocol t) \<and> utf8_valid (tfa_TFAMode t) \<and> utf8_valid (tfa_State t)
     \<and> utf8_valid (tfa_PData t) \<and> utf8_valid (tfa_Request t) \<and> utf8_valid (tfa_Authorization t)
     \<and> utf8_valid (tfa_AuthorizationType t)
     \<and> min_int64 \<le> tfa_SessionDuration t \<and> tfa_SessionDuration t \<le> max_int64"

definition tfa_members :: "TFARequestData \<Rightarrow> (string \<times> json \<times> string) list" where
  "tfa_members r =
     [(''protocol'', JStr (tfa_Protocol r), json_quote (tfa_Protocol r))]
     @ opt_mem ''2fa_mode'' (tfa_TFAMode r) @ opt_mem ''state'' (tfa_State r)
     @ opt_mem ''p_data'' (tfa_PData r) @ opt_mem ''request'' (tfa_Request r)
     @ opt_mem ''authorization'' (tfa_Authorization r)
     @ opt_mem ''authorization_type'' (tfa_AuthorizationType r)
     @ opt_mem_int ''session_duration'' (tfa_SessionDuration r)"

lemma Marshal_TFARequestData_members:
  "Marshal_TFARequestData r = json_object (map (\<lambda>(n, j, w). (n, w)) (tfa_members r))"
  by (simp add: Marshal_TFARequestData_def tfa_members_def omit_str_members omit_int_members)

lemma members_okI:
  "(\<And>n j w. (n, j, w) \<in> set ms \<Longrightarrow> utf8_valid n \<and> encodes k w j) \<Longrightarrow>
   \<forall>(n, j, w) \<in> set ms. utf8_valid n \<and> encodes k w j"
  by auto

lemma in_opt_mem: "(n, j, w) \<in> set (opt_mem k s) \<Longrightarrow> n = k \<and> j = JStr s \<and> w = json_quote s"
  by (auto simp: opt_mem_def split: if_splits)

lemma in_opt_mem_int: "(n, j, w) \<in> set (opt_mem_int k i) \<Longrightarrow> n = k \<and> j = JNum (Itoa i) \<and> w = Itoa i"
  by (auto simp: opt_mem_int_def split: if_splits)

lemma tfa_members_ok:
  assumes "tfa_ok r"
  shows "\<forall>(n, j, w) \<in> set (tfa_members r). utf8_valid n \<and> encodes 0 w j"
  using assms
  by (intro members_okI)
    (auto simp: tfa_members_def tfa_ok_def dest!: in_opt_mem in_opt_mem_int intro: enc_intros)

lemma tfa_roundtrip:
  assumes "tfa_ok r"
  shows "Unmarshal_TFARequestData (Marshal_TFARequestData r) = Some r"
proof -
  have "decode_members TFARequestData_fields (tfa_members r) zero_TFARequestData = Some r"
    using assms
    by (simp add: tfa_members_def decode_members_append decode_opt_mem decode_opt_mem_int TFARequestData_fields_def
        find_field_def field_str_def [of _ "JStr x" for x] tfa_ok_def)
      (cases r, auto simp: zero_TFARequestData_def)
  with Unmarshal_object [OF tfa_members_ok [OF assms], of TFARequestData_fields] show ?thesis
    by (simp add: Unmarshal_TFARequestData_def Marshal_TFARequestData_members)
qed

lemma enc_tfa: "tfa_ok r \<Longrightarrow> encodes 1 (Marshal_TFARequestData r) (JObj (tfa_members r))"
  using enc_object [OF tfa_members_ok] by (simp add: Marshal_TFARequestData_members)

definition tr_members :: "TFAResponseData \<Rightarrow> (string \<times> json \<times> string) list" where
  "tr_members r = opt_mem ''p_data'' (tr_PData r) @ opt_mem ''response'' (tr_Response r)
     @ opt_mem ''message'' (tr_Message r)"

definition tr_ok :: "TFAResponseData \<Rightarrow> bool" where
  "tr_ok r \<longleftrightarrow> utf8_valid (tr_PData r) \<and> utf8_valid (tr_Response r) \<and> utf8_valid (tr_Message r)"

lemma tr_members_ok:
  "tr_ok r \<Longrightarrow> \<forall>(n, j, w) \<in> set (tr_members r). utf8_valid n \<and> encodes 0 w j"
  by (intro members_okI) (auto simp: tr_members_def tr_ok_def dest!: in_opt_mem intro: enc_intros)

lemma Marshal_TFAResponseData_members:
  "Marshal_TFAResponseData r = json_object (map (\<lambda>(n, j, w). (n, w)) (tr_members r))"
  by (simp add: Marshal_TFAResponseData_def tr_members_def omit_str_members)

lemma enc_tr: "tr_ok r \<Longrightarrow> encodes 1 (Marshal_TFAResponseData r) (JObj (tr_members r))"
  using enc_object [OF tr_members_ok] by (simp add: Marshal_TFAResponseData_members)

lemma tr_roundtrip:
  assumes "tr_ok r"
  shows "Unmarshal_TFAResponseData (Marshal_TFAResponseData r) = Some r"
proof -
  have "decode_members TFAResponseData_fields (tr_members r) zero_TFAResponseData = Some r"
    by (simp add: tr_members_def decode_members_append decode_opt_mem TFAResponseData_fields_def)
      (cases r, auto simp: zero_TFAResponseData_def)
  with Unmarshal_object [OF tr_members_ok [OF assms], of TFAResponseData_fields] show ?thesis
    by (simp add: Unmarshal_TFAResponseData_def Marshal_TFAResponseData_members)
qed

definition ta_members :: "TFAAuthResponseData \<Rightarrow> (string \<times> json \<times> string) list" where
  "ta_members r =
     opt_mem ''session_id'' (ta_SessionID r) @ opt_mem ''2fa_session_id'' (ta_TFASessionID r)
     @ opt_mem ''p_data'' (ta_PData r) @ opt_mem ''response'' (ta_Response r)
     @ opt_mem ''message'' (ta_Message r)
     @ opt_mem_int ''session_expiration_time'' (ta_SessionExpirationTime r)
     @ opt_mem ''task'' (ta_Task r)"

definition ta_ok :: "TFAAuthResponseData \<Rightarrow> bool" where
  "ta_ok r \<longleftrightarrow> utf8_valid (ta_SessionID r) \<and> utf8_valid (ta_TFASessionID r) \<and> utf8_valid (ta_PData r)
     \<and> utf8_valid (ta_Response r) \<and> utf8_valid (ta_Message r) \<and> utf8_valid (ta_Task r)
     \<and> min_int64 \<le> ta_SessionExpirationTime r \<and> ta_SessionExpirationTime r \<le> max_int64"

lemma ta_members_ok:
  "ta_ok r \<Longrightarrow> \<forall>(n, j, w) \<in> set (ta_members r). utf8_valid n \<and> encodes 0 w j"
  by (intro members_okI)
    (auto simp: ta_members_def ta_ok_def dest!: in_opt_mem in_opt_mem_int intro: enc_intros)

lemma Marshal_TFAAuthResponseData_members:
  "Marshal_TFAAuthResponseData r = json_object (map (\<lambda>(n, j, w). (n, w)) (ta_members r))"
  by (simp add: Marshal_TFAAuthResponseData_def ta_members_def omit_str_members omit_int_members)

lemma enc_ta: "ta_ok r \<Longrightarrow> encodes 1 (Marshal_TFAAuthResponseData r) (JObj (ta_members r))"
  using enc_object [OF ta_members_ok] by (simp add: Marshal_TFAAuthResponseData_members)

lemma ta_roundtrip:
  assumes "ta_ok r"
  shows "Unmarshal_TFAAuthResponseData (Marshal_TFAAuthResponseData r) = Some r"
proof -
  have "decode_members TFAAuthResponseData_fields (ta_members r) zero_TFAAuthResponseData = Some r"
    using assms
    by (simp add: ta_members_def decode_members_append decode_opt_mem decode_opt_mem_int
        TFAAuthResponseData_fields_def ta_ok_def)
      (cases r, auto simp: zero_TFAAuthResponseData_def)
  with Unmarshal_object [OF ta_members_ok [OF assms], of TFAAuthResponseData_fields] show ?thesis
    by (simp add: Unmarshal_TFAAuthResponseData_def Marshal_TFAAuthResponseData_members)
qed

end
