(* ===== verification/WebAuthn_Token.thy ===== *)
theory WebAuthn_Token
  imports R2PS_Types
begin

text \<open>
  \<^verbatim>\<open>internal/webauthn/token.go\<close>: the encrypted stateless challenge token. AES-256-GCM is the parameter
  \<open>aead\<close>, the nonce comes from a random source and the clock reading is an argument. \<open>aead_opens\<close>
  names what the AEAD documents: opening what was sealed with the same key and nonce gives the
  plaintext back, and a sealed text is longer than its plaintext by the 16-byte tag.
\<close>

section \<open>The code\<close>

record ChallengeToken =
  ct_Iat :: int
  ct_ClientID :: string
  ct_Context :: string
  ct_Challenge :: string

definition ChallengeToken_fields :: "(string \<times> ChallengeToken field) list" where
  "ChallengeToken_fields =
     [(''iat'', field_int64 (\<lambda>x r. r\<lparr>ct_Iat := x\<rparr>)),
      (''client_id'', field_str (\<lambda>x r. r\<lparr>ct_ClientID := x\<rparr>)),
      (''context'', field_str (\<lambda>x r. r\<lparr>ct_Context := x\<rparr>)),
      (''challenge'', field_str (\<lambda>x r. r\<lparr>ct_Challenge := x\<rparr>))]"

definition Unmarshal_ChallengeToken :: "string \<Rightarrow> ChallengeToken option" where
  "Unmarshal_ChallengeToken s =
     json_Unmarshal ChallengeToken_fields s \<lparr>ct_Iat = 0, ct_ClientID = [], ct_Context = [], ct_Challenge = []\<rparr>"

definition Marshal_ChallengeToken :: "ChallengeToken \<Rightarrow> string" where
  "Marshal_ChallengeToken t =
     json_object [(''iat'', Itoa (ct_Iat t)), (''client_id'', json_quote (ct_ClientID t)),
       (''context'', json_quote (ct_Context t)), (''challenge'', json_quote (ct_Challenge t))]"

record aead =
  aead_Seal :: "bytes \<Rightarrow> bytes \<Rightarrow> bytes \<Rightarrow> bytes"
  aead_Open :: "bytes \<Rightarrow> bytes \<Rightarrow> bytes \<Rightarrow> bytes option"

definition gcmNonceSize :: nat where "gcmNonceSize = 12"

record TokenEncryptor =
  te_key :: bytes
  te_ttl :: duration

datatype token_error =
    Token_key_length nat
  | Generate_nonce
  | Token_too_short
  | Decrypt_token
  | Unmarshal_token
  | Token_expired

definition NewTokenEncryptor :: "bytes \<Rightarrow> duration \<Rightarrow> (token_error, TokenEncryptor) res" where
  "NewTokenEncryptor key ttl =
     (if length key \<noteq> 32 then Err (Token_key_length (length key))
      else Ok \<lparr>te_key = key, te_ttl = (if ttl = 0 then 60 * Second else ttl)\<rparr>)"

definition token_Encrypt ::
  "aead \<Rightarrow> (nat \<Rightarrow> byte) option \<Rightarrow> TokenEncryptor \<Rightarrow> ChallengeToken \<Rightarrow> (token_error, bytes) res"
where
  "token_Encrypt gcm rnd e token =
     (let plaintext = str_bytes (Marshal_ChallengeToken token) in
      case rnd of
        None \<Rightarrow> Err Generate_nonce
      | Some f \<Rightarrow>
          (let nonce = map f [0..<gcmNonceSize] in
           Ok (nonce @ aead_Seal gcm (te_key e) nonce plaintext)))"

definition token_Decrypt ::
  "aead \<Rightarrow> instant \<Rightarrow> TokenEncryptor \<Rightarrow> bytes \<Rightarrow> (token_error, ChallengeToken) res"
where
  "token_Decrypt gcm now e data =
     (if length data < gcmNonceSize + 1 then Err Token_too_short
      else
        (let nonce = take gcmNonceSize data; ciphertext = drop gcmNonceSize data in
         case aead_Open gcm (te_key e) nonce ciphertext of
           None \<Rightarrow> Err Decrypt_token
         | Some plaintext \<Rightarrow>
             (case Unmarshal_ChallengeToken (bytes_str plaintext) of
                None \<Rightarrow> Err Unmarshal_token
              | Some token \<Rightarrow>
                  (let elapsed = time_Sub now (time_Unix (ct_Iat token)) in
                   if te_ttl e < elapsed then Err Token_expired else Ok token))))"

section \<open>Lemmas\<close>

definition aead_opens :: "aead \<Rightarrow> bool" where
  "aead_opens gcm \<longleftrightarrow>
     (\<forall>k n p. aead_Open gcm k n (aead_Seal gcm k n p) = Some p \<and> length (aead_Seal gcm k n p) = length p + 16)"

definition token_ok :: "ChallengeToken \<Rightarrow> bool" where
  "token_ok t \<longleftrightarrow> utf8_valid (ct_ClientID t) \<and> utf8_valid (ct_Context t) \<and> utf8_valid (ct_Challenge t)
     \<and> min_int64 \<le> ct_Iat t \<and> ct_Iat t \<le> max_int64"

lemma token_json_roundtrip:
  assumes "token_ok t"
  shows "Unmarshal_ChallengeToken (Marshal_ChallengeToken t) = Some t"
proof -
  define ms where "ms = [(''iat'', JNum (Itoa (ct_Iat t)), Itoa (ct_Iat t)),
     (''client_id'', JStr (ct_ClientID t), json_quote (ct_ClientID t)),
     (''context'', JStr (ct_Context t), json_quote (ct_Context t)),
     (''challenge'', JStr (ct_Challenge t), json_quote (ct_Challenge t))]"
  have ok: "\<forall>(n, j, w) \<in> set ms. utf8_valid n \<and> encodes 0 w j"
    using assms by (simp add: ms_def token_ok_def enc_intros utf8_valid_ascii)
  have m: "Marshal_ChallengeToken t = json_object (map (\<lambda>(n, j, w). (n, w)) ms)"
    by (simp add: Marshal_ChallengeToken_def ms_def)
  have "decode_members ChallengeToken_fields ms \<lparr>ct_Iat = 0, ct_ClientID = [], ct_Context = [], ct_Challenge = []\<rparr> = Some t"
    using assms by (simp add: ms_def ChallengeToken_fields_def find_field_def field_str_def field_int64_def
        json_int64_Itoa token_ok_def)
  with Unmarshal_object [OF ok, of ChallengeToken_fields] m show ?thesis
    by (simp add: Unmarshal_ChallengeToken_def)
qed

lemma token_Decrypt_Encrypt:
  assumes "aead_opens gcm" and "token_ok t" and "token_Encrypt gcm rnd e t = Ok c"
  shows "token_Decrypt gcm now e c =
     (if te_ttl e < time_Sub now (time_Unix (ct_Iat t)) then Err Token_expired else Ok t)"
proof -
  obtain f where f: "rnd = Some f" using assms(3) by (cases rnd) (auto simp: token_Encrypt_def)
  define n where "n = map f [0..<gcmNonceSize]"
  have ln: "length n = gcmNonceSize" by (simp add: n_def)
  define s where "s = aead_Seal gcm (te_key e) n (str_bytes (Marshal_ChallengeToken t))"
  have c: "c = n @ s" using assms(3) by (simp add: token_Encrypt_def f n_def s_def Let_def)
  have s: "aead_Open gcm (te_key e) n s = Some (str_bytes (Marshal_ChallengeToken t))" "16 \<le> length s"
    using assms(1) by (simp_all add: aead_opens_def s_def)
  then show ?thesis
    using ln token_json_roundtrip [OF assms(2)] by (auto simp: token_Decrypt_def c Let_def)
qed

lemma NewTokenEncryptor_ttl: "NewTokenEncryptor key ttl = Ok e \<Longrightarrow> 0 \<le> ttl \<Longrightarrow> 0 < te_ttl e"
  by (auto simp: NewTokenEncryptor_def Second_def split: if_splits)

section \<open>Properties\<close>

text \<open>C31: A challenge token that the server encrypted decrypts to itself for as long as its age does
  not exceed the encryptor's lifetime, and is refused as expired afterwards. The token survives the
  JSON encoding inside whatever its strings are, as long as they are UTF-8.\<close>

theorem token_roundtrip_and_expiry:
  assumes "aead_opens gcm" and "NewTokenEncryptor key ttl = Ok e" and "token_ok t"
    and "token_Encrypt gcm rnd e t = Ok c"
    and "- (2 ^ 62) \<le> now" "now < 2 ^ 62" and "0 \<le> ct_Iat t" "ct_Iat t < 2 ^ 32"
  shows "token_Decrypt gcm now e c =
     (if now - Second * ct_Iat t \<le> (if ttl = 0 then 60 * Second else ttl) then Ok t else Err Token_expired)"
proof -
  have "te_ttl e = (if ttl = 0 then 60 * Second else ttl)"
    using assms(2) by (auto simp: NewTokenEncryptor_def split: if_splits)
  moreover have "wrap64 (ct_Iat t + unixToInternal) = ct_Iat t + unixToInternal"
    using assms(7,8) by (intro wrap64_id) (simp_all add: min_int64_def max_int64_def unixToInternal_def)
  then have "time_Unix (ct_Iat t) = Second * ct_Iat t"
    by (simp add: time_Unix_def)
  moreover have "time_Sub now (Second * ct_Iat t) = now - Second * ct_Iat t"
    using assms(5-8) by (simp add: time_Sub_def clamp64_def min_int64_def max_int64_def Second_def)
  ultimately show ?thesis using token_Decrypt_Encrypt [OF assms(1,3,4), of now] by auto
qed

definition toy_aead :: aead where
  "toy_aead = \<lparr>aead_Seal = (\<lambda>k n p. replicate 16 0 @ p),
     aead_Open = (\<lambda>k n c. if length c < 16 then None else Some (drop 16 c))\<rparr>"

theorem token_roundtrip_and_expiry_witness:
  "\<exists>e c t. NewTokenEncryptor (replicate 32 1) 0 = Ok e
     \<and> token_Encrypt toy_aead (Some (\<lambda>_. 7)) e t = Ok c
     \<and> token_Decrypt toy_aead (1000 * Second) e c = Ok t
     \<and> token_Decrypt toy_aead (1061 * Second) e c = Err Token_expired"
proof -
  define e where "e = \<lparr>te_key = replicate 32 (1 :: byte), te_ttl = 60 * Second\<rparr>"
  define t where "t = \<lparr>ct_Iat = 1000, ct_ClientID = ''alice'', ct_Context = ''ctx'', ct_Challenge = ''abc''\<rparr>"
  have a: "aead_opens toy_aead" by (simp add: aead_opens_def toy_aead_def)
  have n: "NewTokenEncryptor (replicate 32 1) 0 = Ok e" by (simp add: NewTokenEncryptor_def e_def)
  have t: "token_ok t" by (simp add: token_ok_def t_def utf8_valid_ascii min_int64_def max_int64_def)
  obtain c where c: "token_Encrypt toy_aead (Some (\<lambda>_. 7)) e t = Ok c" by (simp add: token_Encrypt_def Let_def)
  have "token_Decrypt toy_aead (1000 * Second) e c = Ok t"
    using token_roundtrip_and_expiry [OF a n t c, of "1000 * Second"] by (simp add: t_def Second_def)
  moreover have "token_Decrypt toy_aead (1061 * Second) e c = Err Token_expired"
    using token_roundtrip_and_expiry [OF a n t c, of "1061 * Second"] by (simp add: t_def Second_def)
  ultimately show ?thesis using n c by blast
qed

end
