(* ===== verification/Crypto_Jose.thy ===== *)
theory Crypto_Jose
  imports Crypto_Keys Go_Encoding
begin

text \<open>
  \<^verbatim>\<open>internal/crypto/jws.go\<close> and \<^verbatim>\<open>internal/crypto/jwe.go\<close>: the JWS and JWE calls of the program over
  the go-jose library, the derivation of the 2FA key-encryption keys and the JWE header hash. go-jose
  is the parameter \<open>jose_lib\<close> (one field per library call the code makes), HKDF is the parameter
  \<open>hkdf\<close>, SHA-256 the parameter \<open>sha256\<close>. \<open>jose_signs\<close>, \<open>jose_decrypts\<close> and
  \<open>jose_wraps\<close> name the documented behaviour of the library that theorems about whole exchanges rely on: what
  was signed with a private key parses and verifies with its public key and carries the headers that were set;
  what was encrypted for a key, without extra headers of the key agreement, decrypts with it; a wrapped content key
  is unwrapped with the key it was wrapped with and with no other. Nothing is assumed of the \<^verbatim>\<open>apu\<close> and
  \<^verbatim>\<open>apv\<close> headers that the 1FA mode sets, so no round trip is claimed for that mode.
\<close>

section \<open>The library\<close>

datatype SignatureAlgorithm = ES256 | ES384 | ES512
datatype KeyAlgorithm = ECDH_ES | ECDH_ES_A128KW | ECDH_ES_A256KW | A256KW | DIRECT
datatype ContentEncryption = A128GCM | A256GCM

datatype jose_key = EC_public PublicKey | EC_private PrivateKey | Symmetric bytes

record SignerOptions =
  sg_typ :: string
  sg_kid :: "string option"
  sg_x5c :: "bytes list option"

record EncrypterOptions =
  eo_cty :: string
  eo_typ :: "string option"
  eo_headers :: "(string \<times> string) list"

text \<open>The protected header of a signature: the key id (empty when absent) and the \<^verbatim>\<open>typ\<close> entry of the
  extra headers when it is a string.\<close>

record JWSHeader =
  hd_KeyID :: string
  hd_typ :: "string option"

record JWS =
  jws_Signatures :: "JWSHeader list"
  jws_Raw :: string

record jose_lib =
  jl_NewSigner :: "SignatureAlgorithm \<Rightarrow> PrivateKey \<Rightarrow> SignerOptions \<Rightarrow> bool"
  jl_Sign :: "SignatureAlgorithm \<Rightarrow> PrivateKey \<Rightarrow> SignerOptions \<Rightarrow> bytes \<Rightarrow> JWS option"
  jl_SerializeJWS :: "JWS \<Rightarrow> string option"
  jl_ParseSigned :: "string \<Rightarrow> SignatureAlgorithm list \<Rightarrow> JWS option"
  jl_Verify :: "JWS \<Rightarrow> PublicKey \<Rightarrow> bytes option"
  jl_NewEncrypter :: "ContentEncryption \<Rightarrow> KeyAlgorithm \<Rightarrow> jose_key \<Rightarrow> EncrypterOptions \<Rightarrow> bool"
  jl_Encrypt :: "ContentEncryption \<Rightarrow> KeyAlgorithm \<Rightarrow> jose_key \<Rightarrow> EncrypterOptions \<Rightarrow> bytes \<Rightarrow> string option"
  jl_SerializeJWE :: "string \<Rightarrow> string option"
  jl_ParseEncrypted :: "string \<Rightarrow> KeyAlgorithm list \<Rightarrow> ContentEncryption list \<Rightarrow> string option"
  jl_Decrypt :: "string \<Rightarrow> jose_key \<Rightarrow> bytes option"

datatype jose_error =
    Unsupported_curve
  | Create_signer
  | Sign_payload
  | Serialize
  | Parse_JWS
  | Verify_signature
  | No_signatures
  | Create_encrypter
  | Encrypt_payload
  | Parse_JWE
  | Decrypt_payload
  | HKDF_derive
  | Invalid_JWE_compact

section \<open>JWS\<close>

definition ecAlgorithm :: "Curve \<Rightarrow> (jose_error, SignatureAlgorithm) res" where
  "ecAlgorithm curve =
     (case curve of
        P256 \<Rightarrow> Ok ES256
      | P384 \<Rightarrow> Ok ES384
      | P521 \<Rightarrow> Ok ES512
      | OtherCurve _ \<Rightarrow> Err Unsupported_curve)"

definition sign_with ::
  "jose_lib \<Rightarrow> SignatureAlgorithm \<Rightarrow> PrivateKey \<Rightarrow> SignerOptions \<Rightarrow> bytes \<Rightarrow> (jose_error, string) res"
where
  "sign_with lib alg key sopts payload =
     (if \<not> jl_NewSigner lib alg key sopts then Err Create_signer
      else
        (case jl_Sign lib alg key sopts payload of
           None \<Rightarrow> Err Sign_payload
         | Some jws \<Rightarrow>
             (case jl_SerializeJWS lib jws of None \<Rightarrow> Err Serialize | Some c \<Rightarrow> Ok c)))"

text \<open>The variadic \<^verbatim>\<open>opts\<close> is a list whose head, when not empty, is the \<^verbatim>\<open>typ\<close>.\<close>

definition SignJWS ::
  "jose_lib \<Rightarrow> bytes \<Rightarrow> PrivateKey \<Rightarrow> string \<Rightarrow> string list \<Rightarrow> (jose_error, string) res"
where
  "SignJWS lib payload key kid opts =
     res_bind (ecAlgorithm (pub_Curve (priv_PublicKey key))) (\<lambda>alg.
       let typ = (if opts \<noteq> [] \<and> hd opts \<noteq> [] then hd opts else ''JOSE'');
           sopts = \<lparr>sg_typ = typ, sg_kid = (if kid \<noteq> [] then Some kid else None), sg_x5c = None\<rparr>
       in sign_with lib alg key sopts payload)"

definition VerifyJWS :: "jose_lib \<Rightarrow> string \<Rightarrow> PublicKey \<Rightarrow> (jose_error, bytes) res" where
  "VerifyJWS lib compact_jws key =
     (case jl_ParseSigned lib compact_jws [ES256, ES384, ES512] of
        None \<Rightarrow> Err Parse_JWS
      | Some jws \<Rightarrow>
          (case jl_Verify lib jws key of None \<Rightarrow> Err Verify_signature | Some payload \<Rightarrow> Ok payload))"

definition PeekJWSHeaders :: "jose_lib \<Rightarrow> string \<Rightarrow> (jose_error, (string \<rightharpoonup> string)) res" where
  "PeekJWSHeaders lib compact_jws =
     (case jl_ParseSigned lib compact_jws [ES256, ES384, ES512] of
        None \<Rightarrow> Err Parse_JWS
      | Some jws \<Rightarrow>
          (case jws_Signatures jws of
             [] \<Rightarrow> Err No_signatures
           | h # _ \<Rightarrow>
               (let headers = Map.empty;
                    headers = (if hd_KeyID h \<noteq> [] then headers(''kid'' \<mapsto> hd_KeyID h) else headers)
                in Ok (case hd_typ h of
                         None \<Rightarrow> headers
                       | Some s \<Rightarrow> if s \<noteq> [] then headers(''typ'' \<mapsto> s) else headers))))"

definition SignJWT ::
  "jose_lib \<Rightarrow> bytes \<Rightarrow> PrivateKey \<Rightarrow> string \<Rightarrow> bytes list \<Rightarrow> (jose_error, string) res"
where
  "SignJWT lib payload key typ x5cDER =
     res_bind (ecAlgorithm (pub_Curve (priv_PublicKey key))) (\<lambda>alg.
       let sopts = \<lparr>sg_typ = typ, sg_kid = None, sg_x5c = (if x5cDER \<noteq> [] then Some x5cDER else None)\<rparr>
       in sign_with lib alg key sopts payload)"

definition PublicKeyFromPrivate :: "PrivateKey \<Rightarrow> PublicKey" where
  "PublicKeyFromPrivate key = priv_PublicKey key"

section \<open>JWE\<close>

definition JWEHash :: "(bytes \<Rightarrow> bytes) \<Rightarrow> string \<Rightarrow> (jose_error, string) res" where
  "JWEHash sha256 compact_jwe =
     (case split_first CHR ''.'' compact_jwe of
        protectedHeader # _ # _ \<Rightarrow> Ok (RawURLEncoding_Encode (sha256 (str_bytes protectedHeader)))
      | _ \<Rightarrow> Err Invalid_JWE_compact)"

definition encrypt_with ::
  "jose_lib \<Rightarrow> ContentEncryption \<Rightarrow> KeyAlgorithm \<Rightarrow> jose_key \<Rightarrow> EncrypterOptions \<Rightarrow> bytes
   \<Rightarrow> (jose_error, string) res"
where
  "encrypt_with lib enc alg key opts plaintext =
     (if \<not> jl_NewEncrypter lib enc alg key opts then Err Create_encrypter
      else
        (case jl_Encrypt lib enc alg key opts plaintext of
           None \<Rightarrow> Err Encrypt_payload
         | Some jwe \<Rightarrow>
             (case jl_SerializeJWE lib jwe of None \<Rightarrow> Err Serialize | Some c \<Rightarrow> Ok c)))"

definition decrypt_with ::
  "jose_lib \<Rightarrow> KeyAlgorithm list \<Rightarrow> ContentEncryption list \<Rightarrow> jose_key \<Rightarrow> string \<Rightarrow> (jose_error, bytes) res"
where
  "decrypt_with lib algs encs key compact_jwe =
     (case jl_ParseEncrypted lib compact_jwe algs encs of
        None \<Rightarrow> Err Parse_JWE
      | Some jwe \<Rightarrow>
          (case jl_Decrypt lib jwe key of None \<Rightarrow> Err Decrypt_payload | Some p \<Rightarrow> Ok p))"

definition EncryptJWE1FA ::
  "jose_lib \<Rightarrow> bytes \<Rightarrow> PublicKey \<Rightarrow> string \<Rightarrow> string \<Rightarrow> string \<Rightarrow> (jose_error, string) res"
where
  "EncryptJWE1FA lib plaintext recipientKey kid apu apv =
     encrypt_with lib A256GCM ECDH_ES (EC_public recipientKey)
       \<lparr>eo_cty = ''JWT'', eo_typ = Some ''r2ps-1fa'',
        eo_headers = [(''kid'', kid), (''apu'', apu), (''apv'', apv)]\<rparr> plaintext"

definition DecryptJWE1FA :: "jose_lib \<Rightarrow> string \<Rightarrow> PrivateKey \<Rightarrow> (jose_error, bytes) res" where
  "DecryptJWE1FA lib compact_jwe key = decrypt_with lib [ECDH_ES] [A256GCM] (EC_private key) compact_jwe"

definition appendLenPrefixed :: "bytes \<Rightarrow> bytes \<Rightarrow> bytes" where
  "appendLenPrefixed buf data = buf @ be_bytes 4 (length data) @ data"

definition hkdfInfo :: "string \<Rightarrow> string \<Rightarrow> string \<Rightarrow> bytes" where
  "hkdfInfo dst direction sessionID =
     (let buf = [];
          buf = appendLenPrefixed buf (str_bytes dst);
          buf = appendLenPrefixed buf (str_bytes direction);
          buf = appendLenPrefixed buf (str_bytes sessionID)
      in buf)"

text \<open>\<open>hkdf secret salt info n\<close>: the first \<open>n\<close> bytes of the HKDF stream with SHA-256.\<close>

type_synonym hkdf_fn = "bytes \<Rightarrow> bytes \<Rightarrow> bytes \<Rightarrow> nat \<Rightarrow> bytes option"

definition Derive2FAKEK :: "hkdf_fn \<Rightarrow> bytes \<Rightarrow> string \<Rightarrow> string \<Rightarrow> (jose_error, bytes) res" where
  "Derive2FAKEK hkdf sessionKey direction sessionID =
     (let dst = ''R2PS-2FA-KEK-1.0''; info = hkdfInfo dst direction sessionID in
      case hkdf sessionKey [] info 32 of None \<Rightarrow> Err HKDF_derive | Some kek \<Rightarrow> Ok kek)"

definition EncryptJWE2FA ::
  "jose_lib \<Rightarrow> hkdf_fn \<Rightarrow> bytes \<Rightarrow> bytes \<Rightarrow> string \<Rightarrow> string \<Rightarrow> (jose_error, string) res"
where
  "EncryptJWE2FA lib hkdf plaintext sessionKey sessionID direction =
     res_bind (Derive2FAKEK hkdf sessionKey direction sessionID) (\<lambda>kek.
       encrypt_with lib A256GCM A256KW (Symmetric kek)
         \<lparr>eo_cty = ''JWT'', eo_typ = Some ''r2ps-2fa'', eo_headers = [(''kid'', sessionID)]\<rparr> plaintext)"

definition DecryptJWE2FA ::
  "jose_lib \<Rightarrow> hkdf_fn \<Rightarrow> string \<Rightarrow> bytes \<Rightarrow> string \<Rightarrow> string \<Rightarrow> (jose_error, bytes) res"
where
  "DecryptJWE2FA lib hkdf compact_jwe sessionKey sessionID direction =
     res_bind (Derive2FAKEK hkdf sessionKey direction sessionID) (\<lambda>kek.
       decrypt_with lib [A256KW] [A256GCM] (Symmetric kek) compact_jwe)"

definition EncryptJWE :: "jose_lib \<Rightarrow> bytes \<Rightarrow> PublicKey \<Rightarrow> (jose_error, string) res" where
  "EncryptJWE lib plaintext recipientKey =
     encrypt_with lib A256GCM ECDH_ES_A256KW (EC_public recipientKey)
       \<lparr>eo_cty = ''application/octet-stream'', eo_typ = None, eo_headers = []\<rparr> plaintext"

definition DecryptJWE :: "jose_lib \<Rightarrow> string \<Rightarrow> PrivateKey \<Rightarrow> (jose_error, bytes) res" where
  "DecryptJWE lib compact_jwe key =
     decrypt_with lib [ECDH_ES_A256KW, ECDH_ES_A128KW, ECDH_ES] [A256GCM, A128GCM] (EC_private key) compact_jwe"

definition EncryptJWESymmetric :: "jose_lib \<Rightarrow> bytes \<Rightarrow> bytes \<Rightarrow> (jose_error, string) res" where
  "EncryptJWESymmetric lib plaintext key =
     encrypt_with lib A256GCM DIRECT (Symmetric key)
       \<lparr>eo_cty = ''application/octet-stream'', eo_typ = None, eo_headers = []\<rparr> plaintext"

definition DecryptJWESymmetric :: "jose_lib \<Rightarrow> string \<Rightarrow> bytes \<Rightarrow> (jose_error, bytes) res" where
  "DecryptJWESymmetric lib compact_jwe key =
     decrypt_with lib [DIRECT, A256KW] [A256GCM] (Symmetric key) compact_jwe"

section \<open>What the library documents\<close>

definition jose_signs :: "jose_lib \<Rightarrow> bool" where
  "jose_signs lib \<longleftrightarrow>
     (\<forall>alg key sopts payload jws c.
        jl_NewSigner lib alg key sopts \<and> jl_Sign lib alg key sopts payload = Some jws
        \<and> jl_SerializeJWS lib jws = Some c \<longrightarrow>
        (\<exists>jws'. jl_ParseSigned lib c [ES256, ES384, ES512] = Some jws'
           \<and> jl_Verify lib jws' (priv_PublicKey key) = Some payload
           \<and> jws_Signatures jws' =
               [\<lparr>hd_KeyID = (case sg_kid sopts of None \<Rightarrow> [] | Some k \<Rightarrow> k), hd_typ = Some (sg_typ sopts)\<rparr>]))"

fun decrypting_key :: "jose_key \<Rightarrow> jose_key \<Rightarrow> bool" where
  "decrypting_key (EC_public p) (EC_private k) = (priv_PublicKey k = p)"
| "decrypting_key (Symmetric a) (Symmetric b) = (a = b)"
| "decrypting_key _ _ = False"

text \<open>The headers \<^verbatim>\<open>apu\<close> and \<^verbatim>\<open>apv\<close> are inputs of the ECDH-ES key agreement, not plain headers.\<close>

definition jose_decrypts :: "jose_lib \<Rightarrow> bool" where
  "jose_decrypts lib \<longleftrightarrow>
     (\<forall>enc alg key opts p jwe c key' algs encs.
        jl_NewEncrypter lib enc alg key opts \<and> jl_Encrypt lib enc alg key opts p = Some jwe
        \<and> jl_SerializeJWE lib jwe = Some c \<and> decrypting_key key key' \<and> alg \<in> set algs \<and> enc \<in> set encs
        \<and> map_of (eo_headers opts) ''apu'' = None \<and> map_of (eo_headers opts) ''apv'' = None \<longrightarrow>
        (\<exists>j. jl_ParseEncrypted lib c algs encs = Some j \<and> jl_Decrypt lib j key' = Some p))"

text \<open>AES key wrap checks the integrity of what it unwraps.\<close>

definition jose_wraps :: "jose_lib \<Rightarrow> bool" where
  "jose_wraps lib \<longleftrightarrow>
     (\<forall>k opts p jwe c k'.
        jl_NewEncrypter lib A256GCM A256KW (Symmetric k) opts \<and> jl_Encrypt lib A256GCM A256KW (Symmetric k) opts p = Some jwe
        \<and> jl_SerializeJWE lib jwe = Some c \<longrightarrow>
        (\<exists>j. jl_ParseEncrypted lib c [A256KW] [A256GCM] = Some j
           \<and> jl_Decrypt lib j (Symmetric k') = (if k' = k then Some p else None)))"

lemma sign_with_verifies:
  assumes "jose_signs lib" and "sign_with lib alg key sopts payload = Ok c"
  shows "VerifyJWS lib c (priv_PublicKey key) = Ok payload"
    and "PeekJWSHeaders lib c = Ok ((case sg_kid sopts of
           None \<Rightarrow> Map.empty | Some k \<Rightarrow> if k \<noteq> [] then [''kid'' \<mapsto> k] else Map.empty)
         (''typ'' := (if sg_typ sopts \<noteq> [] then Some (sg_typ sopts) else None)))"
proof -
  from assms(2) obtain jws where "jl_NewSigner lib alg key sopts"
    "jl_Sign lib alg key sopts payload = Some jws" "jl_SerializeJWS lib jws = Some c"
    by (auto simp: sign_with_def split: if_splits option.splits)
  with assms(1) obtain jws' where p: "jl_ParseSigned lib c [ES256, ES384, ES512] = Some jws'"
    "jl_Verify lib jws' (priv_PublicKey key) = Some payload"
    "jws_Signatures jws' = [\<lparr>hd_KeyID = (case sg_kid sopts of None \<Rightarrow> [] | Some k \<Rightarrow> k), hd_typ = Some (sg_typ sopts)\<rparr>]"
    unfolding jose_signs_def by blast
  then show "VerifyJWS lib c (priv_PublicKey key) = Ok payload" by (simp add: VerifyJWS_def)
  from p show "PeekJWSHeaders lib c = Ok ((case sg_kid sopts of
           None \<Rightarrow> Map.empty | Some k \<Rightarrow> if k \<noteq> [] then [''kid'' \<mapsto> k] else Map.empty)
         (''typ'' := (if sg_typ sopts \<noteq> [] then Some (sg_typ sopts) else None)))"
    by (auto simp: PeekJWSHeaders_def split: option.splits)
qed

lemma SignJWS_verifies:
  "jose_signs lib \<Longrightarrow> SignJWS lib payload key kid opts = Ok c \<Longrightarrow>
   VerifyJWS lib c (priv_PublicKey key) = Ok payload"
  by (auto simp: SignJWS_def res_bind_Ok_iff Let_def intro: sign_with_verifies(1))

lemma SignJWT_verifies:
  "jose_signs lib \<Longrightarrow> SignJWT lib payload key typ x5c = Ok c \<Longrightarrow>
   VerifyJWS lib c (priv_PublicKey key) = Ok payload"
  by (auto simp: SignJWT_def res_bind_Ok_iff Let_def intro: sign_with_verifies(1))

lemma encrypt_with_decrypts:
  assumes "jose_decrypts lib" and "encrypt_with lib enc alg key opts p = Ok c"
    and "decrypting_key key key'" and "alg \<in> set algs" and "enc \<in> set encs"
    and "map_of (eo_headers opts) ''apu'' = None" and "map_of (eo_headers opts) ''apv'' = None"
  shows "decrypt_with lib algs encs key' c = Ok p"
proof -
  from assms(2) obtain jwe where "jl_NewEncrypter lib enc alg key opts"
    "jl_Encrypt lib enc alg key opts p = Some jwe" "jl_SerializeJWE lib jwe = Some c"
    by (auto simp: encrypt_with_def split: if_splits option.splits)
  with assms obtain j where "jl_ParseEncrypted lib c algs encs = Some j" "jl_Decrypt lib j key' = Some p"
    unfolding jose_decrypts_def by metis
  then show ?thesis by (simp add: decrypt_with_def)
qed

text \<open>The legacy modes set no extra headers.\<close>

lemma legacy_jwe_roundtrip:
  assumes "jose_decrypts lib"
  shows "EncryptJWE lib p (priv_PublicKey key) = Ok c \<Longrightarrow> DecryptJWE lib c key = Ok p"
    and "EncryptJWESymmetric lib p sk = Ok c \<Longrightarrow> DecryptJWESymmetric lib c sk = Ok p"
  by (auto simp: EncryptJWE_def DecryptJWE_def EncryptJWESymmetric_def DecryptJWESymmetric_def
      intro!: encrypt_with_decrypts [OF assms])

lemma encrypt_with_wraps:
  assumes "jose_wraps lib" and "encrypt_with lib A256GCM A256KW (Symmetric k) opts p = Ok c"
  shows "decrypt_with lib [A256KW] [A256GCM] (Symmetric k') c = (if k' = k then Ok p else Err Decrypt_payload)"
proof -
  from assms(2) obtain jwe where "jl_NewEncrypter lib A256GCM A256KW (Symmetric k) opts"
    "jl_Encrypt lib A256GCM A256KW (Symmetric k) opts p = Some jwe" "jl_SerializeJWE lib jwe = Some c"
    by (auto simp: encrypt_with_def split: if_splits option.splits)
  with assms(1) obtain j where "jl_ParseEncrypted lib c [A256KW] [A256GCM] = Some j"
    "jl_Decrypt lib j (Symmetric k') = (if k' = k then Some p else None)"
    unfolding jose_wraps_def by metis
  then show ?thesis by (simp add: decrypt_with_def)
qed

text \<open>A library with these properties: a serialisation that carries the payload in hexadecimal.\<close>

definition toy_jose :: jose_lib where
  "toy_jose =
     \<lparr>jl_NewSigner = (\<lambda>alg key so. True),
      jl_Sign = (\<lambda>alg key so p.
        Some \<lparr>jws_Signatures = [], jws_Raw = (case sg_kid so of None \<Rightarrow> [] | Some k \<Rightarrow> k) @ ''.'' @ hex_encode (str_bytes (sg_typ so)) @ ''.'' @ hex_encode p\<rparr>),
      jl_SerializeJWS = (\<lambda>j. Some (jws_Raw j)),
      jl_ParseSigned = (\<lambda>c algs.
        (let parts = rev (split_on CHR ''.'' c) in
         case parts of
           p # t # k \<Rightarrow>
             (case hex_decode t of
                None \<Rightarrow> None
              | Some tb \<Rightarrow>
                  Some \<lparr>jws_Signatures = [\<lparr>hd_KeyID = take (length c - length p - length t - 2) c, hd_typ = Some (bytes_str tb)\<rparr>],
                        jws_Raw = p\<rparr>)
         | _ \<Rightarrow> None)),
      jl_Verify = (\<lambda>j key. hex_decode (jws_Raw j)),
      jl_NewEncrypter = (\<lambda>enc alg key opts. True),
      jl_Encrypt = (\<lambda>enc alg key opts p. Some (hex_encode p)),
      jl_SerializeJWE = (\<lambda>j. Some j),
      jl_ParseEncrypted = (\<lambda>c algs encs. Some c),
      jl_Decrypt = (\<lambda>j key. hex_decode j)\<rparr>"

lemma toy_jose_decrypts: "jose_decrypts toy_jose"
  by (auto simp: jose_decrypts_def toy_jose_def)

lemma hex_encode_no_dot: "CHR ''.'' \<notin> set (hex_encode b)"
proof (induction b)
  case (Cons x b)
  have "unat x div 16 < 16" using unat_byte_less [of x] by auto
  moreover have "hex_char n \<noteq> CHR ''.''" if "n < 16" for n
    using hex_val_char [OF that] by (auto simp: hex_val_def simp del: hex_val_char)
  ultimately show ?case using Cons by (metis hex_encode.simps(2) insert_iff list.simps(15) mod_less_divisor zero_less_numeral)
qed simp

lemma split_on_last:
  "c \<notin> set b \<Longrightarrow> split_on c (a @ c # b) = split_on c a @ [b]"
  by (induction a) (auto simp: split_on_no_sep split: list.splits)

lemma toy_jose_signs: "jose_signs toy_jose"
  unfolding jose_signs_def
proof (intro allI impI, elim conjE)
  fix alg key sopts payload jws c
  assume a: "jl_Sign toy_jose alg key sopts payload = Some jws" "jl_SerializeJWS toy_jose jws = Some c"
  let ?k = "case sg_kid sopts of None \<Rightarrow> [] | Some k \<Rightarrow> k"
  have c: "c = ?k @ ''.'' @ hex_encode (str_bytes (sg_typ sopts)) @ ''.'' @ hex_encode payload"
    using a by (auto simp: toy_jose_def)
  have "rev (split_on CHR ''.'' c) = hex_encode payload # hex_encode (str_bytes (sg_typ sopts)) # rev (split_on CHR ''.'' ?k)"
    using split_on_last [OF hex_encode_no_dot, of "?k @ ''.'' @ hex_encode (str_bytes (sg_typ sopts))" payload]
      split_on_last [OF hex_encode_no_dot, of ?k "str_bytes (sg_typ sopts)"]
    by (simp add: c)
  then show "\<exists>jws'. jl_ParseSigned toy_jose c [ES256, ES384, ES512] = Some jws'
           \<and> jl_Verify toy_jose jws' (priv_PublicKey key) = Some payload
           \<and> jws_Signatures jws' = [\<lparr>hd_KeyID = ?k, hd_typ = Some (sg_typ sopts)\<rparr>]"
    by (simp add: toy_jose_def c)
qed

text \<open>A library that writes the wrapping key in front of the payload.\<close>

definition wrap_jose :: jose_lib where
  "wrap_jose = toy_jose
     \<lparr>jl_Encrypt := (\<lambda>enc alg key opts p. Some ((case key of Symmetric k \<Rightarrow> hex_encode k | _ \<Rightarrow> []) @ ''.'' @ hex_encode p)),
      jl_Decrypt := (\<lambda>j key.
        case split_on CHR ''.'' j of
          [a, b] \<Rightarrow> if (case key of Symmetric k \<Rightarrow> hex_decode a = Some k | _ \<Rightarrow> True) then hex_decode b else None
        | _ \<Rightarrow> None)\<rparr>"

lemma wrap_jose_wraps: "jose_wraps wrap_jose"
proof -
  have "split_on CHR ''.'' (hex_encode k @ CHR ''.'' # hex_encode p) = [hex_encode k, hex_encode p]" for k p
    by (simp add: split_on_last hex_encode_no_dot split_on_no_sep)
  then show ?thesis by (simp add: jose_wraps_def wrap_jose_def toy_jose_def)
qed

section \<open>Properties\<close>

lemma lenPrefixed_inject:
  assumes "length x < 2 ^ 32" and "length x' < 2 ^ 32"
  shows "be_bytes 4 (length x) @ x @ r = be_bytes 4 (length x') @ x' @ r' \<longleftrightarrow> x = x' \<and> r = r'"
proof
  assume e: "be_bytes 4 (length x) @ x @ r = be_bytes 4 (length x') @ x' @ r'"
  then have "be_bytes 4 (length x) = be_bytes 4 (length x')" and xr: "x @ r = x' @ r'"
    by (auto simp: append_eq_append_conv)
  then have "be_nat (be_bytes 4 (length x)) = be_nat (be_bytes 4 (length x'))" by simp
  with assms have "length x = length x'" by simp
  with xr show "x = x' \<and> r = r'" by simp
qed simp

text \<open>The info string of the 2FA key derivation determines the domain tag, the direction and the
  session identifier: two different triples never share it (their parts being shorter than 4 GiB), so
  keys of different sessions or directions come from different HKDF inputs, although the parts are
  concatenated.\<close>

lemma hkdf_info_injective:
  assumes "length d < 2 ^ 32" "length e < 2 ^ 32" "length s < 2 ^ 32"
    and "length d' < 2 ^ 32" "length e' < 2 ^ 32" "length s' < 2 ^ 32"
  shows "hkdfInfo d e s = hkdfInfo d' e' s' \<longleftrightarrow> d = d' \<and> e = e' \<and> s = s'"
proof -
  have i: "hkdfInfo d e s = be_bytes 4 (length d) @ str_bytes d @ be_bytes 4 (length e) @ str_bytes e
      @ be_bytes 4 (length s) @ str_bytes s @ []" for d e s
    by (simp add: hkdfInfo_def appendLenPrefixed_def)
  show ?thesis
    unfolding i using assms
      lenPrefixed_inject [of "str_bytes d" "str_bytes d'"] lenPrefixed_inject [of "str_bytes e" "str_bytes e'"]
      lenPrefixed_inject [of "str_bytes s" "str_bytes s'" "[]" "[]"]
    by simp
qed

text \<open>C35: A message of the 2FA mode is bound to its session. Its key is 32 bytes of HKDF of the session key, without
  salt, with an info string of three parts with four bytes of length each: the tag R2PS-2FA-KEK-1.0, the direction
  and the session identifier. Two such strings agree only for the same direction and session. DecryptJWE2FA turns
  what EncryptJWE2FA returned back into the plaintext for the same session key, session and direction, and fails
  for every session key, session and direction for which HKDF, so called, gives another key, given that go-jose
  unwraps a content key with the key it was wrapped with and with no other.\<close>

theorem jwe_2fa_bound_to_session:
  assumes "jose_wraps lib" and "EncryptJWE2FA lib hkdf p sk sid dir = Ok c"
    and "length sid < 2 ^ 32" "length dir < 2 ^ 32" "length sid' < 2 ^ 32" "length dir' < 2 ^ 32"
  shows "let info = (\<lambda>d s. [0, 0, 0, 16] @ str_bytes ''R2PS-2FA-KEK-1.0'' @ be_bytes 4 (length d) @ str_bytes d
       @ be_bytes 4 (length s) @ str_bytes s) in
     DecryptJWE2FA lib hkdf c sk sid dir = Ok p
     \<and> (hkdf sk' [] (info dir' sid') 32 \<noteq> hkdf sk [] (info dir sid) 32 \<longrightarrow>
        (\<exists>e. DecryptJWE2FA lib hkdf c sk' sid' dir' = Err e))
     \<and> (info dir' sid' = info dir sid \<longleftrightarrow> dir' = dir \<and> sid' = sid)"
proof -
  let ?tag = "''R2PS-2FA-KEK-1.0''"
  have t: "be_bytes 4 (length ?tag) = [0, 0, 0, 16]" by code_simp
  have i: "[0, 0, 0, 16] @ str_bytes ?tag @ be_bytes 4 (length d) @ str_bytes d @ be_bytes 4 (length s) @ str_bytes s
      = hkdfInfo ?tag d s" for d s :: string
    by (simp only: hkdfInfo_def appendLenPrefixed_def t Let_def append_assoc append_Nil length_map str_bytes_def)
  have kdf: "Derive2FAKEK hkdf x d s = (case hkdf x [] (hkdfInfo ?tag d s) 32 of None \<Rightarrow> Err HKDF_derive | Some kek \<Rightarrow> Ok kek)"
    for x d s by (simp add: Derive2FAKEK_def Let_def)
  obtain k where k: "hkdf sk [] (hkdfInfo ?tag dir sid) 32 = Some k"
    "encrypt_with lib A256GCM A256KW (Symmetric k)
       \<lparr>eo_cty = ''JWT'', eo_typ = Some ''r2ps-2fa'', eo_headers = [(''kid'', sid)]\<rparr> p = Ok c"
    using assms(2) by (auto simp: EncryptJWE2FA_def kdf res_bind_Ok_iff split: option.splits)
  note d = encrypt_with_wraps [OF assms(1) k(2)]
  have "\<exists>e. DecryptJWE2FA lib hkdf c sk' sid' dir' = Err e"
    if "hkdf sk' [] (hkdfInfo ?tag dir' sid') 32 \<noteq> hkdf sk [] (hkdfInfo ?tag dir sid) 32"
    using that k(1) by (cases "hkdf sk' [] (hkdfInfo ?tag dir' sid') 32") (auto simp: DecryptJWE2FA_def kdf d)
  moreover have "DecryptJWE2FA lib hkdf c sk sid dir = Ok p" by (simp add: DecryptJWE2FA_def kdf k(1) d)
  moreover have "hkdfInfo ?tag dir' sid' = hkdfInfo ?tag dir sid \<longleftrightarrow> dir' = dir \<and> sid' = sid"
    using hkdf_info_injective [OF _ assms(6,5) _ assms(4,3), of ?tag ?tag] by simp
  ultimately show ?thesis unfolding Let_def i by blast
qed

text \<open>A stand-in for HKDF that gives the last byte of the info string.\<close>

theorem jwe_2fa_bound_to_session_witness:
  "let hkdf = (\<lambda>s salt info n. Some (replicate n (last info))) in
   \<exists>c e. EncryptJWE2FA wrap_jose hkdf [1, 2] [9] ''s1'' ''c2s'' = Ok c
     \<and> DecryptJWE2FA wrap_jose hkdf c [9] ''s1'' ''c2s'' = Ok [1, 2]
     \<and> DecryptJWE2FA wrap_jose hkdf c [9] ''s2'' ''c2s'' = Err e"
proof -
  let ?hkdf = "\<lambda>s salt info n. Some (replicate n (last info :: byte))"
  have "\<exists>c. EncryptJWE2FA wrap_jose ?hkdf [1, 2] [9] ''s1'' ''c2s'' = Ok c"
    by (simp add: EncryptJWE2FA_def Derive2FAKEK_def encrypt_with_def wrap_jose_def toy_jose_def)
  then obtain c where c: "EncryptJWE2FA wrap_jose ?hkdf [1, 2] [9] ''s1'' ''c2s'' = Ok c" by blast
  have "str_bytes ''s2'' = [115, 50]" "str_bytes ''s1'' = [115, 49]" by code_simp+
  with jwe_2fa_bound_to_session [OF wrap_jose_wraps c, of "''s2''" "''c2s''" "[9]"] c show ?thesis
    by (simp add: Let_def replicate_eq_replicate)
qed

end
