(* ===== verification/Service_Handlers.thy ===== *)
theory Service_Handlers
  imports R2PS_Types Store_Memory
begin

text \<open>
  \<^verbatim>\<open>internal/service/handler.go\<close>, \<^verbatim>\<open>internal/service/handlers.go\<close> and the backend interface of
  \<^verbatim>\<open>internal/hsm/backend.go\<close>. A \<^verbatim>\<open>Handler\<close> is a record of its type, its mode and its \<^verbatim>\<open>Handle\<close> function
  on the world behind the handlers: the HSM (a \<open>'h\<close> with the operations \<open>backend_ops\<close>), the store
  (a \<open>'s\<close> with the operations \<open>store_ops\<close>), the counters of \<^verbatim>\<open>metrics.go\<close> and the audit log of
  \<^verbatim>\<open>internal/audit/audit.go\<close>. Durations observed for histograms are not modelled. Byte strings that
  handlers take and return are Go strings; \<open>now\<close> is the handler's clock reading.
\<close>

section \<open>The world\<close>

record KeyInfo =
  ki_Kid :: string
  ki_Curve :: string
  ki_CreationTime :: int
  ki_PubKey :: bytes

datatype hsm_error =
    HSM_canceled
  | HSM_unsupported_curve string
  | HSM_key_not_found
  | HSM_failure string

record 'h backend_ops =
  hb_GenerateECKey :: "string \<Rightarrow> 'h \<Rightarrow> (hsm_error, string \<times> bytes) res \<times> 'h"
  hb_Sign :: "string \<Rightarrow> bytes \<Rightarrow> 'h \<Rightarrow> (hsm_error, bytes) res \<times> 'h"
  hb_ECDH :: "string \<Rightarrow> bytes \<Rightarrow> 'h \<Rightarrow> (hsm_error, bytes) res \<times> 'h"
  hb_ListKeys :: "string list \<Rightarrow> 'h \<Rightarrow> (hsm_error, KeyInfo list) res \<times> 'h"

record audit_event =
  ev_Type :: string
  ev_ClientID :: string
  ev_Context :: string
  ev_Timestamp :: instant
  ev_Attrs :: "(string \<times> string) list"

text \<open>\<open>w_metrics\<close> lists the counters that were incremented, with their labels.\<close>

record ('h, 's) world =
  w_hsm :: 'h
  w_store :: 's
  w_metrics :: "(string \<times> string list) list"
  w_audit :: "audit_event list"

definition inc_metric :: "string \<Rightarrow> string list \<Rightarrow> ('h, 's) world \<Rightarrow> ('h, 's) world" where
  "inc_metric name labels w = w\<lparr>w_metrics := w_metrics w @ [(name, labels)]\<rparr>"

definition audit_Log ::
  "instant \<Rightarrow> string \<Rightarrow> string \<Rightarrow> string \<Rightarrow> (string \<times> string) list \<Rightarrow> ('h, 's) world \<Rightarrow> ('h, 's) world"
where
  "audit_Log now event clientID ctx attrs w =
     w\<lparr>w_audit := w_audit w @ [\<lparr>ev_Type = event, ev_ClientID = clientID, ev_Context = ctx,
                                ev_Timestamp = now, ev_Attrs = attrs\<rparr>]\<rparr>"

datatype handler_error =
    Parse_request
  | Decode_field string
  | Invalid_kid
  | Invalid_hash_length nat
  | Invalid_peer_key_length
  | Backend_failed hsm_error
  | Unsupported_version string
  | No_keys_to_attest
  | No_valid_keys
  | Store_failed store_error
  | Marshal_failed
  | Sign_failed
  | Resolve_failed

definition Mode1FA :: string where "Mode1FA = ''1fa''"
definition Mode2FA :: string where "Mode2FA = ''2fa''"

record 'w Handler =
  h_Type :: string
  h_Mode :: string
  h_Handle :: "instant \<Rightarrow> string \<Rightarrow> string \<Rightarrow> 'w \<Rightarrow> (handler_error, string) res \<times> 'w"

section \<open>Key identifiers\<close>

definition kid_char :: "char \<Rightarrow> bool" where
  "kid_char c \<longleftrightarrow>
     (let n = of_char c :: nat in
      97 \<le> n \<and> n \<le> 122 \<or> 65 \<le> n \<and> n \<le> 90 \<or> 48 \<le> n \<and> n \<le> 57 \<or> n = 95 \<or> n = 45)"

text \<open>The regular expression \<^verbatim>\<open>^[a-zA-Z0-9_-]{1,128}$\<close>.\<close>

definition validKid :: "string \<Rightarrow> bool" where
  "validKid s \<longleftrightarrow> 1 \<le> length s \<and> length s \<le> 128 \<and> list_all kid_char s"

definition validateKid :: "string \<Rightarrow> (handler_error, unit) res" where
  "validateKid kid = (if \<not> validKid kid then Err Invalid_kid else Ok ())"

section \<open>Signing\<close>

record ECDSASignRequest =
  sig_Kid :: string
  sig_TbsHash :: string

definition ECDSASignRequest_fields :: "(string \<times> ECDSASignRequest field) list" where
  "ECDSASignRequest_fields =
     [(''kid'', field_str (\<lambda>x r. r\<lparr>sig_Kid := x\<rparr>)), (''tbs_hash'', field_str (\<lambda>x r. r\<lparr>sig_TbsHash := x\<rparr>))]"

definition Unmarshal_ECDSASignRequest :: "string \<Rightarrow> ECDSASignRequest option" where
  "Unmarshal_ECDSASignRequest s = json_Unmarshal ECDSASignRequest_fields s \<lparr>sig_Kid = [], sig_TbsHash = []\<rparr>"

text \<open>The checks that precede the call of the backend.\<close>

definition ecdsa_check :: "string \<Rightarrow> (handler_error, string \<times> bytes) res" where
  "ecdsa_check reqData =
     (case Unmarshal_ECDSASignRequest reqData of
        None \<Rightarrow> Err Parse_request
      | Some req \<Rightarrow>
          (case decodeBase64 (sig_TbsHash req) of
             None \<Rightarrow> Err (Decode_field ''tbs_hash'')
           | Some hashBytes \<Rightarrow>
               res_bind (validateKid (sig_Kid req)) (\<lambda>_.
                 if length hashBytes \<noteq> 32 \<and> length hashBytes \<noteq> 48 \<and> length hashBytes \<noteq> 64
                 then Err (Invalid_hash_length (length hashBytes))
                 else Ok (sig_Kid req, hashBytes))))"

definition ECDSAHandler_Handle ::
  "'h backend_ops \<Rightarrow> instant \<Rightarrow> string \<Rightarrow> string \<Rightarrow> ('h, 's) world
   \<Rightarrow> (handler_error, string) res \<times> ('h, 's) world"
where
  "ECDSAHandler_Handle backend now clientID reqData w =
     (case ecdsa_check reqData of
        Err e \<Rightarrow> (Err e, w)
      | Panic \<Rightarrow> (Panic, w)
      | Ok (kid, hashBytes) \<Rightarrow>
          (let (r, h) = hb_Sign backend kid hashBytes (w_hsm w); w = w\<lparr>w_hsm := h\<rparr> in
           case r of
             Err e \<Rightarrow> (Err (Backend_failed e), inc_metric ''hsm_operations_total'' [''sign'', ''error''] w)
           | Panic \<Rightarrow> (Panic, w)
           | Ok sig \<Rightarrow> (Ok (bytes_str sig), inc_metric ''hsm_operations_total'' [''sign'', ''success''] w)))"

definition ECDSAHandler :: "'h backend_ops \<Rightarrow> ('h, 's) world Handler" where
  "ECDSAHandler backend =
     \<lparr>h_Type = TypeSignECDSA, h_Mode = Mode2FA, h_Handle = ECDSAHandler_Handle backend\<rparr>"

section \<open>Key generation\<close>

definition ECKeygenRequest_fields :: "(string \<times> string field) list" where
  "ECKeygenRequest_fields = [(''curve'', field_str (\<lambda>x r. x))]"

definition Marshal_ECKeygenResponse :: "string \<Rightarrow> string" where
  "Marshal_ECKeygenResponse curve = json_object [(''created_key'', json_quote curve)]"

text \<open>\<open>keyStore\<close> is \<open>None\<close> for a nil store; the error of the store is dropped.\<close>

definition ECKeygenHandler_Handle ::
  "'h backend_ops \<Rightarrow> 's store_ops option \<Rightarrow> instant \<Rightarrow> string \<Rightarrow> string \<Rightarrow> ('h, 's) world
   \<Rightarrow> (handler_error, string) res \<times> ('h, 's) world"
where
  "ECKeygenHandler_Handle backend keyStore now clientID reqData w =
     (case json_Unmarshal ECKeygenRequest_fields reqData [] of
        None \<Rightarrow> (Err Parse_request, w)
      | Some curve \<Rightarrow>
          (let (r, h) = hb_GenerateECKey backend curve (w_hsm w); w = w\<lparr>w_hsm := h\<rparr> in
           case r of
             Err e \<Rightarrow> (Err (Backend_failed e), inc_metric ''hsm_operations_total'' [''keygen'', ''error''] w)
           | Panic \<Rightarrow> (Panic, w)
           | Ok (kid, pubKey) \<Rightarrow>
               (let w = inc_metric ''hsm_operations_total'' [''keygen'', ''success''] w;
                    w = (case keyStore of
                           None \<Rightarrow> w
                         | Some st \<Rightarrow>
                             w\<lparr>w_store := snd (PutPublicKey st
                                 \<lparr>pk_Kid = kid, pk_Curve = curve, pk_PubKey = pubKey,
                                  pk_CreationTime = to_unix now, pk_ClientID = clientID\<rparr> (w_store w))\<rparr>)
                in (Ok (Marshal_ECKeygenResponse curve), w))))"

definition ECKeygenHandler :: "'h backend_ops \<Rightarrow> 's store_ops option \<Rightarrow> ('h, 's) world Handler" where
  "ECKeygenHandler backend keyStore =
     \<lparr>h_Type = TypeP256Generate, h_Mode = Mode1FA, h_Handle = ECKeygenHandler_Handle backend keyStore\<rparr>"

section \<open>Key agreement\<close>

record ECDHRequest =
  dh_Kid :: string
  dh_PublicKey :: string

definition ECDHRequest_fields :: "(string \<times> ECDHRequest field) list" where
  "ECDHRequest_fields =
     [(''kid'', field_str (\<lambda>x r. r\<lparr>dh_Kid := x\<rparr>)), (''public_key'', field_str (\<lambda>x r. r\<lparr>dh_PublicKey := x\<rparr>))]"

definition ecdh_check :: "string \<Rightarrow> (handler_error, string \<times> bytes) res" where
  "ecdh_check reqData =
     (case json_Unmarshal ECDHRequest_fields reqData \<lparr>dh_Kid = [], dh_PublicKey = []\<rparr> of
        None \<Rightarrow> Err Parse_request
      | Some req \<Rightarrow>
          (case decodeBase64 (dh_PublicKey req) of
             None \<Rightarrow> Err (Decode_field ''public_key'')
           | Some peerKey \<Rightarrow>
               res_bind (validateKid (dh_Kid req)) (\<lambda>_.
                 if length peerKey \<noteq> 33 \<and> length peerKey \<noteq> 65 \<and> length peerKey \<noteq> 49 \<and> length peerKey \<noteq> 97
                    \<and> length peerKey \<noteq> 67 \<and> length peerKey \<noteq> 133
                 then Err Invalid_peer_key_length
                 else Ok (dh_Kid req, peerKey))))"

definition ECDHHandler_Handle ::
  "'h backend_ops \<Rightarrow> instant \<Rightarrow> string \<Rightarrow> string \<Rightarrow> ('h, 's) world
   \<Rightarrow> (handler_error, string) res \<times> ('h, 's) world"
where
  "ECDHHandler_Handle backend now clientID reqData w =
     (case ecdh_check reqData of
        Err e \<Rightarrow> (Err e, w)
      | Panic \<Rightarrow> (Panic, w)
      | Ok (kid, peerKey) \<Rightarrow>
          (let (r, h) = hb_ECDH backend kid peerKey (w_hsm w); w = w\<lparr>w_hsm := h\<rparr> in
           case r of
             Err e \<Rightarrow> (Err (Backend_failed e), inc_metric ''hsm_operations_total'' [''ecdh'', ''error''] w)
           | Panic \<Rightarrow> (Panic, w)
           | Ok secret \<Rightarrow> (Ok (bytes_str secret), inc_metric ''hsm_operations_total'' [''ecdh'', ''success''] w)))"

definition ECDHHandler :: "'h backend_ops \<Rightarrow> ('h, 's) world Handler" where
  "ECDHHandler backend =
     \<lparr>h_Type = TypeAgreeECDH, h_Mode = Mode2FA, h_Handle = ECDHHandler_Handle backend\<rparr>"

section \<open>Listing keys\<close>

definition ListKeysRequest_fields :: "(string \<times> string list field) list" where
  "ListKeysRequest_fields = [(''curve'', field_strs (\<lambda>r. r) (\<lambda>x r. x))]"

definition Marshal_WireKeyInfo :: "KeyInfo \<Rightarrow> string" where
  "Marshal_WireKeyInfo k =
     json_object [(''kid'', json_quote (ki_Kid k)), (''curve_name'', json_quote (ki_Curve k)),
       (''creation_time'', Itoa (ki_CreationTime k)), (''public_key'', json_quote (encodeBase64 (ki_PubKey k)))]"

definition Marshal_ListKeysResponse :: "KeyInfo list \<Rightarrow> string" where
  "Marshal_ListKeysResponse keys = json_object [(''key_info'', json_array (map Marshal_WireKeyInfo keys))]"

definition ListKeysHandler_Handle ::
  "'h backend_ops \<Rightarrow> instant \<Rightarrow> string \<Rightarrow> string \<Rightarrow> ('h, 's) world
   \<Rightarrow> (handler_error, string) res \<times> ('h, 's) world"
where
  "ListKeysHandler_Handle backend now clientID reqData w =
     (case json_Unmarshal ListKeysRequest_fields reqData [] of
        None \<Rightarrow> (Err Parse_request, w)
      | Some curves \<Rightarrow>
          (let (r, h) = hb_ListKeys backend curves (w_hsm w); w = w\<lparr>w_hsm := h\<rparr> in
           case r of
             Err e \<Rightarrow> (Err (Backend_failed e), inc_metric ''hsm_operations_total'' [''list_keys'', ''error''] w)
           | Panic \<Rightarrow> (Panic, w)
           | Ok keys \<Rightarrow> (Ok (Marshal_ListKeysResponse keys), inc_metric ''hsm_operations_total'' [''list_keys'', ''success''] w)))"

definition ListKeysHandler :: "'h backend_ops \<Rightarrow> ('h, 's) world Handler" where
  "ListKeysHandler backend =
     \<lparr>h_Type = TypeHSMListKeys, h_Mode = Mode2FA, h_Handle = ListKeysHandler_Handle backend\<rparr>"

section \<open>Lemmas\<close>

text \<open>The request a client prints for a signature.\<close>

definition sign_request :: "string \<Rightarrow> bytes \<Rightarrow> string" where
  "sign_request kid h = json_object [(''kid'', json_quote kid), (''tbs_hash'', json_quote (encodeBase64 h))]"

lemma kid_char_ascii: "kid_char c \<Longrightarrow> (of_char c :: nat) < 0x80"
  by (auto simp: kid_char_def Let_def)

lemma validKid_utf8: "validKid s \<Longrightarrow> utf8_valid s"
  by (rule utf8_valid_ascii) (auto simp: validKid_def list_all_iff dest: kid_char_ascii)

lemma b64_char_ascii: "n < 64 \<Longrightarrow> (of_char (b64_char n) :: nat) < 0x80"
  by (auto simp: b64_char_def)

lemma b64_encode_all:
  assumes c: "\<And>n. n < 64 \<Longrightarrow> P (b64_char n)" and "P CHR ''=''"
  shows "list_all P (b64_encode pad bs)"
proof -
  have g: "list_all P (b64_group n)" if "n < 16777216" for n
    using that by (simp add: b64_group_def c less_mult_imp_div_less)
  show ?thesis
  proof (induction pad bs rule: b64_encode.induct)
    case (2 pad a)
    have "list_all P (b64_group (65536 * unat a))" using b64_triple_less [of a 0 0] by (intro g) simp
    then show ?case using assms(2) by (auto simp: list_all_iff dest: in_set_takeD)
  next
    case (3 pad a b)
    have "list_all P (b64_group (65536 * unat a + 256 * unat b))"
      using b64_triple_less [of a b 0] by (intro g) simp
    then show ?case using assms(2) by (auto simp: list_all_iff dest: in_set_takeD)
  next
    case (4 pad a b c bs)
    then show ?case using g [OF b64_triple_less [of a b c]] by simp
  qed simp
qed

lemma b64_encode_ascii: "list_all (\<lambda>c. (of_char c :: nat) < 0x80) (b64_encode pad bs)"
  by (rule b64_encode_all) (simp_all add: b64_char_ascii)

lemma b64_encode_utf8 [simp]: "utf8_valid (b64_encode pad bs)"
  by (rule utf8_valid_ascii) (rule b64_encode_ascii)

definition sign_members :: "string \<Rightarrow> bytes \<Rightarrow> (string \<times> json \<times> string) list" where
  "sign_members kid h =
     [(''kid'', JStr kid, json_quote kid), (''tbs_hash'', JStr (encodeBase64 h), json_quote (encodeBase64 h))]"

lemma sign_request_members: "sign_request kid h = json_object (map (\<lambda>(n, j, w). (n, w)) (sign_members kid h))"
  by (simp add: sign_members_def sign_request_def)

lemma sign_members_ok:
  "utf8_valid kid \<Longrightarrow> \<forall>(n, j, w) \<in> set (sign_members kid h). utf8_valid n \<and> encodes 0 w j"
  by (simp add: sign_members_def enc_intros encodeBase64_def utf8_valid_ascii)

lemma Unmarshal_sign_request:
  assumes "utf8_valid kid"
  shows "Unmarshal_ECDSASignRequest (sign_request kid h) = Some \<lparr>sig_Kid = kid, sig_TbsHash = encodeBase64 h\<rparr>"
  using Unmarshal_object [OF sign_members_ok [OF assms], of ECDSASignRequest_fields h "\<lparr>sig_Kid = [], sig_TbsHash = []\<rparr>"]
  by (simp add: sign_request_members Unmarshal_ECDSASignRequest_def ECDSASignRequest_fields_def
      find_field_def field_str_def sign_members_def)

lemma decode_encode_b64 [simp]: "decodeBase64 (encodeBase64 b) = Some b"
  by (simp add: decodeBase64_def encodeBase64_def)

lemma ecdsa_check_Ok_iff:
  "ecdsa_check d = Ok (kid, h) \<longleftrightarrow>
     (\<exists>req. Unmarshal_ECDSASignRequest d = Some req \<and> decodeBase64 (sig_TbsHash req) = Some h
        \<and> sig_Kid req = kid \<and> validKid kid \<and> length h \<in> {32, 48, 64})"
  by (auto simp: ecdsa_check_def validateKid_def split: option.splits if_splits)

lemma ecdsa_check_sign_request:
  "validKid kid \<Longrightarrow> length h \<in> {32, 48, 64} \<Longrightarrow> ecdsa_check (sign_request kid h) = Ok (kid, h)"
  by (auto simp: ecdsa_check_Ok_iff Unmarshal_sign_request validKid_utf8)

lemma ecdsa_check_no_panic: "ecdsa_check d \<noteq> Panic"
  by (auto simp: ecdsa_check_def validateKid_def split: option.splits if_splits)

lemma sign_handler_Ok_iff:
  "ECDSAHandler_Handle backend now client d w = (Ok resp, w') \<longleftrightarrow>
     (\<exists>req h sig h'. Unmarshal_ECDSASignRequest d = Some req \<and> decodeBase64 (sig_TbsHash req) = Some h
        \<and> validKid (sig_Kid req) \<and> length h \<in> {32, 48, 64}
        \<and> hb_Sign backend (sig_Kid req) h (w_hsm w) = (Ok sig, h') \<and> resp = bytes_str sig
        \<and> w' = inc_metric ''hsm_operations_total'' [''sign'', ''success''] (w\<lparr>w_hsm := h'\<rparr>))"
proof (cases "ecdsa_check d")
  case (Ok p)
  then obtain kid h where p: "ecdsa_check d = Ok (kid, h)" by (cases p) simp
  from this [unfolded ecdsa_check_Ok_iff] obtain req where r: "Unmarshal_ECDSASignRequest d = Some req"
    "decodeBase64 (sig_TbsHash req) = Some h" "sig_Kid req = kid" "validKid kid" "length h \<in> {32, 48, 64}" by auto
  obtain x h' where s: "hb_Sign backend kid h (w_hsm w) = (x, h')" by force
  show ?thesis using p r s by (cases x) (auto simp: ECDSAHandler_Handle_def)
next
  case (Err e)
  have "\<nexists>req h. Unmarshal_ECDSASignRequest d = Some req \<and> decodeBase64 (sig_TbsHash req) = Some h
      \<and> validKid (sig_Kid req) \<and> length h \<in> {32, 48, 64}"
    using Err ecdsa_check_Ok_iff [of d] by fastforce
  with Err show ?thesis by (auto simp: ECDSAHandler_Handle_def)
qed (simp add: ecdsa_check_no_panic)

section \<open>Properties\<close>

text \<open>The signing handler reaches the HSM exactly when the request parses, its hash is base64url of
  32, 48 or 64 bytes and its key identifier is 1 to 128 characters of the URL-safe alphabet; it then
  passes on that key identifier and hash and returns what the HSM returns, counting the outcome. In
  every other case it changes nothing. The printed request of such a key and hash is one it
  accepts.\<close>

lemma sign_handler_exact:
  "(ECDSAHandler_Handle backend now client d w = (Ok resp, w') \<longleftrightarrow>
      (\<exists>req h sig h'. Unmarshal_ECDSASignRequest d = Some req \<and> decodeBase64 (sig_TbsHash req) = Some h
         \<and> validKid (sig_Kid req) \<and> length h \<in> {32, 48, 64}
         \<and> hb_Sign backend (sig_Kid req) h (w_hsm w) = (Ok sig, h') \<and> resp = bytes_str sig
         \<and> w' = inc_metric ''hsm_operations_total'' [''sign'', ''success''] (w\<lparr>w_hsm := h'\<rparr>)))
   \<and> ((\<forall>p. ecdsa_check d \<noteq> Ok p) \<longrightarrow>
        (\<exists>e. ECDSAHandler_Handle backend now client d w = (Err e, w)))
   \<and> (validKid kid \<and> length h \<in> {32, 48, 64} \<longrightarrow> ecdsa_check (sign_request kid h) = Ok (kid, h))"
  using sign_handler_Ok_iff [of backend now client d w resp w'] ecdsa_check_no_panic [of d]
    ecdsa_check_sign_request [of kid h]
  by (cases "ecdsa_check d") (simp_all add: ECDSAHandler_Handle_def)

end
