(* ===== verification/Service_Eudiw.thy ===== *)
theory Service_Eudiw
  imports Service_Handlers Crypto_Jose
begin

text \<open>
  \<^verbatim>\<open>internal/service/eudiw_handlers.go\<close>: the wallet key and wallet instance attestations and the
  revocation and suspension of a wallet instance. The store is an argument of the configuration, as
  in the code; a nil store (\<open>None\<close>) makes the first use of it panic. \<open>lib\<close> is go-jose. The handlers'
  effect on the status tables is proved in the locale of the store's contract and obtained for the
  in-memory store by interpretation.
\<close>

section \<open>Configuration\<close>

record 's WalletProviderConfig =
  wp_SigningKey :: PrivateKey
  wp_X5CChain :: "bytes list"
  wp_WalletLink :: string
  wp_WalletName :: string
  wp_WalletVersion :: string
  wp_CertificationInfo :: string
  wp_KeyStorageLevel :: "string list option"
  wp_UserAuthLevel :: "string list option"
  wp_Certification :: string
  wp_StatusListBaseURI :: string
  wp_WKATTL :: duration
  wp_WIATTL :: duration
  wp_StatusMaintenancePeriod :: duration
  wp_Store :: "'s store_ops option"
  wp_Audit :: bool

definition audit_if ::
  "'s WalletProviderConfig \<Rightarrow> instant \<Rightarrow> string \<Rightarrow> string \<Rightarrow> (string \<times> string) list
   \<Rightarrow> ('h, 's) world \<Rightarrow> ('h, 's) world"
where
  "audit_if cfg now event clientID attrs w =
     (if wp_Audit cfg then audit_Log now event clientID ''wua'' attrs w else w)"

section \<open>Public keys as JWKs\<close>

definition quoted :: "string \<Rightarrow> string" where
  "quoted s = CHR 0x22 # s @ [CHR 0x22]"

definition jwk_text :: "string \<Rightarrow> bytes \<Rightarrow> bytes \<Rightarrow> string" where
  "jwk_text crv xBytes yBytes =
     ''{'' @ quoted ''kty'' @ '':'' @ quoted ''EC'' @ '','' @ quoted ''crv'' @ '':'' @ quoted crv @ '',''
     @ quoted ''x'' @ '':'' @ quoted (RawURLEncoding_Encode xBytes) @ '',''
     @ quoted ''y'' @ '':'' @ quoted (RawURLEncoding_Encode yBytes) @ ''}''"

definition jwk_curve :: "string \<Rightarrow> (Curve \<times> nat) option" where
  "jwk_curve curve =
     (if curve = ''P-256'' then Some (P256, 32)
      else if curve = ''P-384'' then Some (P384, 48)
      else if curve = ''P-521'' then Some (P521, 66)
      else None)"

text \<open>The last branch formats \<^verbatim>\<open>ecPoint[0]\<close> into the error, which panics on an empty point.\<close>

definition pubKeyToJWK :: "bytes \<Rightarrow> string \<Rightarrow> (handler_error, string) res" where
  "pubKeyToJWK ecPoint curve =
     (case jwk_curve curve of
        None \<Rightarrow> Err Resolve_failed
      | Some (ecCurve, byteLen) \<Rightarrow>
          if ecPoint \<noteq> [] \<and> hd ecPoint = 4 then
            (if length ecPoint \<noteq> 1 + 2 * byteLen then Err Resolve_failed
             else Ok (jwk_text curve (take byteLen (tl ecPoint)) (drop byteLen (tl ecPoint))))
          else if ecPoint \<noteq> [] \<and> (hd ecPoint = 2 \<or> hd ecPoint = 3) then
            (case elliptic_UnmarshalCompressed ecCurve ecPoint of
               None \<Rightarrow> Err Resolve_failed
             | Some (x, y) \<Rightarrow>
                 Ok (jwk_text curve (pad_left byteLen (nat_bytes (nat x))) (pad_left byteLen (nat_bytes (nat y)))))
          else if ecPoint = [] then Panic
          else Err Resolve_failed)"

definition resolveKeyJWK :: "'s store_ops option \<Rightarrow> 's \<Rightarrow> string \<Rightarrow> (handler_error, string) res" where
  "resolveKeyJWK store s kid =
     (case store of
        None \<Rightarrow> Panic
      | Some st \<Rightarrow>
          (case GetPublicKey st kid s of
             Err e \<Rightarrow> Err (Store_failed e)
           | Panic \<Rightarrow> Panic
           | Ok key \<Rightarrow> pubKeyToJWK (pk_PubKey key) (pk_Curve key)))"

text \<open>The loop over \<^verbatim>\<open>keys_to_attest\<close>: a malformed identifier ends the request, a key that cannot be
  resolved is left out.\<close>

fun attest_keys :: "(string \<Rightarrow> (handler_error, string) res) \<Rightarrow> string list \<Rightarrow> (handler_error, string list) res" where
  "attest_keys resolve [] = Ok []"
| "attest_keys resolve (kid # kids) =
     res_bind (validateKid kid) (\<lambda>_.
       case resolve kid of
         Panic \<Rightarrow> Panic
       | Err _ \<Rightarrow> attest_keys resolve kids
       | Ok jwk \<Rightarrow> res_bind (attest_keys resolve kids) (\<lambda>r. Ok (jwk # r)))"

section \<open>Issuing attestations\<close>

definition ver_draft :: string where "ver_draft = ''draft-008''"

definition list_number :: "int \<Rightarrow> int" where
  "list_number idx = (if 0 \<le> idx then idx div 1000 else - ((- idx) div 1000))"

text \<open>Allocate a status index and record it for the client.\<close>

definition allocate_status ::
  "'s store_ops option \<Rightarrow> string \<Rightarrow> string \<Rightarrow> 's \<Rightarrow> (handler_error, int) res \<times> 's"
where
  "allocate_status store clientID category s =
     (case store of
        None \<Rightarrow> (Panic, s)
      | Some st \<Rightarrow>
          (case AllocateIndex st category s of
             (Err e, s) \<Rightarrow> (Err (Store_failed e), s)
           | (Panic, s) \<Rightarrow> (Panic, s)
           | (Ok idx, s) \<Rightarrow>
               (case RecordWUA st clientID category idx s of
                  (Err e, s) \<Rightarrow> (Err (Store_failed e), s)
                | (Panic, s) \<Rightarrow> (Panic, s)
                | (Ok _, s) \<Rightarrow> (Ok idx, s))))"

definition status_object :: "'s WalletProviderConfig \<Rightarrow> instant \<Rightarrow> string \<Rightarrow> int \<Rightarrow> StatusObject" where
  "status_object cfg now category idx =
     (let statusMaint = (if wp_StatusMaintenancePeriod cfg = 0 then 31 * 24 * Hour else wp_StatusMaintenancePeriod cfg)
      in \<lparr>so_StatusList = \<lparr>sl_Idx = idx,
             sl_URI = wp_StatusListBaseURI cfg @ ''/'' @ category @ ''/'' @ Itoa (list_number idx)\<rparr>,
          so_Exp = to_unix (now + statusMaint)\<rparr>)"

definition wka_payload :: "'s WalletProviderConfig \<Rightarrow> instant \<Rightarrow> string list \<Rightarrow> int \<Rightarrow> WKAPayload" where
  "wka_payload cfg now attestedKeys idx =
     \<lparr>wka_Iat = to_unix now,
      wka_Exp = to_unix (now + (if wp_WKATTL cfg = 0 then 24 * Hour else wp_WKATTL cfg)),
      wka_AttestedKeys = attestedKeys, wka_KeyStorage = wp_KeyStorageLevel cfg,
      wka_UserAuthentication = wp_UserAuthLevel cfg, wka_Certification = wp_Certification cfg,
      wka_WalletLink = wp_WalletLink cfg, wka_KeyStorageStatus = status_object cfg now ''ka'' idx\<rparr>"

definition WKAHandler_Handle ::
  "jose_lib \<Rightarrow> 's WalletProviderConfig \<Rightarrow> instant \<Rightarrow> string \<Rightarrow> string \<Rightarrow> ('h, 's) world
   \<Rightarrow> (handler_error, string) res \<times> ('h, 's) world"
where
  "WKAHandler_Handle lib cfg now clientID reqData w =
     (case Unmarshal_EUDIWAttestationRequest reqData of
        None \<Rightarrow> (Err Parse_request, w)
      | Some req \<Rightarrow>
          if ar_Ver req \<noteq> ver_draft then (Err (Unsupported_version (ar_Ver req)), w)
          else if ar_KeysToAttest req = [] then (Err No_keys_to_attest, w)
          else
            (case attest_keys (resolveKeyJWK (wp_Store cfg) (w_store w)) (ar_KeysToAttest req) of
               Err e \<Rightarrow> (Err e, w)
             | Panic \<Rightarrow> (Panic, w)
             | Ok attestedKeys \<Rightarrow>
                 if attestedKeys = [] then (Err No_valid_keys, w)
                 else
                   (let (r, s) = allocate_status (wp_Store cfg) clientID ''ka'' (w_store w);
                        w = w\<lparr>w_store := s\<rparr>
                    in case r of
                         Err e \<Rightarrow> (Err e, w)
                       | Panic \<Rightarrow> (Panic, w)
                       | Ok idx \<Rightarrow>
                           (case Marshal_WKAPayload (wka_payload cfg now attestedKeys idx) of
                              None \<Rightarrow> (Err Marshal_failed, w)
                            | Some payloadJSON \<Rightarrow>
                                (case SignJWT lib (str_bytes payloadJSON) (wp_SigningKey cfg)
                                        ''keyattestation+jwt'' (wp_X5CChain cfg) of
                                   Err e \<Rightarrow> (Err Sign_failed, w)
                                 | Panic \<Rightarrow> (Panic, w)
                                 | Ok jwt \<Rightarrow>
                                     (Ok (Marshal_WKAResponse jwt),
                                      audit_if cfg now ''wka_issued'' clientID
                                        [(''status_idx'', Itoa idx), (''attested_keys'', Itoa (int (length attestedKeys)))] w))))))"

definition WKAHandler :: "jose_lib \<Rightarrow> 's WalletProviderConfig \<Rightarrow> ('h, 's) world Handler" where
  "WKAHandler lib cfg =
     \<lparr>h_Type = TypeEUDIWWKAETSI, h_Mode = Mode1FA, h_Handle = WKAHandler_Handle lib cfg\<rparr>"

definition wia_payload :: "'s WalletProviderConfig \<Rightarrow> instant \<Rightarrow> string \<Rightarrow> string \<Rightarrow> int \<Rightarrow> WIAPayload" where
  "wia_payload cfg now clientID cnfJWK idx =
     \<lparr>wia_Iat = to_unix now,
      wia_Exp = to_unix (now + (if wp_WIATTL cfg = 0 then 12 * Hour else wp_WIATTL cfg)),
      wia_Sub = clientID, wia_WalletName = wp_WalletName cfg, wia_WalletVersion = wp_WalletVersion cfg,
      wia_CertificationInformation = wp_CertificationInfo cfg, wia_WalletLink = wp_WalletLink cfg,
      wia_ClientStatus = status_object cfg now ''wia'' idx, wia_CnfJWK = cnfJWK\<rparr>"

definition WIAHandler_Handle ::
  "jose_lib \<Rightarrow> 's WalletProviderConfig \<Rightarrow> instant \<Rightarrow> string \<Rightarrow> string \<Rightarrow> ('h, 's) world
   \<Rightarrow> (handler_error, string) res \<times> ('h, 's) world"
where
  "WIAHandler_Handle lib cfg now clientID reqData w =
     (case Unmarshal_EUDIWAttestationRequest reqData of
        None \<Rightarrow> (Err Parse_request, w)
      | Some req \<Rightarrow>
          if ar_Ver req \<noteq> ver_draft then (Err (Unsupported_version (ar_Ver req)), w)
          else
            (case ar_KeysToAttest req of
               [] \<Rightarrow> (Err No_keys_to_attest, w)
             | cnfKid # _ \<Rightarrow>
                 if \<not> validKid cnfKid then (Err Invalid_kid, w)
                 else
                   (case resolveKeyJWK (wp_Store cfg) (w_store w) cnfKid of
                      Err e \<Rightarrow> (Err e, w)
                    | Panic \<Rightarrow> (Panic, w)
                    | Ok cnfJWK \<Rightarrow>
                        (let (r, s) = allocate_status (wp_Store cfg) clientID ''wia'' (w_store w);
                             w = w\<lparr>w_store := s\<rparr>
                         in case r of
                              Err e \<Rightarrow> (Err e, w)
                            | Panic \<Rightarrow> (Panic, w)
                            | Ok idx \<Rightarrow>
                                (case Marshal_WIAPayload (wia_payload cfg now clientID cnfJWK idx) of
                                   None \<Rightarrow> (Err Marshal_failed, w)
                                 | Some payloadJSON \<Rightarrow>
                                     (case SignJWT lib (str_bytes payloadJSON) (wp_SigningKey cfg)
                                             ''oauth-client-attestation+jwt'' (wp_X5CChain cfg) of
                                        Err e \<Rightarrow> (Err Sign_failed, w)
                                      | Panic \<Rightarrow> (Panic, w)
                                      | Ok jwt \<Rightarrow>
                                          (Ok (Marshal_WIAResponse jwt),
                                           audit_if cfg now ''wia_issued'' clientID [(''status_idx'', Itoa idx)] w)))))))"

definition WIAHandler :: "jose_lib \<Rightarrow> 's WalletProviderConfig \<Rightarrow> ('h, 's) world Handler" where
  "WIAHandler lib cfg =
     \<lparr>h_Type = TypeEUDIWWIAETSI, h_Mode = Mode1FA, h_Handle = WIAHandler_Handle lib cfg\<rparr>"

section \<open>Revocation and suspension\<close>

text \<open>The inner loop: set the status of each index, cnt the successes, go on after a failure.\<close>

fun set_statuses ::
  "'s store_ops \<Rightarrow> string \<Rightarrow> byte \<Rightarrow> int list \<Rightarrow> int \<Rightarrow> 's \<Rightarrow> (handler_error, int) res \<times> 's"
where
  "set_statuses st cat status [] cnt s = (Ok cnt, s)"
| "set_statuses st cat status (idx # idxs) cnt s =
     (case SetStatus st cat idx status s of
        (Panic, s) \<Rightarrow> (Panic, s)
      | (Err _, s) \<Rightarrow> set_statuses st cat status idxs cnt s
      | (Ok _, s) \<Rightarrow> set_statuses st cat status idxs (cnt + 1) s)"

fun revoke_cats ::
  "'s store_ops option \<Rightarrow> string \<Rightarrow> byte \<Rightarrow> string list \<Rightarrow> int \<Rightarrow> 's \<Rightarrow> (handler_error, int) res \<times> 's"
where
  "revoke_cats store clientID status [] cnt s = (Ok cnt, s)"
| "revoke_cats store clientID status (cat # cats) cnt s =
     (case store of
        None \<Rightarrow> (Panic, s)
      | Some st \<Rightarrow>
          (case GetClientIndices st clientID cat s of
             Err e \<Rightarrow> (Err (Store_failed e), s)
           | Panic \<Rightarrow> (Panic, s)
           | Ok indices \<Rightarrow>
               (case set_statuses st cat status indices cnt s of
                  (Ok cnt, s) \<Rightarrow> revoke_cats store clientID status cats cnt s
                | r \<Rightarrow> r)))"

definition revokeAll ::
  "'s WalletProviderConfig \<Rightarrow> string \<Rightarrow> byte \<Rightarrow> 's \<Rightarrow> (handler_error, int) res \<times> 's"
where
  "revokeAll cfg clientID status s = revoke_cats (wp_Store cfg) clientID status [''ka'', ''wia''] 0 s"

definition WIRevokeHandler_Handle ::
  "'s WalletProviderConfig \<Rightarrow> instant \<Rightarrow> string \<Rightarrow> string \<Rightarrow> ('h, 's) world
   \<Rightarrow> (handler_error, string) res \<times> ('h, 's) world"
where
  "WIRevokeHandler_Handle cfg now clientID reqData w =
     (case Unmarshal_reason reqData of
        None \<Rightarrow> (Err Parse_request, w)
      | Some reason \<Rightarrow>
          (let (r, s) = revokeAll cfg clientID StatusInvalid (w_store w); w = w\<lparr>w_store := s\<rparr> in
           case r of
             Err e \<Rightarrow> (Err e, w)
           | Panic \<Rightarrow> (Panic, w)
           | Ok cnt \<Rightarrow>
               (Ok (Marshal_WIRevokeResponse cnt ''wallet instance revoked''),
                audit_if cfg now ''wi_revoked'' clientID
                  [(''reason'', reason), (''revoked_indices'', Itoa cnt)] w)))"

definition WIRevokeHandler :: "'s WalletProviderConfig \<Rightarrow> ('h, 's) world Handler" where
  "WIRevokeHandler cfg =
     \<lparr>h_Type = TypeEUDIWWIRevoke, h_Mode = Mode1FA, h_Handle = WIRevokeHandler_Handle cfg\<rparr>"

definition WISuspendHandler_Handle ::
  "'s WalletProviderConfig \<Rightarrow> instant \<Rightarrow> string \<Rightarrow> string \<Rightarrow> ('h, 's) world
   \<Rightarrow> (handler_error, string) res \<times> ('h, 's) world"
where
  "WISuspendHandler_Handle cfg now clientID reqData w =
     (case Unmarshal_reason reqData of
        None \<Rightarrow> (Err Parse_request, w)
      | Some reason \<Rightarrow>
          (let (r, s) = revoke_cats (wp_Store cfg) clientID StatusSuspended [''ka'', ''wia''] 0 (w_store w);
               w = w\<lparr>w_store := s\<rparr>
           in case r of
                Err e \<Rightarrow> (Err e, w)
              | Panic \<Rightarrow> (Panic, w)
              | Ok cnt \<Rightarrow>
                  (Ok (Marshal_WISuspendResponse cnt ''wallet instance suspended''),
                   audit_if cfg now ''wi_suspended'' clientID
                     [(''reason'', reason), (''suspended_indices'', Itoa cnt)] w)))"

definition WISuspendHandler :: "'s WalletProviderConfig \<Rightarrow> ('h, 's) world Handler" where
  "WISuspendHandler cfg =
     \<lparr>h_Type = TypeEUDIWWISuspend, h_Mode = Mode1FA, h_Handle = WISuspendHandler_Handle cfg\<rparr>"

section \<open>The effect on the status tables\<close>

text \<open>The status table after the given indices of a category were set: entries that are absent stay
  absent.\<close>

definition override ::
  "(string \<Rightarrow> int list) \<Rightarrow> string set \<Rightarrow> byte \<Rightarrow> (string \<Rightarrow> int \<Rightarrow> byte option) \<Rightarrow> string \<Rightarrow> int \<Rightarrow> byte option"
where
  "override is ks v e c i = (if c \<in> ks \<and> i \<in> set (is c) \<and> e c i \<noteq> None then Some v else e c i)"

definition present :: "(string \<Rightarrow> int \<Rightarrow> byte option) \<Rightarrow> string \<Rightarrow> int list \<Rightarrow> int" where
  "present e c is = int (length (filter (\<lambda>i. e c i \<noteq> None) is))"

lemma present_mset: "mset is = mset js \<Longrightarrow> present e c is = present e c js"
  unfolding present_def by (metis mset_filter size_mset)

context revocable_status_store
begin

lemma set_statuses_effect:
  "inv s \<Longrightarrow> \<exists>s'. set_statuses ops cat v is n s = (Ok (n + present (entry s) cat is), s')
     \<and> inv s' \<and> owned s' = owned s \<and> entry s' = override (\<lambda>_. is) {cat} v (entry s)"
proof (induction "is" arbitrary: n s)
  case Nil
  then show ?case by (auto simp: present_def override_def fun_eq_iff)
next
  case (Cons i "is")
  obtain r s1 where e: "SetStatus ops cat i v s = (r, s1)" by force
  show ?case
  proof (cases "entry s cat i")
    case None
    obtain x where r: "r = Err x" and s1: "inv s1" "entry s1 = entry s" "owned s1 = owned s"
      using set_status_absent [OF Cons.prems None, of v] e by auto
    obtain s' where "set_statuses ops cat v is n s1 = (Ok (n + present (entry s) cat is), s')"
      "inv s'" "owned s' = owned s" "entry s' = override (\<lambda>_. is) {cat} v (entry s)"
      using Cons.IH [OF s1(1), of n] unfolding s1(2,3) by blast
    moreover have "override (\<lambda>_. i # is) {cat} v (entry s) = override (\<lambda>_. is) {cat} v (entry s)"
      "present (entry s) cat (i # is) = present (entry s) cat is"
      using None by (auto simp: present_def override_def fun_eq_iff)
    ultimately show ?thesis using e by (simp add: r)
  next
    case (Some w)
    have r: "r = Ok ()" using set_status_total [OF Cons.prems, of cat i v] e Some by simp
    with set_status [OF Cons.prems] e have s1: "inv s1" "owned s1 = owned s"
      "entry s1 = (entry s)(cat := (entry s cat)(i \<mapsto> v))" by auto
    obtain s' where s': "set_statuses ops cat v is (n + 1) s1 = (Ok (n + 1 + present (entry s1) cat is), s')"
      "inv s'" "owned s' = owned s1" "entry s' = override (\<lambda>_. is) {cat} v (entry s1)"
      using Cons.IH [OF s1(1)] by blast
    have "present (entry s1) cat is = present (entry s) cat is"
      using Some by (auto simp: s1 present_def intro!: arg_cong [of _ _ length] filter_cong)
    with s' e Some show ?thesis by (auto simp: r s1 present_def override_def fun_eq_iff)
  qed
qed

lemma revoke_cats_effect:
  "inv s \<Longrightarrow> distinct ks \<Longrightarrow> \<exists>s'. revoke_cats (Some ops) client v ks n s =
       (Ok (n + (\<Sum>k \<leftarrow> ks. present (entry s) k (owned s client k))), s')
     \<and> inv s' \<and> owned s' = owned s \<and> entry s' = override (owned s client) (set ks) v (entry s)"
proof (induction ks arbitrary: n s)
  case Nil
  then show ?case by (auto simp: override_def fun_eq_iff)
next
  case (Cons k ks)
  obtain "is" where g: "GetClientIndices ops client k s = Ok is" "mset is = mset (owned s client k)"
    using client_indices_total [OF Cons.prems(1)] client_indices [OF Cons.prems(1)] by metis
  have p: "present (entry s) k is = present (entry s) k (owned s client k)"
    and o: "override (\<lambda>_. is) {k} v (entry s) = override (\<lambda>_. owned s client k) {k} v (entry s)"
    using present_mset [OF g(2)] mset_eq_setD [OF g(2)] by (simp_all add: override_def fun_eq_iff)
  obtain s1 where s1: "set_statuses ops k v is n s = (Ok (n + present (entry s) k (owned s client k)), s1)"
    "inv s1" "owned s1 = owned s" "entry s1 = override (\<lambda>_. owned s client k) {k} v (entry s)"
    using set_statuses_effect [OF Cons.prems(1), of k v "is" n] unfolding p o by blast
  obtain s' where s': "revoke_cats (Some ops) client v ks (n + present (entry s) k (owned s client k)) s1 =
       (Ok (n + present (entry s) k (owned s client k)
            + (\<Sum>k \<leftarrow> ks. present (entry s1) k (owned s1 client k))), s')"
    "inv s'" "owned s' = owned s1" "entry s' = override (owned s1 client) (set ks) v (entry s1)"
    using Cons.IH [OF s1(2)] Cons.prems(2) by force
  have "present (entry s1) k' (owned s client k') = present (entry s) k' (owned s client k')"
    if "k' \<in> set ks" for k'
    using that Cons.prems(2) by (auto simp: s1 present_def override_def intro!: arg_cong [of _ _ length] filter_cong)
  then have "(\<Sum>k \<leftarrow> ks. present (entry s1) k (owned s client k)) = (\<Sum>k \<leftarrow> ks. present (entry s) k (owned s client k))"
    by (simp cong: map_cong)
  moreover have "entry s' = override (owned s client) (set (k # ks)) v (entry s)"
    using Cons.prems(2) by (auto simp: s'(4) s1(3,4) override_def fun_eq_iff)
  ultimately show ?case using s'(1-3) s1(1-3) g by simp
qed

end

context reliable_status_store
begin

lemma allocate_status_effect:
  assumes "inv s" and "cat \<in> cats"
  shows "\<exists>i s'. allocate_status (Some ops) client cat s = (Ok i, s') \<and> inv s' \<and> 0 \<le> i \<and> entry s cat i = None
     \<and> entry s' = (entry s)(cat := (entry s cat)(i \<mapsto> StatusValid))
     \<and> (\<forall>c. \<forall>k \<in> cats. mset (owned s' c k) =
          (if c = client \<and> k = cat then add_mset i (mset (owned s client cat)) else mset (owned s c k)))"
proof -
  obtain i s1 where a: "AllocateIndex ops cat s = (Ok i, s1)"
    using allocate_total [OF assms(1)] by (metis fst_conv surj_pair)
  with allocate [OF assms(1) a] have s1: "inv s1" "0 \<le> i" "entry s cat i = None" "owned s1 = owned s"
    "entry s1 = (entry s)(cat := (entry s cat)(i \<mapsto> StatusValid))" by auto
  obtain s2 where b: "RecordWUA ops client cat i s1 = (Ok (), s2)"
    using record_wua_total [OF s1(1)] by (metis fst_conv surj_pair)
  from record_wua [OF s1(1) assms(2) b] a b s1 show ?thesis by (simp add: allocate_status_def)
qed

end

section \<open>The handlers on the in-memory store\<close>

lemma ka_wia_cats: "''ka'' \<in> set att_categories" "''wia'' \<in> set att_categories"
  by (simp_all add: att_categories_def)

lemma attest_keys_sound:
  "attest_keys resolve kids = Ok jwks \<Longrightarrow>
     list_all validKid kids \<and> (\<forall>j \<in> set jwks. \<exists>kid \<in> set kids. resolve kid = Ok j)"
proof (induction kids arbitrary: jwks)
  case (Cons kid kids)
  then show ?case
    by (cases "resolve kid") (fastforce simp: res_bind_Ok_iff validateKid_def split: if_splits)+
qed simp

lemma attest_keys_complete:
  "list_all validKid kids \<Longrightarrow> \<forall>kid \<in> set kids. resolve kid \<noteq> Panic \<Longrightarrow>
     attest_keys resolve kids = Ok (concat (map (\<lambda>k. case resolve k of Ok j \<Rightarrow> [j] | _ \<Rightarrow> []) kids))"
proof (induction kids)
  case (Cons kid kids)
  then show ?case by (cases "resolve kid") (auto simp: validateKid_def)
qed simp

text \<open>The state after an index was issued to a client in a category.\<close>

definition issued :: "string \<Rightarrow> string \<Rightarrow> int \<Rightarrow> MemoryStore \<Rightarrow> MemoryStore \<Rightarrow> bool" where
  "issued client cat idx m m' \<longleftrightarrow>
     wf_mem m' \<and> 0 \<le> idx \<and> mem_entry m cat idx = None
     \<and> mem_entry m' = (mem_entry m)(cat := (mem_entry m cat)(idx \<mapsto> StatusValid))
     \<and> (\<forall>c. \<forall>k \<in> set att_categories. mem_owned m' c k =
          (if c = client \<and> k = cat then mem_owned m client cat @ [idx] else mem_owned m c k))"

lemma memory_allocate_status:
  "wf_mem m \<Longrightarrow> cat \<in> set att_categories \<Longrightarrow>
     \<exists>idx m'. allocate_status (Some memory_ops) client cat m = (Ok idx, m') \<and> issued client cat idx m m'"
proof -
  assume m: "wf_mem m" and cat: "cat \<in> set att_categories"
  then obtain i m' where a: "allocate_status (Some memory_ops) client cat m = (Ok i, m')" and e: "wf_mem m'" "0 \<le> i"
    "mem_entry m cat i = None" "mem_entry m' = (mem_entry m)(cat := (mem_entry m cat)(i \<mapsto> StatusValid))"
    using memory.allocate_status_effect [of m cat client] by blast
  obtain r m1 where r: "mem_AllocateIndex cat m = (r, m1)" by (metis surj_pair)
  with a have "mem_RecordWUA client cat i m1 = (Ok (), m')"
    by (auto simp: allocate_status_def memory_ops_def split: res.splits prod.splits)
  moreover have "CHR ''|'' \<notin> set k" if "k \<in> set att_categories" for k
    using that by (auto simp: att_categories_def)
  ultimately have "mem_owned m' c k = (if c = client \<and> k = cat then mem_owned m client cat @ [i] else mem_owned m c k)"
    if "k \<in> set att_categories" for c k
    using mem_RecordWUA_eq [of client cat i m1 "Ok ()" m' k c] mem_Allocate_eq(3) [OF r] cat that by auto
  with a e show ?thesis by (auto simp: issued_def)
qed

lemma audit_if_store [simp]:
  "w_store (audit_if cfg now e c a w) = w_store w" "w_hsm (audit_if cfg now e c a w) = w_hsm w"
  by (simp_all add: audit_if_def audit_Log_def)

lemma WKA_Ok_cases:
  assumes "WKAHandler_Handle lib cfg now client d w = (Ok resp, w')"
  obtains req keys idx s payload jwt where
    "Unmarshal_EUDIWAttestationRequest d = Some req" "ar_Ver req = ver_draft"
    "attest_keys (resolveKeyJWK (wp_Store cfg) (w_store w)) (ar_KeysToAttest req) = Ok keys" "keys \<noteq> []"
    "allocate_status (wp_Store cfg) client ''ka'' (w_store w) = (Ok idx, s)"
    "Marshal_WKAPayload (wka_payload cfg now keys idx) = Some payload"
    "SignJWT lib (str_bytes payload) (wp_SigningKey cfg) ''keyattestation+jwt'' (wp_X5CChain cfg) = Ok jwt"
    "resp = Marshal_WKAResponse jwt" "w_store w' = s" "w_hsm w' = w_hsm w"
  using assms
  by (auto simp: WKAHandler_Handle_def Let_def
      split: option.splits if_splits res.splits prod.splits)

lemma WIA_Ok_cases:
  assumes "WIAHandler_Handle lib cfg now client d w = (Ok resp, w')"
  obtains req kid kids jwk idx s payload jwt where
    "Unmarshal_EUDIWAttestationRequest d = Some req" "ar_Ver req = ver_draft"
    "ar_KeysToAttest req = kid # kids" "resolveKeyJWK (wp_Store cfg) (w_store w) kid = Ok jwk"
    "allocate_status (wp_Store cfg) client ''wia'' (w_store w) = (Ok idx, s)"
    "Marshal_WIAPayload (wia_payload cfg now client jwk idx) = Some payload"
    "SignJWT lib (str_bytes payload) (wp_SigningKey cfg) ''oauth-client-attestation+jwt'' (wp_X5CChain cfg) = Ok jwt"
    "resp = Marshal_WIAResponse jwt" "w_store w' = s" "w_hsm w' = w_hsm w"
  using assms
  by (auto simp: WIAHandler_Handle_def Let_def
      split: option.splits if_splits res.splits prod.splits list.splits)

lemma memory_revoke:
  assumes "wf_mem m"
  shows "\<exists>m'. revoke_cats (Some memory_ops) client v [''ka'', ''wia''] 0 m =
       (Ok (present (mem_entry m) ''ka'' (mem_owned m client ''ka'')
            + present (mem_entry m) ''wia'' (mem_owned m client ''wia'')), m')
     \<and> wf_mem m' \<and> mem_owned m' = mem_owned m
     \<and> mem_entry m' = override (mem_owned m client) {''ka'', ''wia''} v (mem_entry m)"
  using memory.revoke_cats_effect [OF assms, of "[''ka'', ''wia'']" client v 0] by simp

text \<open>How many of a client's recorded indices have an entry.\<close>

definition owned_count :: "MemoryStore \<Rightarrow> string \<Rightarrow> int" where
  "owned_count m client =
     present (mem_entry m) ''ka'' (mem_owned m client ''ka'')
     + present (mem_entry m) ''wia'' (mem_owned m client ''wia'')"

text \<open>An issued index belongs to the client and is found by a later revocation.\<close>

lemma revoked_after_issue:
  assumes "issued client cat idx m m'" and "cat \<in> {''ka'', ''wia''}"
  shows "override (mem_owned m' client) {''ka'', ''wia''} v (mem_entry m') cat idx = Some v"
  using assms by (auto simp: issued_def override_def att_categories_def)

text \<open>A printed JWK is valid JSON, so the payload of an attestation can always be encoded.\<close>

definition safe_char :: "char \<Rightarrow> bool" where
  "safe_char c \<longleftrightarrow> (of_char c :: nat) < 0x80 \<and> quote_ascii c = [c]"

lemma quote_body_safe: "list_all safe_char s \<Longrightarrow> quote_body s = s"
  by (induction s) (auto simp: safe_char_def quote_body.simps)

lemma quoted_safe: "list_all safe_char s \<Longrightarrow> quoted s = json_quote s"
  by (simp add: quoted_def json_quote_def quote_body_safe)

lemma safe_charI:
  assumes "32 \<le> (of_char c :: nat)" and "(of_char c :: nat) < 0x80" and "(of_char c :: nat) \<notin> {34, 92, 60, 62, 38}"
  shows "safe_char c"
proof -
  have "c \<notin> {CHR 0x22, CHR 0x5C, CHR 0x08, CHR 0x0C, CHR 0x0A, CHR 0x0D, CHR 0x09, CHR ''<'', CHR ''>'', CHR ''&''}"
    using assms by auto
  with assms(1,2) show ?thesis by (simp add: safe_char_def quote_ascii_def)
qed

lemma b64_char_safe: "n < 64 \<Longrightarrow> safe_char (b64_char n)"
  by (rule safe_charI) (auto simp: b64_char_def)

lemma b64_safe: "list_all safe_char (RawURLEncoding_Encode bs)"
  by (rule b64_encode_all) (auto intro: b64_char_safe safe_charI)

definition jwk_members :: "string \<Rightarrow> bytes \<Rightarrow> bytes \<Rightarrow> (string \<times> json \<times> string) list" where
  "jwk_members crv x y = map (\<lambda>(n, s). (n, JStr s, json_quote s))
     [(''kty'', ''EC''), (''crv'', crv), (''x'', RawURLEncoding_Encode x), (''y'', RawURLEncoding_Encode y)]"

lemma jwk_text_encodes:
  assumes "crv \<in> {''P-256'', ''P-384'', ''P-521''}"
  shows "encodes 1 (jwk_text crv x y) (JObj (jwk_members crv x y))"
proof -
  have s: "list_all safe_char ''kty''" "list_all safe_char ''EC''" "list_all safe_char ''crv''"
    "list_all safe_char ''x''" "list_all safe_char ''y''" "list_all safe_char crv"
    using assms by (auto intro!: safe_charI)
  have v: "list_all safe_char w \<Longrightarrow> utf8_valid w" for w
    by (rule utf8_valid_ascii) (auto simp: list_all_iff safe_char_def)
  have "jwk_text crv x y = json_object (map (\<lambda>(n, j, w). (n, w)) (jwk_members crv x y))"
    using s b64_safe by (simp add: jwk_text_def quoted_safe json_object_def jwk_members_def)
  moreover have "\<forall>(n, j, w) \<in> set (jwk_members crv x y). utf8_valid n \<and> encodes 0 w j"
    using s b64_safe by (auto simp: jwk_members_def v intro: enc_intros)
  ultimately show ?thesis using enc_object [of "jwk_members crv x y" 0] by simp
qed

lemma pubKeyToJWK_raw: "pubKeyToJWK p c = Ok j \<Longrightarrow> json_raw j = Some j"
proof -
  assume "pubKeyToJWK p c = Ok j"
  then obtain x y where "j = jwk_text c x y" and "c \<in> {''P-256'', ''P-384'', ''P-521''}"
    by (auto simp: pubKeyToJWK_def jwk_curve_def split: if_splits option.splits)
  then show ?thesis using encodes_parse(3) [OF jwk_text_encodes, of c x y] by simp
qed

lemma pubKeyToJWK_panic: "pubKeyToJWK p c = Panic \<longleftrightarrow> p = [] \<and> c \<in> {''P-256'', ''P-384'', ''P-521''}"
  by (auto simp: pubKeyToJWK_def jwk_curve_def split: if_splits option.splits)

lemma all_some_map: "\<forall>x \<in> set xs. f x = Some (g x) \<Longrightarrow> all_some (map f xs) = Some (map g xs)"
  by (induction xs) auto

lemma WKA_payload_encodes:
  assumes "attest_keys (resolveKeyJWK store s) kids = Ok keys"
  shows "Marshal_WKAPayload (wka_payload cfg now keys idx) \<noteq> None"
proof -
  have "json_raw j = Some j" if "j \<in> set keys" for j
    using attest_keys_sound [OF assms] that pubKeyToJWK_raw
    by (fastforce simp: resolveKeyJWK_def split: option.splits res.splits)
  then have "all_some (map json_raw keys) = Some keys" using all_some_map [of keys json_raw id] by simp
  then show ?thesis by (simp add: Marshal_WKAPayload_def wka_payload_def)
qed

text \<open>On a well-formed in-memory store an acceptable request is answered.\<close>

lemma WKA_answers:
  assumes "wf_mem (w_store w)" and "wp_Store cfg = Some memory_ops"
    and "Unmarshal_EUDIWAttestationRequest d = Some \<lparr>ar_KeysToAttest = kids, ar_Ver = ver_draft\<rparr>"
    and "attest_keys (resolveKeyJWK (Some memory_ops) (w_store w)) kids = Ok keys" and "keys \<noteq> []"
    and "\<And>p. \<exists>jwt. SignJWT lib p (wp_SigningKey cfg) ''keyattestation+jwt'' (wp_X5CChain cfg) = Ok jwt"
  shows "\<exists>resp w'. WKAHandler_Handle lib cfg now client d w = (Ok resp, w')"
proof -
  obtain idx m where a: "allocate_status (Some memory_ops) client ''ka'' (w_store w) = (Ok idx, m)"
    using memory_allocate_status [OF assms(1) ka_wia_cats(1)] by blast
  obtain pl where p: "Marshal_WKAPayload (wka_payload cfg now keys idx) = Some pl"
    using WKA_payload_encodes [OF assms(4), of cfg now idx] by blast
  obtain jwt where "SignJWT lib (str_bytes pl) (wp_SigningKey cfg) ''keyattestation+jwt'' (wp_X5CChain cfg) = Ok jwt"
    using assms(6) by blast
  moreover have "kids \<noteq> []" using assms(4,5) by auto
  ultimately show ?thesis using assms a p by (simp add: WKAHandler_Handle_def)
qed

lemma WIA_answers:
  assumes "wf_mem (w_store w)" and "wp_Store cfg = Some memory_ops"
    and "Unmarshal_EUDIWAttestationRequest d = Some \<lparr>ar_KeysToAttest = kid # kids, ar_Ver = ver_draft\<rparr>"
    and "validKid kid" and "resolveKeyJWK (Some memory_ops) (w_store w) kid = Ok jwk"
    and "\<And>p. \<exists>jwt. SignJWT lib p (wp_SigningKey cfg) ''oauth-client-attestation+jwt'' (wp_X5CChain cfg) = Ok jwt"
  shows "\<exists>resp w'. WIAHandler_Handle lib cfg now client d w = (Ok resp, w')"
proof -
  obtain idx m where a: "allocate_status (Some memory_ops) client ''wia'' (w_store w) = (Ok idx, m)"
    using memory_allocate_status [OF assms(1) ka_wia_cats(2)] by blast
  have "json_raw jwk = Some jwk"
    using assms(5) pubKeyToJWK_raw by (auto simp: resolveKeyJWK_def split: res.splits)
  then obtain pl where p: "Marshal_WIAPayload (wia_payload cfg now client jwk idx) = Some pl"
    by (simp add: Marshal_WIAPayload_def wia_payload_def)
  obtain jwt where "SignJWT lib (str_bytes pl) (wp_SigningKey cfg) ''oauth-client-attestation+jwt'' (wp_X5CChain cfg) = Ok jwt"
    using assms(6) by blast
  then show ?thesis using assms a p by (simp add: WIAHandler_Handle_def)
qed

section \<open>A concrete provider\<close>

definition demo_cfg :: "MemoryStore WalletProviderConfig" where
  "demo_cfg =
     \<lparr>wp_SigningKey = \<lparr>priv_PublicKey = \<lparr>pub_Curve = P256, pub_X = 1, pub_Y = 2\<rparr>, priv_D = 1\<rparr>,
      wp_X5CChain = [], wp_WalletLink = [], wp_WalletName = [], wp_WalletVersion = [],
      wp_CertificationInfo = ''null'', wp_KeyStorageLevel = None, wp_UserAuthLevel = None, wp_Certification = [],
      wp_StatusListBaseURI = [], wp_WKATTL = 0, wp_WIATTL = 0, wp_StatusMaintenancePeriod = 0,
      wp_Store = Some memory_ops, wp_Audit = False\<rparr>"

definition demo_world :: "(unit, MemoryStore) world" where
  "demo_world =
     \<lparr>w_hsm = (), w_store = snd (mem_PutPublicKey \<lparr>pk_Kid = ''k'', pk_Curve = ''P-256'',
        pk_PubKey = 4 # replicate 64 1, pk_CreationTime = 0, pk_ClientID = ''c''\<rparr> NewMemoryStore),
      w_metrics = [], w_audit = []\<rparr>"

definition demo_members :: "(string \<times> json \<times> string) list" where
  "demo_members =
     [(''keys_to_attest'', JArr [(JStr ''k'', json_quote ''k'')], json_array (map snd [(JStr ''k'', json_quote ''k'')])),
      (''ver'', JStr ''draft-008'', json_quote ''draft-008'')]"

definition demo_request :: string where
  "demo_request = json_object (map (\<lambda>(n, j, w). (n, w)) demo_members)"

lemma demo_members_ok: "\<forall>(n, j, w) \<in> set demo_members. utf8_valid n \<and> encodes 1 w j"
proof -
  have u: "utf8_valid ''k''" "utf8_valid ''keys_to_attest''" "utf8_valid ''draft-008''"
    by (simp_all add: utf8_valid_ascii)
  have "encodes 1 (json_array (map snd [(JStr ''k'', json_quote ''k'')])) (JArr [(JStr ''k'', json_quote ''k'')])"
    using enc_array [of "[(JStr ''k'', json_quote ''k'')]" 0] u by (simp add: enc_intros)
  with u show ?thesis by (simp add: demo_members_def) (auto intro: enc_intros encodes_mono [of 0])
qed

lemma demo_request_parses:
  "Unmarshal_EUDIWAttestationRequest demo_request = Some \<lparr>ar_KeysToAttest = [''k''], ar_Ver = ver_draft\<rparr>"
  using Unmarshal_object [OF demo_members_ok, of EUDIWAttestationRequest_fields]
  by (simp add: Unmarshal_EUDIWAttestationRequest_def demo_request_def demo_members_def
      EUDIWAttestationRequest_fields_def find_field_def field_str_def field_strs_def ver_draft_def)

lemma demo_wf: "wf_mem (w_store demo_world)" "wp_Store demo_cfg = Some memory_ops"
  using wf_mem_step [OF wf_mem_new, of "Ev_PutKey k" for k] by (simp_all add: demo_world_def demo_cfg_def)

lemma demo_resolve: "\<exists>j. resolveKeyJWK (Some memory_ops) (w_store demo_world) ''k'' = Ok j"
  by (simp add: resolveKeyJWK_def demo_world_def memory_ops_def mem_GetPublicKey_def mem_PutPublicKey_def
      NewMemoryStore_def pubKeyToJWK_def jwk_curve_def)

lemma toy_SignJWT: "\<exists>jwt. SignJWT toy_jose p (wp_SigningKey demo_cfg) typ x = Ok jwt"
  by (simp add: SignJWT_def demo_cfg_def ecAlgorithm_def sign_with_def toy_jose_def)

lemma demo_k: "validKid ''k''" by (simp add: validKid_def kid_char_def)

lemma demo_reason: "Unmarshal_reason (json_object []) = Some []"
  using Unmarshal_object [of "[]" 0 reason_fields "[]"] by (simp add: Unmarshal_reason_def)

section \<open>Properties\<close>

text \<open>C37: A wallet key attestation. When the handler answers, the answer is a JWT that verifies with
  the provider's public key; its payload lists at least one key and every listed key is the JWK of a
  public key registered under a requested, well-formed identifier; it refers to a status index that
  was unused before, is now Valid and is recorded for the requesting client; no other status entry
  and no other client's indices change, and the HSM is not touched.\<close>

theorem wka_issued_and_recorded:
  assumes "jose_signs lib" and "wf_mem (w_store w)" and "wp_Store cfg = Some memory_ops"
    and "WKAHandler_Handle lib cfg now client d w = (Ok resp, w')"
  shows "\<exists>req keys idx payload jwt. Unmarshal_EUDIWAttestationRequest d = Some req
     \<and> resp = Marshal_WKAResponse jwt
     \<and> VerifyJWS lib jwt (priv_PublicKey (wp_SigningKey cfg)) = Ok (str_bytes payload)
     \<and> Marshal_WKAPayload (wka_payload cfg now keys idx) = Some payload
     \<and> keys \<noteq> [] \<and> list_all validKid (ar_KeysToAttest req)
     \<and> (\<forall>j \<in> set keys. \<exists>kid \<in> set (ar_KeysToAttest req). \<exists>key.
          mem_GetPublicKey kid (w_store w) = Ok key \<and> pubKeyToJWK (pk_PubKey key) (pk_Curve key) = Ok j)
     \<and> issued client ''ka'' idx (w_store w) (w_store w') \<and> w_hsm w' = w_hsm w"
proof -
  from assms(4) obtain req keys idx s payload jwt where h:
    "Unmarshal_EUDIWAttestationRequest d = Some req"
    "attest_keys (resolveKeyJWK (wp_Store cfg) (w_store w)) (ar_KeysToAttest req) = Ok keys" "keys \<noteq> []"
    "allocate_status (wp_Store cfg) client ''ka'' (w_store w) = (Ok idx, s)"
    "Marshal_WKAPayload (wka_payload cfg now keys idx) = Some payload"
    "SignJWT lib (str_bytes payload) (wp_SigningKey cfg) ''keyattestation+jwt'' (wp_X5CChain cfg) = Ok jwt"
    "resp = Marshal_WKAResponse jwt" "w_store w' = s" "w_hsm w' = w_hsm w"
    by (rule WKA_Ok_cases)
  have "issued client ''ka'' idx (w_store w) (w_store w')"
    using memory_allocate_status [OF assms(2) ka_wia_cats(1), of client] h(4,8) by (simp add: assms(3))
  moreover have "\<exists>key. mem_GetPublicKey kid m = Ok key \<and> pubKeyToJWK (pk_PubKey key) (pk_Curve key) = Ok j"
    if "resolveKeyJWK (Some memory_ops) m kid = Ok j" for kid m j
    using that by (auto simp: resolveKeyJWK_def memory_ops_def split: res.splits)
  ultimately show ?thesis
    using h SignJWT_verifies [OF assms(1) h(6)] attest_keys_sound [OF h(2)] assms(3) by (metis (no_types, lifting))
qed

theorem wka_issued_and_recorded_witness:
  "\<exists>resp w' idx. WKAHandler_Handle toy_jose demo_cfg 0 ''c'' demo_request demo_world = (Ok resp, w')
     \<and> issued ''c'' ''ka'' idx (w_store demo_world) (w_store w')"
proof -
  obtain j where "attest_keys (resolveKeyJWK (Some memory_ops) (w_store demo_world)) [''k''] = Ok [j]"
    using demo_resolve demo_k by (auto simp: validateKid_def)
  from WKA_answers [OF demo_wf demo_request_parses this, of toy_jose 0 "''c''"] toy_SignJWT
  obtain resp w' where h: "WKAHandler_Handle toy_jose demo_cfg 0 ''c'' demo_request demo_world = (Ok resp, w')"
    by auto
  with wka_issued_and_recorded [OF toy_jose_signs demo_wf h] show ?thesis by blast
qed

text \<open>C38: Revocation and suspension reach exactly the requesting client's attestations. On a
  well-formed store and a request that parses, both handlers always answer; the count they report is
  the number of recorded indices that exist; every one of them gets the Invalid, respectively
  Suspended, status, and every other entry of every category stays as it was.\<close>

theorem revoke_and_suspend_exact:
  assumes "wf_mem (w_store w)" and "wp_Store cfg = Some memory_ops" and "Unmarshal_reason d = Some reason"
  shows "(\<exists>w'. WIRevokeHandler_Handle cfg now client d w =
          (Ok (Marshal_WIRevokeResponse (owned_count (w_store w) client) ''wallet instance revoked''), w')
        \<and> wf_mem (w_store w') \<and> mem_owned (w_store w') = mem_owned (w_store w)
        \<and> mem_entry (w_store w') =
            override (mem_owned (w_store w) client) {''ka'', ''wia''} StatusInvalid (mem_entry (w_store w)))
     \<and> (\<exists>w'. WISuspendHandler_Handle cfg now client d w =
          (Ok (Marshal_WISuspendResponse (owned_count (w_store w) client) ''wallet instance suspended''), w')
        \<and> wf_mem (w_store w') \<and> mem_owned (w_store w') = mem_owned (w_store w)
        \<and> mem_entry (w_store w') =
            override (mem_owned (w_store w) client) {''ka'', ''wia''} StatusSuspended (mem_entry (w_store w)))"
  using memory_revoke [OF assms(1), of client StatusInvalid]
    memory_revoke [OF assms(1), of client StatusSuspended]
  by (auto simp: WIRevokeHandler_Handle_def WISuspendHandler_Handle_def revokeAll_def assms(2,3) owned_count_def)

theorem revoke_and_suspend_exact_witness:
  "\<exists>w'. WIRevokeHandler_Handle demo_cfg 0 ''c'' (json_object []) demo_world =
     (Ok (Marshal_WIRevokeResponse 0 ''wallet instance revoked''), w')"
proof -
  have "owned_count (w_store demo_world) ''c'' = 0"
    by (simp add: owned_count_def mem_owned_def present_def demo_world_def mem_PutPublicKey_def
        NewMemoryStore_def map_get_def)
  with revoke_and_suspend_exact [OF demo_wf demo_reason, of 0 "''c''"] show ?thesis by auto
qed

text \<open>End to end: an attestation a client was issued is, after that client's revocation request,
  Invalid in the status table, whatever requests that do not touch the store came in between; a
  suspension after the revocation makes it merely Suspended again.\<close>

lemma issue_revoke_suspend:
  assumes "wf_mem (w_store w)" and "wp_Store cfg = Some memory_ops" and "Unmarshal_reason d' = Some reason"
    and "WIAHandler_Handle lib cfg now client d w = (Ok resp, w1)" and "w_store w2 = w_store w1"
    and "WIRevokeHandler_Handle cfg now' client d' w2 = (r, w3)"
    and "WISuspendHandler_Handle cfg now'' client d' w3 = (r', w4)"
  shows "\<exists>idx. mem_entry (w_store w) ''wia'' idx = None
     \<and> mem_GetStatus ''wia'' idx (w_store w1) = Ok StatusValid
     \<and> mem_GetStatus ''wia'' idx (w_store w3) = Ok StatusInvalid
     \<and> mem_GetStatus ''wia'' idx (w_store w4) = Ok StatusSuspended"
proof -
  have get: "mem_GetStatus c i m = Ok v \<longleftrightarrow> mem_entry m c i = Some v" for c i m v
    by (auto simp: mem_GetStatus_def mem_entry_def map_get_def split: option.splits)
  from assms(4) obtain idx s where a: "allocate_status (wp_Store cfg) client ''wia'' (w_store w) = (Ok idx, s)"
    "w_store w1 = s"
    by (rule WIA_Ok_cases)
  then have i: "issued client ''wia'' idx (w_store w) (w_store w1)"
    using memory_allocate_status [OF assms(1) ka_wia_cats(2), of client] by (simp add: assms(2))
  then have "wf_mem (w_store w2)" by (simp add: issued_def assms(5))
  from memory_revoke [OF this, of client StatusInvalid] obtain m3 where 3: "w_store w3 = m3" "wf_mem m3"
    "mem_owned m3 = mem_owned (w_store w1)"
    "mem_entry m3 = override (mem_owned (w_store w1) client) {''ka'', ''wia''} StatusInvalid (mem_entry (w_store w1))"
    using assms(6) by (auto simp: WIRevokeHandler_Handle_def revokeAll_def assms(2,3,5))
  from memory_revoke [OF 3(2), of client StatusSuspended] obtain m4 where 4: "w_store w4 = m4"
    "mem_entry m4 = override (mem_owned m3 client) {''ka'', ''wia''} StatusSuspended (mem_entry m3)"
    using assms(7) by (auto simp: WISuspendHandler_Handle_def assms(2,3) 3(1))
  have "mem_entry m3 ''wia'' idx = Some StatusInvalid"
    using revoked_after_issue [OF i] by (simp add: 3)
  moreover have "mem_entry m4 ''wia'' idx = Some StatusSuspended"
    using i calculation by (auto simp: 4 3(3) override_def issued_def att_categories_def)
  ultimately show ?thesis using i 3(1) 4(1) by (auto simp: get issued_def)
qed


end
