(* ===== verification/Pake_Opaque.thy ===== *)
theory Pake_Opaque
  imports Go_Prelude
begin

text \<open>
  \<^verbatim>\<open>internal/pake/opaque.go\<close>: the wrapper around the bytemare/opaque library. The library is the
  parameter \<open>opaque_lib\<close>, one field per call the code makes; \<open>'m\<close> is the type of its protocol
  messages. Calls that draw randomness inside the library take it as the argument \<open>seed\<close>.
  \<open>opaque_completes\<close> names what the library documents about an honest run and is a hypothesis of the
  end-to-end theorems; \<open>toy_opaque\<close> satisfies it.
\<close>

section \<open>The library\<close>

record ServerKeyMaterial =
  skm_PrivateKey :: bytes
  skm_PublicKeyBytes :: bytes
  skm_OPRFGlobalSeed :: bytes

record 'm ClientRecord =
  rec_RegistrationRecord :: 'm
  rec_CredentialIdentifier :: bytes
  rec_ClientIdentity :: bytes

text \<open>A nil pointer is \<open>None\<close>. \<open>ol_GenerateKE2\<close> gives the KE2 message, the expected client MAC and the
  session secret.\<close>

record 'm opaque_lib =
  ol_KeyGen :: "bytes \<Rightarrow> bytes \<times> bytes"
  ol_GenerateOPRFSeed :: "bytes \<Rightarrow> bytes"
  ol_Server :: bool
  ol_Deserializer :: bool
  ol_SetKeyMaterial :: "ServerKeyMaterial option \<Rightarrow> bool"
  ol_GetRegistrationRequest :: "bytes \<Rightarrow> 'm option"
  ol_GetRegistrationRecord :: "bytes \<Rightarrow> 'm option"
  ol_GetKE1 :: "bytes \<Rightarrow> 'm option"
  ol_GetKE3 :: "bytes \<Rightarrow> 'm option"
  ol_RegistrationResponse :: "ServerKeyMaterial option \<Rightarrow> 'm \<Rightarrow> bytes \<Rightarrow> 'm option"
  ol_GenerateKE2 :: "ServerKeyMaterial option \<Rightarrow> bytes \<Rightarrow> 'm \<Rightarrow> 'm ClientRecord option \<Rightarrow> ('m \<times> bytes \<times> bytes) option"
  ol_LoginFinish :: "ServerKeyMaterial option \<Rightarrow> 'm \<Rightarrow> bytes \<Rightarrow> bool"
  ol_Serialize :: "'m \<Rightarrow> bytes"
  ol_GetFakeRecord :: "bytes \<Rightarrow> bytes \<Rightarrow> 'm ClientRecord option"

datatype opaque_error =
    Create_server
  | Set_key_material
  | Create_deserializer
  | Deserialize_registration_request
  | Generate_registration_response
  | Deserialize_record
  | Deserialize_KE1
  | Generate_KE2
  | Deserialize_KE3
  | Login_finish

section \<open>The wrapper\<close>

definition GenerateServerKeyMaterial :: "'m opaque_lib \<Rightarrow> bytes \<Rightarrow> bytes \<Rightarrow> ServerKeyMaterial" where
  "GenerateServerKeyMaterial lib seed1 seed2 =
     (let (sk, pk) = ol_KeyGen lib seed1; oprfSeed = ol_GenerateOPRFSeed lib seed2
      in \<lparr>skm_PrivateKey = sk, skm_PublicKeyBytes = pk, skm_OPRFGlobalSeed = oprfSeed\<rparr>)"

record OPAQUEServer =
  os_server :: "ServerKeyMaterial option"

definition NewOPAQUEServer :: "'m opaque_lib \<Rightarrow> ServerKeyMaterial option \<Rightarrow> (opaque_error, OPAQUEServer) res" where
  "NewOPAQUEServer lib skm =
     (if \<not> ol_Server lib then Err Create_server
      else if \<not> ol_SetKeyMaterial lib skm then Err Set_key_material
      else if \<not> ol_Deserializer lib then Err Create_deserializer
      else Ok \<lparr>os_server = skm\<rparr>)"

definition opaque_RegistrationResponse ::
  "'m opaque_lib \<Rightarrow> OPAQUEServer \<Rightarrow> bytes \<Rightarrow> bytes \<Rightarrow> (opaque_error, bytes) res"
where
  "opaque_RegistrationResponse lib s reqBytes credentialID =
     (case ol_GetRegistrationRequest lib reqBytes of
        None \<Rightarrow> Err Deserialize_registration_request
      | Some req \<Rightarrow>
          (case ol_RegistrationResponse lib (os_server s) req credentialID of
             None \<Rightarrow> Err Generate_registration_response
           | Some resp \<Rightarrow> Ok (ol_Serialize lib resp)))"

definition DeserializeRegistrationRecord :: "'m opaque_lib \<Rightarrow> bytes \<Rightarrow> (opaque_error, 'm) res" where
  "DeserializeRegistrationRecord lib recordBytes =
     (case ol_GetRegistrationRecord lib recordBytes of None \<Rightarrow> Err Deserialize_record | Some r \<Rightarrow> Ok r)"

definition AuthEvaluate ::
  "'m opaque_lib \<Rightarrow> bytes \<Rightarrow> OPAQUEServer \<Rightarrow> bytes \<Rightarrow> 'm ClientRecord option
   \<Rightarrow> (opaque_error, bytes \<times> bytes \<times> bytes) res"
where
  "AuthEvaluate lib seed s ke1Bytes rec =
     (case ol_GetKE1 lib ke1Bytes of
        None \<Rightarrow> Err Deserialize_KE1
      | Some ke1 \<Rightarrow>
          (case ol_GenerateKE2 lib (os_server s) seed ke1 rec of
             None \<Rightarrow> Err Generate_KE2
           | Some (ke2, clientMAC, sessionSecret) \<Rightarrow> Ok (ol_Serialize lib ke2, clientMAC, sessionSecret)))"

definition AuthFinalize :: "'m opaque_lib \<Rightarrow> OPAQUEServer \<Rightarrow> bytes \<Rightarrow> bytes \<Rightarrow> (opaque_error, unit) res" where
  "AuthFinalize lib s ke3Bytes expectedClientMAC =
     (case ol_GetKE3 lib ke3Bytes of
        None \<Rightarrow> Err Deserialize_KE3
      | Some ke3 \<Rightarrow>
          if ol_LoginFinish lib (os_server s) ke3 expectedClientMAC then Ok () else Err Login_finish)"

text \<open>The second attempt draws fresh randomness; when it fails too, the record is nil.\<close>

definition FakeRecord :: "'m opaque_lib \<Rightarrow> bytes \<Rightarrow> bytes \<Rightarrow> bytes \<Rightarrow> 'm ClientRecord option" where
  "FakeRecord lib seed1 seed2 credentialID =
     (case ol_GetFakeRecord lib seed1 credentialID of
        None \<Rightarrow> ol_GetFakeRecord lib seed2 credentialID
      | Some r \<Rightarrow> Some r)"

section \<open>Lemmas\<close>

lemma AuthFinalize_Ok_iff:
  "AuthFinalize lib s ke3 mac = Ok () \<longleftrightarrow>
     (\<exists>m. ol_GetKE3 lib ke3 = Some m \<and> ol_LoginFinish lib (os_server s) m mac)"
  by (auto simp: AuthFinalize_def split: option.splits)

lemma AuthFinalize_no_panic: "AuthFinalize lib s ke3 mac \<noteq> Panic"
  by (auto simp: AuthFinalize_def split: option.splits)

lemma AuthEvaluate_no_panic: "AuthEvaluate lib seed s ke1 r \<noteq> Panic"
  by (auto simp: AuthEvaluate_def split: option.splits)

text \<open>What the library documents: a record survives its serialisation, and the KE3 message whose MAC is
  the one GenerateKE2 announced is accepted, any other is refused. \<open>ke3_of\<close> is the KE3 message with a
  given MAC.\<close>

definition opaque_records :: "'m opaque_lib \<Rightarrow> bool" where
  "opaque_records lib \<longleftrightarrow>
     (\<forall>b r. ol_GetRegistrationRecord lib b = Some r \<longrightarrow> ol_GetRegistrationRecord lib (ol_Serialize lib r) = Some r)"

definition opaque_completes :: "'m opaque_lib \<Rightarrow> (bytes \<Rightarrow> bytes) \<Rightarrow> bool" where
  "opaque_completes lib ke3_of \<longleftrightarrow>
     (\<forall>mac. \<exists>m. ol_GetKE3 lib (ke3_of mac) = Some m \<and>
        (\<forall>k mac'. ol_LoginFinish lib k m mac' \<longleftrightarrow> mac' = mac))"

definition toy_opaque :: "bytes opaque_lib" where
  "toy_opaque =
     \<lparr>ol_KeyGen = (\<lambda>s. (s, s)), ol_GenerateOPRFSeed = (\<lambda>s. s), ol_Server = True, ol_Deserializer = True,
      ol_SetKeyMaterial = (\<lambda>k. k \<noteq> None),
      ol_GetRegistrationRequest = Some, ol_GetRegistrationRecord = Some, ol_GetKE1 = Some, ol_GetKE3 = Some,
      ol_RegistrationResponse = (\<lambda>k m c. Some m),
      ol_GenerateKE2 = (\<lambda>k s m r. map_option (\<lambda>r. (m, rec_RegistrationRecord r, rec_RegistrationRecord r)) r),
      ol_LoginFinish = (\<lambda>k m mac. m = mac), ol_Serialize = (\<lambda>m. m),
      ol_GetFakeRecord = (\<lambda>s c. Some \<lparr>rec_RegistrationRecord = s, rec_CredentialIdentifier = c, rec_ClientIdentity = []\<rparr>)\<rparr>"

lemma toy_opaque_ok: "opaque_records toy_opaque" "opaque_completes toy_opaque (\<lambda>m. m)"
  by (auto simp: opaque_records_def opaque_completes_def toy_opaque_def)

end
