(* ===== verification/Service_State.thy ===== *)
theory Service_State
  imports Pake_Opaque Pake_Counter Pake_Session Service_Handlers Service_SAD Crypto_Jose WebAuthn WebAuthn_Token
begin

text \<open>
  What the files of \<^verbatim>\<open>internal/service/dispatcher.go\<close> and \<^verbatim>\<open>fido2.go\<close> share: the \<^verbatim>\<open>Dispatcher\<close> struct
  split into its constant part (\<open>Dispatcher\<close>) and the state behind its pointers (\<open>dstate\<close>), the
  \<^verbatim>\<open>RecordStore\<close> interface with its two implementations, protocol errors and \<^verbatim>\<open>signResponse\<close>.

  A request reads the clock and the random source several times; the readings are the fields of
  \<open>req_env\<close>. Third-party libraries and cryptographic primitives are the fields of \<open>libs\<close>.
\<close>

section \<open>Errors\<close>

text \<open>The message of an error is a text, or the text of an error it wraps.\<close>

datatype err_msg =
    Msg string
  | Msg_counter counter_error
  | Msg_sad sad_error
  | Msg_webauthn wa_error

record R2PSError =
  e_Code :: string
  e_Msg :: err_msg

definition r2ps_err :: "string \<Rightarrow> string \<Rightarrow> R2PSError" where
  "r2ps_err code msg = \<lparr>e_Code = code, e_Msg = Msg msg\<rparr>"

section \<open>Libraries and the environment of a request\<close>

record 'm libs =
  lib_jose :: jose_lib
  lib_opaque :: "'m opaque_lib"
  lib_hkdf :: hkdf_fn
  lib_gcm :: aead
  lib_wa :: wa_prims

record req_env =
  re_iat :: instant
  re_check :: instant
  re_get :: instant
  re_token :: instant
  re_new :: instant
  re_handler :: instant
  re_resp :: instant
  re_session_id :: "(nat \<Rightarrow> byte) option"
  re_challenge :: "(nat \<Rightarrow> byte) option"
  re_token_nonce :: "(nat \<Rightarrow> byte) option"
  re_ke2 :: bytes
  re_fake1 :: bytes
  re_fake2 :: bytes
  re_ephemeral :: "PrivateKey option"

section \<open>Record stores\<close>

datatype record_error =
    No_opaque_record string string
  | Record_store_error store_error
  | Deserialize_OPAQUE_record

text \<open>A record store works on the lifecycle store and on the map of the in-memory implementation.\<close>

type_synonym ('s, 'm) rec_state = "'s \<times> (string \<rightharpoonup> 'm ClientRecord)"

record ('s, 'm) record_ops =
  rs_GetRecord :: "string \<Rightarrow> string \<Rightarrow> ('s, 'm) rec_state \<Rightarrow> (record_error, 'm ClientRecord) res"
  rs_PutRecord :: "string \<Rightarrow> string \<Rightarrow> 'm ClientRecord \<Rightarrow> ('s, 'm) rec_state
    \<Rightarrow> (record_error, unit) res \<times> ('s, 'm) rec_state"

definition inmem_GetRecord ::
  "string \<Rightarrow> string \<Rightarrow> ('s, 'm) rec_state \<Rightarrow> (record_error, 'm ClientRecord) res"
where
  "inmem_GetRecord clientID ctx s =
     (case snd s (pair_key clientID ctx) of
        None \<Rightarrow> Err (No_opaque_record clientID ctx)
      | Some r \<Rightarrow> Ok r)"

definition inmem_PutRecord ::
  "string \<Rightarrow> string \<Rightarrow> 'm ClientRecord \<Rightarrow> ('s, 'm) rec_state \<Rightarrow> (record_error, unit) res \<times> ('s, 'm) rec_state"
where
  "inmem_PutRecord clientID ctx rec s = (Ok (), (fst s, (snd s)(pair_key clientID ctx \<mapsto> rec)))"

definition InMemoryRecordStore :: "('s, 'm) record_ops" where
  "InMemoryRecordStore = \<lparr>rs_GetRecord = inmem_GetRecord, rs_PutRecord = inmem_PutRecord\<rparr>"

definition cred_id :: "string \<Rightarrow> string \<Rightarrow> bytes" where
  "cred_id ctx clientID = str_bytes (ctx @ ''|'' @ clientID)"

definition store_GetRecord ::
  "'m opaque_lib \<Rightarrow> 's store_ops \<Rightarrow> string \<Rightarrow> string \<Rightarrow> ('s, 'm) rec_state
   \<Rightarrow> (record_error, 'm ClientRecord) res"
where
  "store_GetRecord lib st clientID ctx s =
     (case GetRecord st clientID ctx (fst s) of
        Err e \<Rightarrow> Err (Record_store_error e)
      | Panic \<Rightarrow> Panic
      | Ok data \<Rightarrow>
          (case ol_GetRegistrationRecord lib data of
             None \<Rightarrow> Err Deserialize_OPAQUE_record
           | Some r \<Rightarrow>
               Ok \<lparr>rec_RegistrationRecord = r, rec_CredentialIdentifier = cred_id ctx clientID,
                   rec_ClientIdentity = []\<rparr>))"

definition store_PutRecord ::
  "'m opaque_lib \<Rightarrow> 's store_ops \<Rightarrow> string \<Rightarrow> string \<Rightarrow> 'm ClientRecord \<Rightarrow> ('s, 'm) rec_state
   \<Rightarrow> (record_error, unit) res \<times> ('s, 'm) rec_state"
where
  "store_PutRecord lib st clientID ctx rec s =
     (let (r, s') = PutRecord st clientID ctx (ol_Serialize lib (rec_RegistrationRecord rec)) (fst s)
      in (res_wrap Record_store_error r, (s', snd s)))"

definition StoreRecordStore :: "'m opaque_lib \<Rightarrow> 's store_ops \<Rightarrow> ('s, 'm) record_ops" where
  "StoreRecordStore lib st = \<lparr>rs_GetRecord = store_GetRecord lib st, rs_PutRecord = store_PutRecord lib st\<rparr>"

section \<open>The dispatcher\<close>

record 's FIDO2Config =
  fc_Store :: "'s store_ops"
  fc_TokenEncryptor :: TokenEncryptor
  fc_RPID :: string
  fc_AllowedOrigins :: "string list"

text \<open>\<^verbatim>\<open>newFIDO2Handler\<close> copies the configuration, so the handler is the configuration itself.\<close>

definition newFIDO2Handler :: "'s FIDO2Config option \<Rightarrow> 's FIDO2Config option" where
  "newFIDO2Handler cfg = (case cfg of None \<Rightarrow> None | Some c \<Rightarrow> Some c)"

record ('h, 's, 'm) Dispatcher =
  d_serverKey :: PrivateKey
  d_opaque :: OPAQUEServer
  d_records :: "('s, 'm) record_ops"
  d_clientKeys :: "(string \<Rightarrow> PublicKey option) option"
  d_handlers :: "string \<rightharpoonup> ('h, 's) world Handler"
  d_sessionTTL :: duration
  d_iatMaxSkew :: duration
  d_fido2 :: "'s FIDO2Config option"

record ('h, 's, 'm) dstate =
  ds_sessions :: SessionStore
  ds_counter :: AttemptCounter
  ds_records :: "string \<rightharpoonup> 'm ClientRecord"
  ds_world :: "('h, 's) world"

type_synonym ('h, 's, 'm) handled = "(R2PSError, string) res \<times> ('h, 's, 'm) dstate"

definition fail :: "string \<Rightarrow> string \<Rightarrow> ('h, 's, 'm) dstate \<Rightarrow> ('h, 's, 'm) handled" where
  "fail code msg st = (Err (r2ps_err code msg), st)"

definition metric :: "string \<Rightarrow> string list \<Rightarrow> ('h, 's, 'm) dstate \<Rightarrow> ('h, 's, 'm) dstate" where
  "metric name labels st = st\<lparr>ds_world := inc_metric name labels (ds_world st)\<rparr>"

definition rec_view :: "('h, 's, 'm) dstate \<Rightarrow> ('s, 'm) rec_state" where
  "rec_view st = (w_store (ds_world st), ds_records st)"

definition set_rec_view :: "('s, 'm) rec_state \<Rightarrow> ('h, 's, 'm) dstate \<Rightarrow> ('h, 's, 'm) dstate" where
  "set_rec_view v st = st\<lparr>ds_records := snd v, ds_world := (ds_world st)\<lparr>w_store := fst v\<rparr>\<rparr>"

definition RecordFailure :: "instant \<Rightarrow> ServiceRequest \<Rightarrow> ('h, 's, 'm) dstate \<Rightarrow> ('h, 's, 'm) dstate" where
  "RecordFailure now req st =
     st\<lparr>ds_counter := snd (counter_RecordFailure now (sr_ClientID req) (sr_Context req) (sr_Context req) (ds_counter st))\<rparr>"

definition RecordSuccess :: "ServiceRequest \<Rightarrow> ('h, 's, 'm) dstate \<Rightarrow> ('h, 's, 'm) dstate" where
  "RecordSuccess req st =
     st\<lparr>ds_counter := counter_RecordSuccess (sr_ClientID req) (sr_Context req) (sr_Context req) (ds_counter st)\<rparr>"

section \<open>Signed responses\<close>

text \<open>The tail that \<^verbatim>\<open>handleService\<close> and \<^verbatim>\<open>signResponse\<close> share: wrap the data in a response that carries
  the request's nonce, print it and sign it with the server's key.\<close>

definition respond ::
  "'m libs \<Rightarrow> ('h, 's, 'm) Dispatcher \<Rightarrow> instant \<Rightarrow> ServiceRequest \<Rightarrow> string \<Rightarrow> (R2PSError, string) res"
where
  "respond L d now req dataJSON =
     (let svcResp = \<lparr>sp_Ver = ProtocolVersion, sp_Nonce = sr_Nonce req, sp_Iat = to_unix now,
                     sp_Data = dataJSON, sp_Success = Some True\<rparr>
      in case Marshal_ServiceResponse svcResp of
           None \<Rightarrow> Err (r2ps_err ErrServerError ''marshal response failed'')
         | Some svcJSON \<Rightarrow>
             (case SignJWS (lib_jose L) (str_bytes svcJSON) (d_serverKey d) [] [TypResponse] of
                Err e \<Rightarrow> Err (r2ps_err ErrServerError ''sign response failed'')
              | Panic \<Rightarrow> Panic
              | Ok jws \<Rightarrow> Ok jws))"

text \<open>\<open>dataJSON\<close> is the encoding of the data, which never fails for the structs the program passes.\<close>

definition signResponse ::
  "'m libs \<Rightarrow> ('h, 's, 'm) Dispatcher \<Rightarrow> instant \<Rightarrow> ServiceRequest \<Rightarrow> string \<Rightarrow> ('h, 's, 'm) dstate
   \<Rightarrow> ('h, 's, 'm) handled"
where
  "signResponse L d now req dataJSON st = (respond L d now req dataJSON, st)"

end
