(* ===== verification/Service_Fido2.thy ===== *)
theory Service_Fido2
  imports Service_State
begin

text \<open>
  \<^verbatim>\<open>internal/service/fido2.go\<close>: registration and authentication with a WebAuthn authenticator as the
  second factor. The finalize handler is divided where the code moves from decoding the request
  (\<open>finalize_request\<close>, no state) to verifying the assertion (\<open>fido2_verify\<close>, which records failures
  and the authenticator's counter) to opening the session (\<open>fido2_open_session\<close>).
\<close>

section \<open>Messages\<close>

definition Marshal_fido2ChallengeResponse :: "string \<Rightarrow> string \<Rightarrow> string" where
  "Marshal_fido2ChallengeResponse challenge token =
     json_object [(''challenge'', json_quote challenge), (''token'', json_quote token),
       (''user_verification'', json_quote ''required'')]"

record fido2RegRegisterRequest =
  rr_CredentialID :: string
  rr_AttestationObject :: string
  rr_ClientData :: string

definition fido2RegRegisterRequest_fields :: "(string \<times> fido2RegRegisterRequest field) list" where
  "fido2RegRegisterRequest_fields =
     [(''credential_id'', field_str (\<lambda>x r. r\<lparr>rr_CredentialID := x\<rparr>)),
      (''attestation_object'', field_str (\<lambda>x r. r\<lparr>rr_AttestationObject := x\<rparr>)),
      (''client_data'', field_str (\<lambda>x r. r\<lparr>rr_ClientData := x\<rparr>))]"

definition zero_RegRegister :: fido2RegRegisterRequest where
  "zero_RegRegister = \<lparr>rr_CredentialID = [], rr_AttestationObject = [], rr_ClientData = []\<rparr>"

record fido2AssertionField =
  af_CredentialID :: string
  af_AuthenticatorData :: string
  af_ClientData :: string
  af_Signature :: string

definition fido2AssertionField_fields :: "(string \<times> fido2AssertionField field) list" where
  "fido2AssertionField_fields =
     [(''credential_id'', field_str (\<lambda>x r. r\<lparr>af_CredentialID := x\<rparr>)),
      (''authenticator_data'', field_str (\<lambda>x r. r\<lparr>af_AuthenticatorData := x\<rparr>)),
      (''client_data'', field_str (\<lambda>x r. r\<lparr>af_ClientData := x\<rparr>)),
      (''signature'', field_str (\<lambda>x r. r\<lparr>af_Signature := x\<rparr>))]"

record fido2AuthFinalizeRequest =
  fr_ClientEpub :: string
  fr_Token :: string
  fr_Task :: string
  fr_Assertion :: fido2AssertionField

definition fido2AuthFinalizeRequest_fields :: "(string \<times> fido2AuthFinalizeRequest field) list" where
  "fido2AuthFinalizeRequest_fields =
     [(''client_epub'', field_str (\<lambda>x r. r\<lparr>fr_ClientEpub := x\<rparr>)),
      (''token'', field_str (\<lambda>x r. r\<lparr>fr_Token := x\<rparr>)),
      (''task'', field_str (\<lambda>x r. r\<lparr>fr_Task := x\<rparr>)),
      (''assertion'', field_struct fido2AssertionField_fields fr_Assertion (\<lambda>x r. r\<lparr>fr_Assertion := x\<rparr>))]"

definition zero_AuthFinalize :: fido2AuthFinalizeRequest where
  "zero_AuthFinalize =
     \<lparr>fr_ClientEpub = [], fr_Token = [], fr_Task = [],
      fr_Assertion = \<lparr>af_CredentialID = [], af_AuthenticatorData = [], af_ClientData = [], af_Signature = []\<rparr>\<rparr>"

definition Marshal_fido2AuthFinalizeResponse :: "string \<Rightarrow> string \<Rightarrow> string \<Rightarrow> int \<Rightarrow> string" where
  "Marshal_fido2AuthFinalizeResponse serverEpub sessionID task expires =
     json_object [(''server_epub'', json_quote serverEpub), (''2fa_session_id'', json_quote sessionID),
       (''task'', json_quote task), (''session_expiration_time'', Itoa expires)]"

text \<open>The protocol data of a FIDO2 request is base64url of a JSON object, or the object itself.\<close>

definition parse_pdata ::
  "(string \<times> 'r field) list \<Rightarrow> 'r \<Rightarrow> string \<Rightarrow> string \<Rightarrow> string \<Rightarrow> (R2PSError, 'r) res"
where
  "parse_pdata fs zero invalid malformed pData =
     (case decodeBase64 pData of
        None \<Rightarrow>
          (case json_Unmarshal fs pData zero of
             None \<Rightarrow> Err (r2ps_err ErrIllegalRequestData invalid) | Some r \<Rightarrow> Ok r)
      | Some reqBytes \<Rightarrow>
          (case json_Unmarshal fs (bytes_str reqBytes) zero of
             None \<Rightarrow> Err (r2ps_err ErrIllegalRequestData malformed) | Some r \<Rightarrow> Ok r))"

definition decode_field :: "string \<Rightarrow> string \<Rightarrow> (R2PSError, bytes) res" where
  "decode_field msg s =
     (case decodeBase64 s of None \<Rightarrow> Err (r2ps_err ErrIllegalRequestData msg) | Some b \<Rightarrow> Ok b)"

text \<open>The bytes between the length and the capacity of what \<^verbatim>\<open>DecodeString\<close> returns for \<open>s\<close>.\<close>

definition decode_spare :: "string \<Rightarrow> bytes \<Rightarrow> bytes" where
  "decode_spare s b = replicate (length s div 4 * 3 - length b) 0"

section \<open>Challenges\<close>

definition fido2_challenge ::
  "'m libs \<Rightarrow> ('h, 's, 'm) Dispatcher \<Rightarrow> 's FIDO2Config \<Rightarrow> req_env \<Rightarrow> ServiceRequest \<Rightarrow> ('h, 's, 'm) dstate
   \<Rightarrow> ('h, 's, 'm) handled"
where
  "fido2_challenge L d f env req st =
     (case RandomBytes (re_challenge env) 16 of
        Err e \<Rightarrow> (Panic, st)
      | Panic \<Rightarrow> (Panic, st)
      | Ok challenge \<Rightarrow>
          (let challengeB64 = encodeBase64 challenge;
               token = \<lparr>ct_Iat = to_unix (re_new env), ct_ClientID = sr_ClientID req, ct_Context = sr_Context req,
                        ct_Challenge = challengeB64\<rparr>
           in case token_Encrypt (lib_gcm L) (re_token_nonce env) (fc_TokenEncryptor f) token of
                Err e \<Rightarrow> fail ErrServerError ''token encryption failed'' st
              | Panic \<Rightarrow> (Panic, st)
              | Ok tokenBytes \<Rightarrow>
                  signResponse L d (re_resp env) req
                    (Marshal_fido2ChallengeResponse challengeB64 (encodeBase64 tokenBytes)) st))"

definition fido2RegChallenge ::
  "'m libs \<Rightarrow> ('h, 's, 'm) Dispatcher \<Rightarrow> 's FIDO2Config \<Rightarrow> req_env \<Rightarrow> ServiceRequest \<Rightarrow> ('h, 's, 'm) dstate
   \<Rightarrow> ('h, 's, 'm) handled"
where
  "fido2RegChallenge L d f env req st = fido2_challenge L d f env req st"

definition fido2AuthChallenge ::
  "'m libs \<Rightarrow> ('h, 's, 'm) Dispatcher \<Rightarrow> 's FIDO2Config \<Rightarrow> req_env \<Rightarrow> ServiceRequest \<Rightarrow> ('h, 's, 'm) dstate
   \<Rightarrow> ('h, 's, 'm) handled"
where
  "fido2AuthChallenge L d f env req st =
     (case counter_Check (re_check env) (sr_ClientID req) (sr_Context req) (sr_Context req) (ds_counter st) of
        (Some e, c) \<Rightarrow> (Err \<lparr>e_Code = ErrAccessDenied, e_Msg = Msg_counter e\<rparr>, st\<lparr>ds_counter := c\<rparr>)
      | (None, c) \<Rightarrow> fido2_challenge L d f env req (st\<lparr>ds_counter := c\<rparr>))"

section \<open>Registration\<close>

definition is_change :: "ServiceRequest \<Rightarrow> bool" where
  "is_change req \<longleftrightarrow> sr_Type req = Type2FAChange \<or> sr_Type req = Type2FAUpdate"

text \<open>The challenge the client data must carry: from the token in the authorization field, or empty.\<close>

definition expected_challenge ::
  "'m libs \<Rightarrow> 's FIDO2Config \<Rightarrow> req_env \<Rightarrow> ServiceRequest \<Rightarrow> TFARequestData \<Rightarrow> (R2PSError, string) res"
where
  "expected_challenge L f env req tfaReq =
     (if tfa_Authorization tfaReq \<noteq> [] \<and> \<not> is_change req then
        res_bind (decode_field ''invalid token encoding'' (tfa_Authorization tfaReq)) (\<lambda>tokenBytes.
          case token_Decrypt (lib_gcm L) (re_token env) (fc_TokenEncryptor f) tokenBytes of
            Err e \<Rightarrow> Err (r2ps_err ErrUnauthorized ''invalid or expired token'')
          | Panic \<Rightarrow> Panic
          | Ok token \<Rightarrow>
              if ct_ClientID token \<noteq> sr_ClientID req \<or> ct_Context token \<noteq> sr_Context req
              then Err (r2ps_err ErrAccessDenied ''token binding mismatch'')
              else Ok (ct_Challenge token))
      else Ok [])"

definition change_authorized :: "req_env \<Rightarrow> ServiceRequest \<Rightarrow> TFARequestData \<Rightarrow> SessionStore \<Rightarrow> (R2PSError, unit) res" where
  "change_authorized env req tfaReq sessions =
     (if is_change req then
        if tfa_Authorization tfaReq = []
        then Err (r2ps_err ErrUnauthorized ''authorization required for credential change'')
        else
          (case session_Get (re_get env) (tfa_Authorization tfaReq) sessions of
             None \<Rightarrow> Err (r2ps_err ErrUnauthorized ''invalid authorization session'')
           | Some sess \<Rightarrow>
               if \<not> s_Verified sess then Err (r2ps_err ErrUnauthorized ''invalid authorization session'') else Ok ())
      else Ok ())"

text \<open>Everything before the credential is stored. A failed verification is reported by the first call
  when a challenge was expected and by the second one otherwise.\<close>

definition verified_registration ::
  "'m libs \<Rightarrow> 's FIDO2Config \<Rightarrow> req_env \<Rightarrow> ServiceRequest \<Rightarrow> TFARequestData \<Rightarrow> SessionStore
   \<Rightarrow> (R2PSError, AuthenticatorData) res"
where
  "verified_registration L f env req tfaReq sessions =
     res_bind (parse_pdata fido2RegRegisterRequest_fields zero_RegRegister ''invalid fido2 registration request''
                 ''malformed registration data'' (tfa_GetPData tfaReq)) (\<lambda>regReq.
     res_bind (decode_field ''invalid attestation_object encoding'' (rr_AttestationObject regReq)) (\<lambda>attestationObject.
     res_bind (decode_field ''invalid client_data encoding'' (rr_ClientData regReq)) (\<lambda>clientDataJSON.
     res_bind (change_authorized env req tfaReq sessions) (\<lambda>_.
     res_bind (expected_challenge L f env req tfaReq) (\<lambda>expectedChallenge.
       let spare = decode_spare (rr_AttestationObject regReq) attestationObject;
           verify = (\<lambda>c. res_wrap (\<lambda>e. \<lparr>e_Code = ErrIllegalRequestData, e_Msg = Msg_webauthn e\<rparr>)
             (VerifyRegistration (lib_wa L) attestationObject spare clientDataJSON c (fc_RPID f) (fc_AllowedOrigins f)))
       in case verify expectedChallenge of
            Panic \<Rightarrow> Panic
          | r \<Rightarrow> if expectedChallenge \<noteq> [] then r else verify [])))))"

definition fido2RegRegister ::
  "'m libs \<Rightarrow> ('h, 's, 'm) Dispatcher \<Rightarrow> 's FIDO2Config \<Rightarrow> req_env \<Rightarrow> ServiceRequest \<Rightarrow> TFARequestData
   \<Rightarrow> ('h, 's, 'm) dstate \<Rightarrow> ('h, 's, 'm) handled"
where
  "fido2RegRegister L d f env req tfaReq st =
     (case verified_registration L f env req tfaReq (ds_sessions st) of
        Err e \<Rightarrow> (Err e, st)
      | Panic \<Rightarrow> (Panic, st)
      | Ok authData \<Rightarrow>
          (case (case ad_PublicKey authData of None \<Rightarrow> Panic | Some pk \<Rightarrow> MarshalUncompressedPublicKey pk) of
             Ok pubKeyBytes \<Rightarrow>
               (let cred = \<lparr>wc_CredentialID = ad_CredentialID authData, wc_PublicKey = pubKeyBytes,
                            wc_SignCount = ad_SignCount authData, wc_AAGUID = ad_AAGUID authData,
                            wc_CreatedAt = to_unix (re_new env)\<rparr>;
                    (r, s) = PutWebAuthnCredential (fc_Store f) (sr_ClientID req) (sr_Context req) cred
                               (w_store (ds_world st));
                    st = st\<lparr>ds_world := (ds_world st)\<lparr>w_store := s\<rparr>\<rparr>
                in case r of
                     Err e \<Rightarrow> fail ErrServerError ''store credential failed'' st
                   | Panic \<Rightarrow> (Panic, st)
                   | Ok _ \<Rightarrow>
                       signResponse L d (re_resp env) req
                         (Marshal_TFAResponseData (zero_TFAResponseData\<lparr>tr_Message := ''success''\<rparr>))
                         (metric ''fido2_auth_total'' [''registration''] st))
           | _ \<Rightarrow> (Panic, st)))"

section \<open>Authentication\<close>

record finalize_input =
  fi_Req :: fido2AuthFinalizeRequest
  fi_Token :: ChallengeToken
  fi_Assertion :: AssertionData

definition finalize_request ::
  "'m libs \<Rightarrow> 's FIDO2Config \<Rightarrow> req_env \<Rightarrow> ServiceRequest \<Rightarrow> TFARequestData \<Rightarrow> (R2PSError, finalize_input) res"
where
  "finalize_request L f env req tfaReq =
     res_bind (parse_pdata fido2AuthFinalizeRequest_fields zero_AuthFinalize ''invalid finalize request''
                 ''malformed finalize data'' (tfa_GetPData tfaReq)) (\<lambda>finalReq.
     res_bind (decode_field ''invalid token encoding'' (fr_Token finalReq)) (\<lambda>tokenBytes.
       case token_Decrypt (lib_gcm L) (re_token env) (fc_TokenEncryptor f) tokenBytes of
         Err e \<Rightarrow> Err (r2ps_err ErrUnauthorized ''invalid or expired token'')
       | Panic \<Rightarrow> Panic
       | Ok token \<Rightarrow>
           if ct_ClientID token \<noteq> sr_ClientID req \<or> ct_Context token \<noteq> sr_Context req
           then Err (r2ps_err ErrAccessDenied ''token binding mismatch'')
           else
             (let a = fr_Assertion finalReq in
              res_bind (decode_field ''invalid credential_id encoding'' (af_CredentialID a)) (\<lambda>credID.
              res_bind (decode_field ''invalid authenticator_data encoding'' (af_AuthenticatorData a)) (\<lambda>authDataBytes.
              res_bind (decode_field ''invalid client_data encoding'' (af_ClientData a)) (\<lambda>clientDataJSON.
              res_bind (decode_field ''invalid signature encoding'' (af_Signature a)) (\<lambda>signature.
                Ok \<lparr>fi_Req = finalReq, fi_Token = token,
                    fi_Assertion = \<lparr>as_CredentialID = credID, as_AuthenticatorData = authDataBytes,
                       as_ClientDataJSON = clientDataJSON, as_Signature = signature\<rparr>\<rparr>)))))))"

definition cred_of :: "WebAuthnCredential \<Rightarrow> PublicKey \<Rightarrow> Credential" where
  "cred_of c pubKey =
     \<lparr>cr_CredentialID = wc_CredentialID c, cr_PublicKey = pubKey, cr_SignCount = wc_SignCount c,
      cr_AAGUID = wc_AAGUID c, cr_CreatedAt = wc_CreatedAt c\<rparr>"

text \<open>Look up the credential, verify the assertion with it, store the new counter.\<close>

definition fido2_verify ::
  "'m libs \<Rightarrow> 's FIDO2Config \<Rightarrow> req_env \<Rightarrow> ServiceRequest \<Rightarrow> finalize_input \<Rightarrow> ('h, 's, 'm) dstate
   \<Rightarrow> (R2PSError, unit) res \<times> ('h, 's, 'm) dstate"
where
  "fido2_verify L f env req fi st =
     (let credID = as_CredentialID (fi_Assertion fi);
          failed = (\<lambda>msg. (Err (r2ps_err ErrUnauthorized msg), RecordFailure (re_check env) req st))
      in case GetWebAuthnCredential (fc_Store f) (sr_ClientID req) (sr_Context req) (w_store (ds_world st)) of
           Panic \<Rightarrow> (Panic, st)
         | Err e \<Rightarrow> failed ''no credentials registered''
         | Ok creds \<Rightarrow>
             if creds = [] then failed ''no credentials registered''
             else
               (case find (\<lambda>c. bytesEqual (wc_CredentialID c) credID) creds of
                  None \<Rightarrow> failed ''credential not found''
                | Some matchedCred \<Rightarrow>
                    (case UnmarshalPublicKey P256 (wc_PublicKey matchedCred) of
                       Err e \<Rightarrow> (Err (r2ps_err ErrServerError ''invalid stored public key''), st)
                     | Panic \<Rightarrow> (Panic, st)
                     | Ok pubKey \<Rightarrow>
                         (case VerifyAssertion (lib_wa L) (fi_Assertion fi) (cred_of matchedCred pubKey)
                                 (ct_Challenge (fi_Token fi)) (fc_RPID f) (fc_AllowedOrigins f) of
                            Panic \<Rightarrow> (Panic, st)
                          | Err e \<Rightarrow>
                              (Err \<lparr>e_Code = ErrUnauthorized, e_Msg = Msg_webauthn e\<rparr>,
                               metric ''fido2_auth_total'' [''failure''] (RecordFailure (re_check env) req st))
                          | Ok authData \<Rightarrow>
                              (let (r, s) = UpdateWebAuthnSignCount (fc_Store f) (sr_ClientID req) (sr_Context req)
                                              credID (ad_SignCount authData) (w_store (ds_world st));
                                   st = st\<lparr>ds_world := (ds_world st)\<lparr>w_store := s\<rparr>\<rparr>
                               in case r of Panic \<Rightarrow> (Panic, st) | _ \<Rightarrow> (Ok (), st))))))"

definition fido2_info :: "(bytes \<Rightarrow> bytes) \<Rightarrow> bytes \<Rightarrow> bytes \<Rightarrow> string \<Rightarrow> bytes" where
  "fido2_info sha256 clientEpubBytes serverEpubBytes task =
     str_bytes ''r2ps-2fa_authentication-fido2''
     @ sha256 (str_bytes TFAModeFIDO2 @ clientEpubBytes @ serverEpubBytes @ str_bytes task)"

text \<open>The server's ephemeral public key and the session key.\<close>

definition fido2_session_key ::
  "'m libs \<Rightarrow> req_env \<Rightarrow> ServiceRequest \<Rightarrow> fido2AuthFinalizeRequest \<Rightarrow> (R2PSError, bytes \<times> bytes) res"
where
  "fido2_session_key L env req finalReq =
     res_bind (decode_field ''invalid client_epub encoding'' (fr_ClientEpub finalReq)) (\<lambda>clientEpubBytes.
     res_bind (res_wrap (\<lambda>_. r2ps_err ErrIllegalRequestData ''invalid client ephemeral key'')
                 (UnmarshalPublicKey P256 clientEpubBytes)) (\<lambda>clientEpub.
       case re_ephemeral env of
         None \<Rightarrow> Err (r2ps_err ErrServerError ''generate ephemeral key failed'')
       | Some serverEprv \<Rightarrow>
           (case MarshalUncompressedPublicKey (priv_PublicKey serverEprv) of
              Ok serverEpubBytes \<Rightarrow>
                res_bind (res_wrap (\<lambda>_. r2ps_err ErrServerError ''ECDH failed'')
                            (ECDHSharedSecret serverEprv clientEpub)) (\<lambda>ikm.
                  let salt = (case decodeBase64 (sr_Nonce req) of None \<Rightarrow> str_bytes (sr_Nonce req) | Some b \<Rightarrow> b);
                      info = fido2_info (wp_sha256 (lib_wa L)) clientEpubBytes serverEpubBytes (fr_Task finalReq)
                  in case lib_hkdf L ikm salt info 32 of
                       None \<Rightarrow> Err (r2ps_err ErrServerError ''key derivation failed'')
                     | Some sessionKey \<Rightarrow> Ok (serverEpubBytes, sessionKey))
            | _ \<Rightarrow> Panic)))"

definition fido2_open_session ::
  "'m libs \<Rightarrow> ('h, 's, 'm) Dispatcher \<Rightarrow> req_env \<Rightarrow> ServiceRequest \<Rightarrow> fido2AuthFinalizeRequest \<Rightarrow> ('h, 's, 'm) dstate
   \<Rightarrow> ('h, 's, 'm) handled"
where
  "fido2_open_session L d env req finalReq st =
     (case fido2_session_key L env req finalReq of
        Err e \<Rightarrow> (Err e, st)
      | Panic \<Rightarrow> (Panic, st)
      | Ok (serverEpubBytes, sessionKey) \<Rightarrow>
          (case RandomBytes (re_session_id env) 32 of
             Ok rnd \<Rightarrow>
               (let sessionID = encodeBase64 rnd; expiresAt = re_new env + d_sessionTTL d;
                    sess = \<lparr>s_ID = sessionID, s_ClientID = sr_ClientID req, s_Context = sr_Context req,
                            s_SessionKey = sessionKey, s_ClientMAC = [], s_ExpiresAt = expiresAt,
                            s_Verified = True, s_Task = fr_Task finalReq\<rparr>
                in case session_Create sess (ds_sessions st) of
                     (Some e, ss) \<Rightarrow> fail ErrServerError ''session creation failed'' (st\<lparr>ds_sessions := ss\<rparr>)
                   | (None, ss) \<Rightarrow>
                       signResponse L d (re_resp env) req
                         (Marshal_fido2AuthFinalizeResponse (encodeBase64 serverEpubBytes) sessionID
                            (fr_Task finalReq) (to_unix expiresAt))
                         (metric ''active_sessions'' []
                           (metric ''fido2_auth_total'' [''success''] (RecordSuccess req (st\<lparr>ds_sessions := ss\<rparr>)))))
           | _ \<Rightarrow> (Panic, st)))"

definition fido2AuthFinalize ::
  "'m libs \<Rightarrow> ('h, 's, 'm) Dispatcher \<Rightarrow> 's FIDO2Config \<Rightarrow> req_env \<Rightarrow> ServiceRequest \<Rightarrow> TFARequestData
   \<Rightarrow> ('h, 's, 'm) dstate \<Rightarrow> ('h, 's, 'm) handled"
where
  "fido2AuthFinalize L d f env req tfaReq st =
     (case finalize_request L f env req tfaReq of
        Err e \<Rightarrow> (Err e, st)
      | Panic \<Rightarrow> (Panic, st)
      | Ok fi \<Rightarrow>
          (case fido2_verify L f env req fi st of
             (Err e, st) \<Rightarrow> (Err e, st)
           | (Panic, st) \<Rightarrow> (Panic, st)
           | (Ok _, st) \<Rightarrow> fido2_open_session L d env req (fi_Req fi) st))"

definition is_auth :: "ServiceRequest \<Rightarrow> bool" where
  "is_auth req \<longleftrightarrow> sr_Type req = Type2FAAuthenticate \<or> sr_Type req = TypeCreateSession"

definition handleFIDO2 ::
  "'m libs \<Rightarrow> ('h, 's, 'm) Dispatcher \<Rightarrow> req_env \<Rightarrow> ServiceRequest \<Rightarrow> TFARequestData \<Rightarrow> ('h, 's, 'm) dstate
   \<Rightarrow> ('h, 's, 'm) handled"
where
  "handleFIDO2 L d env req tfaReq st =
     (case d_fido2 d of
        None \<Rightarrow> fail ErrIllegalRequestData ''fido2 not configured'' st
      | Some f \<Rightarrow>
          if sr_Type req = Type2FARegistration \<and> tfa_State tfaReq = StateChallenge then fido2RegChallenge L d f env req st
          else if sr_Type req = Type2FARegistration \<and> tfa_State tfaReq = StateRegister
          then fido2RegRegister L d f env req tfaReq st
          else if is_auth req \<and> tfa_State tfaReq = StateChallenge then fido2AuthChallenge L d f env req st
          else if is_auth req \<and> tfa_State tfaReq = StateFinalize then fido2AuthFinalize L d f env req tfaReq st
          else fail ErrIllegalState ''invalid fido2 type/state combination'' st)"

end
