(* ===== verification/Service_Dispatcher.thy ===== *)
theory Service_Dispatcher
  imports Service_Fido2
begin

text \<open>
  \<^verbatim>\<open>internal/service/dispatcher.go\<close>: verification and validation of a request, the OPAQUE
  registration and authentication flows, the change of the second factor, and the service requests
  behind it. A call of \<^verbatim>\<open>Process\<close> is one step of the dispatcher's state; the background clean-up of
  sessions is another. \<^verbatim>\<open>Dispatcher_Safety\<close> makes them the transition system of a running server.
\<close>

section \<open>Construction\<close>

record ('h, 's, 'm) DispatcherConfig =
  dc_ServerKey :: PrivateKey
  dc_OPAQUEKey :: "ServerKeyMaterial option"
  dc_OPAQUEServer :: "OPAQUEServer option"
  dc_Records :: "('s, 'm) record_ops"
  dc_ClientKeys :: "(string \<Rightarrow> PublicKey option) option"
  dc_Handlers :: "('h, 's) world Handler list"
  dc_MaxAttempts :: int
  dc_LockoutDur :: duration
  dc_SessionTTL :: duration
  dc_IatMaxSkew :: duration
  dc_FIDO2 :: "'s FIDO2Config option"

definition or_default :: "int \<Rightarrow> int \<Rightarrow> int" where
  "or_default x dflt = (if x = 0 then dflt else x)"

fun handler_map :: "'w Handler list \<Rightarrow> (string \<rightharpoonup> 'w Handler) \<Rightarrow> string \<rightharpoonup> 'w Handler" where
  "handler_map [] m = m"
| "handler_map (h # hs) m = handler_map hs (m(h_Type h \<mapsto> h))"

text \<open>The new dispatcher and its initial state, on the given world and record map.\<close>

definition NewDispatcher ::
  "'m libs \<Rightarrow> ('h, 's, 'm) DispatcherConfig \<Rightarrow> ('h, 's) world \<Rightarrow> (string \<rightharpoonup> 'm ClientRecord)
   \<Rightarrow> (opaque_error, ('h, 's, 'm) Dispatcher \<times> ('h, 's, 'm) dstate) res"
where
  "NewDispatcher L cfg w recs =
     res_bind (case dc_OPAQUEServer cfg of
                 Some s \<Rightarrow> Ok s
               | None \<Rightarrow> NewOPAQUEServer (lib_opaque L) (dc_OPAQUEKey cfg)) (\<lambda>opaqueServer.
       let maxAttempts = or_default (dc_MaxAttempts cfg) 5;
           lockout = or_default (dc_LockoutDur cfg) (15 * Minute);
           sessionTTL = or_default (dc_SessionTTL cfg) (5 * Minute);
           hMap = handler_map (dc_Handlers cfg) Map.empty;
           iatMaxSkew = or_default (dc_IatMaxSkew cfg) (5 * Minute)
       in Ok (\<lparr>d_serverKey = dc_ServerKey cfg, d_opaque = opaqueServer, d_records = dc_Records cfg,
               d_clientKeys = dc_ClientKeys cfg, d_handlers = hMap, d_sessionTTL = sessionTTL,
               d_iatMaxSkew = iatMaxSkew, d_fido2 = newFIDO2Handler (dc_FIDO2 cfg)\<rparr>,
              \<lparr>ds_sessions = NewSessionStore, ds_counter = NewAttemptCounter maxAttempts lockout,
               ds_records = recs, ds_world = w\<rparr>))"

text \<open>One tick of \<^verbatim>\<open>StartSessionCleanup\<close>; the gauge goes down by the number of removed sessions.\<close>

definition cleanup_tick :: "instant \<Rightarrow> ('h, 's, 'm) dstate \<Rightarrow> ('h, 's, 'm) dstate" where
  "cleanup_tick now st =
     (let (cnt, ss) = session_CleanExpired now (ds_sessions st); st = st\<lparr>ds_sessions := ss\<rparr>
      in if 0 < cnt then metric ''active_sessions_sub'' [Itoa (int cnt)] st else st)"

section \<open>OPAQUE registration\<close>

definition regEvaluate ::
  "'m libs \<Rightarrow> ('h, 's, 'm) Dispatcher \<Rightarrow> req_env \<Rightarrow> ServiceRequest \<Rightarrow> bytes \<Rightarrow> ('h, 's, 'm) dstate
   \<Rightarrow> ('h, 's, 'm) handled"
where
  "regEvaluate L d env req reqData st =
     (let credID = cred_id (sr_Context req) (sr_ClientID req) in
      case opaque_RegistrationResponse (lib_opaque L) (d_opaque d) reqData credID of
        Err e \<Rightarrow> fail ErrServerError ''registration evaluate failed'' st
      | Panic \<Rightarrow> (Panic, st)
      | Ok respBytes \<Rightarrow>
          (let encoded = URLEncoding_Encode respBytes in
           signResponse L d (re_resp env) req
             (Marshal_TFAResponseData \<lparr>tr_PData = encoded, tr_Response = encoded, tr_Message = []\<rparr>) st))"

definition regFinalize ::
  "'m libs \<Rightarrow> ('h, 's, 'm) Dispatcher \<Rightarrow> req_env \<Rightarrow> ServiceRequest \<Rightarrow> bytes \<Rightarrow> ('h, 's, 'm) dstate
   \<Rightarrow> ('h, 's, 'm) handled"
where
  "regFinalize L d env req reqData st =
     (case DeserializeRegistrationRecord (lib_opaque L) reqData of
        Err e \<Rightarrow> fail ErrIllegalRequestData ''invalid registration record'' st
      | Panic \<Rightarrow> (Panic, st)
      | Ok r \<Rightarrow>
          (let clientRecord = \<lparr>rec_RegistrationRecord = r,
                 rec_CredentialIdentifier = cred_id (sr_Context req) (sr_ClientID req), rec_ClientIdentity = []\<rparr>;
               (r, v) = rs_PutRecord (d_records d) (sr_ClientID req) (sr_Context req) clientRecord (rec_view st);
               st = set_rec_view v st
           in case r of
                Err e \<Rightarrow> fail ErrServerError ''store record failed'' st
              | Panic \<Rightarrow> (Panic, st)
              | Ok _ \<Rightarrow>
                  signResponse L d (re_resp env) req
                    (Marshal_TFAResponseData (zero_TFAResponseData\<lparr>tr_Message := ''success''\<rparr>)) st))"

section \<open>OPAQUE authentication\<close>

text \<open>\<^verbatim>\<open>time.Duration(tfaReq.SessionDuration) * time.Second\<close> is a 64-bit product.\<close>

definition session_ttl :: "duration \<Rightarrow> int \<Rightarrow> duration" where
  "session_ttl serverMax sessionDuration =
     (if 0 < sessionDuration then
        let requested = dur_mul sessionDuration Second in if requested < serverMax then requested else serverMax
      else serverMax)"

definition lookup_record ::
  "'m libs \<Rightarrow> ('h, 's, 'm) Dispatcher \<Rightarrow> req_env \<Rightarrow> ServiceRequest \<Rightarrow> ('h, 's, 'm) dstate
   \<Rightarrow> (R2PSError, 'm ClientRecord option) res"
where
  "lookup_record L d env req st =
     (case rs_GetRecord (d_records d) (sr_ClientID req) (sr_Context req) (rec_view st) of
        Ok r \<Rightarrow> Ok (Some r)
      | Err e \<Rightarrow> Ok (FakeRecord (lib_opaque L) (re_fake1 env) (re_fake2 env) (cred_id (sr_Context req) (sr_ClientID req)))
      | Panic \<Rightarrow> Panic)"

definition authEvaluate ::
  "'m libs \<Rightarrow> ('h, 's, 'm) Dispatcher \<Rightarrow> req_env \<Rightarrow> ServiceRequest \<Rightarrow> TFARequestData \<Rightarrow> bytes
   \<Rightarrow> ('h, 's, 'm) dstate \<Rightarrow> ('h, 's, 'm) handled"
where
  "authEvaluate L d env req tfaReq reqData st =
     (case counter_Check (re_check env) (sr_ClientID req) (sr_Context req) (sr_Context req) (ds_counter st) of
        (Some e, c) \<Rightarrow> (Err \<lparr>e_Code = ErrAccessDenied, e_Msg = Msg_counter e\<rparr>, st\<lparr>ds_counter := c\<rparr>)
      | (None, c) \<Rightarrow>
          (let st = st\<lparr>ds_counter := c\<rparr> in
           case lookup_record L d env req st of
             Ok rec \<Rightarrow>
               (case AuthEvaluate (lib_opaque L) (re_ke2 env) (d_opaque d) reqData rec of
                  Err e \<Rightarrow> fail ErrServerError ''auth evaluate failed'' st
                | Panic \<Rightarrow> (Panic, st)
                | Ok (ke2Bytes, clientMAC, sessionSecret) \<Rightarrow>
                    (case RandomBytes (re_session_id env) 32 of
                       Ok rnd \<Rightarrow>
                         (let ttl = session_ttl (d_sessionTTL d) (tfa_SessionDuration tfaReq);
                              sessionID = URLEncoding_Encode rnd;
                              sess = \<lparr>s_ID = sessionID, s_ClientID = sr_ClientID req, s_Context = sr_Context req,
                                      s_SessionKey = sessionSecret, s_ClientMAC = clientMAC,
                                      s_ExpiresAt = re_new env + ttl, s_Verified = False, s_Task = []\<rparr>
                          in case session_Create sess (ds_sessions st) of
                               (Some e, ss) \<Rightarrow> fail ErrServerError ''session creation failed'' (st\<lparr>ds_sessions := ss\<rparr>)
                             | (None, ss) \<Rightarrow>
                                 (let ke2Encoded = URLEncoding_Encode ke2Bytes in
                                  signResponse L d (re_resp env) req
                                    (Marshal_TFAAuthResponseData (zero_TFAAuthResponseData\<lparr>ta_SessionID := sessionID,
                                       ta_TFASessionID := sessionID, ta_PData := ke2Encoded, ta_Response := ke2Encoded\<rparr>))
                                    (st\<lparr>ds_sessions := ss\<rparr>)))
                     | _ \<Rightarrow> (Panic, st)))
           | _ \<Rightarrow> (Panic, st)))"

definition authFinalize ::
  "'m libs \<Rightarrow> ('h, 's, 'm) Dispatcher \<Rightarrow> req_env \<Rightarrow> ServiceRequest \<Rightarrow> bytes \<Rightarrow> ('h, 's, 'm) dstate
   \<Rightarrow> ('h, 's, 'm) handled"
where
  "authFinalize L d env req reqData st =
     (case session_Get (re_get env) (sr_TFASessionID req) (ds_sessions st) of
        None \<Rightarrow> fail ErrIllegalState ''session not found or expired'' st
      | Some sess \<Rightarrow>
          (case AuthFinalize (lib_opaque L) (d_opaque d) reqData (s_ClientMAC sess) of
             Err e \<Rightarrow>
               (let st = RecordFailure (re_check env) req st;
                    st = st\<lparr>ds_sessions := session_Delete (sr_TFASessionID req) (ds_sessions st)\<rparr>
                in fail ErrUnauthorized ''authentication failed'' (metric ''pake_auth_total'' [''failure''] st))
           | Panic \<Rightarrow> (Panic, st)
           | Ok _ \<Rightarrow>
               (let st = RecordSuccess req st in
                case session_MarkVerified (sr_TFASessionID req) (ds_sessions st) of
                  (Some e, ss) \<Rightarrow> fail ErrServerError ''session update failed'' (st\<lparr>ds_sessions := ss\<rparr>)
                | (None, ss) \<Rightarrow>
                    signResponse L d (re_resp env) req
                      (Marshal_TFAAuthResponseData (zero_TFAAuthResponseData\<lparr>ta_SessionID := sr_TFASessionID req,
                         ta_TFASessionID := sr_TFASessionID req, ta_Message := ''authenticated'',
                         ta_SessionExpirationTime := to_unix (s_ExpiresAt sess)\<rparr>))
                      (metric ''active_sessions'' [] (metric ''pake_auth_total'' [''success'']
                        (st\<lparr>ds_sessions := ss\<rparr>))))))"

section \<open>The second factor\<close>

definition handle2FA ::
  "'m libs \<Rightarrow> ('h, 's, 'm) Dispatcher \<Rightarrow> req_env \<Rightarrow> ServiceRequest \<Rightarrow> ('h, 's, 'm) dstate \<Rightarrow> ('h, 's, 'm) handled"
where
  "handle2FA L d env req st =
     (case Unmarshal_TFARequestData (sr_Data req) of
        None \<Rightarrow> fail ErrIllegalRequestData ''malformed 2FA data'' st
      | Some tfaReq \<Rightarrow>
          (let protocol = tfa_GetProtocol tfaReq in
           if protocol = TFAModeFIDO2 then handleFIDO2 L d env req tfaReq st
           else if protocol \<noteq> TFAModeOPAQUE
           then fail ErrIllegalRequestData (''unsupported protocol: '' @ protocol) st
           else
             (case URLEncoding_Decode (tfa_GetPData tfaReq) of
                None \<Rightarrow> fail ErrIllegalRequestData ''invalid request encoding'' st
              | Some reqData \<Rightarrow>
                  if sr_Type req = Type2FARegistration \<and> tfa_State tfaReq = StateEvaluate
                  then regEvaluate L d env req reqData st
                  else if sr_Type req = Type2FARegistration \<and> tfa_State tfaReq = StateFinalize
                  then regFinalize L d env req reqData st
                  else if is_change req \<and> tfa_State tfaReq = StateEvaluate
                  then regEvaluate L d env req reqData st
                  else if is_change req \<and> tfa_State tfaReq = StateFinalize
                  then regFinalize L d env req reqData st
                  else if is_auth req \<and> tfa_State tfaReq = StateEvaluate
                  then authEvaluate L d env req tfaReq reqData st
                  else if is_auth req \<and> tfa_State tfaReq = StateFinalize
                  then authFinalize L d env req reqData st
                  else fail ErrIllegalState ''invalid type/state combination'' st)))"

text \<open>The check of an authenticated session, shared by \<^verbatim>\<open>handle2FAChange\<close> and \<^verbatim>\<open>handleService\<close>.\<close>

definition require_session ::
  "req_env \<Rightarrow> ServiceRequest \<Rightarrow> SessionStore \<Rightarrow> (R2PSError, Session) res"
where
  "require_session env req sessions =
     (case session_Get (re_get env) (sr_TFASessionID req) sessions of
        None \<Rightarrow> Err (r2ps_err ErrUnauthorized ''session not found or expired'')
      | Some sess \<Rightarrow>
          if \<not> s_Verified sess then Err (r2ps_err ErrUnauthorized ''session not verified'')
          else if s_Context sess \<noteq> sr_Context req then Err (r2ps_err ErrAccessDenied ''session context mismatch'')
          else Ok sess)"

definition handle2FAChange ::
  "'m libs \<Rightarrow> ('h, 's, 'm) Dispatcher \<Rightarrow> req_env \<Rightarrow> ServiceRequest \<Rightarrow> ('h, 's, 'm) dstate \<Rightarrow> ('h, 's, 'm) handled"
where
  "handle2FAChange L d env req st =
     (case require_session env req (ds_sessions st) of
        Err e \<Rightarrow> (Err e, st)
      | Panic \<Rightarrow> (Panic, st)
      | Ok _ \<Rightarrow> handle2FA L d env req st)"

section \<open>Service requests\<close>

text \<open>Signature activation data: only a signing request whose hash can be read is checked.\<close>

definition sad_check :: "(bytes \<Rightarrow> bytes) \<Rightarrow> ServiceRequest \<Rightarrow> Session \<Rightarrow> (R2PSError, unit) res" where
  "sad_check sha256 req sess =
     (if sr_Type req = TypeSignECDSA \<and> s_Task sess \<noteq> [] then
        (case Unmarshal_ECDSASignRequest (sr_Data req) of
           None \<Rightarrow> Ok ()
         | Some signReq \<Rightarrow>
             (case decodeBase64 (sig_TbsHash signReq) of
                None \<Rightarrow> Ok ()
              | Some hashBytes \<Rightarrow>
                  res_wrap (\<lambda>e. \<lparr>e_Code = ErrAccessDenied, e_Msg = Msg_sad e\<rparr>)
                    (ValidateSAD sha256 (s_Task sess) hashBytes)))
      else Ok ())"

definition authorize ::
  "'m libs \<Rightarrow> req_env \<Rightarrow> 'w Handler \<Rightarrow> ServiceRequest \<Rightarrow> SessionStore \<Rightarrow> (R2PSError, unit) res"
where
  "authorize L env handler req sessions =
     (if h_Mode handler \<noteq> Mode1FA
      then res_bind (require_session env req sessions) (sad_check (wp_sha256 (lib_wa L)) req)
      else Ok ())"

definition wrap_data :: "string \<Rightarrow> string" where
  "wrap_data respData =
     (if json_Valid respData then respData else json_quote (URLEncoding_Encode (str_bytes respData)))"

definition handleService ::
  "'m libs \<Rightarrow> ('h, 's, 'm) Dispatcher \<Rightarrow> req_env \<Rightarrow> ServiceRequest \<Rightarrow> ('h, 's, 'm) dstate \<Rightarrow> ('h, 's, 'm) handled"
where
  "handleService L d env req st =
     (case d_handlers d (sr_Type req) of
        None \<Rightarrow> fail ErrUnsupportedType ''unknown service type'' st
      | Some handler \<Rightarrow>
          (case authorize L env handler req (ds_sessions st) of
             Err e \<Rightarrow> (Err e, st)
           | Panic \<Rightarrow> (Panic, st)
           | Ok _ \<Rightarrow>
               (let (r, w) = h_Handle handler (re_handler env) (sr_ClientID req) (sr_Data req) (ds_world st);
                    st = st\<lparr>ds_world := w\<rparr>
                in case r of
                     Err e \<Rightarrow> fail ErrServerError (sr_Type req @ '' failed'') st
                   | Panic \<Rightarrow> (Panic, st)
                   | Ok respData \<Rightarrow> (respond L d (re_resp env) req (wrap_data respData), st))))"

section \<open>Processing\<close>

definition verification_key :: "'m libs \<Rightarrow> ('h, 's, 'm) Dispatcher \<Rightarrow> string \<Rightarrow> (R2PSError, PublicKey) res" where
  "verification_key L d body =
     (case d_clientKeys d of
        None \<Rightarrow> Ok (priv_PublicKey (d_serverKey d))
      | Some GetClientKey \<Rightarrow>
          (case PeekJWSHeaders (lib_jose L) body of
             Err e \<Rightarrow> Err (r2ps_err ErrIllegalRequestData ''invalid JWS header'')
           | Panic \<Rightarrow> Panic
           | Ok headers \<Rightarrow>
               Ok (case headers ''kid'' of
                     None \<Rightarrow> priv_PublicKey (d_serverKey d)
                   | Some kid \<Rightarrow>
                       if kid \<noteq> [] then
                         (case GetClientKey kid of None \<Rightarrow> priv_PublicKey (d_serverKey d) | Some pk \<Rightarrow> pk)
                       else priv_PublicKey (d_serverKey d))))"

text \<open>The part of \<^verbatim>\<open>Process\<close> before the routing reads the request and the clock, nothing else.\<close>

definition validate_request :: "('h, 's, 'm) Dispatcher \<Rightarrow> req_env \<Rightarrow> ServiceRequest \<Rightarrow> (R2PSError, ServiceRequest) res" where
  "validate_request d env req =
     (if sr_Ver req \<noteq> ProtocolVersion then Err (r2ps_err ErrIllegalRequestData ''unsupported version'')
      else
        (case URLEncoding_Decode (sr_Nonce req) of
           None \<Rightarrow> Err (r2ps_err ErrIllegalRequestData ''nonce must be at least 16 bytes'')
         | Some nonceBytes \<Rightarrow>
             if length nonceBytes < 16
             then Err (r2ps_err ErrIllegalRequestData ''nonce must be at least 16 bytes'')
             else if d_iatMaxSkew d < dur_Abs (time_Sub (re_iat env) (time_Unix (sr_Iat req)))
             then Err (r2ps_err ErrIllegalRequestData ''iat outside acceptable range'')
             else Ok req))"

definition accept_request ::
  "'m libs \<Rightarrow> ('h, 's, 'm) Dispatcher \<Rightarrow> req_env \<Rightarrow> string \<Rightarrow> (R2PSError, ServiceRequest) res"
where
  "accept_request L d env body =
     res_bind (verification_key L d body) (\<lambda>pubKey.
     res_bind (res_wrap (\<lambda>_. r2ps_err ErrIllegalRequestData ''invalid JWS'') (VerifyJWS (lib_jose L) body pubKey)) (\<lambda>payload.
       case Unmarshal_ServiceRequest (bytes_str payload) of
         None \<Rightarrow> Err (r2ps_err ErrIllegalRequestData ''malformed request'')
       | Some req \<Rightarrow> validate_request d env req))"

definition route ::
  "'m libs \<Rightarrow> ('h, 's, 'm) Dispatcher \<Rightarrow> req_env \<Rightarrow> ServiceRequest \<Rightarrow> ('h, 's, 'm) dstate \<Rightarrow> ('h, 's, 'm) handled"
where
  "route L d env req st =
     (if sr_Type req = Type2FARegistration then handle2FA L d env req st
      else if sr_Type req = Type2FAAuthenticate \<or> sr_Type req = TypeCreateSession then handle2FA L d env req st
      else if sr_Type req = Type2FAChange \<or> sr_Type req = Type2FAUpdate then handle2FAChange L d env req st
      else handleService L d env req st)"

definition Process ::
  "'m libs \<Rightarrow> ('h, 's, 'm) Dispatcher \<Rightarrow> req_env \<Rightarrow> string \<Rightarrow> ('h, 's, 'm) dstate \<Rightarrow> ('h, 's, 'm) handled"
where
  "Process L d env body st =
     (case accept_request L d env body of
        Err e \<Rightarrow> (Err e, st)
      | Panic \<Rightarrow> (Panic, st)
      | Ok req \<Rightarrow> route L d env req st)"

section \<open>What each flow changes\<close>

lemma state_parts [simp]:
  "ds_sessions (metric n l st) = ds_sessions st" "ds_counter (metric n l st) = ds_counter st"
  "ds_records (metric n l st) = ds_records st"
  "ds_sessions (RecordFailure t req st) = ds_sessions st" "ds_sessions (RecordSuccess req st) = ds_sessions st"
  "ds_world (RecordFailure t req st) = ds_world st" "ds_world (RecordSuccess req st) = ds_world st"
  "ds_records (RecordFailure t req st) = ds_records st" "ds_records (RecordSuccess req st) = ds_records st"
  "ds_sessions (set_rec_view v st) = ds_sessions st" "ds_counter (set_rec_view v st) = ds_counter st"
  by (simp_all add: metric_def RecordFailure_def RecordSuccess_def set_rec_view_def)

lemma fido2_challenge_state: "snd (fido2_challenge L d f env req st) = st"
  by (simp add: fido2_challenge_def fail_def signResponse_def Let_def split: res.split)

lemma fido2RegRegister_sessions: "ds_sessions (snd (fido2RegRegister L d f env req tfaReq st)) = ds_sessions st"
  by (simp add: fido2RegRegister_def fail_def signResponse_def Let_def split: res.split prod.split option.split)

lemma fido2AuthChallenge_sessions: "ds_sessions (snd (fido2AuthChallenge L d f env req st)) = ds_sessions st"
  by (simp add: fido2AuthChallenge_def fido2_challenge_state split: prod.split option.split)

lemma regEvaluate_state: "snd (regEvaluate L d env req b st) = st"
  by (simp add: regEvaluate_def fail_def signResponse_def Let_def split: res.split)

lemma regFinalize_sessions: "ds_sessions (snd (regFinalize L d env req b st)) = ds_sessions st"
  by (simp add: regFinalize_def fail_def signResponse_def Let_def split: res.split prod.split)

lemma handleService_sessions: "ds_sessions (snd (handleService L d env req st)) = ds_sessions st"
  by (simp add: handleService_def fail_def Let_def split: res.split prod.split option.split)

lemma fido2_verify_sessions: "ds_sessions (snd (fido2_verify L f env req fi st)) = ds_sessions st"
  by (simp add: fido2_verify_def Let_def split: res.split prod.split option.split)

end
