(* ===== verification/Dispatcher_Flows.thy ===== *)
theory Dispatcher_Flows
  imports Service_Dispatcher
begin

text \<open>
  The dispatcher seen by its clients: which request bodies \<^verbatim>\<open>Process\<close> accepts, what a signed request
  turns into, what a signed response carries back, and the OPAQUE registration and login of an honest
  client.
\<close>

section \<open>Accepted requests\<close>

lemma verification_key_no_panic: "verification_key L d body \<noteq> Panic"
  by (auto simp: verification_key_def PeekJWSHeaders_def Let_def split: option.splits list.splits res.splits)

lemma VerifyJWS_no_panic: "VerifyJWS lib body k \<noteq> Panic"
  by (auto simp: VerifyJWS_def split: option.splits)

definition well_formed_request :: "('h, 's, 'm) Dispatcher \<Rightarrow> req_env \<Rightarrow> ServiceRequest \<Rightarrow> bool" where
  "well_formed_request d env req \<longleftrightarrow>
     sr_Ver req = ProtocolVersion
     \<and> (\<exists>nonce. URLEncoding_Decode (sr_Nonce req) = Some nonce \<and> 16 \<le> length nonce)
     \<and> dur_Abs (time_Sub (re_iat env) (time_Unix (sr_Iat req))) \<le> d_iatMaxSkew d"

lemma validate_request_Ok_iff: "validate_request d env req = Ok r \<longleftrightarrow> r = req \<and> well_formed_request d env req"
  by (auto simp: validate_request_def well_formed_request_def not_less split: option.split)

lemma validate_request_Err: "validate_request d env req = Err e \<Longrightarrow> e_Code e = ErrIllegalRequestData"
  by (auto simp: validate_request_def r2ps_err_def split: option.splits if_splits)

lemma validate_request_no_panic: "validate_request d env req \<noteq> Panic"
  by (auto simp: validate_request_def split: option.splits)

lemma accept_request_iff:
  "accept_request L d env body = Ok req \<longleftrightarrow>
     (\<exists>pk payload. verification_key L d body = Ok pk \<and> VerifyJWS (lib_jose L) body pk = Ok payload
        \<and> Unmarshal_ServiceRequest (bytes_str payload) = Some req \<and> well_formed_request d env req)"
  by (auto simp: accept_request_def res_bind_Ok_iff validate_request_Ok_iff split: option.split_asm)

lemma accept_request_Err:
  assumes "accept_request L d env body = Err e"
  shows "e_Code e = ErrIllegalRequestData"
proof -
  have k: "verification_key L d body = Err e \<Longrightarrow> e_Code e = ErrIllegalRequestData"
    by (auto simp: verification_key_def r2ps_err_def split: option.splits res.splits)
  have w: "res_wrap (\<lambda>_. x) r = Err e \<Longrightarrow> e = x" for r :: "(jose_error, bytes) res" and x
    by (cases r) auto
  show ?thesis
    using assms
    by (auto simp: accept_request_def res_bind_Err_iff r2ps_err_def split: option.splits
        dest!: k w validate_request_Err)
qed

lemma accept_request_no_panic: "accept_request L d env body \<noteq> Panic"
  by (auto simp: accept_request_def res_bind_Panic_iff verification_key_no_panic VerifyJWS_no_panic
      validate_request_no_panic split: option.splits)

text \<open>A request that a holder of the accepted key printed and signed arrives unchanged.\<close>

lemma accept_signed:
  assumes "jose_signs (lib_jose L)" and "d_clientKeys d = None"
    and "request_ok req" and "encodes k (sr_Data req) j" and "k < 9999" and "well_formed_request d env req"
    and "Marshal_ServiceRequest req = Some payload"
    and "SignJWS (lib_jose L) (str_bytes payload) (d_serverKey d) kid opts = Ok body"
  shows "accept_request L d env body = Ok req"
proof -
  have "VerifyJWS (lib_jose L) body (priv_PublicKey (d_serverKey d)) = Ok (str_bytes payload)"
    by (rule SignJWS_verifies [OF assms(1,8)])
  moreover have "Unmarshal_ServiceRequest payload = Some req"
    using request_roundtrip [OF assms(3-5)] assms(7) by auto
  ultimately show ?thesis using assms(2,6) by (simp add: accept_request_iff verification_key_def)
qed

section \<open>Responses\<close>

text \<open>The characters of a decodable base64url text are ASCII.\<close>

lemma b64_val_ascii: "b64_val c \<noteq> None \<Longrightarrow> (of_char c :: nat) < 0x80"
  by (auto simp: b64_val_def Let_def split: if_splits)

lemma b64_quantum_ascii:
  "b64_quantum a b c e = Some r \<Longrightarrow> (of_char a :: nat) < 0x80 \<and> (of_char b :: nat) < 0x80
     \<and> (\<forall>x. c = Some x \<longrightarrow> (of_char x :: nat) < 0x80) \<and> (\<forall>x. c \<noteq> None \<and> e = Some x \<longrightarrow> (of_char x :: nat) < 0x80)"
  using b64_val_ascii [of a] b64_val_ascii [of b] b64_val_ascii [of "the c"] b64_val_ascii [of "the e"]
  by (cases c; cases e) (auto simp: b64_quantum_def split: option.splits)

lemma b64_groups_ascii:
  "b64_decode_groups pad s = Some b \<Longrightarrow> list_all (\<lambda>c. (of_char c :: nat) < 0x80) s"
proof (induction pad s arbitrary: b rule: b64_decode_groups.induct)
  case (5 pad c1 c2 c3 c4 cs)
  show ?case
  proof (cases "pad \<and> c4 = CHR ''=''")
    case True
    with "5.prems" show ?thesis by (auto split: if_splits dest!: b64_quantum_ascii)
  next
    case False
    with "5.prems" "5.IH" show ?thesis by (auto split: option.splits dest!: b64_quantum_ascii)
  qed
qed (auto split: if_splits dest!: b64_quantum_ascii)

lemma accepted_nonce_utf8:
  assumes "URLEncoding_Decode s = Some b"
  shows "utf8_valid s"
proof (rule utf8_valid_ascii)
  have "list_all (\<lambda>c. (of_char c :: nat) < 0x80) (filter (\<lambda>c. c \<noteq> CHR 0x0A \<and> c \<noteq> CHR 0x0D) s)"
    using assms b64_groups_ascii by (simp add: b64_decode_def)
  then show "list_all (\<lambda>c. (of_char c :: nat) < 0x80) s" by (auto simp: list_all_iff)
qed

text \<open>A response verifies with the server's key and, read back, echoes the nonce of its request.\<close>

definition answers :: "jose_lib \<Rightarrow> PublicKey \<Rightarrow> ServiceRequest \<Rightarrow> string \<Rightarrow> ServiceResponse \<Rightarrow> bool" where
  "answers lib pk req jws resp \<longleftrightarrow>
     (\<exists>payload. VerifyJWS lib jws pk = Ok (str_bytes payload) \<and> Unmarshal_ServiceResponse payload = Some resp
        \<and> sp_Ver resp = ProtocolVersion \<and> sp_Nonce resp = sr_Nonce req \<and> sp_Success resp = Some True)"

lemma respond_answers:
  assumes "jose_signs (lib_jose L)" and "utf8_valid (sr_Nonce req)" and "encodes k data j" and "k < 9999"
    and "min_int64 \<le> to_unix now" and "to_unix now \<le> max_int64"
    and "respond L d now req data = Ok jws"
  shows "answers (lib_jose L) (priv_PublicKey (d_serverKey d)) req jws
     \<lparr>sp_Ver = ProtocolVersion, sp_Nonce = sr_Nonce req, sp_Iat = to_unix now, sp_Data = data, sp_Success = Some True\<rparr>"
proof -
  let ?r = "\<lparr>sp_Ver = ProtocolVersion, sp_Nonce = sr_Nonce req, sp_Iat = to_unix now, sp_Data = data, sp_Success = Some True\<rparr>"
  have ok: "response_ok ?r"
    using assms by (simp add: response_ok_def ProtocolVersion_def utf8_valid_ascii)
  from response_roundtrip [OF this, of k j] assms obtain s where
    s: "Marshal_ServiceResponse ?r = Some s" "Unmarshal_ServiceResponse s = Some ?r" by auto
  have "SignJWS (lib_jose L) (str_bytes s) (d_serverKey d) [] [TypResponse] = Ok jws"
    using assms(7) s(1) by (auto simp: respond_def Let_def split: res.splits)
  from SignJWS_verifies [OF assms(1) this] s(2) show ?thesis by (auto simp: answers_def)
qed

section \<open>An honest client\<close>

text \<open>The request of one phase of an OPAQUE exchange.\<close>

definition tfa_phase :: "TFARequestData \<Rightarrow> string \<Rightarrow> bytes \<Rightarrow> bool" where
  "tfa_phase tfa state b \<longleftrightarrow> tfa_GetProtocol tfa = TFAModeOPAQUE \<and> tfa_State tfa = state
     \<and> tfa_GetPData tfa = URLEncoding_Encode b"

lemma auth_types: "is_auth req \<Longrightarrow> sr_Type req \<noteq> Type2FARegistration \<and> \<not> is_change req"
  by (auto simp: is_auth_def is_change_def r2ps_type_defs)

lemma route_evaluate:
  assumes "is_auth req" and "Unmarshal_TFARequestData (sr_Data req) = Some tfa" and "tfa_phase tfa StateEvaluate b"
  shows "route L d env req st = authEvaluate L d env req tfa b st"
  using assms auth_types [OF assms(1)]
  by (simp add: route_def handle2FA_def tfa_phase_def is_auth_def [of req] r2ps_state_defs TFAModeOPAQUE_def TFAModeFIDO2_def)

lemma route_finalize:
  assumes "is_auth req" and "Unmarshal_TFARequestData (sr_Data req) = Some tfa" and "tfa_phase tfa StateFinalize b"
  shows "route L d env req st = authFinalize L d env req b st"
  using assms auth_types [OF assms(1)]
  by (simp add: route_def handle2FA_def tfa_phase_def is_auth_def [of req] r2ps_state_defs TFAModeOPAQUE_def TFAModeFIDO2_def)

lemma route_register:
  assumes "sr_Type req = Type2FARegistration" and "Unmarshal_TFARequestData (sr_Data req) = Some tfa"
    and "tfa_phase tfa StateFinalize b"
  shows "route L d env req st = regFinalize L d env req b st"
  using assms by (simp add: route_def handle2FA_def tfa_phase_def r2ps_state_defs TFAModeOPAQUE_def TFAModeFIDO2_def)

text \<open>Opening a session: the record found for the client (or the fake one) and a fresh identifier.\<close>

definition new_session :: "duration \<Rightarrow> req_env \<Rightarrow> ServiceRequest \<Rightarrow> TFARequestData \<Rightarrow> string \<Rightarrow> bytes \<Rightarrow> bytes \<Rightarrow> Session" where
  "new_session ttl env req tfa sid mac secret =
     \<lparr>s_ID = sid, s_ClientID = sr_ClientID req, s_Context = sr_Context req, s_SessionKey = secret, s_ClientMAC = mac,
      s_ExpiresAt = re_new env + session_ttl ttl (tfa_SessionDuration tfa), s_Verified = False, s_Task = []\<rparr>"

lemma evaluate_opens:
  assumes "fst (counter_Check (re_check env) (sr_ClientID req) (sr_Context req) (sr_Context req) (ds_counter st)) = None"
    and "lookup_record L d env req st = Ok rec"
    and "AuthEvaluate (lib_opaque L) (re_ke2 env) (d_opaque d) b rec = Ok (ke2, mac, secret)"
    and "re_session_id env = Some rnd"
    and "map_of (ds_sessions st) (URLEncoding_Encode (map rnd [0..<32])) = None"
  shows "\<exists>c. snd (authEvaluate L d env req tfa b st) =
     st\<lparr>ds_counter := c, ds_sessions := AList.update (URLEncoding_Encode (map rnd [0..<32]))
          (new_session (d_sessionTTL d) env req tfa (URLEncoding_Encode (map rnd [0..<32])) mac secret) (ds_sessions st)\<rparr>"
proof -
  obtain c where c: "counter_Check (re_check env) (sr_ClientID req) (sr_Context req) (sr_Context req) (ds_counter st) = (None, c)"
    using assms(1) by (metis surj_pair fst_conv)
  moreover have "lookup_record L d env req (st\<lparr>ds_counter := c\<rparr>) = Ok rec"
    using assms(2) by (simp add: lookup_record_def rec_view_def)
  ultimately show ?thesis
    using assms(3-5)
    by (simp add: authEvaluate_def RandomBytes_def Let_def session_Create_def signResponse_def new_session_def del: upt.simps) blast
qed

lemma finalize_verifies:
  assumes "session_Get (re_get env) (sr_TFASessionID req) (ds_sessions st) = Some sess"
    and "AuthFinalize (lib_opaque L) (d_opaque d) b (s_ClientMAC sess) = Ok ()"
  shows "ds_sessions (snd (authFinalize L d env req b st)) =
       AList.update (sr_TFASessionID req) (sess\<lparr>s_Verified := True\<rparr>) (ds_sessions st)
     \<and> ds_counter (snd (authFinalize L d env req b st)) =
       counter_RecordSuccess (sr_ClientID req) (sr_Context req) (sr_Context req) (ds_counter st)"
proof -
  have "map_of (ds_sessions st) (sr_TFASessionID req) = Some sess"
    using assms(1) by (auto simp: session_Get_def split: option.splits if_splits)
  with assms show ?thesis
    by (simp add: authFinalize_def session_MarkVerified_def signResponse_def Let_def) (simp add: RecordSuccess_def)
qed

lemma finalize_refuses:
  assumes "session_Get (re_get env) (sr_TFASessionID req) (ds_sessions st) = Some sess"
    and "AuthFinalize (lib_opaque L) (d_opaque d) b (s_ClientMAC sess) = Err e"
  shows "fst (authFinalize L d env req b st) = Err (r2ps_err ErrUnauthorized ''authentication failed'')
     \<and> map_of (ds_sessions (snd (authFinalize L d env req b st))) (sr_TFASessionID req) = None
     \<and> ds_counter (snd (authFinalize L d env req b st)) =
         snd (counter_RecordFailure (re_check env) (sr_ClientID req) (sr_Context req) (sr_Context req) (ds_counter st))"
  using assms
  by (simp add: authFinalize_def fail_def Let_def session_Delete_def delete_conv') (simp add: RecordFailure_def)

section \<open>A concrete server\<close>

definition demo_libs :: "bytes libs" where
  "demo_libs =
     \<lparr>lib_jose = toy_jose, lib_opaque = toy_opaque, lib_hkdf = (\<lambda>ikm salt info n. Some (replicate n 0)),
      lib_gcm = toy_aead, lib_wa = demo_prims\<rparr>"

text \<open>An HSM that signs with the hash itself.\<close>

definition toy_backend :: "unit backend_ops" where
  "toy_backend =
     \<lparr>hb_GenerateECKey = (\<lambda>c h. (Ok (''k'', [4]), h)), hb_Sign = (\<lambda>k b h. (Ok b, h)),
      hb_ECDH = (\<lambda>k b h. (Ok b, h)), hb_ListKeys = (\<lambda>c h. (Ok [], h))\<rparr>"

definition demo_dispatcher :: "(unit, MemoryStore, bytes) Dispatcher" where
  "demo_dispatcher =
     \<lparr>d_serverKey = \<lparr>priv_PublicKey = \<lparr>pub_Curve = P256, pub_X = 1, pub_Y = 2\<rparr>, priv_D = 1\<rparr>,
      d_opaque = \<lparr>os_server = None\<rparr>, d_records = InMemoryRecordStore, d_clientKeys = None,
      d_handlers = [TypeSignECDSA \<mapsto> ECDSAHandler toy_backend], d_sessionTTL = 300 * Second,
      d_iatMaxSkew = 300 * Second, d_fido2 = None\<rparr>"

definition demo_state :: "(unit, MemoryStore, bytes) dstate" where
  "demo_state =
     \<lparr>ds_sessions = NewSessionStore, ds_counter = NewAttemptCounter 5 (900 * Second),
      ds_records = [pair_key ''alice'' ''hsm'' \<mapsto>
        \<lparr>rec_RegistrationRecord = [9], rec_CredentialIdentifier = cred_id ''hsm'' ''alice'', rec_ClientIdentity = []\<rparr>],
      ds_world = \<lparr>w_hsm = (), w_store = NewMemoryStore, w_metrics = [], w_audit = []\<rparr>\<rparr>"

definition demo_env :: req_env where
  "demo_env =
     \<lparr>re_iat = 0, re_check = 0, re_get = 0, re_token = 0, re_new = 0, re_handler = 0, re_resp = 0,
      re_session_id = Some (\<lambda>_. 7), re_challenge = None, re_token_nonce = None, re_ke2 = [], re_fake1 = [],
      re_fake2 = [], re_ephemeral = None\<rparr>"

definition demo_sid :: string where "demo_sid = URLEncoding_Encode (replicate 32 7)"

definition demo_tfa :: "string \<Rightarrow> bytes \<Rightarrow> TFARequestData" where
  "demo_tfa state b = zero_TFARequestData\<lparr>tfa_Protocol := ''opaque'', tfa_State := state, tfa_PData := URLEncoding_Encode b\<rparr>"

definition demo_req :: "string \<Rightarrow> string \<Rightarrow> string \<Rightarrow> ServiceRequest" where
  "demo_req typ sid data =
     \<lparr>sr_Ver = ProtocolVersion, sr_Nonce = URLEncoding_Encode (replicate 16 1), sr_Iat = 0, sr_Data = data,
      sr_ClientID = ''alice'', sr_Context = ''hsm'', sr_Type = typ, sr_TFASessionID = sid, sr_JWEHash = []\<rparr>"

definition demo_login :: "string \<Rightarrow> string \<Rightarrow> bytes \<Rightarrow> ServiceRequest" where
  "demo_login state sid b = demo_req Type2FAAuthenticate sid (Marshal_TFARequestData (demo_tfa state b))"

lemma demo_tfa_ok: "state \<in> {StateEvaluate, StateFinalize} \<Longrightarrow> tfa_ok (demo_tfa state b)"
  by (auto simp: tfa_ok_def demo_tfa_def zero_TFARequestData_def r2ps_state_defs min_int64_def max_int64_def
      intro: utf8_valid_ascii)

lemma demo_login_parses:
  "state \<in> {StateEvaluate, StateFinalize} \<Longrightarrow>
     Unmarshal_TFARequestData (sr_Data (demo_login state sid b)) = Some (demo_tfa state b)"
  using tfa_roundtrip [OF demo_tfa_ok] by (simp add: demo_login_def demo_req_def)

lemma b64_encode_not_Nil: "URLEncoding_Encode b = [] \<longleftrightarrow> b = []"
  by (cases "(True, b)" rule: b64_encode.cases) (auto simp: b64_group_def)

lemma demo_phase: "b \<noteq> [] \<Longrightarrow> tfa_phase (demo_tfa state b) state b"
  by (simp add: tfa_phase_def demo_tfa_def zero_TFARequestData_def tfa_GetProtocol_def tfa_GetPData_def
      TFAModeOPAQUE_def b64_encode_not_Nil)

lemma demo_is_auth: "is_auth (demo_login state sid b)"
  by (simp add: is_auth_def demo_login_def demo_req_def)

lemma demo_jose: "jose_signs (lib_jose demo_libs)"
  by (simp add: demo_libs_def toy_jose_signs)

lemma demo_dispatcher_keys: "d_clientKeys demo_dispatcher = None"
  by (simp add: demo_dispatcher_def)

lemma demo_req_sendable:
  assumes "utf8_valid typ" and "utf8_valid sid"
  shows "request_ok (demo_req typ sid data)" and "well_formed_request demo_dispatcher demo_env (demo_req typ sid data)"
proof -
  show "request_ok (demo_req typ sid data)"
    using assms
    by (simp add: request_ok_def demo_req_def ProtocolVersion_def min_int64_def max_int64_def utf8_valid_ascii)
  have "dur_Abs (time_Sub 0 (time_Unix 0)) = 0"
    by (simp add: time_Unix_def wrap64_def unixToInternal_def time_Sub_def clamp64_def dur_Abs_def min_int64_def max_int64_def)
  then show "well_formed_request demo_dispatcher demo_env (demo_req typ sid data)"
    by (simp add: well_formed_request_def demo_req_def demo_env_def demo_dispatcher_def Second_def)
qed

lemma demo_login_sendable:
  assumes "state \<in> {StateEvaluate, StateFinalize}" and "utf8_valid sid"
  shows "request_ok (demo_login state sid b)"
    and "encodes 1 (sr_Data (demo_login state sid b)) (JObj (tfa_members (demo_tfa state b)))"
    and "well_formed_request demo_dispatcher demo_env (demo_login state sid b)"
  using demo_req_sendable [of Type2FAAuthenticate sid] enc_tfa [OF demo_tfa_ok [OF assms(1)]] assms(2)
  by (simp_all add: demo_login_def demo_req_def Type2FAAuthenticate_def utf8_valid_ascii)

lemma toy_SignJWS: "\<exists>body. SignJWS toy_jose p (d_serverKey demo_dispatcher) kid opts = Ok body"
  by (simp add: SignJWS_def demo_dispatcher_def ecAlgorithm_def sign_with_def toy_jose_def Let_def)

text \<open>The body of a request as the demonstration client signs it.\<close>

definition demo_body :: "ServiceRequest \<Rightarrow> string" where
  "demo_body req =
     (case Marshal_ServiceRequest req of
        None \<Rightarrow> []
      | Some p \<Rightarrow> (case SignJWS toy_jose (str_bytes p) (d_serverKey demo_dispatcher) [] [] of Ok b \<Rightarrow> b | _ \<Rightarrow> []))"

lemma demo_body_accepted:
  assumes "request_ok req" and "encodes k (sr_Data req) j" and "k < 9999"
    and "well_formed_request demo_dispatcher demo_env req"
  shows "accept_request demo_libs demo_dispatcher demo_env (demo_body req) = Ok req"
proof -
  obtain p where p: "Marshal_ServiceRequest req = Some p" using request_roundtrip [OF assms(1-3)] by blast
  obtain b where "SignJWS toy_jose (str_bytes p) (d_serverKey demo_dispatcher) [] [] = Ok b"
    using toy_SignJWS by blast
  with accept_signed [OF demo_jose demo_dispatcher_keys assms p, of "[]" "[]"] p show ?thesis
    by (simp add: demo_body_def demo_libs_def)
qed

lemma demo_lookup:
  "lookup_record demo_libs demo_dispatcher demo_env (demo_login s i b) demo_state =
     Ok (Some \<lparr>rec_RegistrationRecord = [9], rec_CredentialIdentifier = cred_id ''hsm'' ''alice'', rec_ClientIdentity = []\<rparr>)"
  by (simp add: lookup_record_def demo_dispatcher_def InMemoryRecordStore_def inmem_GetRecord_def rec_view_def
      demo_state_def demo_login_def demo_req_def)

lemma demo_evaluate:
  "AuthEvaluate (lib_opaque demo_libs) (re_ke2 demo_env) (d_opaque demo_dispatcher) [1]
     (Some \<lparr>rec_RegistrationRecord = [9], rec_CredentialIdentifier = c, rec_ClientIdentity = []\<rparr>) = Ok ([1], [9], [9])"
  by (simp add: AuthEvaluate_def demo_libs_def toy_opaque_def)

text \<open>The demonstration login: the state after the evaluate and after the finalize request.\<close>

definition demo_st1 :: "(unit, MemoryStore, bytes) dstate" where
  "demo_st1 = snd (route demo_libs demo_dispatcher demo_env (demo_login StateEvaluate [] [1]) demo_state)"

definition demo_st2 :: "(unit, MemoryStore, bytes) dstate" where
  "demo_st2 = snd (route demo_libs demo_dispatcher demo_env (demo_login StateFinalize demo_sid [9]) demo_st1)"

definition demo_session :: Session where
  "demo_session = new_session (300 * Second) demo_env (demo_login StateEvaluate [] [1]) (demo_tfa StateEvaluate [1])
     demo_sid [9] [9]"

lemma demo_sid_random: "demo_sid = URLEncoding_Encode (map (\<lambda>_. 7) [0..<32])"
  by (simp add: demo_sid_def map_replicate_const)

lemma demo_phases:
  "tfa_phase (demo_tfa StateEvaluate [1]) StateEvaluate [1]" "tfa_phase (demo_tfa StateFinalize [9]) StateFinalize [9]"
  by (rule demo_phase, simp)+

lemma demo_unlocked:
  "fst (counter_Check (re_check demo_env) (sr_ClientID (demo_login StateEvaluate [] [1]))
      (sr_Context (demo_login StateEvaluate [] [1])) (sr_Context (demo_login StateEvaluate [] [1])) (ds_counter demo_state)) = None"
  by (simp add: demo_state_def counter_Check_def NewAttemptCounter_def)

lemma demo_st1_sessions: "ds_sessions demo_st1 = [(demo_sid, demo_session)]"
proof -
  have "re_session_id demo_env = Some (\<lambda>_. 7)" by (simp add: demo_env_def)
  from evaluate_opens [OF demo_unlocked demo_lookup demo_evaluate this, of "demo_tfa StateEvaluate [1]"]
    route_evaluate [OF demo_is_auth demo_login_parses demo_phases(1), of demo_libs demo_dispatcher demo_env "[]" demo_state]
  show ?thesis
    by (auto simp: demo_st1_def demo_state_def NewSessionStore_def demo_sid_random demo_session_def demo_dispatcher_def)
qed

lemma demo_st2_sessions: "ds_sessions demo_st2 = [(demo_sid, demo_session\<lparr>s_Verified := True\<rparr>)]"
proof -
  have sid: "sr_TFASessionID (demo_login StateFinalize demo_sid [9]) = demo_sid"
    by (simp add: demo_login_def demo_req_def)
  have "session_Get (re_get demo_env) (sr_TFASessionID (demo_login StateFinalize demo_sid [9])) (ds_sessions demo_st1) = Some demo_session"
    by (simp add: sid demo_st1_sessions session_Get_def session_expired_def demo_session_def new_session_def demo_env_def
        demo_tfa_def zero_TFARequestData_def session_ttl_def Second_def)
  moreover have "AuthFinalize (lib_opaque demo_libs) (d_opaque demo_dispatcher) [9] (s_ClientMAC demo_session) = Ok ()"
    by (simp add: AuthFinalize_def demo_libs_def toy_opaque_def demo_session_def new_session_def)
  ultimately show ?thesis
    using finalize_verifies [of demo_env "demo_login StateFinalize demo_sid [9]" demo_st1 demo_session demo_libs demo_dispatcher "[9]"]
      route_finalize [OF demo_is_auth demo_login_parses demo_phases(2), of demo_libs demo_dispatcher demo_env demo_sid demo_st1]
    by (simp add: demo_st2_def sid demo_st1_sessions)
qed

lemma auth_records:
  "ds_records (snd (authEvaluate L d env req tfa b st)) = ds_records st"
  "ds_records (snd (authFinalize L d env req b st)) = ds_records st"
  by (simp_all add: authEvaluate_def authFinalize_def fail_def signResponse_def Let_def
      split: res.split prod.split option.split)

lemma demo_st2_records: "ds_records demo_st2 = ds_records demo_state"
  using route_evaluate [OF demo_is_auth demo_login_parses demo_phases(1), of demo_libs demo_dispatcher demo_env "[]" demo_state]
    route_finalize [OF demo_is_auth demo_login_parses demo_phases(2), of demo_libs demo_dispatcher demo_env demo_sid demo_st1]
  by (simp add: demo_st2_def demo_st1_def auth_records)

lemma demo_login_accepted:
  assumes "state \<in> {StateEvaluate, StateFinalize}" and "utf8_valid sid"
  shows "accept_request demo_libs demo_dispatcher demo_env (demo_body (demo_login state sid b)) = Ok (demo_login state sid b)"
  by (rule demo_body_accepted [OF demo_login_sendable(1,2) [OF assms] _ demo_login_sendable(3) [OF assms]]) simp

lemma demo_sid_utf8: "utf8_valid demo_sid"
  by (simp add: demo_sid_def)

section \<open>Properties\<close>

text \<open>C6: Validation. \<^verbatim>\<open>Process\<close> goes past its checks exactly for a body whose JWS verifies with the key
  chosen for it and whose payload is a request of the supported version, with a nonce of at least 16
  bytes and an issue time within the allowed skew of the clock. Every other body is answered with
  ILLEGAL_REQUEST_DATA and changes nothing at all; the checks never panic.\<close>

theorem validation_exact:
  "(accept_request L d env body = Ok req \<longleftrightarrow>
      (\<exists>pk payload. verification_key L d body = Ok pk \<and> VerifyJWS (lib_jose L) body pk = Ok payload
         \<and> Unmarshal_ServiceRequest (bytes_str payload) = Some req \<and> well_formed_request d env req))
   \<and> ((\<exists>req. accept_request L d env body = Ok req \<and> Process L d env body st = route L d env req st)
      \<or> (\<exists>e. e_Code e = ErrIllegalRequestData \<and> Process L d env body st = (Err e, st)))"
  using accept_request_iff [of L d env body req] accept_request_no_panic [of L d env body]
    accept_request_Err [of L d env body]
  by (cases "accept_request L d env body") (simp_all add: Process_def)

text \<open>A signed request arrives. A request with UTF-8 strings and JSON data, printed and signed with
  the accepted key, is read back by \<^verbatim>\<open>Process\<close> exactly as the client built it.\<close>

lemma signed_request_arrives:
  assumes "jose_signs (lib_jose L)" and "d_clientKeys d = None"
    and "request_ok req" and "encodes k (sr_Data req) j" and "k < 9999" and "well_formed_request d env req"
  shows "\<exists>payload. Marshal_ServiceRequest req = Some payload
     \<and> (\<forall>kid opts body. SignJWS (lib_jose L) (str_bytes payload) (d_serverKey d) kid opts = Ok body \<longrightarrow>
          Process L d env body st = route L d env req st)"
proof -
  obtain payload where p: "Marshal_ServiceRequest req = Some payload"
    using request_roundtrip [OF assms(3-5)] by blast
  with accept_signed [OF assms p] show ?thesis by (auto simp: Process_def)
qed

text \<open>C5: The OPAQUE login. A client that is not locked out opens a session with its evaluate request;
  the finalize request on that session verifies it exactly if its KE3 message carries the MAC the
  server expects. On success the failure count of the client is reset; a wrong MAC closes the session,
  so that it cannot be tried again, and counts one failure.\<close>

theorem opaque_login:
  assumes "opaque_completes (lib_opaque L) ke3_of"
    and "is_auth req1" and "Unmarshal_TFARequestData (sr_Data req1) = Some tfa1" and "tfa_phase tfa1 StateEvaluate ke1"
    and "fst (counter_Check (re_check env1) (sr_ClientID req1) (sr_Context req1) (sr_Context req1) (ds_counter st)) = None"
    and "lookup_record L d env1 req1 st = Ok rec"
    and "AuthEvaluate (lib_opaque L) (re_ke2 env1) (d_opaque d) ke1 rec = Ok (ke2, mac, secret)"
    and "re_session_id env1 = Some rnd" and sid: "sid = URLEncoding_Encode (map rnd [0..<32])"
    and "map_of (ds_sessions st) sid = None"
    and "is_auth req2" and "Unmarshal_TFARequestData (sr_Data req2) = Some tfa2"
    and "tfa_phase tfa2 StateFinalize (ke3_of m)" and "sr_TFASessionID req2 = sid"
    and "re_get env2 \<le> re_new env1 + session_ttl (d_sessionTTL d) (tfa_SessionDuration tfa1)"
    and st1: "st1 = snd (route L d env1 req1 st)" and st2: "st2 = snd (route L d env2 req2 st1)"
  shows "map_of (ds_sessions st2) sid =
       (if m = mac then Some (new_session (d_sessionTTL d) env1 req1 tfa1 sid mac secret\<lparr>s_Verified := True\<rparr>) else None)
     \<and> ds_counter st2 =
       (if m = mac then counter_RecordSuccess (sr_ClientID req2) (sr_Context req2) (sr_Context req2) (ds_counter st1)
        else snd (counter_RecordFailure (re_check env2) (sr_ClientID req2) (sr_Context req2) (sr_Context req2) (ds_counter st1)))"
proof -
  let ?sess = "new_session (d_sessionTTL d) env1 req1 tfa1 sid mac secret"
  have "ds_sessions st1 = AList.update sid ?sess (ds_sessions st)"
    using evaluate_opens [OF assms(5-8), of tfa1] assms(10) route_evaluate [OF assms(2-4), of L d env1 st]
    by (auto simp: st1 sid)
  then have get: "session_Get (re_get env2) (sr_TFASessionID req2) (ds_sessions st1) = Some ?sess"
    using assms(14,15) by (simp add: session_Get_def session_expired_def update_conv' new_session_def)
  have r2: "st2 = snd (authFinalize L d env2 req2 (ke3_of m) st1)"
    using route_finalize [OF assms(11-13), of L d env2 st1] by (simp add: st2)
  obtain x where x: "ol_GetKE3 (lib_opaque L) (ke3_of m) = Some x"
    "\<And>k mac'. ol_LoginFinish (lib_opaque L) k x mac' \<longleftrightarrow> mac' = m"
    using assms(1) unfolding opaque_completes_def by blast
  then have fin: "AuthFinalize (lib_opaque L) (d_opaque d) (ke3_of m) (s_ClientMAC ?sess) =
      (if m = mac then Ok () else Err Login_finish)"
    by (auto simp: AuthFinalize_def new_session_def)
  show ?thesis
  proof (cases "m = mac")
    case True
    with finalize_verifies [OF get, of L d "ke3_of m"] fin show ?thesis
      by (simp add: r2 update_conv' assms(14))
  next
    case False
    with finalize_refuses [OF get, of L d "ke3_of m"] fin show ?thesis by (simp add: r2 assms(14))
  qed
qed

theorem opaque_login_witness:
  "map_of (ds_sessions (snd (route demo_libs demo_dispatcher demo_env (demo_login StateFinalize demo_sid [9])
       (snd (route demo_libs demo_dispatcher demo_env (demo_login StateEvaluate [] [1]) demo_state))))) demo_sid
     = Some (demo_session\<lparr>s_Verified := True\<rparr>)"
proof -
  have lib: "opaque_completes (lib_opaque demo_libs) (\<lambda>m. m)" by (simp add: demo_libs_def toy_opaque_ok)
  have rnd: "re_session_id demo_env = Some (\<lambda>_. 7)" by (simp add: demo_env_def)
  have fresh: "map_of (ds_sessions demo_state) demo_sid = None" by (simp add: demo_state_def NewSessionStore_def)
  have sid: "sr_TFASessionID (demo_login StateFinalize demo_sid [9]) = demo_sid"
    by (simp add: demo_login_def demo_req_def)
  have ttl: "d_sessionTTL demo_dispatcher = 300 * Second" by (simp add: demo_dispatcher_def)
  have alive: "re_get demo_env \<le> re_new demo_env
      + session_ttl (d_sessionTTL demo_dispatcher) (tfa_SessionDuration (demo_tfa StateEvaluate [1]))"
    by (simp add: demo_env_def demo_tfa_def zero_TFARequestData_def session_ttl_def ttl Second_def)
  have s: "StateEvaluate \<in> {StateEvaluate, StateFinalize}" "StateFinalize \<in> {StateEvaluate, StateFinalize}" by simp_all
  from opaque_login [OF lib demo_is_auth demo_login_parses [OF s(1)] demo_phases(1) demo_unlocked demo_lookup demo_evaluate
      rnd demo_sid_random fresh demo_is_auth demo_login_parses [OF s(2)] demo_phases(2) sid alive refl refl]
  show ?thesis by (simp add: demo_session_def ttl)
qed

end
