(* ===== verification/Dispatcher_Safety.thy ===== *)
theory Dispatcher_Safety
  imports Dispatcher_Flows
begin

text \<open>
  The security of the dispatcher. \<open>session_change\<close> is an abstract specification of what a request may
  do to the sessions: nothing, open an unverified OPAQUE session, close one after a failed proof, mark
  one verified after an accepted KE3 message, or open a verified one after an accepted WebAuthn
  assertion. \<open>route\<close> is proved to refine it; the invariants of all reachable states follow by rule
  induction.
\<close>

section \<open>Proofs of the second factor\<close>

text \<open>The request carries a KE3 message the OPAQUE library accepts for the session's expected MAC.\<close>

definition opaque_proof ::
  "'m libs \<Rightarrow> ('h, 's, 'm) Dispatcher \<Rightarrow> ServiceRequest \<Rightarrow> Session \<Rightarrow> bool"
where
  "opaque_proof L d req sess \<longleftrightarrow>
     is_auth req \<and> (\<exists>tfaReq ke3. Unmarshal_TFARequestData (sr_Data req) = Some tfaReq
        \<and> tfa_GetProtocol tfaReq = TFAModeOPAQUE \<and> tfa_State tfaReq = StateFinalize
        \<and> URLEncoding_Decode (tfa_GetPData tfaReq) = Some ke3
        \<and> AuthFinalize (lib_opaque L) (d_opaque d) ke3 (s_ClientMAC sess) = Ok ())"

text \<open>A credential registered for the client and context verifies the assertion over the challenge of
  the token.\<close>

definition assertion_accepted ::
  "'m libs \<Rightarrow> 's FIDO2Config \<Rightarrow> ServiceRequest \<Rightarrow> finalize_input \<Rightarrow> 's \<Rightarrow> bool"
where
  "assertion_accepted L f req fi s \<longleftrightarrow>
     (\<exists>creds c pk ad.
        GetWebAuthnCredential (fc_Store f) (sr_ClientID req) (sr_Context req) s = Ok creds
        \<and> c \<in> set creds \<and> wc_CredentialID c = as_CredentialID (fi_Assertion fi)
        \<and> UnmarshalPublicKey P256 (wc_PublicKey c) = Ok pk
        \<and> VerifyAssertion (lib_wa L) (fi_Assertion fi) (cred_of c pk) (ct_Challenge (fi_Token fi))
            (fc_RPID f) (fc_AllowedOrigins f) = Ok ad)"

text \<open>The request carries a token issued for the same client and context and such an assertion.\<close>

definition fido2_proof ::
  "'m libs \<Rightarrow> ('h, 's, 'm) Dispatcher \<Rightarrow> req_env \<Rightarrow> ServiceRequest \<Rightarrow> 's \<Rightarrow> string \<Rightarrow> bool"
where
  "fido2_proof L d env req s task \<longleftrightarrow>
     is_auth req \<and> (\<exists>tfaReq f fi. Unmarshal_TFARequestData (sr_Data req) = Some tfaReq
        \<and> tfa_GetProtocol tfaReq = TFAModeFIDO2 \<and> tfa_State tfaReq = StateFinalize
        \<and> d_fido2 d = Some f \<and> finalize_request L f env req tfaReq = Ok fi
        \<and> ct_ClientID (fi_Token fi) = sr_ClientID req \<and> ct_Context (fi_Token fi) = sr_Context req
        \<and> fr_Task (fi_Req fi) = task \<and> assertion_accepted L f req fi s)"

section \<open>The abstract effect on sessions\<close>

inductive session_change ::
  "'m libs \<Rightarrow> ('h, 's, 'm) Dispatcher \<Rightarrow> req_env \<Rightarrow> ServiceRequest \<Rightarrow> 's \<Rightarrow> SessionStore \<Rightarrow> SessionStore \<Rightarrow> bool"
  for L d env req s ss
where
  same: "session_change L d env req s ss ss"
| opened: "map_of ss (s_ID sess) = None \<Longrightarrow> is_auth req \<Longrightarrow> \<not> s_Verified sess \<Longrightarrow>
     s_ClientID sess = sr_ClientID req \<Longrightarrow> s_Context sess = sr_Context req \<Longrightarrow>
     s_ExpiresAt sess = re_new env + session_ttl (d_sessionTTL d) n \<Longrightarrow>
     session_change L d env req s ss (AList.update (s_ID sess) sess ss)"
| refused: "is_auth req \<Longrightarrow> session_Get (re_get env) (sr_TFASessionID req) ss = Some sess \<Longrightarrow>
     session_change L d env req s ss (session_Delete (sr_TFASessionID req) ss)"
| proven: "session_Get (re_get env) (sr_TFASessionID req) ss = Some sess \<Longrightarrow> opaque_proof L d req sess \<Longrightarrow>
     session_change L d env req s ss (AList.update (sr_TFASessionID req) (sess\<lparr>s_Verified := True\<rparr>) ss)"
| asserted: "map_of ss (s_ID sess) = None \<Longrightarrow> s_Verified sess \<Longrightarrow>
     s_ClientID sess = sr_ClientID req \<Longrightarrow> s_Context sess = sr_Context req \<Longrightarrow>
     s_ExpiresAt sess = re_new env + d_sessionTTL d \<Longrightarrow> fido2_proof L d env req s (s_Task sess) \<Longrightarrow>
     session_change L d env req s ss (AList.update (s_ID sess) sess ss)"

lemma session_Create_cases:
  "session_Create sess ss = (r, ss') \<Longrightarrow>
     (r = None \<and> map_of ss (s_ID sess) = None \<and> ss' = AList.update (s_ID sess) sess ss) \<or> (r \<noteq> None \<and> ss' = ss)"
  by (auto simp: session_Create_def split: option.splits)

lemma session_Get_map: "session_Get now sid ss = Some sess \<Longrightarrow> map_of ss sid = Some sess"
  by (auto simp: session_Get_def split: option.splits if_splits)

lemma MarkVerified_present:
  "map_of ss sid = Some sess \<Longrightarrow> session_MarkVerified sid ss = (None, AList.update sid (sess\<lparr>s_Verified := True\<rparr>) ss)"
  by (simp add: session_MarkVerified_def)

lemma created_opened:
  assumes "session_Create sess ss = (r, ss')" and "is_auth req" and "\<not> s_Verified sess"
    and "s_ClientID sess = sr_ClientID req" and "s_Context sess = sr_Context req"
    and "s_ExpiresAt sess = re_new env + session_ttl (d_sessionTTL d) n"
  shows "session_change L d env req s ss ss'"
proof (cases r)
  case None
  with session_Create_cases [OF assms(1)] have "map_of ss (s_ID sess) = None" and u: "ss' = AList.update (s_ID sess) sess ss"
    by auto
  then show ?thesis unfolding u by (intro session_change.opened) (use assms in auto)
next
  case (Some e)
  with session_Create_cases [OF assms(1)] show ?thesis by (simp add: session_change.same)
qed

lemma created_asserted:
  assumes "session_Create sess ss = (r, ss')" and "s_Verified sess"
    and "s_ClientID sess = sr_ClientID req" and "s_Context sess = sr_Context req"
    and "s_ExpiresAt sess = re_new env + d_sessionTTL d" and "fido2_proof L d env req s (s_Task sess)"
  shows "session_change L d env req s ss ss'"
proof (cases r)
  case None
  with session_Create_cases [OF assms(1)] have "map_of ss (s_ID sess) = None" and u: "ss' = AList.update (s_ID sess) sess ss"
    by auto
  then show ?thesis unfolding u by (intro session_change.asserted) (use assms in auto)
next
  case (Some e)
  with session_Create_cases [OF assms(1)] show ?thesis by (simp add: session_change.same)
qed

lemma authEvaluate_session_change:
  assumes "is_auth req"
  shows "session_change L d env req s (ds_sessions st) (ds_sessions (snd (authEvaluate L d env req tfaReq b st)))"
  using assms
  by (auto simp: authEvaluate_def fail_def signResponse_def Let_def
      split: res.split prod.split option.split intro: session_change.same created_opened)

lemma authFinalize_session_change:
  assumes "is_auth req" and "Unmarshal_TFARequestData (sr_Data req) = Some tfaReq"
    and "tfa_GetProtocol tfaReq = TFAModeOPAQUE" and "tfa_State tfaReq = StateFinalize"
    and "URLEncoding_Decode (tfa_GetPData tfaReq) = Some b"
  shows "session_change L d env req s (ds_sessions st) (ds_sessions (snd (authFinalize L d env req b st)))"
proof (cases "session_Get (re_get env) (sr_TFASessionID req) (ds_sessions st)")
  case None
  then show ?thesis by (simp add: authFinalize_def fail_def session_change.same)
next
  case (Some sess)
  then have m: "map_of (ds_sessions st) (sr_TFASessionID req) = Some sess" by (rule session_Get_map)
  have "opaque_proof L d req sess" if "AuthFinalize (lib_opaque L) (d_opaque d) b (s_ClientMAC sess) = Ok u" for u
    using assms that by (auto simp: opaque_proof_def)
  then show ?thesis
    using Some assms(1) MarkVerified_present [OF m]
    by (cases "AuthFinalize (lib_opaque L) (d_opaque d) b (s_ClientMAC sess)")
      (auto simp: authFinalize_def fail_def signResponse_def Let_def
        intro: session_change.refused session_change.proven session_change.same)
qed

lemma finalize_request_binds:
  assumes "finalize_request L f env req tfaReq = Ok fi"
  shows "ct_ClientID (fi_Token fi) = sr_ClientID req \<and> ct_Context (fi_Token fi) = sr_Context req"
proof -
  from assms obtain fr tb where t: "(case token_Decrypt (lib_gcm L) (re_token env) (fc_TokenEncryptor f) tb of
      Err e \<Rightarrow> Err (r2ps_err ErrUnauthorized ''invalid or expired token'')
    | Panic \<Rightarrow> Panic
    | Ok token \<Rightarrow>
        if ct_ClientID token \<noteq> sr_ClientID req \<or> ct_Context token \<noteq> sr_Context req
        then Err (r2ps_err ErrAccessDenied ''token binding mismatch'')
        else
          (let a = fr_Assertion fr in
           res_bind (decode_field ''invalid credential_id encoding'' (af_CredentialID a)) (\<lambda>credID.
           res_bind (decode_field ''invalid authenticator_data encoding'' (af_AuthenticatorData a)) (\<lambda>authDataBytes.
           res_bind (decode_field ''invalid client_data encoding'' (af_ClientData a)) (\<lambda>clientDataJSON.
           res_bind (decode_field ''invalid signature encoding'' (af_Signature a)) (\<lambda>signature.
             Ok \<lparr>fi_Req = fr, fi_Token = token,
                 fi_Assertion = \<lparr>as_CredentialID = credID, as_AuthenticatorData = authDataBytes,
                    as_ClientDataJSON = clientDataJSON, as_Signature = signature\<rparr>\<rparr>)))))) = Ok fi"
    by (simp only: finalize_request_def res_bind_Ok_iff) blast
  then show ?thesis
    by (cases "token_Decrypt (lib_gcm L) (re_token env) (fc_TokenEncryptor f) tb")
      (auto simp: res_bind_Ok_iff Let_def split: if_splits)
qed

lemma fido2_verify_Ok:
  assumes "fido2_verify L f env req fi st = (Ok u, st')"
  shows "assertion_accepted L f req fi (w_store (ds_world st))"
  using assms
  by (auto simp: fido2_verify_def assertion_accepted_def Let_def find_Some_iff
      split: res.splits if_splits option.splits prod.splits) (metis nth_mem)+

lemma fido2AuthFinalize_session_change:
  assumes "is_auth req" and "Unmarshal_TFARequestData (sr_Data req) = Some tfaReq"
    and "tfa_GetProtocol tfaReq = TFAModeFIDO2" and "tfa_State tfaReq = StateFinalize" and "d_fido2 d = Some f"
  shows "session_change L d env req (w_store (ds_world st)) (ds_sessions st)
           (ds_sessions (snd (fido2AuthFinalize L d f env req tfaReq st)))"
proof (cases "finalize_request L f env req tfaReq")
  case (Ok fi)
  obtain r st1 where v: "fido2_verify L f env req fi st = (r, st1)" by force
  then have s1: "ds_sessions st1 = ds_sessions st" using fido2_verify_sessions [of L f env req fi st] by simp
  show ?thesis
  proof (cases r)
    case r: (Ok u)
    have p: "fido2_proof L d env req (w_store (ds_world st)) (fr_Task (fi_Req fi))"
      using assms Ok finalize_request_binds [OF Ok] fido2_verify_Ok [OF v [unfolded r]]
      by (auto simp: fido2_proof_def)
    show ?thesis
      using Ok v r s1 p
      by (auto simp: fido2AuthFinalize_def fido2_open_session_def fail_def signResponse_def Let_def
          split: res.split prod.split option.split intro: session_change.same created_asserted)
  qed (use Ok v s1 in \<open>simp_all add: fido2AuthFinalize_def session_change.same\<close>)
qed (simp_all add: fido2AuthFinalize_def session_change.same)

lemma sessions_same: "ds_sessions (snd x) = ss \<Longrightarrow> session_change L d env req s ss (ds_sessions (snd x))"
  by (simp add: session_change.same)

lemma handleFIDO2_session_change:
  assumes "Unmarshal_TFARequestData (sr_Data req) = Some tfaReq" and "tfa_GetProtocol tfaReq = TFAModeFIDO2"
  shows "session_change L d env req (w_store (ds_world st)) (ds_sessions st)
           (ds_sessions (snd (handleFIDO2 L d env req tfaReq st)))"
proof (cases "d_fido2 d")
  case (Some f)
  then show ?thesis
    using fido2AuthFinalize_session_change [OF _ assms _ Some, of L env st]
    by (simp add: handleFIDO2_def fido2RegChallenge_def fido2_challenge_state fido2RegRegister_sessions
        fido2AuthChallenge_sessions fail_def session_change.same)
qed (simp add: handleFIDO2_def fail_def session_change.same)

lemma handle2FA_session_change:
  "session_change L d env req (w_store (ds_world st)) (ds_sessions st) (ds_sessions (snd (handle2FA L d env req st)))"
proof (cases "Unmarshal_TFARequestData (sr_Data req)")
  case (Some tfaReq)
  show ?thesis
  proof (cases "tfa_GetProtocol tfaReq = TFAModeFIDO2")
    case True
    with Some handleFIDO2_session_change show ?thesis by (simp add: handle2FA_def)
  next
    case False
    show ?thesis
    proof (cases "tfa_GetProtocol tfaReq = TFAModeOPAQUE")
      case opaque: True
      show ?thesis
      proof (cases "URLEncoding_Decode (tfa_GetPData tfaReq)")
        case dec: (Some b)
        show ?thesis
          using Some False opaque dec authFinalize_session_change [OF _ Some opaque _ dec, of L d env "w_store (ds_world st)" st]
            authEvaluate_session_change [of req L d env "w_store (ds_world st)" st tfaReq b]
          by (simp add: handle2FA_def regEvaluate_state regFinalize_sessions fail_def session_change.same)
      qed (use Some False opaque in \<open>simp add: handle2FA_def fail_def session_change.same\<close>)
    qed (use Some False in \<open>simp add: handle2FA_def fail_def session_change.same\<close>)
  qed
qed (simp add: handle2FA_def fail_def session_change.same)

lemma route_session_change:
  "session_change L d env req (w_store (ds_world st)) (ds_sessions st) (ds_sessions (snd (route L d env req st)))"
proof -
  have "session_change L d env req (w_store (ds_world st)) (ds_sessions st) (ds_sessions (snd (handle2FAChange L d env req st)))"
    using handle2FA_session_change [of L d env req st]
    by (simp add: handle2FAChange_def session_change.same split: res.split)
  then show ?thesis
    using handle2FA_session_change [of L d env req st] handleService_sessions [of L d env req st]
    by (simp add: route_def session_change.same)
qed

section \<open>Runs of the dispatcher\<close>

datatype dispatcher_event = Ev_request req_env string | Ev_cleanup instant

inductive dispatcher_step ::
  "'m libs \<Rightarrow> ('h, 's, 'm) Dispatcher \<Rightarrow> ('h, 's, 'm) dstate \<Rightarrow> dispatcher_event \<Rightarrow> ('h, 's, 'm) dstate \<Rightarrow> bool"
  for L d
where
  request: "Process L d env body st = (r, st') \<Longrightarrow> dispatcher_step L d st (Ev_request env body) st'"
| cleanup: "dispatcher_step L d st (Ev_cleanup now) (cleanup_tick now st)"

inductive_simps request_step [simp]: "dispatcher_step L d st (Ev_request env body) st'"
inductive_simps cleanup_step [simp]: "dispatcher_step L d st (Ev_cleanup now) st'"

text \<open>A run records the state before each event.\<close>

inductive dispatcher_run ::
  "'m libs \<Rightarrow> ('h, 's, 'm) Dispatcher \<Rightarrow> ('h, 's, 'm) dstate
   \<Rightarrow> (('h, 's, 'm) dstate \<times> dispatcher_event) list \<Rightarrow> ('h, 's, 'm) dstate \<Rightarrow> bool"
  for L d st0
where
  start: "dispatcher_run L d st0 [] st0"
| event: "dispatcher_run L d st0 tr st \<Longrightarrow> dispatcher_step L d st e st' \<Longrightarrow> dispatcher_run L d st0 (tr @ [(st, e)]) st'"

text \<open>Every step is one of the abstract changes, or the clean-up.\<close>

lemma step_sessions:
  assumes "dispatcher_step L d st e st'"
  shows "(\<exists>env body req. e = Ev_request env body \<and> accept_request L d env body = Ok req
        \<and> session_change L d env req (w_store (ds_world st)) (ds_sessions st) (ds_sessions st'))
     \<or> (\<exists>now. e = Ev_cleanup now \<and> ds_sessions st' = snd (session_CleanExpired now (ds_sessions st)))
     \<or> ds_sessions st' = ds_sessions st"
  using assms
proof cases
  case (request env body r)
  then show ?thesis
    using route_session_change [of L d env _ st]
    by (cases "accept_request L d env body") (auto simp: Process_def, metis snd_conv)
next
  case (cleanup now)
  then show ?thesis by (auto simp: cleanup_tick_def Let_def split: prod.splits)
qed

text \<open>The step shows that the second factor behind the session was proven: a KE3 message accepted for
  this very session, or an assertion accepted for the client, context and task of the session.\<close>

definition proves_session ::
  "'m libs \<Rightarrow> ('h, 's, 'm) Dispatcher \<Rightarrow> ('h, 's, 'm) dstate \<times> dispatcher_event \<Rightarrow> Session \<Rightarrow> bool"
where
  "proves_session L d p sess \<longleftrightarrow>
     (\<exists>st env body req. p = (st, Ev_request env body) \<and> accept_request L d env body = Ok req
        \<and> ((sr_TFASessionID req = s_ID sess \<and> opaque_proof L d req sess)
           \<or> (sr_ClientID req = s_ClientID sess \<and> sr_Context req = s_Context sess
              \<and> fido2_proof L d env req (w_store (ds_world st)) (s_Task sess))))"

text \<open>The step opened the session for the client and context of an accepted authentication request.\<close>

definition opens_session ::
  "'m libs \<Rightarrow> ('h, 's, 'm) Dispatcher \<Rightarrow> ('h, 's, 'm) dstate \<times> dispatcher_event \<Rightarrow> Session \<Rightarrow> bool"
where
  "opens_session L d p sess \<longleftrightarrow>
     (\<exists>st env body req. p = (st, Ev_request env body) \<and> accept_request L d env body = Ok req \<and> is_auth req
        \<and> sr_ClientID req = s_ClientID sess \<and> sr_Context req = s_Context sess
        \<and> s_ExpiresAt sess \<le> re_new env + d_sessionTTL d)"

lemma session_ttl_le: "session_ttl m n \<le> m"
  by (simp add: session_ttl_def Let_def)

lemma wf_sessions_change: "session_change L d env req s ss ss' \<Longrightarrow> wf_sessions ss \<Longrightarrow> wf_sessions ss'"
  by (induction rule: session_change.induct)
    (auto intro!: wf_sessions_update wf_sessions_Delete dest: session_Get_map simp: wf_sessions_ID)

lemma wf_sessions_step: "dispatcher_step L d st e st' \<Longrightarrow> wf_sessions (ds_sessions st) \<Longrightarrow> wf_sessions (ds_sessions st')"
  by (drule step_sessions) (auto intro: wf_sessions_change wf_sessions_CleanExpired)

text \<open>What a session found after a step was before it.\<close>

lemma step_session_cases:
  assumes "dispatcher_step L d st e st'" and "wf_sessions (ds_sessions st)"
    and "map_of (ds_sessions st') sid = Some sess"
  shows "map_of (ds_sessions st) sid = Some sess
     \<or> (opens_session L d (st, e) sess \<and> (s_Verified sess \<longrightarrow> proves_session L d (st, e) sess))
     \<or> (\<exists>s0. map_of (ds_sessions st) sid = Some s0 \<and> sess = s0\<lparr>s_Verified := True\<rparr> \<and> proves_session L d (st, e) sess)"
  using step_sessions [OF assms(1)]
proof (elim disjE exE conjE)
  fix env body req
  assume e: "e = Ev_request env body" and a: "accept_request L d env body = Ok req"
    and c: "session_change L d env req (w_store (ds_world st)) (ds_sessions st) (ds_sessions st')"
  from c show ?thesis
  proof cases
    case (opened s0 n)
    then show ?thesis using assms(3) e a session_ttl_le [of "d_sessionTTL d" n]
      by (auto simp: update_conv' opens_session_def split: if_splits)
  next
    case (proven s0)
    have "s_ID s0 = sr_TFASessionID req"
      using wf_sessions_ID [OF assms(2) session_Get_map [OF proven(2)]] .
    moreover have "opaque_proof L d req (s0\<lparr>s_Verified := True\<rparr>)" using proven(3) by (simp add: opaque_proof_def)
    ultimately show ?thesis
      using assms(3) e a proven session_Get_map [OF proven(2)]
      by (auto simp: update_conv' proves_session_def split: if_splits)
  next
    case (asserted s0)
    moreover have "is_auth req" using asserted(7) by (simp add: fido2_proof_def)
    ultimately show ?thesis using assms(3) e a
      by (auto simp: update_conv' opens_session_def proves_session_def split: if_splits)
  qed (use assms(3) in \<open>auto simp: map_of_Delete split: if_splits\<close>)
next
  fix now
  assume "ds_sessions st' = snd (session_CleanExpired now (ds_sessions st))"
  then show ?thesis using assms(2,3) by (auto simp: map_of_CleanExpired split: option.splits if_splits)
qed (use assms(3) in simp)

lemma run_wf: "dispatcher_run L d st0 tr st \<Longrightarrow> wf_sessions (ds_sessions st0) \<Longrightarrow> wf_sessions (ds_sessions st)"
  by (induction rule: dispatcher_run.induct) (auto intro: wf_sessions_step)

lemma run_sessions:
  assumes "dispatcher_run L d st0 tr st" and "ds_sessions st0 = NewSessionStore"
    and "map_of (ds_sessions st) sid = Some sess"
  shows "(\<exists>p \<in> set tr. opens_session L d p sess) \<and> (s_Verified sess \<longrightarrow> (\<exists>p \<in> set tr. proves_session L d p sess))"
  using assms
proof (induction arbitrary: sess rule: dispatcher_run.induct)
  case start
  then show ?case by (simp add: NewSessionStore_def)
next
  case (event tr st e st')
  have "wf_sessions (ds_sessions st)" using run_wf [OF event.hyps(1)] event.prems(1) by simp
  from step_session_cases [OF event.hyps(2) this event.prems(2)] event.IH [OF event.prems(1)]
  show ?case
    by (auto simp: opens_session_def intro: rev_bexI)
qed

section \<open>Authorisation of service requests\<close>

lemma require_session_Ok_iff:
  "require_session env req ss = Ok sess \<longleftrightarrow>
     session_Get (re_get env) (sr_TFASessionID req) ss = Some sess \<and> s_Verified sess \<and> s_Context sess = sr_Context req"
  by (auto simp: require_session_def split: option.splits)

lemma require_session_no_panic: "require_session env req ss \<noteq> Panic"
  by (auto simp: require_session_def split: option.splits)

lemma sad_check_Ok_iff:
  "sad_check sha req sess = Ok () \<longleftrightarrow>
     (sr_Type req = TypeSignECDSA \<and> s_Task sess \<noteq> [] \<longrightarrow>
        (\<forall>sreq h. Unmarshal_ECDSASignRequest (sr_Data req) = Some sreq \<and> decodeBase64 (sig_TbsHash sreq) = Some h
           \<longrightarrow> ValidateSAD sha (s_Task sess) h = Ok ()))"
  by (auto simp: sad_check_def split: option.splits)

text \<open>What a service request behind the second factor needs.\<close>

definition authorized ::
  "'m libs \<Rightarrow> req_env \<Rightarrow> ServiceRequest \<Rightarrow> SessionStore \<Rightarrow> Session \<Rightarrow> bool"
where
  "authorized L env req ss sess \<longleftrightarrow>
     session_Get (re_get env) (sr_TFASessionID req) ss = Some sess \<and> s_Verified sess \<and> s_Context sess = sr_Context req
     \<and> (sr_Type req = TypeSignECDSA \<and> s_Task sess \<noteq> [] \<longrightarrow>
        (\<forall>sreq h. Unmarshal_ECDSASignRequest (sr_Data req) = Some sreq \<and> decodeBase64 (sig_TbsHash sreq) = Some h
           \<longrightarrow> ValidateSAD (wp_sha256 (lib_wa L)) (s_Task sess) h = Ok ()))"

lemma authorize_Ok_iff:
  "authorize L env h req ss = Ok u \<longleftrightarrow> h_Mode h = Mode1FA \<or> (\<exists>sess. authorized L env req ss sess)"
  unfolding authorized_def
  by (cases u) (auto simp: authorize_def res_bind_Ok_iff require_session_Ok_iff sad_check_Ok_iff)

lemma service_gate:
  assumes "d_handlers d (sr_Type req) = Some h" and "h_Mode h \<noteq> Mode1FA"
    and "handleService L d env req st = (r, st')" and "(\<exists>resp. r = Ok resp) \<or> st' \<noteq> st"
  shows "\<exists>sess. authorized L env req (ds_sessions st) sess"
proof (cases "authorize L env h req (ds_sessions st)")
  case (Ok u)
  with assms(2) show ?thesis using authorize_Ok_iff by fastforce
qed (use assms in \<open>auto simp: handleService_def\<close>)

lemma route_service:
  "d_handlers d (sr_Type req) = Some h \<Longrightarrow>
   sr_Type req \<notin> {Type2FARegistration, Type2FAAuthenticate, TypeCreateSession, Type2FAChange, Type2FAUpdate} \<Longrightarrow>
   route L d env req st = handleService L d env req st"
  by (simp add: route_def)

section \<open>A run of the demonstration server\<close>

definition demo_trace :: "((unit, MemoryStore, bytes) dstate \<times> dispatcher_event) list" where
  "demo_trace =
     [(demo_state, Ev_request demo_env (demo_body (demo_login StateEvaluate [] [1]))),
      (demo_st1, Ev_request demo_env (demo_body (demo_login StateFinalize demo_sid [9])))]"

lemma demo_run: "dispatcher_run demo_libs demo_dispatcher demo_state demo_trace demo_st2"
proof -
  have 1: "dispatcher_step demo_libs demo_dispatcher demo_state
      (Ev_request demo_env (demo_body (demo_login StateEvaluate [] [1]))) demo_st1"
    using demo_login_accepted [of StateEvaluate "[]" "[1]"] by (simp add: Process_def demo_st1_def) (metis prod.collapse)
  have 2: "dispatcher_step demo_libs demo_dispatcher demo_st1
      (Ev_request demo_env (demo_body (demo_login StateFinalize demo_sid [9]))) demo_st2"
    using demo_login_accepted [of StateFinalize demo_sid "[9]"] demo_sid_utf8
    by (simp add: Process_def demo_st2_def) (metis prod.collapse)
  from dispatcher_run.event [OF dispatcher_run.event [OF dispatcher_run.start 1] 2]
  show ?thesis by (simp add: demo_trace_def)
qed

lemma demo_start: "ds_sessions demo_state = NewSessionStore"
  by (simp add: demo_state_def)

lemma demo_session_found:
  "session_Get 0 demo_sid (ds_sessions demo_st2) = Some (demo_session\<lparr>s_Verified := True\<rparr>)"
  by (simp add: demo_st2_sessions session_Get_def session_expired_def demo_session_def new_session_def demo_env_def
      demo_tfa_def zero_TFARequestData_def session_ttl_def Second_def)

definition demo_sign :: ServiceRequest where
  "demo_sign = demo_req TypeSignECDSA demo_sid (sign_request ''k1'' (replicate 32 7))"

lemma demo_sign_accepted:
  "accept_request demo_libs demo_dispatcher demo_env (demo_body demo_sign) = Ok demo_sign"
proof (rule demo_body_accepted)
  have k: "utf8_valid ''k1''" by (simp add: utf8_valid_ascii)
  show "encodes 1 (sr_Data demo_sign) (JObj (sign_members ''k1'' (replicate 32 7)))"
    using enc_object [OF sign_members_ok [OF k]] by (simp add: demo_sign_def demo_req_def sign_request_members)
  show "request_ok demo_sign" "well_formed_request demo_dispatcher demo_env demo_sign"
    using demo_req_sendable [of TypeSignECDSA demo_sid] demo_sid_utf8
    by (simp_all add: demo_sign_def TypeSignECDSA_def utf8_valid_ascii)
qed simp

section \<open>Properties\<close>

text \<open>C3: Only a proof of the second factor verifies a session. In every state a server reaches from an
  empty session store, through any sequence of requests and clean-ups, a session that is verified was
  proven in one of the recorded steps: an accepted request of that step carried a KE3 message the
  OPAQUE library accepts for this very session, or a WebAuthn assertion that a credential registered
  for the session's client and context verifies, made for the session's task.\<close>

theorem verified_session_was_proven:
  assumes "dispatcher_run L d st0 tr st" and "ds_sessions st0 = NewSessionStore"
    and "session_Get now sid (ds_sessions st) = Some sess" and "s_Verified sess"
  shows "\<exists>p \<in> set tr. proves_session L d p sess"
  using run_sessions [OF assms(1,2) session_Get_map [OF assms(3)]] assms(4) by blast

theorem verified_session_was_proven_witness:
  "\<exists>p \<in> set demo_trace. proves_session demo_libs demo_dispatcher p (demo_session\<lparr>s_Verified := True\<rparr>)"
  using verified_session_was_proven [OF demo_run demo_start demo_session_found] by simp

text \<open>C21: The lifetime of sessions. Every session of a reachable state was opened by an accepted
  authentication request of its own client and context and expires at most the configured lifetime
  after that request, whatever duration the client asked for, even one whose 64-bit product wraps
  around. A duration in range is honoured up to the configured lifetime.\<close>

theorem session_lifetime_bounded:
  assumes "dispatcher_run L d st0 tr st" and "ds_sessions st0 = NewSessionStore"
    and "map_of (ds_sessions st) sid = Some sess"
  shows "(\<exists>st1 env body req. (st1, Ev_request env body) \<in> set tr \<and> accept_request L d env body = Ok req
        \<and> is_auth req \<and> sr_ClientID req = s_ClientID sess \<and> sr_Context req = s_Context sess
        \<and> s_ExpiresAt sess \<le> re_new env + d_sessionTTL d)
     \<and> (0 < n \<and> n * Second \<le> max_int64 \<longrightarrow> session_ttl m n = min m (n * Second))"
proof -
  have "wrap64 (n * Second) = n * Second" if "0 < n" "n * Second \<le> max_int64"
    using that by (intro wrap64_id) (simp_all add: min_int64_def Second_def)
  then have "0 < n \<and> n * Second \<le> max_int64 \<longrightarrow> session_ttl m n = min m (n * Second)"
    by (auto simp: session_ttl_def dur_mul_def Let_def)
  moreover obtain p where "p \<in> set tr" "opens_session L d p sess"
    using run_sessions [OF assms] by blast
  ultimately show ?thesis by (auto simp: opens_session_def)
qed

theorem session_lifetime_bounded_witness:
  "session_ttl (300 * Second) 60 = 60 * Second
   \<and> (\<exists>st1 env body. (st1, Ev_request env body) \<in> set demo_trace
        \<and> s_ExpiresAt demo_session \<le> re_new env + d_sessionTTL demo_dispatcher)"
proof -
  have "map_of (ds_sessions demo_st2) demo_sid = Some (demo_session\<lparr>s_Verified := True\<rparr>)"
    by (simp add: demo_st2_sessions)
  from session_lifetime_bounded [OF demo_run demo_start this, of 60 "300 * Second"] show ?thesis
    by (auto simp: Second_def max_int64_def)
qed

text \<open>C1: The second factor guards every service that asks for it. When a server in a reachable state
  answers a request for a service whose handler is not 1FA, or the request changes anything behind the
  dispatcher, then the request names a session that is unexpired, verified, of the same context, was
  proven in an earlier step, and, for a signature under a signing task, whose task authorises the
  hash.\<close>

theorem service_behind_second_factor:
  assumes "dispatcher_run L d st0 tr st" and "ds_sessions st0 = NewSessionStore"
    and "accept_request L d env body = Ok req" and "Process L d env body st = (r, st')"
    and "d_handlers d (sr_Type req) = Some h" and "h_Mode h \<noteq> Mode1FA"
    and "sr_Type req \<notin> {Type2FARegistration, Type2FAAuthenticate, TypeCreateSession, Type2FAChange, Type2FAUpdate}"
    and "(\<exists>resp. r = Ok resp) \<or> st' \<noteq> st"
  shows "\<exists>sess. authorized L env req (ds_sessions st) sess \<and> (\<exists>p \<in> set tr. proves_session L d p sess)"
proof -
  have "handleService L d env req st = (r, st')"
    using assms(3,4) route_service [OF assms(5,7), of L env st] by (simp add: Process_def)
  from service_gate [OF assms(5,6) this assms(8)] obtain sess where s: "authorized L env req (ds_sessions st) sess" by blast
  then have "map_of (ds_sessions st) (sr_TFASessionID req) = Some sess" "s_Verified sess"
    by (auto simp: authorized_def dest: session_Get_map)
  with run_sessions [OF assms(1,2)] s show ?thesis by blast
qed

theorem service_behind_second_factor_witness:
  "\<exists>sess. authorized demo_libs demo_env demo_sign (ds_sessions demo_st2) sess
     \<and> (\<exists>p \<in> set demo_trace. proves_session demo_libs demo_dispatcher p sess)"
proof -
  have h: "d_handlers demo_dispatcher (sr_Type demo_sign) = Some (ECDSAHandler toy_backend)"
    "h_Mode (ECDSAHandler toy_backend :: (unit, MemoryStore) world Handler) \<noteq> Mode1FA"
    "sr_Type demo_sign \<notin> {Type2FARegistration, Type2FAAuthenticate, TypeCreateSession, Type2FAChange, Type2FAUpdate}"
    by (simp_all add: demo_dispatcher_def demo_sign_def demo_req_def ECDSAHandler_def Mode1FA_def Mode2FA_def r2ps_type_defs)
  have auth: "authorized demo_libs demo_env demo_sign (ds_sessions demo_st2) (demo_session\<lparr>s_Verified := True\<rparr>)"
    using demo_session_found
    by (simp add: authorized_def demo_sign_def demo_req_def demo_env_def demo_session_def new_session_def demo_login_def)
  obtain r st' where p: "Process demo_libs demo_dispatcher demo_env (demo_body demo_sign) demo_st2 = (r, st')" by force
  have "ecdsa_check (sr_Data demo_sign) = Ok (''k1'', replicate 32 7)"
    unfolding demo_sign_def demo_req_def using ecdsa_check_sign_request [of "''k1''" "replicate 32 7"]
    by (simp add: validKid_def kid_char_def)
  then have hh: "h_Handle (ECDSAHandler toy_backend) t c (sr_Data demo_sign) w =
      (Ok (bytes_str (replicate 32 7)), inc_metric ''hsm_operations_total'' [''sign'', ''success''] (w\<lparr>w_hsm := ()\<rparr>))"
    for t c and w :: "(unit, MemoryStore) world"
    by (simp add: ECDSAHandler_def ECDSAHandler_Handle_def toy_backend_def)
  have az: "authorize demo_libs demo_env (ECDSAHandler toy_backend :: (unit, MemoryStore) world Handler)
      demo_sign (ds_sessions demo_st2) = Ok ()"
    using auth authorize_Ok_iff by blast
  have "Process demo_libs demo_dispatcher demo_env (demo_body demo_sign) demo_st2 =
      handleService demo_libs demo_dispatcher demo_env demo_sign demo_st2"
    using demo_sign_accepted route_service [OF h(1,3), of demo_libs demo_env demo_st2] by (simp add: Process_def)
  then have "st' = demo_st2\<lparr>ds_world := inc_metric ''hsm_operations_total'' [''sign'', ''success''] ((ds_world demo_st2)\<lparr>w_hsm := ()\<rparr>)\<rparr>"
    using p by (simp add: handleService_def h(1) az hh)
  then have "w_metrics (ds_world st') \<noteq> w_metrics (ds_world demo_st2)" by (simp add: inc_metric_def)
  then have "st' \<noteq> demo_st2" by auto
  with service_behind_second_factor [OF demo_run demo_start demo_sign_accepted p h] show ?thesis by blast
qed

end
