(* ===== verification/Dispatcher_Policies.thy ===== *)
theory Dispatcher_Policies
  imports Dispatcher_Safety
begin

text \<open>
  Policies of the dispatcher: registration and the record stores, the treatment of unknown and of
  locked clients, the change of the second factor, and signatures under a signing task. The locale
  \<open>record_store\<close> is the contract of the \<^verbatim>\<open>RecordStore\<close> interface the OPAQUE flows rely on. The
  in-memory record store provides it, and so does the adapter the server runs with, over the in-memory
  lifecycle store (\<open>memstore\<close>, for records the OPAQUE library can serialise) and over MongoDB (in
  \<open>Mongo_Records\<close>).
\<close>

section \<open>The contract of a record store\<close>

abbreviation (input) opaque_record :: "string \<Rightarrow> string \<Rightarrow> 'm \<Rightarrow> 'm ClientRecord" where
  "opaque_record c x r \<equiv>
     \<lparr>rec_RegistrationRecord = r, rec_CredentialIdentifier = cred_id x c, rec_ClientIdentity = []\<rparr>"

lemma regFinalize_records:
  assumes "ol_GetRegistrationRecord (lib_opaque L) b = Some r"
    and "rs_PutRecord (d_records d) (sr_ClientID req) (sr_Context req)
       (opaque_record (sr_ClientID req) (sr_Context req) r) (rec_view st) = (Ok (), v)"
  shows "rec_view (snd (regFinalize L d env req b st)) = v"
  using assms
  by (cases v) (simp add: regFinalize_def DeserializeRegistrationRecord_def signResponse_def set_rec_view_def rec_view_def Let_def)

text \<open>A store that is \<open>ready\<close> keeps the \<open>storable\<close> records, and storing the record of a client and context
  leaves alone the record of every other pair that is \<open>apart\<close> from it.\<close>

locale record_store =
  fixes ops :: "('s, 'm) record_ops"
    and ready :: "('s, 'm) rec_state \<Rightarrow> bool"
    and storable :: "string \<Rightarrow> string \<Rightarrow> 'm ClientRecord \<Rightarrow> bool"
    and apart :: "string \<Rightarrow> string \<Rightarrow> string \<Rightarrow> string \<Rightarrow> bool"
  assumes put_get: "ready s \<Longrightarrow> storable c x r \<Longrightarrow>
      \<exists>s'. rs_PutRecord ops c x r s = (Ok (), s') \<and> ready s' \<and> rs_GetRecord ops c x s' = Ok r"
    and get_other: "ready s \<Longrightarrow> apart c x c' x' \<Longrightarrow> rs_PutRecord ops c x r s = (Ok (), s') \<Longrightarrow>
      rs_GetRecord ops c' x' s' = rs_GetRecord ops c' x' s"
begin

text \<open>After any registrations of others, the record of a client is the one it registered.\<close>

lemma get_after_puts:
  assumes "ready s" and "storable c x r" and "\<forall>(c', x', r') \<in> set ps. storable c' x' r' \<and> apart c' x' c x"
  shows "rs_GetRecord ops c x
     (fold (\<lambda>(c', x', r') s. snd (rs_PutRecord ops c' x' r' s)) ps (snd (rs_PutRecord ops c x r s))) = Ok r"
proof -
  have "rs_GetRecord ops c x (fold (\<lambda>(c', x', r') s. snd (rs_PutRecord ops c' x' r' s)) ps s0) = rs_GetRecord ops c x s0"
    if "ready s0" for s0
    using assms(3) that
  proof (induction ps arbitrary: s0)
    case (Cons p ps)
    obtain c' x' r' where p: "p = (c', x', r')" by (cases p)
    then have a: "storable c' x' r'" "apart c' x' c x" using Cons.prems(1) by simp_all
    obtain s1 where s1: "rs_PutRecord ops c' x' r' s0 = (Ok (), s1)" "ready s1"
      using put_get [OF Cons.prems(2) a(1)] by blast
    from get_other [OF Cons.prems(2) a(2) s1(1)] Cons.IH [OF _ s1(2)] Cons.prems(1) s1(1) show ?case by (simp add: p)
  qed simp
  with put_get [OF assms(1,2)] show ?thesis by force
qed

text \<open>A registration request stores the record it carries.\<close>

lemma registration_stored:
  fixes st :: "('h, 's, 'm) dstate"
  assumes "d_records d = ops" and "ready (rec_view st)"
    and "sr_Type req = Type2FARegistration" and "Unmarshal_TFARequestData (sr_Data req) = Some tfa"
    and "tfa_phase tfa StateFinalize b" and "ol_GetRegistrationRecord (lib_opaque L) b = Some r"
    and "storable (sr_ClientID req) (sr_Context req) (opaque_record (sr_ClientID req) (sr_Context req) r)"
  shows "rs_GetRecord ops (sr_ClientID req) (sr_Context req) (rec_view (snd (route L d env req st))) =
      Ok (opaque_record (sr_ClientID req) (sr_Context req) r)"
    and "apart (sr_ClientID req) (sr_Context req) c x \<Longrightarrow>
      rs_GetRecord ops c x (rec_view (snd (route L d env req st))) = rs_GetRecord ops c x (rec_view st)"
proof -
  obtain v where v: "rs_PutRecord ops (sr_ClientID req) (sr_Context req)
      (opaque_record (sr_ClientID req) (sr_Context req) r) (rec_view st) = (Ok (), v)"
    "rs_GetRecord ops (sr_ClientID req) (sr_Context req) v = Ok (opaque_record (sr_ClientID req) (sr_Context req) r)"
    using put_get [OF assms(2,7)] by blast
  have "rec_view (snd (route L d env req st)) = v"
    using regFinalize_records [OF assms(6), of d req st v env] v(1) route_register [OF assms(3-5), of L d env st]
    by (simp add: assms(1))
  with v get_other [OF assms(2) _ v(1)]
  show "rs_GetRecord ops (sr_ClientID req) (sr_Context req) (rec_view (snd (route L d env req st))) =
      Ok (opaque_record (sr_ClientID req) (sr_Context req) r)"
    and "apart (sr_ClientID req) (sr_Context req) c x \<Longrightarrow>
      rs_GetRecord ops c x (rec_view (snd (route L d env req st))) = rs_GetRecord ops c x (rec_view st)"
    by simp_all
qed

end

text \<open>Both stores in memory file a record under the client and the context joined by a bar, so that two pairs
  share a record exactly when their joined names agree.\<close>

abbreviation (input) joined_apart :: "string \<Rightarrow> string \<Rightarrow> string \<Rightarrow> string \<Rightarrow> bool" where
  "joined_apart c x c' x' \<equiv> c' @ ''|'' @ x' \<noteq> c @ ''|'' @ x"

lemma joined_apartI: "CHR ''|'' \<notin> set x \<Longrightarrow> CHR ''|'' \<notin> set x' \<Longrightarrow> (c', x') \<noteq> (c, x) \<Longrightarrow> joined_apart c x c' x'"
  using pair_key_inject [of x' x c' c] by (auto simp: pair_key_def)

interpretation inmem: record_store InMemoryRecordStore "\<lambda>_. True" "\<lambda>_ _ _. True" joined_apart
  by unfold_locales (auto simp: InMemoryRecordStore_def inmem_PutRecord_def inmem_GetRecord_def pair_key_def)

text \<open>The adapter files the serialised registration record and completes it when it is read.\<close>

definition serialisable :: "'m opaque_lib \<Rightarrow> string \<Rightarrow> string \<Rightarrow> 'm ClientRecord \<Rightarrow> bool" where
  "serialisable lib c x rec \<longleftrightarrow>
     (\<exists>r. rec = opaque_record c x r \<and> ol_GetRegistrationRecord lib (ol_Serialize lib r) = Some r)"

lemma serialisable_registered:
  "opaque_records lib \<Longrightarrow> ol_GetRegistrationRecord lib b = Some r \<Longrightarrow> serialisable lib c x (opaque_record c x r)"
  unfolding opaque_records_def serialisable_def by blast

interpretation memstore: record_store "StoreRecordStore lib memory_ops" "\<lambda>_. True" "serialisable lib" joined_apart
  for lib :: "'m opaque_lib"
  by unfold_locales
    (auto simp: StoreRecordStore_def store_PutRecord_def store_GetRecord_def memory_ops_def mem_PutRecord_def
      mem_GetRecord_def pair_key_def serialisable_def)

text \<open>With either record store a registered record is stored and found again.\<close>

lemma record_kept:
  assumes "ol_GetRegistrationRecord lib b = Some r"
    and "ops = InMemoryRecordStore \<or> (ops = StoreRecordStore lib memory_ops \<and> opaque_records lib)"
  shows "\<exists>v. rs_PutRecord ops c x (opaque_record c x r) s = (Ok (), v) \<and> rs_GetRecord ops c x v = Ok (opaque_record c x r)"
  using assms(2)
proof
  assume "ops = InMemoryRecordStore"
  with inmem.put_get [OF TrueI TrueI, of c x "opaque_record c x r" s] show ?thesis by blast
next
  assume "ops = StoreRecordStore lib memory_ops \<and> opaque_records lib"
  with memstore.put_get [OF TrueI serialisable_registered [OF _ assms(1)], of c x s] show ?thesis by blast
qed

text \<open>Names that are joined to the same key read the same registration record.\<close>

lemma joined_same_record:
  assumes "c' @ ''|'' @ x' = c @ ''|'' @ x"
  shows "rs_GetRecord InMemoryRecordStore c x s = Ok rec \<Longrightarrow> rs_GetRecord InMemoryRecordStore c' x' s = Ok rec"
    and "rs_GetRecord (StoreRecordStore lib memory_ops) c x s' = Ok (opaque_record c x r) \<Longrightarrow>
      rs_GetRecord (StoreRecordStore lib memory_ops) c' x' s' = Ok (opaque_record c' x' r)"
  using assms
  by (auto simp: InMemoryRecordStore_def inmem_GetRecord_def StoreRecordStore_def store_GetRecord_def memory_ops_def
      mem_GetRecord_def pair_key_def split: option.splits)

section \<open>Locked clients\<close>

lemma Check_error_same: "counter_Check now c k x ct = (Some e, ct') \<Longrightarrow> ct' = ct"
  by (auto simp: counter_Check_def Let_def split: option.splits if_splits)

lemma locked_evaluate:
  assumes "counter_Check (re_check env) (sr_ClientID req) (sr_Context req) (sr_Context req) (ds_counter st) = (Some e, ct)"
  shows "authEvaluate L d env req tfa b st = (Err \<lparr>e_Code = ErrAccessDenied, e_Msg = Msg_counter e\<rparr>, st)"
    and "fido2AuthChallenge L d f env req st = (Err \<lparr>e_Code = ErrAccessDenied, e_Msg = Msg_counter e\<rparr>, st)"
  using assms Check_error_same [OF assms] by (simp_all add: authEvaluate_def fido2AuthChallenge_def)

text \<open>The finalize phase does not look at the lock: a session opened before the lock still logs in.\<close>

lemma locked_client_can_finalize:
  assumes "session_Get (re_get env) (sr_TFASessionID req) (ds_sessions st) = Some sess"
    and "AuthFinalize (lib_opaque L) (d_opaque d) b (s_ClientMAC sess) = Ok ()"
  shows "\<exists>s. session_Get (re_get env) (sr_TFASessionID req) (ds_sessions (snd (authFinalize L d env req b st))) = Some s
     \<and> s_Verified s"
  using finalize_verifies [OF assms] assms(1)
  by (auto simp: session_Get_def session_expired_def update_conv' split: option.splits if_splits)

section \<open>Changing the second factor\<close>

lemma route_change:
  "is_change req \<Longrightarrow> route L d env req st = handle2FAChange L d env req st"
  by (auto simp: route_def is_change_def r2ps_type_defs)

lemma route_change_finalize:
  assumes "require_session env req (ds_sessions st) = Ok sess" and "is_change req"
    and "Unmarshal_TFARequestData (sr_Data req) = Some tfa" and "tfa_phase tfa StateFinalize b"
  shows "route L d env req st = regFinalize L d env req b st"
  using assms
  by (auto simp: route_change handle2FAChange_def handle2FA_def tfa_phase_def is_change_def r2ps_type_defs r2ps_state_defs
      TFAModeOPAQUE_def TFAModeFIDO2_def)

text \<open>The session that authorises a change need not belong to the client whose factor changes.\<close>

lemma change_with_foreign_session:
  assumes "require_session env req (ds_sessions st) = Ok sess" and "s_ClientID sess \<noteq> sr_ClientID req"
    and "is_change req" and "Unmarshal_TFARequestData (sr_Data req) = Some tfa" and "tfa_phase tfa StateFinalize b"
  shows "route L d env req st = regFinalize L d env req b st"
  by (rule route_change_finalize [OF assms(1,3-5)])

text \<open>The gauge of active sessions falls by the number of removed sessions, verified or not.\<close>

lemma cleanup_counts_unverified:
  "w_metrics (ds_world (cleanup_tick 1 (st\<lparr>ds_sessions := [(''s'', sess\<lparr>s_ExpiresAt := 0, s_Verified := False\<rparr>)]\<rparr>)))
     = w_metrics (ds_world st) @ [(''active_sessions_sub'', [''1''])]"
  by (simp add: cleanup_tick_def session_CleanExpired_def session_expired_def session_Delete_def metric_def inc_metric_def
      Itoa_def nat_str.simps digit_char_def char_of_def bit_0)

section \<open>Signing under a task\<close>

lemma sad_check_task:
  assumes "sr_Type req = TypeSignECDSA" and "s_Task sess = sign_task hs" and "hs \<noteq> []"
    and "\<forall>h \<in> set hs. length h \<in> {32, 48, 64}" and "\<forall>x. length (sha x) = 32"
    and "sr_Data req = sign_request kid h" and "validKid kid"
  shows "sad_check sha req sess =
     (if h \<in> set hs \<or> sha h \<in> set hs then Ok () else Err \<lparr>e_Code = ErrAccessDenied, e_Msg = Msg_sad SAD_violation\<rparr>)"
proof -
  have "sign_task hs \<noteq> []" by (simp add: sign_task_def sadTaskPrefix_def)
  moreover have "ValidateSAD sha (sign_task hs) h =
      (if h \<in> set hs \<or> sha h \<in> set hs then Ok () else Err SAD_violation)"
    using ValidateSAD_iff [of sha "sign_task hs" h] ParseSADTask_sign_task [OF assms(3,4)] assms(5)
    by (cases "ValidateSAD sha (sign_task hs) h") (auto simp: ValidateSAD_def Let_def split: if_splits)
  ultimately show ?thesis
    using assms by (simp add: sad_check_def Unmarshal_sign_request validKid_utf8)
qed

section \<open>Properties\<close>

text \<open>C23: A registration takes effect, for its client and context alone. With the record stores in memory (the
  map of the tests, and the adapter over the lifecycle store that the server runs with, for an OPAQUE library
  whose records survive their serialisation), after a registration finalize request a login of that client
  and context works with exactly the registered record, and the record found for any pair whose name, client
  and context joined by a bar, differs is untouched: that is every other pair when contexts contain no bar.
  A pair of the same joined name is given the registered record too.\<close>

theorem registration_takes_effect:
  assumes "sr_Type req = Type2FARegistration" and "Unmarshal_TFARequestData (sr_Data req) = Some tfa"
    and "tfa_phase tfa StateFinalize b" and "ol_GetRegistrationRecord (lib_opaque L) b = Some r"
    and store: "d_records d = InMemoryRecordStore
      \<or> (d_records d = StoreRecordStore (lib_opaque L) memory_ops \<and> opaque_records (lib_opaque L))"
    and st1: "st1 = snd (route L d env req st)"
  shows "(sr_ClientID req' = sr_ClientID req \<and> sr_Context req' = sr_Context req \<longrightarrow>
        lookup_record L d env' req' st1 =
          Ok (Some \<lparr>rec_RegistrationRecord = r,
                    rec_CredentialIdentifier = cred_id (sr_Context req) (sr_ClientID req), rec_ClientIdentity = []\<rparr>))
     \<and> (sr_ClientID req' @ ''|'' @ sr_Context req' \<noteq> sr_ClientID req @ ''|'' @ sr_Context req \<longrightarrow>
        rs_GetRecord (d_records d) (sr_ClientID req') (sr_Context req') (rec_view st1) =
        rs_GetRecord (d_records d) (sr_ClientID req') (sr_Context req') (rec_view st))
     \<and> (CHR ''|'' \<notin> set (sr_Context req) \<and> CHR ''|'' \<notin> set (sr_Context req')
        \<and> (sr_ClientID req', sr_Context req') \<noteq> (sr_ClientID req, sr_Context req) \<longrightarrow>
        rs_GetRecord (d_records d) (sr_ClientID req') (sr_Context req') (rec_view st1) =
        rs_GetRecord (d_records d) (sr_ClientID req') (sr_Context req') (rec_view st))
     \<and> (sr_ClientID req' @ ''|'' @ sr_Context req' = sr_ClientID req @ ''|'' @ sr_Context req \<longrightarrow>
        (\<exists>rec. lookup_record L d env' req' st1 = Ok (Some rec) \<and> rec_RegistrationRecord rec = r))"
proof -
  let ?c = "sr_ClientID req" and ?x = "sr_Context req"
  have eff: "rs_GetRecord (d_records d) ?c ?x (rec_view st1) = Ok (opaque_record ?c ?x r)
     \<and> (joined_apart ?c ?x c x \<longrightarrow> rs_GetRecord (d_records d) c x (rec_view st1) = rs_GetRecord (d_records d) c x (rec_view st))
     \<and> (c @ ''|'' @ x = ?c @ ''|'' @ ?x \<longrightarrow>
        (\<exists>rec. rs_GetRecord (d_records d) c x (rec_view st1) = Ok rec \<and> rec_RegistrationRecord rec = r))" for c x
    using store
  proof
    assume a: "d_records d = InMemoryRecordStore"
    note e = inmem.registration_stored [OF a TrueI assms(1-4) TrueI, where env = env and st = st, folded st1]
    from e joined_same_record(1) [of c x ?c ?x, OF _ e(1)] a show ?thesis by simp
  next
    assume a: "d_records d = StoreRecordStore (lib_opaque L) memory_ops \<and> opaque_records (lib_opaque L)"
    have "serialisable (lib_opaque L) ?c ?x (opaque_record ?c ?x r)" by (rule serialisable_registered [OF conjunct2 [OF a] assms(4)])
    note e = memstore.registration_stored [OF conjunct1 [OF a] TrueI assms(1-4) this, where env = env and st = st, folded st1]
    from e joined_same_record(2) [of c x ?c ?x, OF _ e(1)] a show ?thesis by simp
  qed
  from eff [of "sr_ClientID req'" "sr_Context req'"] show ?thesis
    using joined_apartI [of ?x "sr_Context req'" "sr_ClientID req'" ?c] by (auto simp: lookup_record_def)
qed

theorem registration_takes_effect_witness:
  "lookup_record demo_libs demo_dispatcher demo_env (demo_login StateEvaluate [] [1])
     (snd (route demo_libs demo_dispatcher demo_env
        (demo_req Type2FARegistration [] (Marshal_TFARequestData (demo_tfa StateFinalize [5]))) demo_state)) =
     Ok (Some \<lparr>rec_RegistrationRecord = [5], rec_CredentialIdentifier = cred_id ''hsm'' ''alice'', rec_ClientIdentity = []\<rparr>)"
proof -
  let ?req = "demo_req Type2FARegistration [] (Marshal_TFARequestData (demo_tfa StateFinalize [5]))"
  have "Unmarshal_TFARequestData (sr_Data ?req) = Some (demo_tfa StateFinalize [5])"
    using tfa_roundtrip [OF demo_tfa_ok] by (simp add: demo_req_def)
  from registration_takes_effect [of ?req, OF _ this demo_phase _ _ refl, of demo_libs "[5]" demo_dispatcher
      "demo_login StateEvaluate [] [1]" demo_env demo_env demo_state]
  show ?thesis by (simp add: demo_req_def demo_login_def demo_libs_def toy_opaque_def demo_dispatcher_def)
qed

text \<open>C24: No client enumeration. Whatever record store the server runs with, the evaluate request of a client
  without a record is treated exactly as if the client had registered the fake record the OPAQUE library
  makes for it: the same answer, the same session and the same failure counter as in any state that
  differs in the world and the records only and in which the fake record is found.\<close>

theorem unknown_client_indistinguishable:
  assumes "rs_GetRecord (d_records d) (sr_ClientID req) (sr_Context req) (rec_view st) = Err e"
    and "FakeRecord (lib_opaque L) (re_fake1 env) (re_fake2 env) (cred_id (sr_Context req) (sr_ClientID req)) = Some fake"
    and "rs_GetRecord (d_records d) (sr_ClientID req) (sr_Context req) (rec_view st') = Ok fake"
    and "ds_sessions st' = ds_sessions st" and "ds_counter st' = ds_counter st"
  shows "fst (authEvaluate L d env req tfa b st) = fst (authEvaluate L d env req tfa b st')
     \<and> ds_sessions (snd (authEvaluate L d env req tfa b st)) = ds_sessions (snd (authEvaluate L d env req tfa b st'))
     \<and> ds_counter (snd (authEvaluate L d env req tfa b st)) = ds_counter (snd (authEvaluate L d env req tfa b st'))"
proof -
  have l: "lookup_record L d env req (st\<lparr>ds_counter := c\<rparr>) = Ok (Some fake)"
    "lookup_record L d env req (st'\<lparr>ds_counter := c\<rparr>) = Ok (Some fake)" for c
    using assms(1-3) by (simp_all add: lookup_record_def rec_view_def)
  show ?thesis
    by (auto simp: authEvaluate_def assms(4,5) l Let_def fail_def signResponse_def split: res.split prod.split option.split)
qed

text \<open>On the adapter the server runs with: bob before and after the registration of the record that is made up for him.\<close>

abbreviation "bob_dispatcher \<equiv> demo_dispatcher\<lparr>d_records := StoreRecordStore toy_opaque memory_ops\<rparr>"
abbreviation "bob_env \<equiv> demo_env\<lparr>re_fake1 := [5]\<rparr>"
abbreviation "bob_registers \<equiv>
  (demo_req Type2FARegistration [] (Marshal_TFARequestData (demo_tfa StateFinalize [5])))\<lparr>sr_ClientID := ''bob''\<rparr>"
abbreviation "bob_logs_in \<equiv> (demo_login StateEvaluate [] [1])\<lparr>sr_ClientID := ''bob''\<rparr>"

lemma bob_record:
  "rs_GetRecord (StoreRecordStore toy_opaque memory_ops) ''bob'' ''hsm''
     (rec_view (snd (route demo_libs bob_dispatcher bob_env bob_registers demo_state))) = Ok (opaque_record ''bob'' ''hsm'' [5])"
proof -
  have "Unmarshal_TFARequestData (sr_Data bob_registers) = Some (demo_tfa StateFinalize [5])"
    using tfa_roundtrip [OF demo_tfa_ok] by (simp add: demo_req_def)
  moreover have "serialisable toy_opaque c x (opaque_record c x [5])" for c x by (simp add: serialisable_def toy_opaque_def)
  ultimately show ?thesis
    using memstore.registration_stored(1) [where d = bob_dispatcher and lib = toy_opaque and st = demo_state and req = bob_registers
        and tfa = "demo_tfa StateFinalize [5]" and b = "[5]" and L = demo_libs and r = "[5]" and env = bob_env] demo_phase [of "[5]" StateFinalize]
    by (simp add: demo_req_def demo_libs_def toy_opaque_def)
qed

theorem unknown_client_indistinguishable_witness:
  "fst (authEvaluate demo_libs bob_dispatcher bob_env bob_logs_in (demo_tfa StateEvaluate [1]) [1] demo_state) =
   fst (authEvaluate demo_libs bob_dispatcher bob_env bob_logs_in (demo_tfa StateEvaluate [1]) [1]
     (snd (route demo_libs bob_dispatcher bob_env bob_registers demo_state)))"
proof -
  have "Unmarshal_TFARequestData (sr_Data bob_registers) = Some (demo_tfa StateFinalize [5])"
    using tfa_roundtrip [OF demo_tfa_ok] by (simp add: demo_req_def)
  from route_register [OF _ this, of "[5]" demo_libs bob_dispatcher bob_env demo_state] demo_phase [of "[5]" StateFinalize]
  have "route demo_libs bob_dispatcher bob_env bob_registers demo_state =
      regFinalize demo_libs bob_dispatcher bob_env bob_registers [5] demo_state" by (simp add: demo_req_def)
  then have same: "ds_sessions (snd (route demo_libs bob_dispatcher bob_env bob_registers demo_state)) = ds_sessions demo_state"
    "ds_counter (snd (route demo_libs bob_dispatcher bob_env bob_registers demo_state)) = ds_counter demo_state"
    by (auto simp: regFinalize_def fail_def signResponse_def Let_def split: res.split prod.split)
  show ?thesis
    using unknown_client_indistinguishable [OF _ _ _ same, where req = bob_logs_in and d = bob_dispatcher
        and e = "Record_store_error (No_record ''bob'' ''hsm'')" and L = demo_libs and env = bob_env
        and fake = "opaque_record ''bob'' ''hsm'' [5]"] bob_record
    by (simp add: demo_login_def demo_req_def StoreRecordStore_def store_GetRecord_def memory_ops_def mem_GetRecord_def rec_view_def
        demo_state_def NewMemoryStore_def FakeRecord_def demo_libs_def toy_opaque_def)
qed

text \<open>C25: A locked client cannot start a login. While the failure counter of a client and context is
  locked, its OPAQUE evaluate and FIDO2 challenge requests are refused with ACCESS_DENIED and change
  nothing, so no session and no challenge is handed out.\<close>

theorem locked_client_refused:
  assumes "is_auth req" and "Unmarshal_TFARequestData (sr_Data req) = Some tfa"
    and "fst (counter_Check (re_check env) (sr_ClientID req) (sr_Context req) (sr_Context req) (ds_counter st)) = Some e"
    and "tfa_phase tfa StateEvaluate b
      \<or> (tfa_GetProtocol tfa = TFAModeFIDO2 \<and> tfa_State tfa = StateChallenge \<and> d_fido2 d = Some f)"
  shows "route L d env req st = (Err \<lparr>e_Code = ErrAccessDenied, e_Msg = Msg_counter e\<rparr>, st)"
  using assms(4)
proof
  obtain ct where c: "counter_Check (re_check env) (sr_ClientID req) (sr_Context req) (sr_Context req) (ds_counter st) = (Some e, ct)"
    using assms(3) by (metis prod.collapse)
  {
    assume "tfa_phase tfa StateEvaluate b"
    with route_evaluate [OF assms(1,2), of b L d env st] locked_evaluate(1) [OF c, of L d tfa b] show ?thesis by simp
  }
  assume f: "tfa_GetProtocol tfa = TFAModeFIDO2 \<and> tfa_State tfa = StateChallenge \<and> d_fido2 d = Some f"
  then have "route L d env req st = fido2AuthChallenge L d f env req st"
    using assms(1,2) auth_types [OF assms(1)]
    by (auto simp: route_def handle2FA_def handleFIDO2_def is_auth_def [of req])
  with locked_evaluate(2) [OF c, of L d f] show ?thesis by simp
qed

theorem locked_client_refused_witness:
  "route demo_libs demo_dispatcher demo_env (demo_login StateEvaluate [] [1])
     (demo_state\<lparr>ds_counter := fold counter_step (replicate 5 (OpFailure 0 ''alice'' ''hsm'' ''hsm'')) (ds_counter demo_state)\<rparr>) =
   (Err \<lparr>e_Code = ErrAccessDenied, e_Msg = Msg_counter Account_locked\<rparr>,
    demo_state\<lparr>ds_counter := fold counter_step (replicate 5 (OpFailure 0 ''alice'' ''hsm'' ''hsm'')) (ds_counter demo_state)\<rparr>)"
proof -
  have r: "replicate 5 x = [x, x, x, x, x]" for x :: counter_op by (simp add: eval_nat_numeral)
  have "fst (counter_Check (re_check demo_env) (sr_ClientID (demo_login StateEvaluate [] [1]))
     (sr_Context (demo_login StateEvaluate [] [1])) (sr_Context (demo_login StateEvaluate [] [1]))
     (ds_counter (demo_state\<lparr>ds_counter := fold counter_step (replicate 5 (OpFailure 0 ''alice'' ''hsm'' ''hsm''))
        (ds_counter demo_state)\<rparr>))) = Some Account_locked"
    by (simp add: r counter_Check_def counter_RecordFailure_def demo_state_def NewAttemptCounter_def demo_login_def demo_req_def
        demo_env_def Second_def)
  from locked_client_refused [OF demo_is_auth demo_login_parses this] demo_phases(1) show ?thesis by auto
qed

text \<open>C22: The change of a second factor needs the present one. When a server in a reachable state answers a
  2fa_change or 2fa_update request, or the request changes anything, it names a session that is
  unexpired, verified, of the same context, and that was proven in an earlier step.\<close>

theorem change_needs_verified_session:
  assumes "dispatcher_run L d st0 tr st" and "ds_sessions st0 = NewSessionStore"
    and "accept_request L d env body = Ok req" and "is_change req" and "Process L d env body st = (r, st')"
    and "(\<exists>resp. r = Ok resp) \<or> st' \<noteq> st"
  shows "\<exists>sess. session_Get (re_get env) (sr_TFASessionID req) (ds_sessions st) = Some sess \<and> s_Verified sess
     \<and> s_Context sess = sr_Context req \<and> (\<exists>p \<in> set tr. proves_session L d p sess)"
proof -
  have c: "handle2FAChange L d env req st = (r, st')"
    using assms(3-5) by (simp add: Process_def route_change)
  then obtain sess where "require_session env req (ds_sessions st) = Ok sess"
    using assms(6) by (auto simp: handle2FAChange_def split: res.splits)
  then have s: "session_Get (re_get env) (sr_TFASessionID req) (ds_sessions st) = Some sess" "s_Verified sess"
    "s_Context sess = sr_Context req" by (simp_all add: require_session_Ok_iff)
  with run_sessions [OF assms(1,2) session_Get_map [OF s(1)]] show ?thesis by blast
qed

theorem change_needs_verified_session_witness:
  "\<exists>p \<in> set demo_trace. proves_session demo_libs demo_dispatcher p (demo_session\<lparr>s_Verified := True\<rparr>)"
proof -
  let ?req = "demo_req Type2FAChange demo_sid (Marshal_TFARequestData (demo_tfa StateFinalize [5]))"
  have tfa: "tfa_ok (demo_tfa StateFinalize [5])" by (rule demo_tfa_ok) simp
  have a: "accept_request demo_libs demo_dispatcher demo_env (demo_body ?req) = Ok ?req"
    using demo_req_sendable [of Type2FAChange demo_sid] demo_sid_utf8 enc_tfa [OF tfa]
    by (intro demo_body_accepted [where k = 1]) (simp_all add: Type2FAChange_def utf8_valid_ascii, simp_all add: demo_req_def)
  have ch: "is_change ?req" by (simp add: is_change_def demo_req_def)
  have rs: "require_session demo_env ?req (ds_sessions demo_st2) = Ok (demo_session\<lparr>s_Verified := True\<rparr>)"
    using demo_session_found
    by (simp add: require_session_Ok_iff demo_req_def demo_env_def demo_session_def new_session_def demo_login_def)
  have fin: "route demo_libs demo_dispatcher demo_env ?req demo_st2 = regFinalize demo_libs demo_dispatcher demo_env ?req [5] demo_st2"
    by (rule route_change_finalize [OF rs ch]) (simp add: demo_req_def tfa_roundtrip [OF tfa], rule demo_phase, simp)
  obtain r st' where p: "Process demo_libs demo_dispatcher demo_env (demo_body ?req) demo_st2 = (r, st')" by force
  have "rec_view st' = (fst (rec_view demo_st2), (snd (rec_view demo_st2))(pair_key ''alice'' ''hsm'' \<mapsto>
      \<lparr>rec_RegistrationRecord = [5], rec_CredentialIdentifier = cred_id ''hsm'' ''alice'', rec_ClientIdentity = []\<rparr>))"
    using p a fin regFinalize_records [of demo_libs "[5]" "[5]" demo_dispatcher ?req demo_st2 _ demo_env]
    by (simp add: Process_def demo_libs_def toy_opaque_def demo_dispatcher_def InMemoryRecordStore_def inmem_PutRecord_def demo_req_def)
  moreover have "ds_records demo_st2 (pair_key ''alice'' ''hsm'') \<noteq> Some
      \<lparr>rec_RegistrationRecord = [5], rec_CredentialIdentifier = cred_id ''hsm'' ''alice'', rec_ClientIdentity = []\<rparr>"
    by (simp add: demo_st2_records, simp add: demo_state_def)
  ultimately have "st' \<noteq> demo_st2" by (auto simp: rec_view_def) (metis fun_upd_same)
  with change_needs_verified_session [OF demo_run demo_start a ch p] demo_session_found show ?thesis
    by (auto simp: demo_req_def demo_env_def)
qed

lemma ecdsa_signs:
  assumes "sr_Data req = sign_request kid h" and "validKid kid" and "length h \<in> {32, 48, 64}"
    and "hb_Sign backend kid h (w_hsm w) = (q, hs)"
  shows "\<exists>ms. h_Handle (ECDSAHandler backend) t c (sr_Data req) w =
     ((case q of Ok sig \<Rightarrow> Ok (bytes_str sig) | Err e \<Rightarrow> Err (Backend_failed e) | Panic \<Rightarrow> Panic),
      w\<lparr>w_hsm := hs, w_metrics := ms\<rparr>)"
  using ecdsa_check_sign_request [OF assms(2,3)] assms(1,4)
  by (cases q) (auto simp: ECDSAHandler_def ECDSAHandler_Handle_def inc_metric_def Let_def intro: exI [of _ "w_metrics w"])

text \<open>C7: Signatures stay within the task. In a session whose task lists hashes, take a signing request for a
  well-formed key identifier and hash. If the hash or its SHA-256 digest is listed, the HSM is asked to sign
  exactly that hash with that key, the answer carries its signature (or tells that it failed), and nothing else
  but the metrics changes. If neither is listed, the request is refused with ACCESS_DENIED, the HSM is not
  reached and nothing changes.\<close>

theorem signature_within_task:
  assumes "d_handlers d TypeSignECDSA = Some (ECDSAHandler backend)"
    and "sr_Type req = TypeSignECDSA" and "sr_Data req = sign_request kid h" and "validKid kid"
    and "length h \<in> {32, 48, 64}" and "require_session env req (ds_sessions st) = Ok sess"
    and "s_Task sess = sign_task hs" and "hs \<noteq> []" and "\<forall>h \<in> set hs. length h \<in> {32, 48, 64}"
    and "\<forall>x. length (wp_sha256 (lib_wa L) x) = 32"
  shows "(h \<in> set hs \<or> wp_sha256 (lib_wa L) h \<in> set hs \<longrightarrow>
        (let (q, hsm) = hb_Sign backend kid h (w_hsm (ds_world st)) in
           fst (route L d env req st) =
             (case q of Ok sig \<Rightarrow> respond L d (re_resp env) req (wrap_data (bytes_str sig))
              | Err e \<Rightarrow> Err (r2ps_err ErrServerError (sr_Type req @ '' failed'')) | Panic \<Rightarrow> Panic)
         \<and> (\<exists>ms. snd (route L d env req st) = st\<lparr>ds_world := (ds_world st)\<lparr>w_hsm := hsm, w_metrics := ms\<rparr>\<rparr>)))
     \<and> (h \<notin> set hs \<and> wp_sha256 (lib_wa L) h \<notin> set hs \<longrightarrow>
        route L d env req st = (Err \<lparr>e_Code = ErrAccessDenied, e_Msg = Msg_sad SAD_violation\<rparr>, st))"
proof -
  have r: "route L d env req st = handleService L d env req st"
    using assms(1,2) by (simp add: route_def r2ps_type_defs)
  have az: "authorize L env (ECDSAHandler backend :: ('a, 'b) world Handler) req (ds_sessions st) =
      (if h \<in> set hs \<or> wp_sha256 (lib_wa L) h \<in> set hs then Ok ()
       else Err \<lparr>e_Code = ErrAccessDenied, e_Msg = Msg_sad SAD_violation\<rparr>)"
    using assms(6) sad_check_task [OF assms(2,7-10,3,4)]
    by (simp add: authorize_def ECDSAHandler_def Mode1FA_def Mode2FA_def)
  obtain q hsm where q: "hb_Sign backend kid h (w_hsm (ds_world st)) = (q, hsm)" by force
  obtain ms where "h_Handle (ECDSAHandler backend) (re_handler env) (sr_ClientID req) (sr_Data req) (ds_world st) =
     ((case q of Ok sig \<Rightarrow> Ok (bytes_str sig) | Err e \<Rightarrow> Err (Backend_failed e) | Panic \<Rightarrow> Panic),
      (ds_world st)\<lparr>w_hsm := hsm, w_metrics := ms\<rparr>)" using ecdsa_signs [OF assms(3-5) q] by blast
  then show ?thesis
    using assms(1,2) az by (cases q) (auto simp: r q handleService_def fail_def)
qed

text \<open>A session of the demonstration client for given hashes. Its SHA-256 maps everything to thirty-two sevens.\<close>

definition task_state :: "bytes list \<Rightarrow> (unit, MemoryStore, bytes) dstate" where
  "task_state hs = demo_st2\<lparr>ds_sessions := [(demo_sid, demo_session\<lparr>s_Verified := True, s_Task := sign_task hs\<rparr>)]\<rparr>"

definition signs :: "bytes \<Rightarrow> ServiceRequest" where
  "signs h = demo_req TypeSignECDSA demo_sid (sign_request ''k1'' h)"

lemma task_session:
  "require_session demo_env (signs h) (ds_sessions (task_state hs)) = Ok (demo_session\<lparr>s_Verified := True, s_Task := sign_task hs\<rparr>)"
  using demo_session_found
  by (simp add: require_session_Ok_iff task_state_def signs_def demo_st2_sessions demo_req_def session_Get_def
      session_expired_def demo_env_def demo_session_def new_session_def demo_login_def split: if_splits)

lemma demo_sha: "wp_sha256 (lib_wa demo_libs) x = replicate 32 7"
  by (simp add: demo_libs_def demo_prims_def)

theorem signature_within_task_witness:
  "fst (route demo_libs demo_dispatcher demo_env (signs (replicate 32 5)) (task_state [replicate 32 5])) =
     respond demo_libs demo_dispatcher 0 (signs (replicate 32 5)) (wrap_data (bytes_str (replicate 32 5)))
   \<and> fst (route demo_libs demo_dispatcher demo_env (signs (replicate 32 5)) (task_state [replicate 32 7])) =
     respond demo_libs demo_dispatcher 0 (signs (replicate 32 5)) (wrap_data (bytes_str (replicate 32 5)))
   \<and> route demo_libs demo_dispatcher demo_env (signs (replicate 32 5)) (task_state [replicate 48 1]) =
     (Err \<lparr>e_Code = ErrAccessDenied, e_Msg = Msg_sad SAD_violation\<rparr>, task_state [replicate 48 1])"
proof -
  let ?h = "replicate 32 5 :: bytes"
  have r: "d_handlers demo_dispatcher TypeSignECDSA = Some (ECDSAHandler toy_backend)" "sr_Type (signs ?h) = TypeSignECDSA"
    "sr_Data (signs ?h) = sign_request ''k1'' ?h" "validKid ''k1''" "length ?h \<in> {32, 48, 64}"
    "\<forall>x. length (wp_sha256 (lib_wa demo_libs) x) = 32"
    by (simp_all add: demo_dispatcher_def signs_def demo_req_def validKid_def kid_char_def demo_sha)
  note t = signature_within_task [OF r(1-5) task_session _ _ _ r(6)]
  from t [of "[?h]" "[?h]"] t [of "[replicate 32 7]" "[replicate 32 7]"] t [of "[replicate 48 1]" "[replicate 48 1]"]
  show ?thesis by (simp add: demo_sha toy_backend_def demo_env_def replicate_eq_replicate)
qed

end
