(* ===== verification/Server_Modes.thy ===== *)
theory Server_Modes
  imports Go_Prelude "HOL-Library.AList" "HOL-Library.List_Lexorder" "HOL-Library.Char_ord"
begin

text \<open>
  \<^verbatim>\<open>internal/modes/modes.go\<close>: the operating roles of the server and the parser of the mode flag. A role
  set is a map whose keys are iterated, so it is an association list; Go compares strings byte by
  byte, which is the lexicographic order on \<^typ>\<open>string\<close> of the library.
\<close>

section \<open>Roles\<close>

type_synonym Role = string

definition RoleWSCD :: Role where "RoleWSCD = ''wscd''"
definition RoleWSCA :: Role where "RoleWSCA = ''wsca''"
definition RoleAdmin :: Role where "RoleAdmin = ''admin''"

definition ValidRoles :: "Role list" where
  "ValidRoles = [RoleWSCD, RoleWSCA, RoleAdmin]"

fun role_among :: "Role \<Rightarrow> Role list \<Rightarrow> bool" where
  "role_among r [] = False"
| "role_among r (valid # vs) = (if r = valid then True else role_among r vs)"

definition role_IsValid :: "Role \<Rightarrow> bool" where
  "role_IsValid r = role_among r ValidRoles"

type_synonym RoleSet = "(Role \<times> bool) list"

definition NewRoleSet :: "Role list \<Rightarrow> RoleSet" where
  "NewRoleSet roles = fold (\<lambda>r rs. AList.update r True rs) roles []"

definition roles_Has :: "RoleSet \<Rightarrow> Role \<Rightarrow> bool" where
  "roles_Has rs role = (case map_of rs role of None \<Rightarrow> False | Some b \<Rightarrow> b)"

definition roles_List :: "RoleSet \<Rightarrow> Role list" where
  "roles_List rs = sort (map fst rs)"

definition roles_Strings :: "RoleSet \<Rightarrow> string list" where
  "roles_Strings rs = map (\<lambda>r. r) (roles_List rs)"

section \<open>The parser\<close>

datatype mode_error = Mode_empty | Invalid_role string | No_valid_roles

text \<open>\<open>add_role\<close> is the test of \<open>seen\<close> with the two updates; \<open>parse_parts\<close> is the loop over the
  comma-separated parts.\<close>

definition add_role :: "Role \<Rightarrow> Role list \<times> (Role \<Rightarrow> bool) \<Rightarrow> Role list \<times> (Role \<Rightarrow> bool)" where
  "add_role r acc = (let (roles, seen) = acc in if \<not> seen r then (roles @ [r], seen(r := True)) else (roles, seen))"

fun parse_parts :: "string list \<Rightarrow> Role list \<times> (Role \<Rightarrow> bool) \<Rightarrow> (mode_error, Role list) res" where
  "parse_parts [] acc = Ok (fst acc)"
| "parse_parts (p # ps) acc =
     (let p = TrimSpace p in
      if p = [] then parse_parts ps acc
      else if p = ''all'' then parse_parts ps (fold add_role ValidRoles acc)
      else if \<not> role_IsValid p then Err (Invalid_role p)
      else parse_parts ps (add_role p acc))"

definition ParseRoles :: "string \<Rightarrow> (mode_error, RoleSet) res" where
  "ParseRoles s =
     (let s = TrimSpace s in
      if s = [] then Err Mode_empty
      else if s = ''all'' then Ok (NewRoleSet ValidRoles)
      else
        (case parse_parts (split_on CHR '','' s) ([], \<lambda>_. False) of
           Err e \<Rightarrow> Err e
         | Panic \<Rightarrow> Panic
         | Ok roles \<Rightarrow> if roles = [] then Err No_valid_roles else Ok (NewRoleSet roles)))"

section \<open>Lemmas\<close>

lemma role_among_iff: "role_among r vs \<longleftrightarrow> r \<in> set vs"
  by (induction vs) auto

lemma role_IsValid_iff: "role_IsValid r \<longleftrightarrow> r \<in> set ValidRoles"
  by (simp add: role_IsValid_def role_among_iff)

lemma NewRoleSet_keys: "map_of (NewRoleSet roles) r = (if r \<in> set roles then Some True else None)"
proof -
  have "map_of (fold (\<lambda>r rs. AList.update r True rs) roles rs) r = (if r \<in> set roles then Some True else map_of rs r)" for rs
    by (induction roles arbitrary: rs) (auto simp: update_conv')
  then show ?thesis by (simp add: NewRoleSet_def)
qed

lemma NewRoleSet_distinct: "distinct (map fst (NewRoleSet roles))"
proof -
  have "distinct (map fst rs) \<Longrightarrow> distinct (map fst (fold (\<lambda>r rs. AList.update r True rs) roles rs))" for rs :: RoleSet
    by (induction roles arbitrary: rs) (auto simp: AList.distinct_update)
  then show ?thesis by (simp add: NewRoleSet_def)
qed

lemma roles_Has_New [simp]: "roles_Has (NewRoleSet roles) r \<longleftrightarrow> r \<in> set roles"
  by (simp add: roles_Has_def NewRoleSet_keys)

lemma roles_List_New: "set (roles_List (NewRoleSet roles)) = set roles"
proof -
  have "fst ` set (NewRoleSet roles) = dom (map_of (NewRoleSet roles))" by (simp add: dom_map_of_conv_image_fst)
  also have "\<dots> = set roles" by (auto simp: NewRoleSet_keys split: if_splits)
  finally show ?thesis by (simp add: roles_List_def)
qed

lemma roles_List_sorted: "sorted (roles_List rs)" "distinct (map fst rs) \<Longrightarrow> distinct (roles_List rs)"
  by (simp_all add: roles_List_def)

text \<open>The accumulator keeps the roles in step with what was seen.\<close>

definition acc_ok :: "Role list \<times> (Role \<Rightarrow> bool) \<Rightarrow> bool" where
  "acc_ok acc \<longleftrightarrow> (\<forall>r. snd acc r \<longleftrightarrow> r \<in> set (fst acc))"

lemma add_role_ok: "acc_ok acc \<Longrightarrow> acc_ok (add_role r acc) \<and> set (fst (add_role r acc)) = insert r (set (fst acc))"
  by (cases acc) (auto simp: acc_ok_def add_role_def Let_def)

lemma add_roles_ok:
  "acc_ok acc \<Longrightarrow> acc_ok (fold add_role rs acc) \<and> set (fst (fold add_role rs acc)) = set rs \<union> set (fst acc)"
  by (induction rs arbitrary: acc) (use add_role_ok in \<open>auto\<close>)

text \<open>The trimmed parts that are not empty.\<close>

definition mode_parts :: "string \<Rightarrow> string list" where
  "mode_parts s = filter (\<lambda>p. p \<noteq> []) (map TrimSpace (split_on CHR '','' (TrimSpace s)))"

definition roles_of :: "string list \<Rightarrow> Role set" where
  "roles_of ps = {r. (r \<in> set ps \<and> role_IsValid r) \<or> (''all'' \<in> set ps \<and> role_IsValid r)}"

lemma all_not_valid: "\<not> role_IsValid ''all''"
  by (simp add: role_IsValid_iff ValidRoles_def RoleWSCD_def RoleWSCA_def RoleAdmin_def)

lemma parse_parts_spec:
  assumes "acc_ok acc"
  shows "case parse_parts ps acc of
       Ok roles \<Rightarrow> (\<forall>p \<in> set (filter (\<lambda>p. p \<noteq> []) (map TrimSpace ps)). p = ''all'' \<or> role_IsValid p)
         \<and> set roles = set (fst acc) \<union> roles_of (filter (\<lambda>p. p \<noteq> []) (map TrimSpace ps))
     | Err e \<Rightarrow> \<exists>p \<in> set (filter (\<lambda>p. p \<noteq> []) (map TrimSpace ps)). p \<noteq> ''all'' \<and> \<not> role_IsValid p \<and> e = Invalid_role p
     | Panic \<Rightarrow> False"
  using assms
proof (induction ps acc rule: parse_parts.induct)
  case (1 acc)
  then show ?case by (simp add: roles_of_def)
next
  case (2 p ps acc)
  let ?p = "TrimSpace p"
  consider "?p = []" | "?p = ''all''" | "?p \<noteq> []" "?p \<noteq> ''all''" "\<not> role_IsValid ?p"
    | "?p \<noteq> []" "?p \<noteq> ''all''" "role_IsValid ?p" by blast
  then show ?case
  proof cases
    case 1
    from "2.IH"(1) [OF refl 1 "2.prems"] show ?thesis
      by (cases "parse_parts ps acc") (simp_all add: 1)
  next
    case all: 2
    have "acc_ok (fold add_role ValidRoles acc)" "set (fst (fold add_role ValidRoles acc)) = set ValidRoles \<union> set (fst acc)"
      using add_roles_ok [OF "2.prems"] by auto
    moreover have "set ValidRoles \<union> A \<union> roles_of qs = A \<union> roles_of (''all'' # qs)" for qs A
      by (auto simp: roles_of_def role_IsValid_iff)
    ultimately show ?thesis
      using "2.IH"(2) [OF refl] all by (cases "parse_parts ps (fold add_role ValidRoles acc)") auto
  next
    case 3
    then show ?thesis by simp
  next
    case 4
    have "acc_ok (add_role ?p acc)" "set (fst (add_role ?p acc)) = insert ?p (set (fst acc))"
      using add_role_ok [OF "2.prems"] by auto
    moreover have "roles_of (?p # qs) = insert ?p (roles_of qs)" for qs using 4 by (auto simp: roles_of_def)
    ultimately show ?thesis
      using "2.IH"(3) [OF refl] 4 by (auto split: res.splits)
  qed
qed


lemma TrimSpace_nil [simp]: "TrimSpace [] = []"
  by code_simp

lemma TrimSpace_all [simp]: "TrimSpace ''all'' = ''all''"
  by code_simp

lemma roles_of_ne: "qs \<noteq> [] \<Longrightarrow> set qs \<subseteq> insert ''all'' (set ValidRoles) \<Longrightarrow> roles_of qs \<noteq> {}"
  by (cases qs) (auto simp: roles_of_def role_IsValid_iff ValidRoles_def)

lemma NewRoleSet_meaning:
  "set (roles_List (NewRoleSet roles)) = {r. roles_Has (NewRoleSet roles) r} \<and> sorted (roles_List (NewRoleSet roles))
   \<and> distinct (roles_List (NewRoleSet roles)) \<and> (roles_List (NewRoleSet roles) = [] \<longleftrightarrow> roles = [])"
  using roles_List_New [of roles] roles_List_sorted NewRoleSet_distinct by auto

section \<open>What the parser accepts\<close>

text \<open>
  \<open>ParseRoles\<close> decides exactly which mode strings are accepted and what they mean. It never panics;
  it rejects a string whose non-empty trimmed parts are missing (before any role is looked at when
  the whole string is blank) or contain something that is neither a role nor \<open>all\<close>, naming an
  offending part; otherwise the set has exactly the roles listed, or every role when \<open>all\<close> occurs
  anywhere, and \<open>List\<close> returns them in increasing order, each once, and never an empty list.\<close>

lemma parse_roles_exact:
  "case ParseRoles s of
     Ok rs \<Rightarrow> mode_parts s \<noteq> [] \<and> set (mode_parts s) \<subseteq> insert ''all'' (set ValidRoles)
       \<and> (\<forall>r. roles_Has rs r \<longleftrightarrow> role_IsValid r \<and> (r \<in> set (mode_parts s) \<or> ''all'' \<in> set (mode_parts s)))
       \<and> set (roles_List rs) = {r. roles_Has rs r} \<and> roles_List rs \<noteq> []
       \<and> sorted (roles_List rs) \<and> distinct (roles_List rs)
   | Err Mode_empty \<Rightarrow> TrimSpace s = []
   | Err No_valid_roles \<Rightarrow> TrimSpace s \<noteq> [] \<and> mode_parts s = []
   | Err (Invalid_role p) \<Rightarrow> p \<in> set (mode_parts s) \<and> p \<noteq> ''all'' \<and> \<not> role_IsValid p
   | Panic \<Rightarrow> False"
proof (cases "TrimSpace s = [] \<or> TrimSpace s = ''all''")
  case True
  then show ?thesis
    using NewRoleSet_meaning [of ValidRoles]
    by (auto simp: ParseRoles_def mode_parts_def split_on_no_sep role_IsValid_iff ValidRoles_def)
next
  case False
  let ?ps = "split_on CHR '','' (TrimSpace s)"
  have spec: "case parse_parts ?ps ([], \<lambda>_. False) of
       Ok roles \<Rightarrow> set (mode_parts s) \<subseteq> insert ''all'' (set ValidRoles) \<and> set roles = roles_of (mode_parts s)
     | Err e \<Rightarrow> \<exists>p \<in> set (mode_parts s). p \<noteq> ''all'' \<and> \<not> role_IsValid p \<and> e = Invalid_role p
     | Panic \<Rightarrow> False"
    using parse_parts_spec [of "([], \<lambda>_. False)" ?ps] unfolding mode_parts_def [symmetric]
    by (auto simp: acc_ok_def role_IsValid_iff split: res.splits)
  show ?thesis
  proof (cases "parse_parts ?ps ([], \<lambda>_. False)")
    case (Ok roles)
    with spec have parts: "set (mode_parts s) \<subseteq> insert ''all'' (set ValidRoles)" "set roles = roles_of (mode_parts s)"
      by auto
    then have "roles = [] \<longleftrightarrow> mode_parts s = []"
      using roles_of_ne [of "mode_parts s"] by (cases "mode_parts s = []") (auto simp: roles_of_def)
    with False Ok parts NewRoleSet_meaning [of roles] show ?thesis
      by (auto simp: ParseRoles_def roles_of_def)
  qed (use False spec in \<open>auto simp: ParseRoles_def\<close>)
qed

end
