(* ===== verification/Go_Http.thy ===== *)
theory Go_Http
  imports Go_Prelude
begin

text \<open>
  What the HTTP handlers use of \<^verbatim>\<open>net/http\<close>: requests, response writers and the routing of
  \<^verbatim>\<open>http.ServeMux\<close>. A writer keeps the header map the handler edits, the status and header as they were
  when the handler sent them (the first \<^verbatim>\<open>WriteHeader\<close>, or the first \<^verbatim>\<open>Write\<close>, fixes them) and the body
  written so far.
\<close>

section \<open>Requests and responses\<close>

text \<open>\<open>rq_PathValues\<close> are the wildcards the router matched; \<open>rq_Path\<close> is \<^verbatim>\<open>URL.Path\<close>, \<open>rq_EscapedPath\<close> its escaped form, \<open>rq_Query\<close> the parsed query in order,
  \<open>rq_Header\<close> the first value of each header, \<open>rq_Body\<close> what reading the body to its end gives, with
  \<open>rq_BodyFails\<close> when the read ends in an error.\<close>

record http_request =
  rq_Method :: string
  rq_Path :: string
  rq_EscapedPath :: string
  rq_Query :: "(string \<times> string) list"
  rq_Header :: "string \<rightharpoonup> string"
  rq_Body :: string
  rq_BodyFails :: bool
  rq_PathValues :: "(string \<times> string) list"

definition header_Get :: "http_request \<Rightarrow> string \<Rightarrow> string" where
  "header_Get r k = (case rq_Header r k of None \<Rightarrow> [] | Some v \<Rightarrow> v)"

definition query_Get :: "http_request \<Rightarrow> string \<Rightarrow> string" where
  "query_Get r k = (case map_of (rq_Query r) k of None \<Rightarrow> [] | Some v \<Rightarrow> v)"

record http_writer =
  hw_Header :: "string \<rightharpoonup> string"
  hw_Sent :: "(int \<times> (string \<rightharpoonup> string)) option"
  hw_Body :: string

definition new_writer :: http_writer where
  "new_writer = \<lparr>hw_Header = Map.empty, hw_Sent = None, hw_Body = []\<rparr>"

definition header_Set :: "string \<Rightarrow> string \<Rightarrow> http_writer \<Rightarrow> http_writer" where
  "header_Set k v w = w\<lparr>hw_Header := (hw_Header w)(k \<mapsto> v)\<rparr>"

definition WriteHeader :: "int \<Rightarrow> http_writer \<Rightarrow> http_writer" where
  "WriteHeader code w =
     (case hw_Sent w of None \<Rightarrow> w\<lparr>hw_Sent := Some (code, hw_Header w)\<rparr> | Some _ \<Rightarrow> w)"

definition StatusOK :: int where "StatusOK = 200"
definition StatusCreated :: int where "StatusCreated = 201"
definition StatusBadRequest :: int where "StatusBadRequest = 400"
definition StatusUnauthorized :: int where "StatusUnauthorized = 401"
definition StatusForbidden :: int where "StatusForbidden = 403"
definition StatusNotFound :: int where "StatusNotFound = 404"
definition StatusMethodNotAllowed :: int where "StatusMethodNotAllowed = 405"
definition StatusConflict :: int where "StatusConflict = 409"
definition StatusUnsupportedMediaType :: int where "StatusUnsupportedMediaType = 415"
definition StatusInternalServerError :: int where "StatusInternalServerError = 500"
definition StatusServiceUnavailable :: int where "StatusServiceUnavailable = 503"

lemmas http_status_defs =
  StatusOK_def StatusCreated_def StatusBadRequest_def StatusUnauthorized_def StatusForbidden_def
  StatusNotFound_def StatusMethodNotAllowed_def StatusConflict_def StatusUnsupportedMediaType_def
  StatusInternalServerError_def StatusServiceUnavailable_def

definition hw_Write :: "string \<Rightarrow> http_writer \<Rightarrow> http_writer" where
  "hw_Write s w = (let w = WriteHeader StatusOK w in w\<lparr>hw_Body := hw_Body w @ s\<rparr>)"

text \<open>\<^verbatim>\<open>http.Error\<close>: a plain-text answer with the message on a line of its own.\<close>

definition http_Error :: "string \<Rightarrow> int \<Rightarrow> http_writer \<Rightarrow> http_writer" where
  "http_Error msg code w =
     hw_Write (msg @ [CHR 0x0A])
       (WriteHeader code
         (header_Set ''X-Content-Type-Options'' ''nosniff''
           (header_Set ''Content-Type'' ''text/plain; charset=utf-8'' (w\<lparr>hw_Header := (hw_Header w)(''Content-Length'' := None)\<rparr>))))"

text \<open>What the client gets: status, header and body.\<close>

definition answer :: "http_writer \<Rightarrow> int \<times> (string \<rightharpoonup> string) \<times> string" where
  "answer w =
     (case hw_Sent w of None \<Rightarrow> (StatusOK, hw_Header w, hw_Body w) | Some (code, h) \<Rightarrow> (code, h, hw_Body w))"

abbreviation answer_code :: "http_writer \<Rightarrow> int" where "answer_code w \<equiv> fst (answer w)"

text \<open>The common shape of an answer: one content type, one status, one body.\<close>

definition http_reply :: "string \<Rightarrow> int \<Rightarrow> string \<Rightarrow> http_writer \<Rightarrow> http_writer" where
  "http_reply ctype code body w = hw_Write body (WriteHeader code (header_Set ''Content-Type'' ctype w))"

section \<open>Numbers in paths\<close>

text \<open>\<^verbatim>\<open>strconv.Atoi\<close>: an optional sign and decimal digits, in the range of 64 bits.\<close>

definition Atoi :: "string \<Rightarrow> int option" where
  "Atoi s =
     (let neg = HasPrefix s ''-''; ds = (if neg \<or> HasPrefix s ''+'' then tl s else s);
          n = foldl (\<lambda>a c. 10 * a + (of_char c - 48)) 0 ds;
          i = (if neg then - int n else int n)
      in if ds \<noteq> [] \<and> list_all (\<lambda>c. 48 \<le> (of_char c :: nat) \<and> (of_char c :: nat) \<le> 57) ds
            \<and> min_int64 \<le> i \<and> i \<le> max_int64
         then Some i else None)"

section \<open>Routing\<close>

text \<open>\<^verbatim>\<open>url.PathUnescape\<close>; the router keeps a segment it cannot unescape as it is.\<close>

definition hex_digit :: "char \<Rightarrow> nat option" where
  "hex_digit c =
     (let n = of_char c :: nat in
      if 48 \<le> n \<and> n \<le> 57 then Some (n - 48)
      else if 97 \<le> n \<and> n \<le> 102 then Some (n - 87)
      else if 65 \<le> n \<and> n \<le> 70 then Some (n - 55)
      else None)"

fun path_unescape :: "string \<Rightarrow> string option" where
  "path_unescape [] = Some []"
| "path_unescape (c # s) =
     (if c = CHR ''%'' then
        (case s of
           a # b # t \<Rightarrow>
             (case (hex_digit a, hex_digit b) of
                (Some x, Some y) \<Rightarrow> map_option (\<lambda>r. char_of (16 * x + y) # r) (path_unescape t)
              | _ \<Rightarrow> None)
         | _ \<Rightarrow> None)
      else map_option (\<lambda>r. c # r) (path_unescape s))"

definition unescape_segment :: "string \<Rightarrow> string" where
  "unescape_segment s = (case path_unescape s of None \<Rightarrow> s | Some t \<Rightarrow> t)"

text \<open>A pattern segment is a literal, a wildcard \<^verbatim>\<open>{name}\<close>, or the anonymous trailing slash that matches
  any rest. A wildcard does not match the empty segment after a trailing slash.\<close>

datatype seg = Lit string | Wild string | Rest

type_synonym path_values = "(string \<times> string) list"

fun match_segs :: "seg list \<Rightarrow> string list \<Rightarrow> path_values option" where
  "match_segs [] [] = Some []"
| "match_segs [Rest] (s # ss) = Some []"
| "match_segs (Lit l # ps) (s # ss) = (if unescape_segment s = l \<and> s \<noteq> [] then match_segs ps ss else None)"
| "match_segs (Wild n # ps) (s # ss) =
     (if s \<noteq> [] then map_option (\<lambda>vs. (n, unescape_segment s) # vs) (match_segs ps ss) else None)"
| "match_segs _ _ = None"

text \<open>The segments of a path and whether \<^verbatim>\<open>cleanPath\<close> leaves it alone; the router redirects any other
  path to its clean form.\<close>

definition path_segments :: "string \<Rightarrow> string list" where
  "path_segments p = (case p of CHR ''/'' # r \<Rightarrow> split_on CHR ''/'' r | _ \<Rightarrow> split_on CHR ''/'' p)"

definition path_clean :: "string \<Rightarrow> bool" where
  "path_clean p \<longleftrightarrow>
     (\<exists>r. p = CHR ''/'' # r) \<and>
     list_all (\<lambda>s. s \<noteq> []) (butlast (path_segments p)) \<and>
     list_all (\<lambda>s. s \<noteq> ''.'' \<and> s \<noteq> ''..'') (path_segments p)"

record 'h mux_route =
  mr_Method :: string
  mr_Pattern :: "seg list"
  mr_Handler :: 'h

datatype 'h routed = Routed 'h path_values | Mux_redirect | Mux_not_allowed | Mux_not_found

definition method_matches :: "string \<Rightarrow> string \<Rightarrow> bool" where
  "method_matches pattern m \<longleftrightarrow> m = pattern \<or> (pattern = ''GET'' \<and> m = ''HEAD'')"

fun find_route :: "'h mux_route list \<Rightarrow> string \<Rightarrow> string list \<Rightarrow> ('h \<times> path_values) option" where
  "find_route [] m segs = None"
| "find_route (r # rs) m segs =
     (if method_matches (mr_Method r) m then
        (case match_segs (mr_Pattern r) segs of Some vs \<Rightarrow> Some (mr_Handler r, vs) | None \<Rightarrow> find_route rs m segs)
      else find_route rs m segs)"

text \<open>A path that misses only the trailing slash of a registered subtree is redirected to it.\<close>

definition slash_missing :: "'h mux_route \<Rightarrow> string \<Rightarrow> string list \<Rightarrow> bool" where
  "slash_missing x m segs \<longleftrightarrow>
     method_matches (mr_Method x) m \<and> length (mr_Pattern x) = Suc (length segs) \<and> last (mr_Pattern x) = Rest
     \<and> last segs \<noteq> [] \<and> match_segs (mr_Pattern x) (segs @ [[]]) \<noteq> None"

definition mux_route :: "'h mux_route list \<Rightarrow> http_request \<Rightarrow> 'h routed" where
  "mux_route rs r =
     (let segs = path_segments (rq_EscapedPath r) in
      if \<not> path_clean (rq_EscapedPath r) then Mux_redirect
      else
        (case find_route rs (rq_Method r) segs of
           Some (h, vs) \<Rightarrow> Routed h vs
         | None \<Rightarrow>
             if \<exists>x \<in> set rs. slash_missing x (rq_Method r) segs then Mux_redirect
             else if \<exists>x \<in> set rs. match_segs (mr_Pattern x) segs \<noteq> None then Mux_not_allowed else Mux_not_found))"

definition PathValue :: "http_request \<Rightarrow> string \<Rightarrow> string" where
  "PathValue r n = (case map_of (rq_PathValues r) n of None \<Rightarrow> [] | Some v \<Rightarrow> v)"

text \<open>\<^verbatim>\<open>ServeMux.ServeHTTP\<close>: run the handler of the route with the path values set, or answer for the
  router. The headers and body of a redirect and the \<^verbatim>\<open>Allow\<close> header are left out.\<close>

definition StatusTemporaryRedirect :: int where "StatusTemporaryRedirect = 307"

definition mux_serve ::
  "'h mux_route list \<Rightarrow> ('h \<Rightarrow> http_request \<Rightarrow> 's \<Rightarrow> http_writer \<Rightarrow> (unit, http_writer) res \<times> 's)
   \<Rightarrow> http_request \<Rightarrow> 's \<Rightarrow> http_writer \<Rightarrow> (unit, http_writer) res \<times> 's"
where
  "mux_serve rs run r s w =
     (case mux_route rs r of
        Routed h vs \<Rightarrow> run h (r\<lparr>rq_PathValues := vs\<rparr>) s w
      | Mux_redirect \<Rightarrow> (Ok (WriteHeader StatusTemporaryRedirect w), s)
      | Mux_not_allowed \<Rightarrow> (Ok (http_Error ''Method Not Allowed'' StatusMethodNotAllowed w), s)
      | Mux_not_found \<Rightarrow> (Ok (http_Error ''404 page not found'' StatusNotFound w), s))"

section \<open>Lemmas\<close>

lemma answer_reply [simp]:
  "hw_Sent w = None \<Longrightarrow> answer (http_reply ctype code body w) = (code, (hw_Header w)(''Content-Type'' \<mapsto> ctype), hw_Body w @ body)"
  by (simp add: answer_def http_reply_def hw_Write_def WriteHeader_def header_Set_def Let_def)

lemma answer_Error [simp]:
  "hw_Sent w = None \<Longrightarrow> answer (http_Error msg code w) =
     (code, (hw_Header w)(''Content-Length'' := None, ''Content-Type'' \<mapsto> ''text/plain; charset=utf-8'',
        ''X-Content-Type-Options'' \<mapsto> ''nosniff''), hw_Body w @ msg @ [CHR 0x0A])"
  by (simp add: answer_def http_Error_def hw_Write_def WriteHeader_def header_Set_def Let_def fun_upd_twist)

lemma new_writer_fresh [simp]: "hw_Sent new_writer = None" "hw_Header new_writer = Map.empty" "hw_Body new_writer = []"
  by (simp_all add: new_writer_def)

lemma find_route_Some:
  "find_route rs m segs = Some (h, vs) \<Longrightarrow>
     \<exists>r \<in> set rs. mr_Handler r = h \<and> method_matches (mr_Method r) m \<and> match_segs (mr_Pattern r) segs = Some vs"
  by (induction rs) (auto split: if_splits option.splits)

lemma unescape_plain: "CHR ''%'' \<notin> set s \<Longrightarrow> path_unescape s = Some s"
  by (induction s rule: path_unescape.induct) auto

lemma unescape_segment_plain [simp]: "CHR ''%'' \<notin> set s \<Longrightarrow> unescape_segment s = s"
  by (simp add: unescape_segment_def unescape_plain)

end
