(* ===== verification/Status_List.thy ===== *)
theory Status_List
  imports Service_Eudiw Go_Http "HOL-Library.Signed_Division"
begin

text \<open>
  \<^verbatim>\<open>internal/statuslist/statuslist.go\<close>: the published Token Status List. The handler reads every status
  of a category, packs two bits per index into a byte string, compresses, encodes and signs it. The
  DEFLATE compressor is the parameter \<open>deflate\<close> (\<open>None\<close> when one of its calls fails).

  \<open>status_at\<close> and \<open>read_status_list\<close> are what a relying party does with the published token. The lemmas
  show that the packed bits, read that way, are the statuses of the store, whatever order the map is
  iterated in, and that the answer carries them.
\<close>

section \<open>Configuration and messages\<close>

record SL_Config =
  slc_SigningKey :: PrivateKey
  slc_X5CChain :: "bytes list"
  slc_BaseURI :: string
  slc_TTL :: duration

record 's SL_Handler =
  slh_store :: "'s store_ops"
  slh_cfg :: SL_Config

definition NewSLHandler :: "'s store_ops \<Rightarrow> SL_Config \<Rightarrow> 's SL_Handler" where
  "NewSLHandler s cfg = \<lparr>slh_store = s, slh_cfg = cfg\<rparr>"

record statusData =
  sd_Bits :: int
  sd_Lst :: string

record statusListPayload =
  slp_Sub :: string
  slp_Iat :: int
  slp_Exp :: int
  slp_StatusList :: statusData

definition Marshal_statusData :: "statusData \<Rightarrow> string" where
  "Marshal_statusData d = json_object [(''bits'', Itoa (sd_Bits d)), (''lst'', json_quote (sd_Lst d))]"

definition Marshal_statusListPayload :: "statusListPayload \<Rightarrow> string" where
  "Marshal_statusListPayload p =
     json_object [(''sub'', json_quote (slp_Sub p)), (''iat'', Itoa (slp_Iat p)), (''exp'', Itoa (slp_Exp p)),
       (''status_list'', Marshal_statusData (slp_StatusList p))]"

section \<open>Packing the statuses\<close>

fun max_index :: "(int \<times> byte) list \<Rightarrow> int \<Rightarrow> int" where
  "max_index [] m = m"
| "max_index ((idx, status) # es) m = max_index es (if m < idx then idx else m)"

text \<open>The bytes that hold the entries; the 64-bit arithmetic of \<^verbatim>\<open>int\<close> is written out.\<close>

definition bitstring_len :: "(int \<times> byte) list \<Rightarrow> int" where
  "bitstring_len entries =
     (let maxIdx = max_index entries 0;
          numEntries = wrap64 (maxIdx + 1);
          numEntries = (if numEntries = 0 then 1 else numEntries)
      in wrap64 (wrap64 (numEntries * 2) + 7) sdiv 8)"

text \<open>The largest allocation of the Go runtime on 64-bit platforms; \<^verbatim>\<open>make\<close> panics beyond it and on a
  negative length.\<close>

definition max_alloc :: int where "max_alloc = 2 ^ 48"

text \<open>One turn of the loop: \<open>None\<close> is an index out of range. A negative remainder becomes a huge unsigned
  shift, which leaves no bit of a byte.\<close>

definition put_entry :: "int \<Rightarrow> byte \<Rightarrow> bytes \<Rightarrow> bytes option" where
  "put_entry idx status bitstring =
     (let bitPos = wrap64 (idx * 2); byteIdx = bitPos sdiv 8; bitOffset = bitPos smod 8 in
      if byteIdx < 0 \<or> int (length bitstring) \<le> byteIdx then None
      else Some (bitstring[nat byteIdx := bitstring ! nat byteIdx OR
             (if bitOffset < 0 then 0 else push_bit (nat bitOffset) (status AND 3))]))"

fun put_entries :: "(int \<times> byte) list \<Rightarrow> bytes \<Rightarrow> bytes option" where
  "put_entries [] bitstring = Some bitstring"
| "put_entries ((idx, status) # es) bitstring =
     (case put_entry idx status bitstring of None \<Rightarrow> None | Some b \<Rightarrow> put_entries es b)"

definition build_bitstring :: "(int \<times> byte) list \<Rightarrow> ('e, bytes) res" where
  "build_bitstring entries =
     (let byteLen = bitstring_len entries in
      if byteLen < 0 \<or> max_alloc < byteLen then Panic
      else (case put_entries entries (replicate (nat byteLen) 0) of None \<Rightarrow> Panic | Some b \<Rightarrow> Ok b))"

section \<open>The handler\<close>

text \<open>\<^verbatim>\<open>int(ttl.Seconds())\<close>: \<open>Seconds\<close> adds the whole seconds and the fraction in double precision. With
  \<open>2 ^ e \<le> sec < 2 ^ (e + 1)\<close> the sum is rounded to a multiple of \<open>2 ^ (e - 52)\<close>, so a fraction within
  half of that of the next second counts as it.\<close>

fun floor_log :: "nat \<Rightarrow> nat" where
  "floor_log n = (if n \<le> 1 then 0 else Suc (floor_log (n div 2)))"

declare floor_log.simps [simp del]

definition whole_seconds :: "duration \<Rightarrow> int" where
  "whole_seconds d =
     (let sec = \<bar>d\<bar> div Second; nsec = \<bar>d\<bar> mod Second; e = floor_log (nat sec) in
      sgn d * (if 0 < sec \<and> Second * (2 ^ (53 - e) - 1) \<le> nsec * 2 ^ (53 - e) then sec + 1 else sec))"

definition status_payload :: "SL_Config \<Rightarrow> instant \<Rightarrow> string \<Rightarrow> string \<Rightarrow> bytes \<Rightarrow> statusListPayload" where
  "status_payload cfg now category listID compressed =
     (let ttl = (if slc_TTL cfg = 0 then Hour else slc_TTL cfg) in
      \<lparr>slp_Sub = slc_BaseURI cfg @ ''/'' @ category @ ''/'' @ listID,
       slp_Iat = to_unix now, slp_Exp = to_unix (now + ttl),
       slp_StatusList = \<lparr>sd_Bits = 2, sd_Lst = RawURLEncoding_Encode compressed\<rparr>\<rparr>)"

definition serve_ok :: "SL_Config \<Rightarrow> string \<Rightarrow> http_writer \<Rightarrow> http_writer" where
  "serve_ok cfg jwt w =
     (let ttl = (if slc_TTL cfg = 0 then Hour else slc_TTL cfg) in
      hw_Write jwt (WriteHeader StatusOK
        (header_Set ''Cache-Control'' (''max-age='' @ Itoa (whole_seconds ttl))
          (header_Set ''Content-Type'' ''application/statuslist+jwt'' w))))"

definition sl_ServeHTTP ::
  "jose_lib \<Rightarrow> (bytes \<Rightarrow> bytes option) \<Rightarrow> 's SL_Handler \<Rightarrow> instant \<Rightarrow> http_request \<Rightarrow> 's \<Rightarrow> http_writer
   \<Rightarrow> (unit, http_writer) res"
where
  "sl_ServeHTTP lib deflate h now r s w =
     (let path = TrimPrefix (rq_Path r) ''/statuslists/'' in
      case split_first CHR ''/'' path of
        [category, listID] \<Rightarrow>
          (case GetAllStatuses (slh_store h) category s of
             Err e \<Rightarrow> Ok (http_Error ''internal error'' StatusInternalServerError w)
           | Panic \<Rightarrow> Panic
           | Ok entries \<Rightarrow>
               (case (build_bitstring entries :: (unit, bytes) res) of
                  Ok bitstring \<Rightarrow>
                    (case deflate bitstring of
                       None \<Rightarrow> Ok (http_Error ''compression error'' StatusInternalServerError w)
                     | Some compressed \<Rightarrow>
                         (let payload = status_payload (slh_cfg h) now category listID compressed in
                          case SignJWT lib (str_bytes (Marshal_statusListPayload payload)) (slc_SigningKey (slh_cfg h))
                                 ''statuslist+jwt'' (slc_X5CChain (slh_cfg h)) of
                            Err e \<Rightarrow> Ok (http_Error ''sign error'' StatusInternalServerError w)
                          | Panic \<Rightarrow> Panic
                          | Ok jwt \<Rightarrow> Ok (serve_ok (slh_cfg h) jwt w)))
                | _ \<Rightarrow> Panic))
      | _ \<Rightarrow> Ok (http_Error ''invalid path'' StatusBadRequest w))"

section \<open>Reading a status list\<close>

definition status_at :: "bytes \<Rightarrow> nat \<Rightarrow> byte" where
  "status_at bits i = drop_bit (2 * (i mod 4)) (bits ! (i div 4)) AND 3"

definition statusData_fields :: "(string \<times> statusData field) list" where
  "statusData_fields =
     [(''bits'', field_int64 (\<lambda>x r. r\<lparr>sd_Bits := x\<rparr>)), (''lst'', field_str (\<lambda>x r. r\<lparr>sd_Lst := x\<rparr>))]"

definition statusListPayload_fields :: "(string \<times> statusListPayload field) list" where
  "statusListPayload_fields =
     [(''sub'', field_str (\<lambda>x r. r\<lparr>slp_Sub := x\<rparr>)), (''iat'', field_int64 (\<lambda>x r. r\<lparr>slp_Iat := x\<rparr>)),
      (''exp'', field_int64 (\<lambda>x r. r\<lparr>slp_Exp := x\<rparr>)),
      (''status_list'', field_struct statusData_fields slp_StatusList (\<lambda>x r. r\<lparr>slp_StatusList := x\<rparr>))]"

definition zero_payload :: statusListPayload where
  "zero_payload = \<lparr>slp_Sub = [], slp_Iat = 0, slp_Exp = 0, slp_StatusList = \<lparr>sd_Bits = 0, sd_Lst = []\<rparr>\<rparr>"

text \<open>Verify the token, decode the payload, decode and inflate the list.\<close>

definition read_status_list ::
  "jose_lib \<Rightarrow> PublicKey \<Rightarrow> (bytes \<Rightarrow> bytes option) \<Rightarrow> string \<Rightarrow> (statusListPayload \<times> bytes) option"
where
  "read_status_list lib pk inflate jwt =
     (case VerifyJWS lib jwt pk of
        Ok payload \<Rightarrow>
          Option.bind (json_Unmarshal statusListPayload_fields (bytes_str payload) zero_payload) (\<lambda>p.
          Option.bind (RawURLEncoding_Decode (sd_Lst (slp_StatusList p))) (\<lambda>c.
            map_option (\<lambda>bits. (p, bits)) (inflate c)))
      | _ \<Rightarrow> None)"

section \<open>Packing and reading agree\<close>

lemma max_index_ge: "m \<le> max_index es m"
  by (induction es m rule: max_index.induct) (auto split: if_splits)

lemma max_index_upper: "(i, v) \<in> set es \<Longrightarrow> i \<le> max_index es m"
proof (induction es m rule: max_index.induct)
  case (2 idx status es m)
  then show ?case using max_index_ge [of "if m < idx then idx else m" es] by (auto split: if_splits)
qed simp

lemma max_index_less: "m < b \<Longrightarrow> \<forall>(i, v) \<in> set es. i < b \<Longrightarrow> max_index es m < b"
  by (induction es m rule: max_index.induct) auto

lemma bitstring_len_eq:
  assumes "\<forall>(i, v) \<in> set es. 0 \<le> i \<and> i < 2 ^ 49"
  shows "bitstring_len es = max_index es 0 div 4 + 1" and "0 \<le> bitstring_len es" and "bitstring_len es \<le> max_alloc"
proof -
  let ?m = "max_index es 0"
  have m: "0 \<le> ?m" "?m < 2 ^ 49" using max_index_ge [of 0 es] max_index_less [of 0 "2 ^ 49" es] assms by auto
  have w: "wrap64 x = x" if "0 \<le> x" "x < 2 ^ 60" for x
    using that by (intro wrap64_id) (auto simp: min_int64_def max_int64_def)
  have "wrap64 (?m + 1) = ?m + 1" "wrap64 ((?m + 1) * 2) = (?m + 1) * 2" "wrap64 ((?m + 1) * 2 + 7) = (?m + 1) * 2 + 7"
    using m by (intro w; simp)+
  then have "bitstring_len es = ((?m + 1) * 2 + 7) sdiv 8" using m by (simp add: bitstring_len_def Let_def)
  also have "\<dots> = ((?m + 1) * 2 + 7) div 8" using m by (simp add: signed_divide_int_def sgn_if)
  also have "\<dots> = ?m div 4 + 1" by presburger
  finally show "bitstring_len es = ?m div 4 + 1" .
  with m show "0 \<le> bitstring_len es" "bitstring_len es \<le> max_alloc" by (simp_all add: max_alloc_def)
qed

text \<open>Two bits at one position of a byte do not disturb the others.\<close>

lemma two_bits_or:
  fixes b s :: byte
  assumes "q < 4" and "r < 4"
  shows "drop_bit (2 * r) (b OR push_bit (2 * q) (s AND 3)) AND 3 =
     (if r = q then (drop_bit (2 * r) b AND 3) OR (s AND 3) else drop_bit (2 * r) b AND 3)"
proof (rule bit_word_eqI)
  fix n
  have three: "(3 :: byte) = mask 2" by (simp add: mask_eq_exp_minus_1)
  have "q \<in> {0, 1, 2, 3}" "r \<in> {0, 1, 2, 3}" using assms by auto
  then show "bit (drop_bit (2 * r) (b OR push_bit (2 * q) (s AND 3)) AND 3) n =
      bit (if r = q then (drop_bit (2 * r) b AND 3) OR (s AND 3) else drop_bit (2 * r) b AND 3) n"
    unfolding three by (auto simp: bit_simps)
qed

lemma put_entry_status:
  assumes "0 \<le> idx" and "idx < 2 ^ 49" and "nat idx div 4 < length b"
  shows "\<exists>b'. put_entry idx v b = Some b' \<and> length b' = length b
     \<and> (\<forall>j < 4 * length b. status_at b' j = (if j = nat idx then status_at b j OR (v AND 3) else status_at b j))"
proof -
  have w: "wrap64 (idx * 2) = idx * 2" using assms by (intro wrap64_id) (auto simp: min_int64_def max_int64_def)
  have d: "idx * 2 sdiv 8 = idx div 4" "idx * 2 smod 8 = 2 * (idx mod 4)"
    using assms(1) by (simp_all add: signed_divide_int_def signed_modulo_int_def sgn_if mult_mod_right mult.commute)
  have n: "nat (idx div 4) = nat idx div 4" "nat (2 * (idx mod 4)) = 2 * (nat idx mod 4)"
    using assms(1) by (simp_all add: nat_div_distrib nat_mult_distrib nat_mod_distrib)
  define k where "k = nat idx div 4"
  define b' where "b' = b[k := b ! k OR push_bit (2 * (nat idx mod 4)) (v AND 3)]"
  have "put_entry idx v b = Some b'"
    using assms n by (simp add: put_entry_def w d Let_def b'_def k_def) linarith
  moreover have "status_at b' j = (if j = nat idx then status_at b j OR (v AND 3) else status_at b j)"
    if "j < 4 * length b" for j
  proof (cases "j div 4 = k")
    case True
    then have "b' ! (j div 4) = b ! k OR push_bit (2 * (nat idx mod 4)) (v AND 3)"
      using assms(3) by (simp add: b'_def k_def)
    moreover have "j mod 4 = nat idx mod 4 \<longleftrightarrow> j = nat idx"
      using True unfolding k_def by (metis div_mult_mod_eq)
    ultimately show ?thesis
      using two_bits_or [of "nat idx mod 4" "j mod 4" "b ! k" v] True
      by (auto simp: status_at_def k_def)
  next
    case False
    then have "b' ! (j div 4) = b ! (j div 4)" "j \<noteq> nat idx" by (auto simp: b'_def k_def)
    then show ?thesis by (simp add: status_at_def)
  qed
  ultimately show ?thesis by (auto simp: b'_def)
qed

lemma put_entries_status:
  assumes "distinct (map fst es)" and "\<forall>(i, v) \<in> set es. 0 \<le> i \<and> i < 2 ^ 49 \<and> nat i div 4 < length b"
    and "\<forall>(i, v) \<in> set es. status_at b (nat i) = 0"
  shows "\<exists>b'. put_entries es b = Some b' \<and> length b' = length b
     \<and> (\<forall>j < 4 * length b. status_at b' j = (case map_of es (int j) of None \<Rightarrow> status_at b j | Some v \<Rightarrow> v AND 3))"
  using assms
proof (induction es arbitrary: b)
  case (Cons e es)
  obtain i v where e: "e = (i, v)" by (cases e)
  have i: "0 \<le> i" "i < 2 ^ 49" "nat i div 4 < length b" "status_at b (nat i) = 0" using Cons.prems by (auto simp: e)
  from put_entry_status [OF i(1-3), of v] obtain b1 where b1: "put_entry i v b = Some b1" "length b1 = length b"
    "\<And>j. j < 4 * length b \<Longrightarrow> status_at b1 j = (if j = nat i then status_at b j OR (v AND 3) else status_at b j)"
    by blast
  have "\<forall>(k, w) \<in> set es. status_at b1 (nat k) = 0"
  proof (clarify)
    fix k w
    assume k: "(k, w) \<in> set es"
    then have "k \<noteq> i" "0 \<le> k" "nat k div 4 < length b" "status_at b (nat k) = 0"
      using Cons.prems by (force simp: e)+
    then show "status_at b1 (nat k) = 0" using b1(3) [of "nat k"] i(1) by auto
  qed
  with Cons.IH [of b1] Cons.prems b1(2) obtain b' where b': "put_entries es b1 = Some b'" "length b' = length b"
    "\<And>j. j < 4 * length b \<Longrightarrow> status_at b' j = (case map_of es (int j) of None \<Rightarrow> status_at b1 j | Some v \<Rightarrow> v AND 3)"
    by auto
  have "map_of es i = None" using Cons.prems(1) by (auto simp: e map_of_eq_None_iff)
  with b'(3) b1(3) i have "status_at b' j = (case map_of (e # es) (int j) of None \<Rightarrow> status_at b j | Some v \<Rightarrow> v AND 3)"
    if "j < 4 * length b" for j
    using that by (auto simp: e split: option.splits)
  with b1(1) b'(1,2) show ?case by (auto simp: e)
qed auto

lemma status_at_zeros: "j < 4 * n \<Longrightarrow> status_at (replicate n 0) j = 0"
  by (simp add: status_at_def less_mult_imp_div_less mult.commute)

text \<open>The bit string holds the status of every index, zero where there is none.\<close>

lemma build_bitstring_status:
  assumes "distinct (map fst es)" and "\<forall>(i, v) \<in> set es. 0 \<le> i \<and> i < 2 ^ 49"
  shows "\<exists>b. build_bitstring es = Ok b \<and> length b = nat (max_index es 0 div 4 + 1)
     \<and> (\<forall>j < 4 * length b. status_at b j = (case map_of es (int j) of None \<Rightarrow> 0 | Some v \<Rightarrow> v AND 3))"
proof -
  let ?n = "nat (bitstring_len es)"
  have m: "0 \<le> max_index es 0" by (rule max_index_ge)
  have in_range: "nat i div 4 < ?n" "nat i < 4 * ?n" if "(i, v) \<in> set es" for i v
  proof -
    have "0 \<le> i" "i \<le> max_index es 0" using that assms(2) max_index_upper [OF that, of 0] by auto
    then have "i div 4 < bitstring_len es" using bitstring_len_eq(1) [OF assms(2)] by (simp add: zdiv_mono1 le_imp_0_less)
    then show "nat i div 4 < ?n" using \<open>0 \<le> i\<close> by linarith
    then show "nat i < 4 * ?n" by linarith
  qed
  have "\<forall>(i, v) \<in> set es. 0 \<le> i \<and> i < 2 ^ 49 \<and> nat i div 4 < length (replicate ?n (0 :: byte))"
    "\<forall>(i, v) \<in> set es. status_at (replicate ?n 0) (nat i) = 0"
    using assms(2) in_range status_at_zeros by auto
  from put_entries_status [OF assms(1) this] obtain b where
    b: "put_entries es (replicate ?n 0) = Some b" "length b = ?n"
    "\<And>j. j < 4 * ?n \<Longrightarrow> status_at b j = (case map_of es (int j) of None \<Rightarrow> status_at (replicate ?n 0) j | Some v \<Rightarrow> v AND 3)"
    by auto
  have "build_bitstring es = Ok b" using b(1) bitstring_len_eq [OF assms(2)] by (simp add: build_bitstring_def Let_def)
  moreover have "length b = nat (max_index es 0 div 4 + 1)" using b(2) bitstring_len_eq(1) [OF assms(2)] by simp
  ultimately show ?thesis using b(2,3) status_at_zeros [of _ ?n] by (auto split: option.splits)
qed

section \<open>The answer\<close>

definition payload_ok :: "statusListPayload \<Rightarrow> bool" where
  "payload_ok p \<longleftrightarrow> utf8_valid (slp_Sub p) \<and> utf8_valid (sd_Lst (slp_StatusList p))
     \<and> min_int64 \<le> slp_Iat p \<and> slp_Iat p \<le> max_int64 \<and> min_int64 \<le> slp_Exp p \<and> slp_Exp p \<le> max_int64
     \<and> min_int64 \<le> sd_Bits (slp_StatusList p) \<and> sd_Bits (slp_StatusList p) \<le> max_int64"

lemma payload_roundtrip:
  assumes "payload_ok p"
  shows "json_Unmarshal statusListPayload_fields (Marshal_statusListPayload p) zero_payload = Some p"
proof -
  define d where "d = slp_StatusList p"
  define ds where "ds = [(''bits'', JNum (Itoa (sd_Bits d)), Itoa (sd_Bits d)),
     (''lst'', JStr (sd_Lst d), json_quote (sd_Lst d))]"
  define ms where "ms = [(''sub'', JStr (slp_Sub p), json_quote (slp_Sub p)),
     (''iat'', JNum (Itoa (slp_Iat p)), Itoa (slp_Iat p)), (''exp'', JNum (Itoa (slp_Exp p)), Itoa (slp_Exp p)),
     (''status_list'', JObj ds, Marshal_statusData d)]"
  have u: "utf8_valid ''bits''" "utf8_valid ''lst''" "utf8_valid ''sub''" "utf8_valid ''iat''" "utf8_valid ''exp''"
    "utf8_valid ''status_list''" by (simp_all add: utf8_valid_ascii)
  have "\<forall>(n, j, w) \<in> set ds. utf8_valid n \<and> encodes 0 w j"
    using assms u by (simp add: ds_def d_def payload_ok_def enc_intros)
  from enc_object [OF this] have e: "encodes 1 (Marshal_statusData d) (JObj ds)"
    by (simp add: Marshal_statusData_def ds_def)
  have ok: "\<forall>(n, j, w) \<in> set ms. utf8_valid n \<and> encodes 1 w j"
    using assms u e by (simp add: ms_def payload_ok_def) (auto intro: enc_intros encodes_mono [of 0])
  have m: "Marshal_statusListPayload p = json_object (map (\<lambda>(n, j, w). (n, w)) ms)"
    by (simp add: Marshal_statusListPayload_def ms_def d_def)
  have ds: "decode_members statusData_fields ds \<lparr>sd_Bits = 0, sd_Lst = []\<rparr> = Some d"
    using assms by (simp add: ds_def d_def statusData_fields_def find_field_def field_str_def field_int64_def
        json_int64_Itoa payload_ok_def)
  have "decode_members statusListPayload_fields ms zero_payload = Some p"
    using assms ds by (simp add: ms_def statusListPayload_fields_def find_field_def field_str_def field_int64_def
        field_struct_def decode_struct_def json_int64_Itoa payload_ok_def zero_payload_def d_def)
  with Unmarshal_object [OF ok, of statusListPayload_fields] m show ?thesis by simp
qed

lemma read_signed_payload:
  assumes "jose_signs lib" and "SignJWT lib (str_bytes (Marshal_statusListPayload p)) key typ x5c = Ok jwt"
    and "payload_ok p" and "sd_Lst (slp_StatusList p) = RawURLEncoding_Encode c" and "inflate c = Some bits"
  shows "read_status_list lib (priv_PublicKey key) inflate jwt = Some (p, bits)"
  using SignJWT_verifies [OF assms(1,2)] payload_roundtrip [OF assms(3)] assms(4,5)
  by (simp add: read_status_list_def)

text \<open>What a relying party must be able to do with the compressor and the key, and when the clock is in
  range.\<close>

definition serves ::
  "jose_lib \<Rightarrow> (bytes \<Rightarrow> bytes option) \<Rightarrow> (bytes \<Rightarrow> bytes option) \<Rightarrow> SL_Config \<Rightarrow> instant \<Rightarrow> bool"
where
  "serves lib deflate inflate cfg now \<longleftrightarrow>
     jose_signs lib \<and> (\<forall>b. \<exists>c. deflate b = Some c \<and> inflate c = Some b)
     \<and> (\<forall>p. \<exists>jwt. SignJWT lib p (slc_SigningKey cfg) ''statuslist+jwt'' (slc_X5CChain cfg) = Ok jwt)
     \<and> (\<forall>ttl \<in> {0, if slc_TTL cfg = 0 then Hour else slc_TTL cfg}.
          min_int64 \<le> to_unix (now + ttl) \<and> to_unix (now + ttl) \<le> max_int64)"

text \<open>The request for a list of a category.\<close>

definition list_request :: "string \<Rightarrow> string \<Rightarrow> http_request \<Rightarrow> bool" where
  "list_request category listID r \<longleftrightarrow>
     rq_Path r = ''/statuslists/'' @ category @ ''/'' @ listID \<and> CHR ''/'' \<notin> set category"

lemma split_first_append: "c \<notin> set a \<Longrightarrow> split_first c (a @ c # b) = [a, b]"
  by (induction a) auto

lemma list_request_split:
  assumes "list_request category listID r"
  shows "split_first CHR ''/'' (TrimPrefix (rq_Path r) ''/statuslists/'') = [category, listID]"
  using assms TrimPrefix_append [of "''/statuslists/''" "category @ CHR ''/'' # listID"]
  by (simp add: list_request_def split_first_append)

text \<open>\<open>status_published\<close>: the answer is a signed list in which every index reads as \<open>entry\<close> says.\<close>

definition status_published ::
  "jose_lib \<Rightarrow> (bytes \<Rightarrow> bytes option) \<Rightarrow> SL_Config \<Rightarrow> instant \<Rightarrow> string \<Rightarrow> string \<Rightarrow> (int \<Rightarrow> byte option)
   \<Rightarrow> http_writer \<Rightarrow> bool"
where
  "status_published lib inflate cfg now category listID entry w \<longleftrightarrow>
     (\<exists>jwt p bits hdr. answer w = (StatusOK, hdr, jwt) \<and> hdr ''Content-Type'' = Some ''application/statuslist+jwt''
        \<and> read_status_list lib (priv_PublicKey (slc_SigningKey cfg)) inflate jwt = Some (p, bits)
        \<and> slp_Sub p = slc_BaseURI cfg @ ''/'' @ category @ ''/'' @ listID \<and> sd_Bits (slp_StatusList p) = 2
        \<and> slp_Iat p = to_unix now
        \<and> (\<forall>i. case entry i of
             None \<Rightarrow> 0 \<le> i \<and> nat i < 4 * length bits \<longrightarrow> status_at bits (nat i) = 0
           | Some v \<Rightarrow> 0 \<le> i \<and> nat i < 4 * length bits \<and> status_at bits (nat i) = v AND 3))"

lemma served_list:
  assumes srv: "serves lib deflate inflate cfg now" and req: "list_request category listID r"
    and utf: "utf8_valid (slc_BaseURI cfg @ ''/'' @ category @ ''/'' @ listID)"
    and es: "GetAllStatuses st category s = Ok es" "distinct (map fst es)" "\<forall>(i, v) \<in> set es. 0 \<le> i \<and> i < 2 ^ 49"
  shows "\<exists>w. sl_ServeHTTP lib deflate (NewSLHandler st cfg) now r s new_writer = Ok w
     \<and> status_published lib inflate cfg now category listID (map_of es) w"
proof -
  obtain bits where b: "build_bitstring es = (Ok bits :: (unit, bytes) res)" "length bits = nat (max_index es 0 div 4 + 1)"
    "\<And>j. j < 4 * length bits \<Longrightarrow> status_at bits j = (case map_of es (int j) of None \<Rightarrow> 0 | Some v \<Rightarrow> v AND 3)"
    using build_bitstring_status [OF es(2,3), where ?'a = unit] by blast
  obtain c where c: "deflate bits = Some c" "inflate c = Some bits" using srv unfolding serves_def by blast
  define p where "p = status_payload cfg now category listID c"
  obtain jwt where jwt: "SignJWT lib (str_bytes (Marshal_statusListPayload p)) (slc_SigningKey cfg)
      ''statuslist+jwt'' (slc_X5CChain cfg) = Ok jwt" using srv unfolding serves_def by blast
  have ok: "payload_ok p" and lst: "sd_Lst (slp_StatusList p) = RawURLEncoding_Encode c"
    using srv utf b64_encode_utf8
    by (simp_all add: payload_ok_def p_def status_payload_def serves_def Let_def min_int64_def max_int64_def)
  have read: "read_status_list lib (priv_PublicKey (slc_SigningKey cfg)) inflate jwt = Some (p, bits)"
    using srv jwt ok lst c(2) by (intro read_signed_payload) (simp_all add: serves_def)
  have in_list: "0 \<le> i \<and> nat i < 4 * length bits" if "map_of es i = Some v" for i v
  proof -
    have "(i, v) \<in> set es" using that by (rule map_of_SomeD)
    then have "0 \<le> i" "i \<le> max_index es 0" using es(3) max_index_upper [of i v es 0] by auto
    then show ?thesis unfolding b(2) by linarith
  qed
  have at: "case map_of es i of
       None \<Rightarrow> 0 \<le> i \<and> nat i < 4 * length bits \<longrightarrow> status_at bits (nat i) = 0
     | Some v \<Rightarrow> 0 \<le> i \<and> nat i < 4 * length bits \<and> status_at bits (nat i) = v AND 3" for i
    using in_list b(3) [of "nat i"] by (auto split: option.split)
  have "sl_ServeHTTP lib deflate (NewSLHandler st cfg) now r s new_writer = Ok (serve_ok cfg jwt new_writer)"
    using list_request_split [OF req] es(1) b(1) c(1) jwt
    by (simp add: sl_ServeHTTP_def NewSLHandler_def Let_def p_def)
  moreover have "status_published lib inflate cfg now category listID (map_of es) (serve_ok cfg jwt new_writer)"
    unfolding status_published_def
    by (rule exI [of _ jwt], rule exI [of _ p], rule exI [of _ bits])
      (use read at in \<open>auto simp: serve_ok_def Let_def answer_def hw_Write_def WriteHeader_def header_Set_def new_writer_def
        p_def status_payload_def\<close>)
  ultimately show ?thesis by blast
qed

context status_store
begin

lemma served_statuses:
  assumes "inv s" and "GetAllStatuses ops category s = Ok es" and "\<forall>i. entry s category i \<noteq> None \<longrightarrow> i < 2 ^ 49"
    and "serves lib deflate inflate cfg now" and "list_request category listID r"
    and "utf8_valid (slc_BaseURI cfg @ ''/'' @ category @ ''/'' @ listID)"
  shows "\<exists>w. sl_ServeHTTP lib deflate (NewSLHandler ops cfg) now r s new_writer = Ok w
     \<and> status_published lib inflate cfg now category listID (entry s category) w"
proof -
  have a: "distinct (map fst es)" "map_of es = entry s category" "\<forall>(i, v) \<in> set es. 0 \<le> i"
    using all_statuses [OF assms(1,2)] by auto
  have "\<forall>(i, v) \<in> set es. 0 \<le> i \<and> i < 2 ^ 49"
    using a assms(3) by (force dest: weak_map_of_SomeI)
  from served_list [OF assms(4-6,2) a(1) this] a(2) show ?thesis by simp
qed

end

text \<open>On the in-memory store the indices of a category are those below its counter.\<close>

lemma memory_served:
  assumes "wf_mem m" and "map_get 0 (m_counters m) category \<le> 2 ^ 49"
    and "serves lib deflate inflate cfg now" and "list_request category listID r"
    and "utf8_valid (slc_BaseURI cfg @ ''/'' @ category @ ''/'' @ listID)"
  shows "\<exists>w. sl_ServeHTTP lib deflate (NewSLHandler memory_ops cfg) now r m new_writer = Ok w
     \<and> status_published lib inflate cfg now category listID (mem_entry m category) w"
proof -
  obtain es where es: "GetAllStatuses memory_ops category m = Ok es"
    by (cases "m_statuses m category") (simp_all add: memory_ops_def mem_GetAllStatuses_def)
  have "\<forall>i. mem_entry m category i \<noteq> None \<longrightarrow> i < 2 ^ 49"
    using assms(1,2) by (auto simp: mem_entry_None_iff simp del: not_None_eq)
  from memory.served_statuses [OF assms(1) es this assms(3-5)] show ?thesis .
qed

section \<open>A concrete list\<close>

definition demo_list_cfg :: SL_Config where
  "demo_list_cfg =
     \<lparr>slc_SigningKey = wp_SigningKey demo_cfg, slc_X5CChain = [], slc_BaseURI = ''https://wp'', slc_TTL = 0\<rparr>"

definition demo_list_request :: http_request where
  "demo_list_request =
     \<lparr>rq_Method = ''GET'', rq_Path = ''/statuslists/ka/0'', rq_EscapedPath = ''/statuslists/ka/0'', rq_Query = [],
      rq_Header = Map.empty, rq_Body = [], rq_BodyFails = False, rq_PathValues = []\<rparr>"

lemma demo_serves: "serves toy_jose Some Some demo_list_cfg 0"
  using toy_jose_signs toy_SignJWT
  by (simp add: serves_def demo_list_cfg_def to_unix_def Hour_def Minute_def Second_def min_int64_def max_int64_def)

lemma demo_list_request: "list_request ''ka'' ''0'' demo_list_request"
  by (simp add: list_request_def demo_list_request_def)

lemma demo_list_utf8: "utf8_valid (slc_BaseURI demo_list_cfg @ ''/'' @ ''ka'' @ ''/'' @ ''0'')"
  by (simp add: demo_list_cfg_def utf8_valid_ascii)

section \<open>Properties\<close>

text \<open>C16: The published list is the store. On a well-formed in-memory store, a request for a list of a
  category is answered with a token that verifies with the provider's key, names the list it was asked
  for, and in which a relying party that inflates the list reads, for every allocated index, the low
  two bits of the stored status, and Valid for every index of the list that is not allocated. The
  order in which the map of statuses is iterated does not matter. A path without a category and a list
  is answered with 400.\<close>

theorem status_list_exact:
  assumes "wf_mem m" and "map_get 0 (m_counters m) category \<le> 2 ^ 49"
    and "serves lib deflate inflate cfg now" and "list_request category listID r"
    and "utf8_valid (slc_BaseURI cfg @ ''/'' @ category @ ''/'' @ listID)"
    and "CHR ''/'' \<notin> set (TrimPrefix (rq_Path r') ''/statuslists/'')"
  shows "(\<exists>w. sl_ServeHTTP lib deflate (NewSLHandler memory_ops cfg) now r m new_writer = Ok w
        \<and> status_published lib inflate cfg now category listID (mem_entry m category) w)
     \<and> (\<exists>w. sl_ServeHTTP lib deflate (NewSLHandler memory_ops cfg) now r' m new_writer = Ok w
        \<and> answer_code w = StatusBadRequest)"
proof -
  have "split_first CHR ''/'' p = [p]" if "CHR ''/'' \<notin> set p" for p
    using that by (induction p) auto
  from memory_served [OF assms(1-5)] this [OF assms(6)] show ?thesis by (simp add: sl_ServeHTTP_def)
qed

theorem status_list_exact_witness:
  "\<exists>w. sl_ServeHTTP toy_jose Some (NewSLHandler memory_ops demo_list_cfg) 0 demo_list_request
        (snd (mem_AllocateIndex ''ka'' NewMemoryStore)) new_writer = Ok w
     \<and> status_published toy_jose Some demo_list_cfg 0 ''ka'' ''0'' [0 \<mapsto> StatusValid] w"
proof -
  have e: "mem_entry (snd (mem_AllocateIndex ''ka'' NewMemoryStore)) ''ka'' = [0 \<mapsto> StatusValid]"
    and n: "map_get 0 (m_counters (snd (mem_AllocateIndex ''ka'' NewMemoryStore))) ''ka'' \<le> 2 ^ 49"
    by (simp_all add: mem_AllocateIndex_def NewMemoryStore_def mem_entry_def map_get_def fun_eq_iff)
  have bad: "CHR ''/'' \<notin> set (TrimPrefix (rq_Path (demo_list_request\<lparr>rq_Path := ''ka''\<rparr>)) ''/statuslists/'')"
    by (simp add: TrimPrefix_def HasPrefix_def)
  from status_list_exact [OF wf_mem_Allocate [OF wf_mem_new] n demo_serves demo_list_request demo_list_utf8 bad]
  show ?thesis by (simp add: e)
qed

end
