(* ===== verification/Admin_Auth.thy ===== *)
theory Admin_Auth
  imports Go_Http Go_Encoding
begin

text \<open>
  \<^verbatim>\<open>internal/authmw/middleware.go\<close>: token authentication and permission checks around HTTP handlers.
  A handler takes the authentication result that the request context carries (\<open>None\<close> for none), the
  request, the state and the writer. The go-tokenauth library is the parameter \<open>claims_lib\<close>; the
  validator is a function from the raw token to the claims it accepts.
\<close>

section \<open>The claims library\<close>

record claims_Result =
  cl_UserID :: string
  cl_TAC :: string

text \<open>\<open>tac_Has\<close> and \<open>tac_HasAll\<close> are the methods of \<^verbatim>\<open>claims.TAC\<close>; \<open>tac_Admin\<close> is \<^verbatim>\<open>claims.TACAdmin\<close>.\<close>

record claims_lib =
  tac_Has :: "string \<Rightarrow> char \<Rightarrow> bool"
  tac_HasAll :: "string \<Rightarrow> string \<Rightarrow> bool"
  tac_Admin :: char

type_synonym Validator = "string \<Rightarrow> claims_Result option"

type_synonym 's hhandler =
  "claims_Result option \<Rightarrow> http_request \<Rightarrow> 's \<Rightarrow> http_writer \<Rightarrow> (unit, http_writer) res \<times> 's"

type_synonym 's middleware = "'s hhandler \<Rightarrow> 's hhandler"

section \<open>The middleware\<close>

definition auth_writeError :: "int \<Rightarrow> string \<Rightarrow> http_writer \<Rightarrow> http_writer" where
  "auth_writeError status msg w =
     http_reply ''application/json'' status
       ([CHR ''{'', CHR 0x22] @ ''error'' @ [CHR 0x22, CHR '':'', CHR 0x22] @ msg @ [CHR 0x22, CHR ''}'']) w"

definition bearer :: string where "bearer = ''Bearer ''"

definition TokenAuth :: "Validator \<Rightarrow> 's middleware" where
  "TokenAuth v next ctx r s w =
     (let auth = header_Get r ''Authorization'' in
      if \<not> HasPrefix auth bearer
      then (Ok (auth_writeError StatusUnauthorized ''missing or malformed authorization header'' w), s)
      else
        (case v (TrimPrefix auth bearer) of
           None \<Rightarrow> (Ok (auth_writeError StatusUnauthorized ''invalid token'' w), s)
         | Some result \<Rightarrow> next (Some result) r s w))"

text \<open>\<^verbatim>\<open>subtle.ConstantTimeCompare\<close> is 1 exactly for equal byte strings.\<close>

definition ConstantTimeCompare :: "bytes \<Rightarrow> bytes \<Rightarrow> int" where
  "ConstantTimeCompare a b = (if a = b then 1 else 0)"

definition DevTokenAuth :: "string \<Rightarrow> 's middleware" where
  "DevTokenAuth token next ctx r s w =
     (let auth = header_Get r ''Authorization'' in
      if \<not> HasPrefix auth bearer
      then (Ok (auth_writeError StatusUnauthorized ''missing or malformed authorization header'' w), s)
      else
        (let provided = TrimPrefix auth bearer in
         if ConstantTimeCompare (str_bytes provided) (str_bytes token) \<noteq> 1
         then (Ok (auth_writeError StatusUnauthorized ''invalid token'' w), s)
         else next (Some \<lparr>cl_UserID = ''dev-admin'', cl_TAC = ''a''\<rparr>) r s w))"

text \<open>32 random bytes in hexadecimal; \<open>None\<close> when the random source fails.\<close>

definition GenerateDevToken :: "(nat \<Rightarrow> byte) option \<Rightarrow> string option" where
  "GenerateDevToken rnd = map_option (\<lambda>f. hex_encode (map f [0..<32])) rnd"

definition RequireTAC :: "claims_lib \<Rightarrow> string \<Rightarrow> 's middleware" where
  "RequireTAC cl required next ctx r s w =
     (case ctx of
        None \<Rightarrow> (Ok (auth_writeError StatusUnauthorized ''no auth context'' w), s)
      | Some result \<Rightarrow>
          if \<not> tac_Has cl (cl_TAC result) (tac_Admin cl) \<and> \<not> tac_HasAll cl (cl_TAC result) required
          then (Ok (auth_writeError StatusForbidden ''insufficient permissions'' w), s)
          else next ctx r s w)"

definition Chain :: "'s middleware list \<Rightarrow> 's middleware" where
  "Chain middlewares final = foldr (\<lambda>m h. m h) middlewares final"

section \<open>Who gets through\<close>

text \<open>The claims a request's credentials stand for, under either kind of authentication.\<close>

definition bearer_token :: "http_request \<Rightarrow> string option" where
  "bearer_token r =
     (let auth = header_Get r ''Authorization'' in if HasPrefix auth bearer then Some (TrimPrefix auth bearer) else None)"

definition permits :: "claims_lib \<Rightarrow> string \<Rightarrow> claims_Result \<Rightarrow> bool" where
  "permits cl required c \<longleftrightarrow> tac_Has cl (cl_TAC c) (tac_Admin cl) \<or> tac_HasAll cl (cl_TAC c) required"

lemma Chain_two: "Chain [a, b] h = a (b h)"
  by (simp add: Chain_def)

text \<open>What the permission check relies on from the middleware before it: the handler behind it runs exactly
  for the requests whose claims \<open>who\<close> gives, with those claims in the context; any other request is
  answered with 401 and the state stays as it was.\<close>

locale auth_guard =
  fixes auth :: "'s middleware" and who :: "http_request \<Rightarrow> claims_Result option"
  assumes admitted: "who r = Some c \<Longrightarrow> auth h ctx r s w = h (Some c) r s w"
    and refused: "who r = None \<Longrightarrow> hw_Sent w = None \<Longrightarrow>
      \<exists>w'. auth h ctx r s w = (Ok w', s) \<and> answer_code w' = StatusUnauthorized"
begin

lemma chain_admitted:
  "who r = Some c \<Longrightarrow> permits cl required c \<Longrightarrow> Chain [auth, RequireTAC cl required] h ctx r s w = h (Some c) r s w"
  by (auto simp: Chain_two admitted RequireTAC_def permits_def)

lemma chain_refused:
  assumes "hw_Sent w = None" and "\<And>c. who r = Some c \<Longrightarrow> \<not> permits cl required c"
  shows "\<exists>w'. Chain [auth, RequireTAC cl required] h ctx r s w = (Ok w', s)
     \<and> answer_code w' = (if who r = None then StatusUnauthorized else StatusForbidden)"
proof (cases "who r")
  case None
  with refused [OF None assms(1)] show ?thesis by (simp add: Chain_two)
next
  case (Some c)
  with assms show ?thesis by (auto simp: Chain_two admitted RequireTAC_def permits_def auth_writeError_def)
qed

end

definition token_claims :: "Validator \<Rightarrow> http_request \<Rightarrow> claims_Result option" where
  "token_claims v r = Option.bind (bearer_token r) v"

definition dev_claims :: "string \<Rightarrow> http_request \<Rightarrow> claims_Result option" where
  "dev_claims token r =
     (if bearer_token r = Some token then Some \<lparr>cl_UserID = ''dev-admin'', cl_TAC = ''a''\<rparr> else None)"

interpretation token: auth_guard "TokenAuth v" "token_claims v" for v
  by unfold_locales
    (auto simp: TokenAuth_def token_claims_def bearer_token_def Let_def auth_writeError_def split: option.splits if_splits)

interpretation dev: auth_guard "DevTokenAuth token" "dev_claims token" for token
  by unfold_locales
    (auto simp: DevTokenAuth_def dev_claims_def bearer_token_def Let_def auth_writeError_def ConstantTimeCompare_def
      split: if_splits)

lemma hex_token_length: "GenerateDevToken rnd = Some t \<Longrightarrow> length t = 64"
proof -
  have "length (hex_encode bs) = 2 * length bs" for bs by (induction bs) auto
  then show "GenerateDevToken rnd = Some t \<Longrightarrow> length t = 64" by (auto simp: GenerateDevToken_def)
qed

end
