(* ===== verification/Admin_Api.thy ===== *)
theory Admin_Api
  imports Admin_Auth Store_Memory Json_Roundtrip
begin

text \<open>
  \<^verbatim>\<open>internal/admin/admin.go\<close>: the lifecycle-store API. Handlers are \<open>hhandler\<close>s over the state of the
  store they are given; \<open>New\<close> builds the routes, behind a token check when one is configured. \<open>q\<close> is the
  \<^verbatim>\<open>%q\<close> verb of \<^verbatim>\<open>fmt\<close>, which the store's error messages use. Go iterates the map of statuses in an
  unspecified order; the model lists the entries in the order of its association list. Log lines are
  left out.
\<close>

section \<open>Texts\<close>

fun store_error_text :: "(string \<Rightarrow> string) \<Rightarrow> store_error \<Rightarrow> string" where
  "store_error_text q (Category_not_found c) = ''category '' @ q c @ '' not found''"
| "store_error_text q (Index_not_found i c) = ''index '' @ Itoa i @ '' not found in category '' @ q c"
| "store_error_text q (Key_not_found k) = ''key '' @ q k @ '' not found''"
| "store_error_text q (No_record c x) = ''no record for '' @ c @ ''/'' @ x"
| "store_error_text q (No_webauthn_credentials c x) = ''no WebAuthn credentials for '' @ c @ ''/'' @ x"
| "store_error_text q Credential_not_found = ''credential not found''"
| "store_error_text q (Backend_error m) = m"

definition writeJSON :: "int \<Rightarrow> string \<Rightarrow> http_writer \<Rightarrow> http_writer" where
  "writeJSON status v w = http_reply ''application/json'' status (v @ [CHR 0x0A]) w"

definition writeAdminError :: "int \<Rightarrow> string \<Rightarrow> http_writer \<Rightarrow> http_writer" where
  "writeAdminError status msg w = writeJSON status (json_object [(''error'', json_quote msg)]) w"

text \<open>The two error branches that look for \<^verbatim>\<open>not found\<close> in the message.\<close>

definition writeStoreError :: "(string \<Rightarrow> string) \<Rightarrow> store_error \<Rightarrow> http_writer \<Rightarrow> http_writer" where
  "writeStoreError q e w =
     (if Contains (store_error_text q e) ''not found''
      then writeAdminError StatusNotFound (store_error_text q e) w
      else writeAdminError StatusInternalServerError (store_error_text q e) w)"

definition statusLabel :: "byte \<Rightarrow> string" where
  "statusLabel s =
     (if s = StatusValid then ''valid''
      else if s = StatusInvalid then ''revoked''
      else if s = StatusSuspended then ''suspended''
      else ''unknown'')"

definition json_byte :: "byte \<Rightarrow> string" where
  "json_byte b = Itoa (int (unat b))"

definition Marshal_entry :: "int \<Rightarrow> byte \<Rightarrow> string" where
  "Marshal_entry idx s =
     json_object [(''idx'', Itoa idx), (''status'', json_byte s), (''label'', json_quote (statusLabel s))]"

text \<open>A \<^verbatim>\<open>[]byte\<close> is standard base64; an empty key stands for the nil slice.\<close>

definition json_bytes :: "bytes \<Rightarrow> string" where
  "json_bytes b =
     (if b = [] then ''null''
      else json_quote (map (\<lambda>c. if c = CHR ''-'' then CHR ''+'' else if c = CHR ''_'' then CHR ''/'' else c)
             (URLEncoding_Encode b)))"

definition Marshal_PublicKeyInfo :: "PublicKeyInfo \<Rightarrow> string" where
  "Marshal_PublicKeyInfo k =
     json_object [(''kid'', json_quote (pk_Kid k)), (''curve'', json_quote (pk_Curve k)),
       (''pub_key'', json_bytes (pk_PubKey k)), (''creation_time'', Itoa (pk_CreationTime k)),
       (''client_id'', json_quote (pk_ClientID k))]"

section \<open>The request body\<close>

definition field_uint8 :: "(byte \<Rightarrow> 'r \<Rightarrow> 'r) \<Rightarrow> 'r field" where
  "field_uint8 upd v raw r =
     (case v of
        JNull \<Rightarrow> Some r
      | JNum s \<Rightarrow>
          if s \<noteq> [] \<and> list_all is_digit s \<and> digits_val s \<le> 255 then Some (upd (of_nat (digits_val s)) r) else None
      | _ \<Rightarrow> None)"

definition status_body_fields :: "(string \<times> byte field) list" where
  "status_body_fields = [(''status'', field_uint8 (\<lambda>x r. x))]"

text \<open>\<^verbatim>\<open>json.NewDecoder(http.MaxBytesReader(w, body, 256)).Decode\<close>: the first value of the first 256 bytes;
  what follows it is not read. An object is complete at its brace; \<^verbatim>\<open>null\<close> at the very end of the bytes
  needs the end of the stream to be complete.\<close>

definition decode_status_body :: "string \<Rightarrow> bool \<Rightarrow> byte option" where
  "decode_status_body body fails =
     (let over = (fails \<or> 256 < length body); s = skip_ws (take 256 body) in
      case json_value (json_fuel_for s) 10000 s of
        None \<Rightarrow> None
      | Some (v, rest) \<Rightarrow>
          if over \<and> v = JNull \<and> rest = [] then None else decode_struct status_body_fields v s 0)"

section \<open>Handlers\<close>

definition handleListStatuses :: "(string \<Rightarrow> string) \<Rightarrow> 's store_ops \<Rightarrow> 's hhandler" where
  "handleListStatuses q st ctx r s w =
     (let category = PathValue r ''category'' in
      case GetAllStatuses st category s of
        Panic \<Rightarrow> (Panic, s)
      | Err e \<Rightarrow> (Ok (writeAdminError StatusInternalServerError (store_error_text q e) w), s)
      | Ok statuses \<Rightarrow>
          (Ok (writeJSON StatusOK
             (json_object [(''category'', json_quote category), (''count'', Itoa (int (length statuses))),
                (''entries'', json_array (map (\<lambda>(idx, s). Marshal_entry idx s) statuses))]) w), s))"

definition handleGetStatus :: "(string \<Rightarrow> string) \<Rightarrow> 's store_ops \<Rightarrow> 's hhandler" where
  "handleGetStatus q st ctx r s w =
     (let category = PathValue r ''category'' in
      case Atoi (PathValue r ''idx'') of
        None \<Rightarrow> (Ok (writeAdminError StatusBadRequest ''invalid index'' w), s)
      | Some idx \<Rightarrow>
          (case GetStatus st category idx s of
             Panic \<Rightarrow> (Panic, s)
           | Err e \<Rightarrow> (Ok (writeStoreError q e w), s)
           | Ok status \<Rightarrow>
               (case IsUsed st category idx s of
                  Panic \<Rightarrow> (Panic, s)
                | u \<Rightarrow>
                    (let used = (case u of Ok b \<Rightarrow> b | _ \<Rightarrow> False) in
                     (Ok (writeJSON StatusOK
                        (json_object [(''category'', json_quote category), (''idx'', Itoa idx),
                           (''label'', json_quote (statusLabel status)), (''status'', json_byte status),
                           (''used'', json_bool used)]) w), s)))))"

definition handleSetStatus :: "(string \<Rightarrow> string) \<Rightarrow> 's store_ops \<Rightarrow> 's hhandler" where
  "handleSetStatus q st ctx r s w =
     (let category = PathValue r ''category'' in
      case Atoi (PathValue r ''idx'') of
        None \<Rightarrow> (Ok (writeAdminError StatusBadRequest ''invalid index'' w), s)
      | Some idx \<Rightarrow>
          (case decode_status_body (rq_Body r) (rq_BodyFails r) of
             None \<Rightarrow> (Ok (writeAdminError StatusBadRequest ''invalid request body'' w), s)
           | Some status \<Rightarrow>
               if StatusSuspended < status
               then (Ok (writeAdminError StatusBadRequest ''status must be 0 (valid), 1 (revoked), or 2 (suspended)'' w), s)
               else
                 (case SetStatus st category idx status s of
                    (Panic, s) \<Rightarrow> (Panic, s)
                  | (Err e, s) \<Rightarrow> (Ok (writeStoreError q e w), s)
                  | (Ok _, s) \<Rightarrow>
                      (Ok (writeJSON StatusOK
                         (json_object [(''category'', json_quote category), (''idx'', Itoa idx),
                            (''label'', json_quote (statusLabel status)), (''status'', json_byte status)]) w), s))))"

text \<open>The status of each index, zero where the lookup fails; \<open>None\<close> is a panic of the store.\<close>

fun index_infos :: "'s store_ops \<Rightarrow> string \<Rightarrow> 's \<Rightarrow> int list \<Rightarrow> string list option" where
  "index_infos st category s [] = Some []"
| "index_infos st category s (idx # idxs) =
     (case GetStatus st category idx s of
        Panic \<Rightarrow> None
      | r \<Rightarrow> map_option (\<lambda>is. Marshal_entry idx (case r of Ok v \<Rightarrow> v | _ \<Rightarrow> 0) # is) (index_infos st category s idxs))"

definition handleGetClientIndices :: "(string \<Rightarrow> string) \<Rightarrow> 's store_ops \<Rightarrow> 's hhandler" where
  "handleGetClientIndices q st ctx r s w =
     (let clientID = PathValue r ''clientID''; category = PathValue r ''category'' in
      case GetClientIndices st clientID category s of
        Panic \<Rightarrow> (Panic, s)
      | Err e \<Rightarrow> (Ok (writeAdminError StatusInternalServerError (store_error_text q e) w), s)
      | Ok indices \<Rightarrow>
          (case index_infos st category s indices of
             None \<Rightarrow> (Panic, s)
           | Some infos \<Rightarrow>
               (Ok (writeJSON StatusOK
                  (json_object [(''category'', json_quote category), (''client_id'', json_quote clientID),
                     (''indices'', json_array infos)]) w), s)))"

definition handleGetUsage :: "(string \<Rightarrow> string) \<Rightarrow> 's store_ops \<Rightarrow> 's hhandler" where
  "handleGetUsage q st ctx r s w =
     (let category = PathValue r ''category'' in
      case Atoi (PathValue r ''idx'') of
        None \<Rightarrow> (Ok (writeAdminError StatusBadRequest ''invalid index'' w), s)
      | Some idx \<Rightarrow>
          (case IsUsed st category idx s of
             Panic \<Rightarrow> (Panic, s)
           | Err e \<Rightarrow> (Ok (writeAdminError StatusInternalServerError (store_error_text q e) w), s)
           | Ok used \<Rightarrow>
               (Ok (writeJSON StatusOK
                  (json_object [(''category'', json_quote category), (''idx'', Itoa idx), (''used'', json_bool used)]) w), s)))"

definition handleAllocateIndex :: "(string \<Rightarrow> string) \<Rightarrow> 's store_ops \<Rightarrow> 's hhandler" where
  "handleAllocateIndex q st ctx r s w =
     (let category = PathValue r ''category'' in
      case AllocateIndex st category s of
        (Panic, s) \<Rightarrow> (Panic, s)
      | (Err e, s) \<Rightarrow> (Ok (writeAdminError StatusInternalServerError (store_error_text q e) w), s)
      | (Ok idx, s) \<Rightarrow>
          (Ok (writeJSON StatusCreated (json_object [(''category'', json_quote category), (''idx'', Itoa idx)]) w), s))"

text \<open>Both branches pass the identifier on; an empty list of keys is a nil slice.\<close>

definition handleListKeys :: "(string \<Rightarrow> string) \<Rightarrow> 's store_ops \<Rightarrow> 's hhandler" where
  "handleListKeys q st ctx r s w =
     (let clientID = query_Get r ''client_id'' in
      case (if clientID \<noteq> [] then ListPublicKeys st clientID s else ListPublicKeys st [] s) of
        Panic \<Rightarrow> (Panic, s)
      | Err e \<Rightarrow> (Ok (writeAdminError StatusInternalServerError (store_error_text q e) w), s)
      | Ok keys \<Rightarrow>
          (Ok (writeJSON StatusOK
             (json_object [(''count'', Itoa (int (length keys))),
                (''keys'', if keys = [] then ''null'' else json_array (map Marshal_PublicKeyInfo keys))]) w), s))"

definition handleGetKey :: "(string \<Rightarrow> string) \<Rightarrow> 's store_ops \<Rightarrow> 's hhandler" where
  "handleGetKey q st ctx r s w =
     (case GetPublicKey st (PathValue r ''kid'') s of
        Panic \<Rightarrow> (Panic, s)
      | Err e \<Rightarrow> (Ok (writeStoreError q e w), s)
      | Ok key \<Rightarrow> (Ok (writeJSON StatusOK (Marshal_PublicKeyInfo key) w), s))"

section \<open>Construction\<close>

record admin_options =
  ao_validator :: "Validator option"
  ao_devToken :: string

datatype admin_opt = WithValidator Validator | WithDevToken string

fun apply_opt :: "admin_opt \<Rightarrow> admin_options \<Rightarrow> admin_options" where
  "apply_opt (WithValidator v) ao = ao\<lparr>ao_validator := Some v\<rparr>"
| "apply_opt (WithDevToken t) ao = ao\<lparr>ao_devToken := t\<rparr>"

definition admin_options_of :: "admin_opt list \<Rightarrow> admin_options" where
  "admin_options_of opts = fold apply_opt opts \<lparr>ao_validator = None, ao_devToken = []\<rparr>"

definition admin_auth :: "admin_options \<Rightarrow> 's middleware option" where
  "admin_auth ao =
     (case ao_validator ao of
        Some v \<Rightarrow> Some (TokenAuth v)
      | None \<Rightarrow> if ao_devToken ao \<noteq> [] then Some (DevTokenAuth (ao_devToken ao)) else None)"

text \<open>The eight endpoints with the permission each needs when authentication is on.\<close>

definition admin_endpoints :: "(string \<Rightarrow> string) \<Rightarrow> 's store_ops \<Rightarrow> (string \<times> 's hhandler) mux_route list" where
  "admin_endpoints q st =
     (let e = (\<lambda>m p tac h. \<lparr>mr_Method = m, mr_Pattern = Lit ''admin'' # Lit ''store'' # p, mr_Handler = (tac, h)\<rparr>) in
      [e ''GET'' [Lit ''statuses'', Wild ''category''] ''l'' (handleListStatuses q st),
       e ''GET'' [Lit ''status'', Wild ''category'', Wild ''idx''] ''r'' (handleGetStatus q st),
       e ''PUT'' [Lit ''status'', Wild ''category'', Wild ''idx''] ''w'' (handleSetStatus q st),
       e ''GET'' [Lit ''clients'', Wild ''clientID'', Wild ''category''] ''l'' (handleGetClientIndices q st),
       e ''GET'' [Lit ''usage'', Wild ''category'', Wild ''idx''] ''r'' (handleGetUsage q st),
       e ''POST'' [Lit ''allocate'', Wild ''category''] ''i'' (handleAllocateIndex q st),
       e ''GET'' [Lit ''keys''] ''l'' (handleListKeys q st),
       e ''GET'' [Lit ''keys'', Wild ''kid''] ''r'' (handleGetKey q st)])"

text \<open>\<open>admin_New\<close> gives the routes of the new handler.\<close>

definition wrap_route :: "('s hhandler \<Rightarrow> string \<Rightarrow> 's hhandler) \<Rightarrow> (string \<times> 's hhandler) mux_route \<Rightarrow> 's hhandler mux_route" where
  "wrap_route f x =
     \<lparr>mr_Method = mr_Method x, mr_Pattern = mr_Pattern x, mr_Handler = f (snd (mr_Handler x)) (fst (mr_Handler x))\<rparr>"

definition admin_New ::
  "claims_lib \<Rightarrow> (string \<Rightarrow> string) \<Rightarrow> 's store_ops \<Rightarrow> admin_opt list \<Rightarrow> 's hhandler mux_route list"
where
  "admin_New cl q st opts =
     (case admin_auth (admin_options_of opts) of
        Some auth \<Rightarrow> map (wrap_route (\<lambda>h tac. Chain [auth, RequireTAC cl tac] h)) (admin_endpoints q st)
      | None \<Rightarrow> map (wrap_route (\<lambda>h tac. h)) (admin_endpoints q st))"

definition admin_ServeHTTP ::
  "'s hhandler mux_route list \<Rightarrow> http_request \<Rightarrow> 's \<Rightarrow> http_writer \<Rightarrow> (unit, http_writer) res \<times> 's"
where
  "admin_ServeHTTP routes r s w = mux_serve routes (\<lambda>h r s w. h None r s w) r s w"

section \<open>Routing through the guard\<close>

lemma find_route_wrap:
  "find_route (map (wrap_route f) rs) m segs =
     map_option (\<lambda>((tac, h), vs). (f h tac, vs)) (find_route rs m segs)"
  by (induction rs) (auto simp: wrap_route_def case_prod_beta split: option.split)

lemma mux_route_wrap:
  "mux_route (map (wrap_route f) rs) r =
     (case mux_route rs r of
        Routed (tac, h) vs \<Rightarrow> Routed (f h tac) vs
      | Mux_redirect \<Rightarrow> Mux_redirect | Mux_not_allowed \<Rightarrow> Mux_not_allowed | Mux_not_found \<Rightarrow> Mux_not_found)"
  by (auto simp: mux_route_def find_route_wrap Let_def slash_missing_def wrap_route_def split: option.split)

definition admin_claims :: "admin_options \<Rightarrow> http_request \<Rightarrow> claims_Result option" where
  "admin_claims ao r =
     (case ao_validator ao of Some v \<Rightarrow> token_claims v r | None \<Rightarrow> dev_claims (ao_devToken ao) r)"

lemma admin_auth_guard: "admin_auth ao = Some auth \<Longrightarrow> auth_guard auth (admin_claims ao)"
  using token.auth_guard_axioms dev.auth_guard_axioms
  by (auto simp: admin_auth_def admin_claims_def [abs_def] split: option.splits if_splits)

lemma claims_path_values [simp]: "admin_claims ao (r\<lparr>rq_PathValues := vs\<rparr>) = admin_claims ao r"
  by (simp add: admin_claims_def token_claims_def dev_claims_def bearer_token_def header_Get_def split: option.split)

lemma guarded_endpoint:
  assumes "admin_auth (admin_options_of opts) = Some auth" and "mux_route (admin_endpoints q st) r = Routed (tac, h) vs"
  shows "admin_ServeHTTP (admin_New cl q st opts) r s w = Chain [auth, RequireTAC cl tac] h None (r\<lparr>rq_PathValues := vs\<rparr>) s w"
  using assms by (simp add: admin_ServeHTTP_def admin_New_def mux_serve_def mux_route_wrap)

text \<open>Only the two writing endpoints change the store.\<close>

lemma reading_handlers:
  "snd (handleListStatuses q st ctx r s w) = s" "snd (handleGetStatus q st ctx r s w) = s"
  "snd (handleGetClientIndices q st ctx r s w) = s" "snd (handleGetUsage q st ctx r s w) = s"
  "snd (handleListKeys q st ctx r s w) = s" "snd (handleGetKey q st ctx r s w) = s"
  by (auto simp: handleListStatuses_def handleGetStatus_def handleGetClientIndices_def handleGetUsage_def
      handleListKeys_def handleGetKey_def Let_def split: res.split option.split)

lemma reading_endpoints:
  assumes "x \<in> set (admin_endpoints q st)" and "mr_Method x = ''GET''"
  shows "snd (snd (mr_Handler x) ctx r s w) = s"
  using assms by (auto simp: admin_endpoints_def Let_def reading_handlers)

lemma routed_endpoint:
  assumes "mux_route rs r = Routed h vs"
  shows "\<exists>x \<in> set rs. mr_Handler x = h \<and> method_matches (mr_Method x) (rq_Method r)"
  using assms find_route_Some [of rs "rq_Method r" "path_segments (rq_EscapedPath r)" h vs]
  by (auto simp: mux_route_def Let_def split: if_splits option.splits)

section \<open>Setting a status\<close>

lemma nat_str_uint8: "digits_val (nat_str n) = n" "list_all is_digit (nat_str n)" "nat_str n \<noteq> []"
  by (simp_all add: nat_str_val nat_str_digits)

definition status_body :: "nat \<Rightarrow> string" where
  "status_body n = json_object [(''status'', Itoa (int n))]"

lemma decode_status_body_object:
  assumes "length (status_body n) \<le> 256"
  shows "decode_status_body (status_body n) False = (if n \<le> 255 then Some (of_nat n) else None)"
proof -
  define ms where "ms = [(''status'', JNum (Itoa (int n)), Itoa (int n))]"
  have "\<forall>(k, j, w) \<in> set ms. utf8_valid k \<and> encodes 0 w j"
    by (simp add: ms_def enc_intros utf8_valid_ascii)
  from enc_object [OF this] have e: "encodes 1 (status_body n) (JObj ms)" by (simp add: status_body_def ms_def)
  have i: "Itoa (int n) = nat_str n" by (simp add: Itoa_def)
  have "skip_ws (status_body n) = status_body n" using encodes_skip [OF e, of "[]"] by simp
  moreover have "read_value 10000 (status_body n) = Some (JObj ms, [])"
    using encodes_read [OF e, of 10000 "[]"] by (simp add: delim_def)
  moreover have "decode_struct status_body_fields (JObj ms) x 0 = (if n \<le> 255 then Some (of_nat n) else None)" for x
    by (simp add: decode_struct_def ms_def status_body_fields_def find_field_def field_uint8_def i nat_str_uint8)
  ultimately show ?thesis
    using assms by (simp add: decode_status_body_def Let_def read_value_def)
qed

lemma Atoi_Itoa:
  assumes "min_int64 \<le> i" and "i \<le> max_int64"
  shows "Atoi (Itoa i) = Some i"
proof -
  obtain c t where ct: "nat_str (nat i) = c # t" using nat_str_ne [of "nat i"] by (cases "nat_str (nat i)") auto
  then have "is_digit c" using nat_str_digits [of "nat i"] by simp
  then have c: "c \<noteq> CHR ''-''" "c \<noteq> CHR ''+''" by (auto simp: is_digit_def)
  have dv: "foldl (\<lambda>a c. 10 * a + (of_char c - 48)) 0 (nat_str n) = n" for n
    using nat_str_val [of n] by (simp add: digits_val_def)
  have ld: "list_all (\<lambda>c. 48 \<le> (of_char c :: nat) \<and> (of_char c :: nat) \<le> 57) (nat_str n)" for n
    using nat_str_digits [of n] by (simp add: is_digit_def [abs_def])
  have p: "HasPrefix (x # xs) [y] \<longleftrightarrow> x = y" for x y :: char and xs by (auto simp: HasPrefix_def)
  show ?thesis
  proof (cases "i < 0")
    case True
    with assms show ?thesis by (simp add: Atoi_def Itoa_def Let_def p dv ld)
  next
    case False
    then have "Itoa i = nat_str (nat i)" by (simp add: Itoa_def)
    moreover have "\<not> HasPrefix (nat_str (nat i)) ''-''" "\<not> HasPrefix (nat_str (nat i)) ''+''" using c by (simp_all add: ct p)
    ultimately show ?thesis using False assms by (simp add: Atoi_def Let_def dv ld)
  qed
qed

lemma Contains_infix: "Contains (a @ w @ b) w"
proof (induction a)
  case Nil
  have "HasPrefix (w @ b) w" by simp
  then show ?case by (cases "w @ b") simp_all
qed simp

lemma not_found_texts:
  "Contains (store_error_text q (Category_not_found c)) ''not found''"
  "Contains (store_error_text q (Index_not_found i c)) ''not found''"
  "Contains (store_error_text q (Key_not_found k)) ''not found''"
  using Contains_infix [of "''category '' @ q c @ '' ''" "''not found''" "[]"]
    Contains_infix [of "''index '' @ Itoa i @ '' ''" "''not found''" "'' in category '' @ q c"]
    Contains_infix [of "''key '' @ q k @ '' ''" "''not found''" "[]"]
  by simp_all

lemma writeJSON_code [simp]: "hw_Sent w = None \<Longrightarrow> answer_code (writeJSON status v w) = status"
  by (simp add: writeJSON_def)

lemma writeAdminError_code [simp]: "hw_Sent w = None \<Longrightarrow> answer_code (writeAdminError status msg w) = status"
  by (simp add: writeAdminError_def)

lemma guarded_outcome:
  fixes s :: 's and auth :: "'s middleware"
  assumes "admin_auth (admin_options_of opts) = Some auth" and "mux_route (admin_endpoints q st) r = Routed (tac, h) vs"
  shows "case admin_claims (admin_options_of opts) r of
       None \<Rightarrow> \<exists>w. admin_ServeHTTP (admin_New cl q st opts) r s new_writer = (Ok w, s) \<and> answer_code w = StatusUnauthorized
     | Some c \<Rightarrow>
         if permits cl tac c
         then admin_ServeHTTP (admin_New cl q st opts) r s new_writer = h (Some c) (r\<lparr>rq_PathValues := vs\<rparr>) s new_writer
         else \<exists>w. admin_ServeHTTP (admin_New cl q st opts) r s new_writer = (Ok w, s) \<and> answer_code w = StatusForbidden"
proof -
  let ?r = "r\<lparr>rq_PathValues := vs\<rparr>"
  note serve = guarded_endpoint [OF assms, of cl s new_writer]
  note g = admin_auth_guard [OF assms(1)]
  show ?thesis
  proof (cases "admin_claims (admin_options_of opts) r")
    case None
    with auth_guard.chain_refused [OF g, of new_writer ?r cl tac h None s] show ?thesis by (simp add: serve)
  next
    case (Some c)
    with auth_guard.chain_refused [OF g, of new_writer ?r cl tac h None s]
      auth_guard.chain_admitted [OF g, of ?r c cl tac h None s new_writer] show ?thesis by (simp add: serve)
  qed
qed

lemma unrouted_outcome:
  fixes s :: 's
  assumes "\<And>h vs. mux_route (admin_endpoints q st) r \<noteq> Routed h vs"
  shows "\<exists>w. admin_ServeHTTP (admin_New cl q st opts) r s new_writer = (Ok w, s)
     \<and> answer_code w \<in> {StatusTemporaryRedirect, StatusMethodNotAllowed, StatusNotFound}"
  using assms
  by (cases "mux_route (admin_endpoints q st) r"; cases "admin_auth (admin_options_of opts) :: 's middleware option")
    (simp_all add: admin_ServeHTTP_def admin_New_def mux_serve_def mux_route_wrap answer_def WriteHeader_def
      http_Error_def hw_Write_def header_Set_def Let_def)

lemma get_keeps_store:
  fixes s :: 's and auth :: "'s middleware"
  assumes "method_matches ''GET'' (rq_Method r)" and "admin_auth (admin_options_of opts) = Some auth"
  shows "snd (admin_ServeHTTP (admin_New cl q st opts) r s new_writer) = s"
proof (cases "mux_route (admin_endpoints q st) r")
  case (Routed p vs)
  obtain tac h where p: "p = (tac, h)" by (cases p)
  obtain x where x: "x \<in> set (admin_endpoints q st)" "mr_Handler x = p" "method_matches (mr_Method x) (rq_Method r)"
    using routed_endpoint [OF Routed] by blast
  have "mr_Method x = ''GET''" using x(1,3) assms(1) by (auto simp: admin_endpoints_def Let_def method_matches_def)
  from reading_endpoints [OF x(1) this] have "snd (h ctx r' s w) = s" for ctx r' w by (simp add: x(2) p)
  with guarded_outcome [OF assms(2) Routed [unfolded p], of cl s] show ?thesis
    by (auto split: option.splits if_splits)
next
  case Mux_redirect
  then show ?thesis using unrouted_outcome [of q st r cl opts s] by auto
next
  case Mux_not_allowed
  then show ?thesis using unrouted_outcome [of q st r cl opts s] by auto
next
  case Mux_not_found
  then show ?thesis using unrouted_outcome [of q st r cl opts s] by auto
qed

lemma mem_GetStatus_Ok_iff: "mem_GetStatus cat i m = Ok v \<longleftrightarrow> mem_entry m cat i = Some v"
  by (auto simp: mem_GetStatus_def mem_entry_def map_get_def split: option.splits)

lemma status_number_gt: "2 < n \<Longrightarrow> n \<le> 255 \<Longrightarrow> StatusSuspended < of_nat n"
  by (simp add: StatusSuspended_def word_less_nat_alt unat_of_nat)

lemma status_number_le:
  assumes "n \<le> 2"
  shows "\<not> StatusSuspended < of_nat n \<and> statusLabel (of_nat n) = [''valid'', ''revoked'', ''suspended''] ! n
      \<and> json_byte (of_nat n) = Itoa (int n)"
proof -
  have "n = 0 \<or> n = 1 \<or> n = 2" using assms by auto
  then show ?thesis
    by (elim disjE) (simp_all add: StatusSuspended_def StatusInvalid_def StatusValid_def statusLabel_def json_byte_def)
qed

text \<open>The status a request asks for, said of the JSON value at the front of the first 256 bytes of its body: the last
  member called status (in any case, nulls apart) of an object, all of which have to be numbers of eight
  bits; zero for an object without one, and for \<^verbatim>\<open>null\<close>, unless its end may have been cut off. Anything else is
  no request.\<close>

definition status_number :: "json \<Rightarrow> nat option" where
  "status_number v =
     (case v of
        JNum s \<Rightarrow> if s \<noteq> [] \<and> list_all is_digit s \<and> digits_val s \<le> 255 then Some (digits_val s) else None
      | _ \<Rightarrow> None)"

definition status_values :: "(string \<times> json \<times> string) list \<Rightarrow> json list" where
  "status_values ms = [v. (k, v, raw) \<leftarrow> ms, foldName k = ''STATUS'' \<and> v \<noteq> JNull]"

definition wanted_status :: "http_request \<Rightarrow> nat option" where
  "wanted_status r =
     (case read_value 10000 (skip_ws (take 256 (rq_Body r))) of
        Some (JObj ms, rest) \<Rightarrow>
          (let vs = status_values ms in
           if list_ex (\<lambda>v. status_number v = None) vs then None
           else if vs = [] then Some 0 else status_number (last vs))
      | Some (JNull, rest) \<Rightarrow> if rest = [] \<and> (rq_BodyFails r \<or> 256 < length (rq_Body r)) then None else Some 0
      | _ \<Rightarrow> None)"

lemma status_field:
  "find_field status_body_fields k = (if foldName k = ''STATUS'' then Some (field_uint8 (\<lambda>x r. x)) else None)"
  by (auto simp: find_field_def status_body_fields_def ascii_upper_def char_of_def bit_0)

lemma decode_status_members:
  "decode_members status_body_fields ms x =
     (let vs = status_values ms in
      if list_ex (\<lambda>v. status_number v = None) vs then None
      else if vs = [] then Some x else map_option of_nat (status_number (last vs)))"
proof (induction ms arbitrary: x)
  case (Cons y ms)
  obtain k v raw where y: "y = (k, v, raw)" by (cases y)
  show ?case
    by (auto simp: y status_field Cons.IH Let_def status_values_def field_uint8_def status_number_def split: json.split if_splits)
qed (simp add: status_values_def)

lemma decode_wanted: "decode_status_body (rq_Body r) (rq_BodyFails r) = map_option of_nat (wanted_status r)"
  by (auto simp: decode_status_body_def wanted_status_def read_value_def [symmetric] Let_def decode_struct_def decode_status_members
      split: option.split json.split)

lemma wanted_range: "wanted_status r = Some n \<Longrightarrow> n \<le> 255"
  by (auto simp: wanted_status_def status_number_def Let_def split: option.splits json.splits if_splits)

lemma wanted_status_body:
  assumes "rq_Body r = status_body n" and "length (status_body n) \<le> 256" and "\<not> rq_BodyFails r"
  shows "wanted_status r = (if n \<le> 255 then Some n else None)"
proof -
  have "map_option of_nat (wanted_status r) = (if n \<le> 255 then Some (of_nat n :: byte) else None)"
    using decode_wanted [of r] decode_status_body_object [OF assms(2)] assms(1,3) by simp
  moreover have "m = n" if "m \<le> 255" "n \<le> 255" "(of_nat m :: byte) = of_nat n" for m
    using that by (simp add: word_of_nat_eq_iff take_bit_eq_mod)
  ultimately show ?thesis using wanted_range [of r] by (cases "wanted_status r") (auto split: if_splits)
qed

lemma wanted_empty:
  assumes "rq_Body r \<in> {''{}'', ''null''}" and "\<not> rq_BodyFails r"
  shows "wanted_status r = Some 0"
proof -
  have "read_value 10000 ''{}'' = Some (JObj [], [])" by (subst read_value_eq) (simp add: value_step_def json_ws_def)
  moreover have "read_value 10000 ''null'' = Some (JNull, [])" by (subst read_value_eq) (simp add: value_step_def HasPrefix_def)
  ultimately show ?thesis using assms by (auto simp: wanted_status_def status_values_def json_ws_def)
qed

section \<open>Answers of the status endpoint\<close>

abbreviation (input) status_report :: "string \<Rightarrow> int \<Rightarrow> nat \<Rightarrow> MemoryStore \<Rightarrow> int \<times> (string \<rightharpoonup> string) \<times> string" where
  "status_report cat i n m \<equiv>
     (200, [''Content-Type'' \<mapsto> ''application/json''],
      json_object [(''category'', json_quote cat), (''idx'', Itoa i),
        (''label'', json_quote ([''valid'', ''revoked'', ''suspended''] ! n)), (''status'', Itoa (int n)),
        (''used'', json_bool (map_get False (m_usage m) (usage_key cat i)))] @ [CHR 0x0A])"

lemma set_status_refused:
  assumes "handleSetStatus q memory_ops ctx r m new_writer = (res, m')"
    and "Atoi (PathValue r ''idx'') = None \<or> wanted_status r = None \<or> (\<exists>n. wanted_status r = Some n \<and> 2 < n)"
  shows "m' = m \<and> (\<exists>w. res = Ok w \<and> answer_code w = 400)"
proof (cases "Atoi (PathValue r ''idx'') = None \<or> wanted_status r = None")
  case True
  with assms(1) show ?thesis by (auto simp: handleSetStatus_def Let_def decode_wanted StatusBadRequest_def split: option.splits)
next
  case False
  with assms(2) obtain i n where n: "Atoi (PathValue r ''idx'') = Some i" "wanted_status r = Some n" "2 < n" by auto
  with assms(1) status_number_gt [OF n(3) wanted_range [OF n(2)]] show ?thesis
    by (auto simp: handleSetStatus_def Let_def decode_wanted StatusBadRequest_def)
qed

lemma get_status_report:
  assumes "Atoi (PathValue r ''idx'') = Some i" and "n \<le> 2" and "mem_entry m (PathValue r ''category'') i = Some (of_nat n)"
  shows "\<exists>w. handleGetStatus q memory_ops ctx r m new_writer = (Ok w, m) \<and> answer w = status_report (PathValue r ''category'') i n m"
  using status_number_le [OF assms(2)] mem_GetStatus_Ok_iff [THEN iffD2, OF assms(3)]
  by (simp add: handleGetStatus_def Let_def assms(1) memory_ops_def mem_IsUsed_def writeJSON_def StatusOK_def)

lemma set_status_wanted:
  assumes "wf_mem m" and set: "handleSetStatus q memory_ops ctx r m new_writer = (res, m')" and cat: "PathValue r ''category'' = cat"
    and i: "Atoi (PathValue r ''idx'') = Some i" and n: "wanted_status r = Some n" "n \<le> 2"
  shows "mem_entry m cat i = None \<Longrightarrow> m' = m \<and> (\<exists>w. res = Ok w \<and> answer_code w = 404)"
    and "mem_entry m cat i \<noteq> None \<Longrightarrow> (\<exists>w. res = Ok w \<and> answer_code w = 200) \<and> wf_mem m'
       \<and> mem_entry m' = (mem_entry m)(cat := (mem_entry m cat)(i \<mapsto> of_nat n))
       \<and> (\<exists>w. handleGetStatus q memory_ops ctx r m' new_writer = (Ok w, m') \<and> answer w = status_report cat i n m')"
proof -
  note good = status_number_le [OF n(2)]
  show "m' = m \<and> (\<exists>w. res = Ok w \<and> answer_code w = 404)" if "mem_entry m cat i = None"
    using set good that by (auto simp: handleSetStatus_def Let_def decode_wanted cat i n memory_ops_def mem_SetStatus_def mem_entry_def
        map_get_def writeStoreError_def not_found_texts StatusNotFound_def simp del: store_error_text.simps split: option.splits)
  assume e: "mem_entry m cat i \<noteq> None"
  obtain sr sm where ss: "mem_SetStatus cat i (of_nat n) m = (sr, sm)" by (metis surj_pair)
  note eqs = mem_SetStatus_eq [OF ss]
  have ok: "(\<exists>w. res = Ok w \<and> answer_code w = 200)" "m' = sm" "sr = Ok ()"
    using set good e ss eqs(1) by (auto simp: handleSetStatus_def Let_def decode_wanted cat i n memory_ops_def StatusOK_def)
  have upd: "mem_entry m' = (mem_entry m)(cat := (mem_entry m cat)(i \<mapsto> of_nat n))"
    using eqs(3) [OF ok(3)] ok(2) by (auto simp: fun_eq_iff)
  have "wf_mem m'" using wf_mem_SetStatus [OF assms(1), of cat i "of_nat n"] ss ok(2) by simp
  with ok(1) upd get_status_report [OF i n(2), of m' q ctx]
  show "(\<exists>w. res = Ok w \<and> answer_code w = 200) \<and> wf_mem m'
       \<and> mem_entry m' = (mem_entry m)(cat := (mem_entry m cat)(i \<mapsto> of_nat n))
       \<and> (\<exists>w. handleGetStatus q memory_ops ctx r m' new_writer = (Ok w, m') \<and> answer w = status_report cat i n m')"
    by (simp add: cat)
qed

section \<open>A concrete server\<close>

definition demo_claims :: claims_lib where
  "demo_claims = \<lparr>tac_Has = (\<lambda>t c. c \<in> set t), tac_HasAll = (\<lambda>t cs. set cs \<subseteq> set t), tac_Admin = CHR ''a''\<rparr>"

definition demo_put :: "string \<Rightarrow> nat \<Rightarrow> http_request" where
  "demo_put auth n =
     \<lparr>rq_Method = ''PUT'', rq_Path = ''/admin/store/status/ka/0'', rq_EscapedPath = ''/admin/store/status/ka/0'', rq_Query = [],
      rq_Header = [''Authorization'' \<mapsto> auth], rq_Body = status_body n, rq_BodyFails = False, rq_PathValues = []\<rparr>"

lemma demo_put_routed:
  "mux_route (admin_endpoints q st) (demo_put auth n) =
     Routed (''w'', handleSetStatus q st) [(''category'', ''ka''), (''idx'', ''0'')]"
  by (simp add: mux_route_def demo_put_def path_segments_def path_clean_def admin_endpoints_def Let_def method_matches_def)

section \<open>Properties\<close>

text \<open>C17: The admin API is closed. When a validator or a development token is configured, a request for an
  endpoint reaches the endpoint's handler exactly if it carries a Bearer token that the validator
  accepts, respectively the configured token, and the permissions of the token include the admin
  permission or the one the endpoint asks for. Without a token it is answered with 401, without the
  permission with 403; a request no endpoint matches gets no 2xx answer. In none of these cases does
  the store change. Endpoints for GET never change the store.\<close>

theorem admin_access_exact:
  fixes s :: 's
  assumes "ao_validator (admin_options_of opts) \<noteq> None \<or> ao_devToken (admin_options_of opts) \<noteq> []"
  shows "(case mux_route (admin_endpoints q st) r of
       Routed (tac, h) vs \<Rightarrow>
         (case admin_claims (admin_options_of opts) r of
            None \<Rightarrow> \<exists>w. admin_ServeHTTP (admin_New cl q st opts) r s new_writer = (Ok w, s) \<and> answer_code w = StatusUnauthorized
          | Some c \<Rightarrow>
              if permits cl tac c
              then admin_ServeHTTP (admin_New cl q st opts) r s new_writer = h (Some c) (r\<lparr>rq_PathValues := vs\<rparr>) s new_writer
              else \<exists>w. admin_ServeHTTP (admin_New cl q st opts) r s new_writer = (Ok w, s) \<and> answer_code w = StatusForbidden)
     | _ \<Rightarrow> \<exists>w. admin_ServeHTTP (admin_New cl q st opts) r s new_writer = (Ok w, s)
         \<and> answer_code w \<in> {StatusTemporaryRedirect, StatusMethodNotAllowed, StatusNotFound})
     \<and> (method_matches ''GET'' (rq_Method r) \<longrightarrow> snd (admin_ServeHTTP (admin_New cl q st opts) r s new_writer) = s)"
proof -
  have "admin_auth (admin_options_of opts) \<noteq> (None :: 's middleware option)"
    using assms by (auto simp: admin_auth_def split: option.split)
  then obtain auth where a: "admin_auth (admin_options_of opts) = (Some auth :: 's middleware option)" by blast
  show ?thesis
    using guarded_outcome [OF a, of q st r] unrouted_outcome [of q st r cl opts s] get_keeps_store [OF _ a, of r cl q st s]
    by (cases "mux_route (admin_endpoints q st) r") (auto simp: split_paired_all)
qed

theorem admin_access_exact_witness:
  "\<exists>w. admin_ServeHTTP (admin_New demo_claims (\<lambda>s. s) memory_ops [WithDevToken ''secret'']) (demo_put ''Bearer wrong'' 1)
         NewMemoryStore new_writer = (Ok w, NewMemoryStore) \<and> answer_code w = StatusUnauthorized"
proof -
  have o: "admin_options_of [WithDevToken ''secret''] = \<lparr>ao_validator = None, ao_devToken = ''secret''\<rparr>"
    by (simp add: admin_options_of_def)
  have "admin_claims (admin_options_of [WithDevToken ''secret'']) (demo_put ''Bearer wrong'' 1) = None"
    by (simp add: o admin_claims_def dev_claims_def bearer_token_def header_Get_def demo_put_def bearer_def HasPrefix_def
        TrimPrefix_def)
  with admin_access_exact [of "[WithDevToken ''secret'']", where q = "\<lambda>s. s" and st = memory_ops
      and r = "demo_put ''Bearer wrong'' 1" and cl = demo_claims and s = NewMemoryStore]
  show ?thesis by (simp add: o demo_put_routed)
qed

text \<open>C39: Setting a status. A PUT on an index of a category whose index is not a number, whose body asks for no
  status (it is no JSON object, cut off at 256 bytes or by the connection, or has a status member that is no
  number of eight bits) or for one above 2 is answered with 400 and changes nothing. Otherwise the status asked
  for is the last status member, and zero, that is valid, for an object without one and for null; when the
  category has no such index the answer is 404 and nothing changes, and else it is 200, exactly that entry
  gets the status, the store stays well-formed, and a GET of the entry reports the new status with its label.
  Printed indices and canonical bodies ask for what they print.\<close>

theorem admin_set_status_exact:
  assumes "wf_mem m" and "PathValue r ''category'' = cat"
    and set: "handleSetStatus q memory_ops ctx r m new_writer = (res, m')"
  shows "(Atoi (PathValue r ''idx'') = None \<or> wanted_status r = None \<or> (\<exists>n. wanted_status r = Some n \<and> 2 < n) \<longrightarrow>
          m' = m \<and> (\<exists>w. res = Ok w \<and> answer_code w = 400))
     \<and> (\<forall>i n. Atoi (PathValue r ''idx'') = Some i \<and> wanted_status r = Some n \<and> n \<le> 2 \<longrightarrow>
          (mem_entry m cat i = None \<longrightarrow> m' = m \<and> (\<exists>w. res = Ok w \<and> answer_code w = 404))
        \<and> (mem_entry m cat i \<noteq> None \<longrightarrow>
            (\<exists>w. res = Ok w \<and> answer_code w = 200) \<and> wf_mem m'
            \<and> mem_entry m' = (mem_entry m)(cat := (mem_entry m cat)(i \<mapsto> of_nat n))
            \<and> (\<exists>w. handleGetStatus q memory_ops ctx r m' new_writer = (Ok w, m')
                 \<and> answer w = (200, [''Content-Type'' \<mapsto> ''application/json''],
                     json_object [(''category'', json_quote cat), (''idx'', Itoa i),
                       (''label'', json_quote ([''valid'', ''revoked'', ''suspended''] ! n)), (''status'', Itoa (int n)),
                       (''used'', json_bool (map_get False (m_usage m') (usage_key cat i)))] @ [CHR 0x0A]))))
     \<and> (\<forall>i. min_int64 \<le> i \<and> i \<le> max_int64 \<longrightarrow> Atoi (Itoa i) = Some i)
     \<and> (\<forall>n. rq_Body r = status_body n \<and> length (status_body n) \<le> 256 \<and> \<not> rq_BodyFails r \<longrightarrow>
          wanted_status r = (if n \<le> 255 then Some n else None))
     \<and> (rq_Body r \<in> {''{}'', ''null''} \<and> \<not> rq_BodyFails r \<longrightarrow> wanted_status r = Some 0)"
proof (intro conjI allI impI; (elim conjE)?)
  fix i n
  assume a: "Atoi (PathValue r ''idx'') = Some i" "wanted_status r = Some n" "n \<le> 2"
  note wanted = set_status_wanted [OF assms(1) set assms(2) a]
  {
    assume "mem_entry m cat i = None"
    from wanted(1) [OF this] show "m' = m" and "\<exists>w. res = Ok w \<and> answer_code w = 404" by blast+
  }
  assume "mem_entry m cat i \<noteq> None"
  from wanted(2) [OF this]
  show "\<exists>w. res = Ok w \<and> answer_code w = 200" and "wf_mem m'"
    and "mem_entry m' = (mem_entry m)(cat := (mem_entry m cat)(i \<mapsto> of_nat n))"
    and "\<exists>w. handleGetStatus q memory_ops ctx r m' new_writer = (Ok w, m') \<and> answer w = status_report cat i n m'"
    by blast+
qed (use set_status_refused [OF set] Atoi_Itoa wanted_status_body wanted_empty in blast)+

theorem admin_set_status_exact_witness:
  "\<exists>w w' w'' m'. handleSetStatus (\<lambda>s. s) memory_ops None ((demo_put [] 1)\<lparr>rq_PathValues := [(''category'', ''ka''), (''idx'', Itoa 0)]\<rparr>)
        (snd (mem_AllocateIndex ''ka'' NewMemoryStore)) new_writer = (Ok w, m')
     \<and> answer_code w = 200 \<and> mem_entry m' ''ka'' 0 = Some StatusInvalid
     \<and> handleSetStatus (\<lambda>s. s) memory_ops None ((demo_put [] 1)\<lparr>rq_PathValues := [(''category'', ''ka''), (''idx'', ''zero'')]\<rparr>)
        m' new_writer = (Ok w', m') \<and> answer_code w' = 400
     \<and> handleSetStatus (\<lambda>s. s) memory_ops None
        ((demo_put [] 1)\<lparr>rq_Body := ''true'', rq_PathValues := [(''category'', ''ka''), (''idx'', Itoa 0)]\<rparr>) m' new_writer = (Ok w'', m')
     \<and> answer_code w'' = 400"
proof -
  let ?m = "snd (mem_AllocateIndex ''ka'' NewMemoryStore)"
  let ?r = "(demo_put [] 1)\<lparr>rq_PathValues := [(''category'', ''ka''), (''idx'', Itoa 0)]\<rparr>"
  let ?bad = "(demo_put [] 1)\<lparr>rq_PathValues := [(''category'', ''ka''), (''idx'', ''zero'')]\<rparr>"
  let ?list = "(demo_put [] 1)\<lparr>rq_Body := ''true'', rq_PathValues := [(''category'', ''ka''), (''idx'', Itoa 0)]\<rparr>"
  have wf: "wf_mem ?m" by (rule wf_mem_Allocate [OF wf_mem_new])
  have e: "mem_entry ?m ''ka'' 0 = Some StatusValid"
    by (simp add: mem_AllocateIndex_def NewMemoryStore_def mem_entry_def map_get_def)
  have len: "length (status_body 1) \<le> 256"
    by (simp add: status_body_def json_object_def json_quote_def Itoa_def nat_str.simps) code_simp
  obtain res m' where h: "handleSetStatus (\<lambda>s. s) memory_ops None ?r ?m new_writer = (res, m')" by (metis surj_pair)
  obtain res' m1 where h': "handleSetStatus (\<lambda>s. s) memory_ops None ?bad m' new_writer = (res', m1)" by (metis surj_pair)
  obtain res'' m2 where h'': "handleSetStatus (\<lambda>s. s) memory_ops None ?list m' new_writer = (res'', m2)" by (metis surj_pair)
  have p: "PathValue ?r ''category'' = ''ka''" "PathValue ?bad ''category'' = ''ka''" "PathValue ?list ''category'' = ''ka''"
    "PathValue ?r ''idx'' = Itoa 0" "PathValue ?bad ''idx'' = ''zero''" by (simp_all add: PathValue_def)
  have w: "wanted_status ?r = Some 1" using wanted_status_body [of ?r 1] len by (simp add: demo_put_def)
  have z: "Atoi (Itoa 0) = Some 0" "Atoi ''zero'' = None"
    using Atoi_Itoa [of 0] by (simp_all add: min_int64_def max_int64_def, simp add: Atoi_def HasPrefix_def Let_def)
  have l: "wanted_status ?list = None" by (simp add: wanted_status_def read_value_eq value_step_def json_ws_def HasPrefix_def)
  note set = conjunct1 [OF conjunct2 [OF admin_set_status_exact [OF wf p(1) h]], rule_format, of 0 1, unfolded p(4) z(1) w]
  have k: "(\<exists>w. res = Ok w \<and> answer_code w = 200)" "wf_mem m'" "mem_entry m' ''ka'' 0 = Some StatusInvalid"
    using set e by (simp_all add: StatusInvalid_def)
  have b: "m1 = m'" "\<exists>w. res' = Ok w \<and> answer_code w = 400" "m2 = m'" "\<exists>w. res'' = Ok w \<and> answer_code w = 400"
    using conjunct1 [OF admin_set_status_exact [OF k(2) p(2) h'], THEN mp, OF disjI1]
      conjunct1 [OF admin_set_status_exact [OF k(2) p(3) h''], THEN mp, OF disjI2 [OF disjI1]] p(5) z(2) l by simp_all
  from k b h h' h'' show ?thesis by auto
qed

end
