(* ===== verification/Go_Asn1.thy ===== *)
theory Go_Asn1
  imports Crypto_Keys
begin

text \<open>
  What the HSM backend uses of \<^verbatim>\<open>encoding/asn1\<close>: marshalling of object identifiers and of a sequence of
  two non-negative integers, unmarshalling of object identifiers and octet strings. \<open>read_signature\<close> is
  a reader for the sequence, against which the signature encoding is stated.
\<close>

section \<open>Tag, length, value\<close>

definition der_length :: "nat \<Rightarrow> bytes" where
  "der_length n =
     (if n < 128 then [of_nat n]
      else (let l = nat_bytes n in (128 OR of_nat (length l)) # l))"

definition der_tlv :: "byte \<Rightarrow> bytes \<Rightarrow> bytes" where
  "der_tlv tag content = tag # der_length (length content) @ content"

text \<open>\<^verbatim>\<open>parseTagAndLength\<close>: the long form must be minimal, without leading zeros, and a length is refused
  once it has reached \<open>2 ^ 23\<close> with bytes still to come.\<close>

fun read_length_bytes :: "nat \<Rightarrow> bytes \<Rightarrow> nat \<Rightarrow> (nat \<times> bytes) option" where
  "read_length_bytes 0 bs acc = Some (acc, bs)"
| "read_length_bytes (Suc k) [] acc = None"
| "read_length_bytes (Suc k) (b # bs) acc =
     (if 2 ^ 23 \<le> acc then None
      else (let acc = 256 * acc + unat b in if acc = 0 then None else read_length_bytes k bs acc))"

definition read_length :: "bytes \<Rightarrow> (nat \<times> bytes) option" where
  "read_length bs =
     (case bs of
        [] \<Rightarrow> None
      | b # r \<Rightarrow>
          if unat b < 128 then Some (unat b, r)
          else if unat b = 128 then None
          else
            (case read_length_bytes (unat b - 128) r 0 of
               None \<Rightarrow> None
             | Some (n, r) \<Rightarrow> if n < 128 then None else Some (n, r)))"

text \<open>An element with the given one-byte identifier at the front, and what follows it.\<close>

definition read_tlv :: "byte \<Rightarrow> bytes \<Rightarrow> (bytes \<times> bytes) option" where
  "read_tlv tag bs =
     (case bs of
        [] \<Rightarrow> None
      | t # r \<Rightarrow>
          if t \<noteq> tag then None
          else
            (case read_length r of
               None \<Rightarrow> None
             | Some (n, r) \<Rightarrow> if length r < n then None else Some (take n r, drop n r)))"

section \<open>Integers and signatures\<close>

definition der_integer :: "nat \<Rightarrow> bytes" where
  "der_integer n =
     (let bs = nat_bytes n in
      der_tlv 2 (if bs = [] then [0] else if 128 \<le> unat (hd bs) then 0 # bs else bs))"

definition der_signature :: "nat \<Rightarrow> nat \<Rightarrow> bytes" where
  "der_signature r s = der_tlv 0x30 (der_integer r @ der_integer s)"

text \<open>A non-negative integer in its minimal form.\<close>

definition read_nonneg :: "bytes \<Rightarrow> (nat \<times> bytes) option" where
  "read_nonneg bs =
     (case read_tlv 2 bs of
        None \<Rightarrow> None
      | Some (c, r) \<Rightarrow>
          if c = [] \<or> 128 \<le> unat (hd c) \<or> (1 < length c \<and> hd c = 0 \<and> unat (c ! 1) < 128) then None
          else Some (be_nat c, r))"

definition read_signature :: "bytes \<Rightarrow> (nat \<times> nat) option" where
  "read_signature bs =
     (case read_tlv 0x30 bs of
        Some (c, []) \<Rightarrow>
          (case read_nonneg c of
             Some (r, c') \<Rightarrow> (case read_nonneg c' of Some (s, []) \<Rightarrow> Some (r, s) | _ \<Rightarrow> None)
           | None \<Rightarrow> None)
      | _ \<Rightarrow> None)"

section \<open>Object identifiers\<close>

type_synonym ObjectIdentifier = "nat list"

fun base128_high :: "nat \<Rightarrow> bytes" where
  "base128_high n = (if n = 0 then [] else base128_high (n div 128) @ [128 OR of_nat (n mod 128)])"

declare base128_high.simps [simp del]

definition base128 :: "nat \<Rightarrow> bytes" where
  "base128 n = base128_high (n div 128) @ [of_nat (n mod 128)]"

definition der_oid :: "ObjectIdentifier \<Rightarrow> bytes option" where
  "der_oid oid =
     (case oid of
        a # b # rest \<Rightarrow>
          if 2 < a \<or> (a < 2 \<and> 40 \<le> b) then None
          else Some (der_tlv 6 (base128 (40 * a + b) @ concat (map base128 rest)))
      | _ \<Rightarrow> None)"

text \<open>\<^verbatim>\<open>parseBase128Int\<close>: at most five bytes, minimal, within 31 bits.\<close>

fun read_base128 :: "nat \<Rightarrow> nat \<Rightarrow> bytes \<Rightarrow> (nat \<times> bytes) option" where
  "read_base128 shifted acc [] = None"
| "read_base128 shifted acc (b # bs) =
     (if shifted = 5 then None
      else if shifted = 0 \<and> b = 128 then None
      else
        (let acc = 128 * acc + unat b mod 128 in
         if unat b < 128 then (if 2 ^ 31 - 1 < acc then None else Some (acc, bs))
         else read_base128 (Suc shifted) acc bs))"

function read_arcs :: "bytes \<Rightarrow> nat list option" where
  "read_arcs bs =
     (if bs = [] then Some []
      else
        (case read_base128 0 0 bs of
           None \<Rightarrow> None
         | Some (n, r) \<Rightarrow> map_option (\<lambda>ns. n # ns) (read_arcs r)))"
  by pat_completeness auto

lemma read_base128_shorter: "read_base128 k a bs = Some (n, r) \<Longrightarrow> length r < length bs"
  by (induction k a bs rule: read_base128.induct) (auto simp: Let_def split: if_splits)

termination read_arcs
  by (relation "measure length") (auto dest: read_base128_shorter)

declare read_arcs.simps [simp del]

definition parse_oid :: "bytes \<Rightarrow> ObjectIdentifier option" where
  "parse_oid bs =
     (case read_tlv 6 bs of
        None \<Rightarrow> None
      | Some (c, _) \<Rightarrow>
          (case read_arcs c of
             Some (v # rest) \<Rightarrow> Some (if v < 80 then v div 40 # v mod 40 # rest else 2 # (v - 80) # rest)
           | _ \<Rightarrow> None))"

definition parse_octets :: "bytes \<Rightarrow> (bytes \<times> bytes) option" where
  "parse_octets bs = read_tlv 4 bs"

section \<open>Reading back\<close>

lemma be_nat_nat_bytes [simp]: "be_nat (nat_bytes n) = n"
proof (induction n rule: nat_bytes.induct)
  case (1 n)
  then show ?case by (subst nat_bytes.simps) (simp add: be_nat_snoc unat_of_nat)
qed

lemma nat_bytes_hd: "n \<noteq> 0 \<Longrightarrow> nat_bytes n \<noteq> [] \<and> hd (nat_bytes n) \<noteq> 0"
proof (induction n rule: nat_bytes.induct)
  case (1 n)
  show ?case
  proof (cases "n div 256 = 0")
    case True
    then have "n < 256" by simp
    then have "\<not> 256 dvd n" using 1 by (auto dest: dvd_imp_le)
    with 1 show ?thesis
      by (subst (1 2) nat_bytes.simps) (simp add: True nat_bytes.simps [of 0] word_of_nat_eq_0_iff \<open>n < 256\<close>)
  next
    case False
    with 1 show ?thesis by (subst (1 2) nat_bytes.simps) simp
  qed
qed

lemma read_length_bytes_app:
  assumes "256 * acc < 2 ^ 24" and "bs \<noteq> [] \<longrightarrow> acc \<noteq> 0 \<or> hd bs \<noteq> 0"
    and "foldl (\<lambda>a b. 256 * a + unat b) acc bs < 2 ^ 24"
  shows "read_length_bytes (length bs) (bs @ r) acc = Some (foldl (\<lambda>a b. 256 * a + unat b) acc bs, r)"
  using assms
proof (induction bs arbitrary: acc)
  case (Cons b bs)
  let ?acc = "256 * acc + unat b"
  have ge: "a \<le> foldl (\<lambda>a b. 256 * a + unat b) a xs" for a and xs :: bytes
  proof (induction xs arbitrary: a)
    case (Cons x xs)
    have "a \<le> 256 * a + unat x" by simp
    also have "\<dots> \<le> foldl (\<lambda>a b. 256 * a + unat b) (256 * a + unat x) xs" by (rule Cons)
    finally show ?case by simp
  qed simp
  have "?acc < 2 ^ 24" using Cons.prems(3) ge [of ?acc bs] by simp
  have nz: "?acc \<noteq> 0" using Cons.prems(2) by (auto simp: unsigned_eq_0_iff)
  show ?case
  proof (cases "bs = []")
    case True
    with Cons.prems nz show ?thesis by (simp add: Let_def)
  next
    case False
    then obtain b' bs' where bs: "bs = b' # bs'" by (cases bs) auto
    have "256 * ?acc < 2 ^ 24" using Cons.prems(3) ge [of "256 * ?acc + unat b'" bs'] by (simp add: bs)
    have "bs \<noteq> [] \<longrightarrow> ?acc \<noteq> 0 \<or> hd bs \<noteq> 0" "foldl (\<lambda>a b. 256 * a + unat b) ?acc bs < 2 ^ 24"
      using nz Cons.prems(3) by simp_all
    from Cons.IH [OF \<open>256 * ?acc < 2 ^ 24\<close> this] have "read_length_bytes (length bs) (bs @ r) ?acc = Some (foldl (\<lambda>a b. 256 * a + unat b) ?acc bs, r)"
      .
    with Cons.prems nz show ?thesis by (simp add: Let_def)
  qed
qed simp

lemma read_der_length:
  assumes "n < 2 ^ 24"
  shows "read_length (der_length n @ r) = Some (n, r)"
proof (cases "n < 128")
  case True
  then show ?thesis by (simp add: der_length_def read_length_def unat_of_nat)
next
  case False
  let ?l = "nat_bytes n"
  have len: "length ?l \<le> 3" using assms by (intro length_nat_bytes) simp
  have ne: "?l \<noteq> []" "hd ?l \<noteq> 0" using nat_bytes_hd [of n] False by auto
  have k: "unat (128 OR of_nat (length ?l) :: byte) = 128 + length ?l"
  proof -
    have "0 < length ?l" using ne by simp
    then have "length ?l = 1 \<or> length ?l = 2 \<or> length ?l = 3" using len by linarith
    then show ?thesis by (elim disjE) simp_all
  qed
  have "foldl (\<lambda>a b. 256 * a + unat b) 0 ?l = n" using be_nat_nat_bytes [of n] by (simp add: be_nat_def)
  with read_length_bytes_app [of 0 ?l r] ne assms
  have "read_length_bytes (length ?l) (?l @ r) 0 = Some (n, r)" by simp
  with False ne k show ?thesis by (simp add: der_length_def read_length_def Let_def)
qed

lemma read_der_tlv: "length c < 2 ^ 24 \<Longrightarrow> read_tlv tag (der_tlv tag c @ r) = Some (c, r)"
  by (simp add: read_tlv_def der_tlv_def read_der_length)

lemma read_der_integer:
  assumes "length (nat_bytes n) < 2 ^ 20"
  shows "read_nonneg (der_integer n @ r) = Some (n, r)"
proof -
  define c where "c = (if nat_bytes n = [] then [0] else if 128 \<le> unat (hd (nat_bytes n)) then 0 # nat_bytes n else nat_bytes n)"
  have "length c < 2 ^ 24" using assms by (simp add: c_def)
  then have "read_tlv 2 (der_integer n @ r) = Some (c, r)"
    by (simp add: der_integer_def Let_def c_def read_der_tlv)
  moreover have "be_nat c = n"
  proof -
    have "be_nat (0 # bs) = be_nat bs" for bs by (simp add: be_nat_def)
    moreover have "nat_bytes n = [] \<Longrightarrow> n = 0" using nat_bytes_hd by blast
    ultimately show ?thesis by (auto simp: c_def be_nat_def [of "[0]"])
  qed
  moreover have "c \<noteq> []" "unat (hd c) < 128" "1 < length c \<and> hd c = 0 \<longrightarrow> 128 \<le> unat (c ! 1)"
    using nat_bytes_hd [of n] nat_bytes.simps [of 0] by (cases "n = 0"; auto simp: c_def hd_conv_nth)+
  ultimately show ?thesis by (auto simp: read_nonneg_def)
qed

lemma length_der_integer:
  assumes "length (nat_bytes n) < 2 ^ 20"
  shows "length (der_integer n) \<le> length (nat_bytes n) + 7"
proof -
  have der_len: "length (der_length k) \<le> 4" if "k < 2 ^ 24" for k
    using length_nat_bytes [of k 3] that by (simp add: der_length_def Let_def)
  note l = der_len [of "length (nat_bytes n) + 1"] der_len [of "length (nat_bytes n)"] der_len [of 1]
  from l assms show ?thesis
    by (auto simp: der_integer_def der_tlv_def Let_def)
qed

lemma signature_reads_back:
  assumes "length (nat_bytes r) < 2 ^ 20" and "length (nat_bytes s) < 2 ^ 20"
  shows "read_signature (der_signature r s) = Some (r, s)"
proof -
  have "length (der_integer r @ der_integer s) < 2 ^ 24"
    using length_der_integer [OF assms(1)] length_der_integer [OF assms(2)] assms by simp
  from read_der_tlv [OF this, of "0x30" "[]"] read_der_integer [OF assms(1), of "der_integer s"]
    read_der_integer [OF assms(2), of "[]"] show ?thesis
    by (simp add: read_signature_def der_signature_def)
qed

end
