(* ===== verification/Hsm_Pkcs11.thy ===== *)
theory Hsm_Pkcs11
  imports Service_Handlers Go_Asn1 "HOL-Library.Multiset"
begin

text \<open>
  \<^verbatim>\<open>internal/hsm/pkcs11.go\<close>: the HSM backend over a PKCS#11 token. The miekg/pkcs11 module is the parameter
  \<open>p11_lib\<close>, one field per call, on an abstract token state \<open>'t\<close>. \<open>hsm_state\<close> is the backend's pool of
  idle sessions with the token behind it; an operation takes the first idle session and puts it back at
  the end when it is over, whatever its outcome. \<open>hs_ctxDone\<close> says that the context of the current
  request is over when the operation asks for a session; an operation that finds no idle session waits
  for the context too. The interleaving of operations on the pool is the transition system of
  \<^verbatim>\<open>Hsm_Pool\<close>.
\<close>

section \<open>The PKCS#11 module\<close>

datatype p11_attr =
    CKA_CLASS | CKA_TOKEN | CKA_KEY_TYPE | CKA_ID | CKA_VERIFY | CKA_SIGN | CKA_SENSITIVE | CKA_EXTRACTABLE
  | CKA_DERIVE | CKA_EC_PARAMS | CKA_EC_POINT | CKA_VALUE | CKA_VALUE_LEN

datatype p11_value = PBool bool | PBytes bytes | PUint nat

type_synonym p11_template = "(p11_attr \<times> p11_value) list"

datatype p11_mechanism = CKM_EC_KEY_PAIR_GEN | CKM_ECDSA | CKM_ECDH1_DERIVE_NULL bytes

definition CKO_PUBLIC_KEY :: p11_value where "CKO_PUBLIC_KEY = PUint 2"
definition CKO_PRIVATE_KEY :: p11_value where "CKO_PRIVATE_KEY = PUint 3"
definition CKO_SECRET_KEY :: p11_value where "CKO_SECRET_KEY = PUint 4"
definition CKK_EC :: p11_value where "CKK_EC = PUint 3"
definition CKK_GENERIC_SECRET :: p11_value where "CKK_GENERIC_SECRET = PUint 0x10"

text \<open>A call works on the token and gives a value or fails. Errors that the code drops are not given.\<close>

type_synonym ('t, 'a) p11_call = "'t \<Rightarrow> 'a option \<times> 't"

record 't p11_lib =
  p11_New :: "string \<Rightarrow> bool"
  p11_Initialize :: "('t, unit) p11_call"
  p11_Finalize :: "'t \<Rightarrow> 't"
  p11_GetSlotList :: "('t, nat list) p11_call"
  p11_GetTokenLabel :: "nat \<Rightarrow> ('t, string) p11_call"
  p11_OpenSession :: "nat \<Rightarrow> ('t, nat) p11_call"
  p11_CloseSession :: "nat \<Rightarrow> 't \<Rightarrow> 't"
  p11_Login :: "nat \<Rightarrow> string \<Rightarrow> ('t, unit) p11_call"
  p11_Logout :: "nat \<Rightarrow> 't \<Rightarrow> 't"
  p11_GenerateKeyPair :: "nat \<Rightarrow> p11_mechanism \<Rightarrow> p11_template \<Rightarrow> p11_template \<Rightarrow> ('t, nat \<times> nat) p11_call"
  p11_GetAttributeValue :: "nat \<Rightarrow> nat \<Rightarrow> p11_attr list \<Rightarrow> ('t, bytes list) p11_call"
  p11_SetAttributeValue :: "nat \<Rightarrow> nat \<Rightarrow> p11_template \<Rightarrow> ('t, unit) p11_call"
  p11_FindObjectsInit :: "nat \<Rightarrow> p11_template \<Rightarrow> ('t, unit) p11_call"
  p11_FindObjects :: "nat \<Rightarrow> nat \<Rightarrow> ('t, nat list) p11_call"
  p11_FindObjectsFinal :: "nat \<Rightarrow> 't \<Rightarrow> 't"
  p11_SignInit :: "nat \<Rightarrow> p11_mechanism \<Rightarrow> nat \<Rightarrow> ('t, unit) p11_call"
  p11_Sign :: "nat \<Rightarrow> bytes \<Rightarrow> ('t, bytes) p11_call"
  p11_DeriveKey :: "nat \<Rightarrow> p11_mechanism \<Rightarrow> nat \<Rightarrow> p11_template \<Rightarrow> ('t, nat) p11_call"
  p11_DestroyObject :: "nat \<Rightarrow> nat \<Rightarrow> 't \<Rightarrow> 't"

section \<open>Operations with a state\<close>

type_synonym ('t, 'a) hsm_op = "'t \<Rightarrow> (hsm_error, 'a) res \<times> 't"

definition op_return :: "(hsm_error, 'a) res \<Rightarrow> ('t, 'a) hsm_op" where
  "op_return r t = (r, t)"

definition op_bind :: "('t, 'a) hsm_op \<Rightarrow> ('a \<Rightarrow> ('t, 'b) hsm_op) \<Rightarrow> ('t, 'b) hsm_op" where
  "op_bind m f t =
     (case m t of (Ok x, t) \<Rightarrow> f x t | (Err e, t) \<Rightarrow> (Err e, t) | (Panic, t) \<Rightarrow> (Panic, t))"

text \<open>\<^verbatim>\<open>fmt.Errorf("...: %w", err)\<close> around a library call, and a deferred call.\<close>

definition op_call :: "string \<Rightarrow> ('t, 'a) p11_call \<Rightarrow> ('t, 'a) hsm_op" where
  "op_call msg c t = (case c t of (Some x, t) \<Rightarrow> (Ok x, t) | (None, t) \<Rightarrow> (Err (HSM_failure msg), t))"

definition op_defer :: "('t \<Rightarrow> 't) \<Rightarrow> ('t, 'a) hsm_op \<Rightarrow> ('t, 'a) hsm_op" where
  "op_defer d m t = (let (r, t) = m t in (r, d t))"

definition op_map_err :: "(hsm_error \<Rightarrow> hsm_error) \<Rightarrow> ('t, 'a) hsm_op \<Rightarrow> ('t, 'a) hsm_op" where
  "op_map_err f m t = (let (r, t) = m t in (res_wrap f r, t))"

section \<open>Curves\<close>

definition oidP256 :: ObjectIdentifier where "oidP256 = [1, 2, 840, 10045, 3, 1, 7]"
definition oidP384 :: ObjectIdentifier where "oidP384 = [1, 3, 132, 0, 34]"
definition oidP521 :: ObjectIdentifier where "oidP521 = [1, 3, 132, 0, 35]"

definition curveOID :: "string \<Rightarrow> (hsm_error, ObjectIdentifier) res" where
  "curveOID name =
     (if name = ''P-256'' then Ok oidP256
      else if name = ''P-384'' then Ok oidP384
      else if name = ''P-521'' then Ok oidP521
      else Err (HSM_unsupported_curve name))"

definition oidToCurveName :: "bytes \<Rightarrow> (hsm_error, string) res" where
  "oidToCurveName derParams =
     (case parse_oid derParams of
        None \<Rightarrow> Err (HSM_failure ''unmarshal OID'')
      | Some oid \<Rightarrow>
          if oid = oidP256 then Ok ''P-256''
          else if oid = oidP384 then Ok ''P-384''
          else if oid = oidP521 then Ok ''P-521''
          else Err (HSM_failure ''unknown curve OID''))"

definition parseCurve :: "string \<Rightarrow> (hsm_error, Curve) res" where
  "parseCurve name =
     (if name = ''P-256'' then Ok P256
      else if name = ''P-384'' then Ok P384
      else if name = ''P-521'' then Ok P521
      else Err (HSM_unsupported_curve name))"

text \<open>Raw \<open>r || s\<close> to ASN.1; what begins like a sequence is passed through.\<close>

definition rawSigToASN1 :: "bytes \<Rightarrow> (hsm_error, bytes) res" where
  "rawSigToASN1 raw =
     (if 2 < length raw \<and> hd raw = 0x30 then Ok raw
      else if length raw mod 2 \<noteq> 0 then Err (HSM_failure ''invalid raw signature length'')
      else
        (let half = length raw div 2 in Ok (der_signature (be_nat (take half raw)) (be_nat (drop half raw)))))"

fun list_contains :: "string list \<Rightarrow> string \<Rightarrow> bool" where
  "list_contains [] s = False"
| "list_contains (v # ss) s = (if v = s then True else list_contains ss s)"

section \<open>Helpers on a session\<close>

definition findPrivateKeyByID :: "'t p11_lib \<Rightarrow> nat \<Rightarrow> bytes \<Rightarrow> ('t, nat) hsm_op" where
  "findPrivateKeyByID lib session keyID =
     op_bind (op_call ''find init'' (p11_FindObjectsInit lib session [(CKA_CLASS, CKO_PRIVATE_KEY), (CKA_ID, PBytes keyID)])) (\<lambda>_.
     op_defer (p11_FindObjectsFinal lib session)
       (op_bind (op_call ''find objects'' (p11_FindObjects lib session 1)) (\<lambda>handles.
          op_return (case handles of [] \<Rightarrow> Err HSM_key_not_found | h # _ \<Rightarrow> Ok h))))"

definition unwrap_point :: "bytes \<Rightarrow> bytes" where
  "unwrap_point ecPoint = (case parse_octets ecPoint of Some (rawPoint, []) \<Rightarrow> rawPoint | _ \<Rightarrow> ecPoint)"

definition compress_point :: "string \<Rightarrow> bytes \<Rightarrow> (hsm_error, bytes) res" where
  "compress_point curveName ecPoint =
     res_bind (parseCurve curveName) (\<lambda>curve.
       case elliptic_Unmarshal curve ecPoint of
         None \<Rightarrow> Err (HSM_failure ''invalid uncompressed EC point'')
       | Some (x, y) \<Rightarrow> (case elliptic_MarshalCompressed curve x y of None \<Rightarrow> Panic | Some b \<Rightarrow> Ok b))"

definition readECPoint :: "'t p11_lib \<Rightarrow> nat \<Rightarrow> nat \<Rightarrow> string \<Rightarrow> ('t, bytes) hsm_op" where
  "readECPoint lib session handle curveName =
     op_bind (op_call ''get EC point'' (p11_GetAttributeValue lib session handle [CKA_EC_POINT])) (\<lambda>attrs.
       op_return
         (case attrs of
            [] \<Rightarrow> Err (HSM_failure ''empty EC point'')
          | v # _ \<Rightarrow>
              if v = [] then Err (HSM_failure ''empty EC point'') else compress_point curveName (unwrap_point v)))"

definition getKeyCurve :: "'t p11_lib \<Rightarrow> nat \<Rightarrow> nat \<Rightarrow> ('t, string) hsm_op" where
  "getKeyCurve lib session handle =
     op_bind (op_call ''get EC params'' (p11_GetAttributeValue lib session handle [CKA_EC_PARAMS])) (\<lambda>attrs.
       op_return
         (case attrs of
            [] \<Rightarrow> Err (HSM_failure ''empty EC params'')
          | v # _ \<Rightarrow> if v = [] then Err (HSM_failure ''empty EC params'') else oidToCurveName v))"

section \<open>The operations on a session\<close>

text \<open>\<open>kidBytes\<close> are the 16 random bytes of the temporary identifier; \<open>None\<close> is a failing random source.\<close>

definition generate_on ::
  "'t p11_lib \<Rightarrow> (bytes \<Rightarrow> bytes) \<Rightarrow> bytes option \<Rightarrow> string \<Rightarrow> nat \<Rightarrow> ('t, string \<times> bytes) hsm_op"
where
  "generate_on lib sha256 rnd curveName session =
     op_bind (op_return (curveOID curveName)) (\<lambda>oid.
     op_bind (op_return (case der_oid oid of None \<Rightarrow> Err (HSM_failure ''marshal OID'') | Some d \<Rightarrow> Ok d)) (\<lambda>derOID.
     op_bind (op_return (case rnd of None \<Rightarrow> Panic | Some b \<Rightarrow> Ok b)) (\<lambda>kidBytes.
     op_bind (op_call ''generate key pair'' (p11_GenerateKeyPair lib session CKM_EC_KEY_PAIR_GEN
         [(CKA_TOKEN, PBool True), (CKA_VERIFY, PBool True), (CKA_EC_PARAMS, PBytes derOID), (CKA_ID, PBytes kidBytes)]
         [(CKA_TOKEN, PBool True), (CKA_SIGN, PBool True), (CKA_SENSITIVE, PBool True), (CKA_EXTRACTABLE, PBool False),
          (CKA_DERIVE, PBool True), (CKA_ID, PBytes kidBytes)])) (\<lambda>(pubHandle, _).
     op_bind (readECPoint lib session pubHandle curveName) (\<lambda>pubBytes.
       let kid = hex_encode (take 16 (sha256 pubBytes)) in
     op_bind (op_call ''update pub CKA_ID''
         (p11_SetAttributeValue lib session pubHandle [(CKA_ID, PBytes (str_bytes kid))])) (\<lambda>_.
     op_bind (findPrivateKeyByID lib session kidBytes) (\<lambda>privHandle.
     op_bind (op_call ''update priv CKA_ID''
         (p11_SetAttributeValue lib session privHandle [(CKA_ID, PBytes (str_bytes kid))])) (\<lambda>_.
       op_return (Ok (kid, pubBytes))))))))))"

definition sign_on :: "'t p11_lib \<Rightarrow> string \<Rightarrow> bytes \<Rightarrow> nat \<Rightarrow> ('t, bytes) hsm_op" where
  "sign_on lib kid hash session =
     op_bind (findPrivateKeyByID lib session (str_bytes kid)) (\<lambda>privHandle.
     op_bind (op_call ''sign init'' (p11_SignInit lib session CKM_ECDSA privHandle)) (\<lambda>_.
     op_bind (op_call ''sign'' (p11_Sign lib session hash)) (\<lambda>rawSig.
       op_return (rawSigToASN1 rawSig))))"

text \<open>The peer point in uncompressed form.\<close>

definition peer_point :: "Curve \<Rightarrow> bytes \<Rightarrow> (hsm_error, bytes) res" where
  "peer_point curve peer =
     (if peer \<noteq> [] \<and> (hd peer = 2 \<or> hd peer = 3) then
        (case elliptic_UnmarshalCompressed curve peer of
           None \<Rightarrow> Err (HSM_failure ''decompress peer public key failed'')
         | Some (x, y) \<Rightarrow> (case elliptic_Marshal curve x y of None \<Rightarrow> Panic | Some b \<Rightarrow> Ok b))
      else Ok peer)"

definition ecdh_on :: "'t p11_lib \<Rightarrow> string \<Rightarrow> bytes \<Rightarrow> nat \<Rightarrow> ('t, bytes) hsm_op" where
  "ecdh_on lib kid peerPubKey session =
     op_bind (findPrivateKeyByID lib session (str_bytes kid)) (\<lambda>privHandle.
     op_bind (getKeyCurve lib session privHandle) (\<lambda>curveName.
     op_bind (op_return (parseCurve curveName)) (\<lambda>curve.
     op_bind (op_return (peer_point curve peerPubKey)) (\<lambda>ecPoint.
     op_bind (op_call ''ECDH derive'' (p11_DeriveKey lib session (CKM_ECDH1_DERIVE_NULL ecPoint) privHandle
         [(CKA_CLASS, CKO_SECRET_KEY), (CKA_KEY_TYPE, CKK_GENERIC_SECRET), (CKA_EXTRACTABLE, PBool True),
          (CKA_SENSITIVE, PBool False), (CKA_VALUE_LEN, PUint (byte_len curve))])) (\<lambda>secretHandle.
     op_bind (op_call ''get derived secret'' (p11_GetAttributeValue lib session secretHandle [CKA_VALUE])) (\<lambda>attrs.
       case attrs of
         [] \<Rightarrow> op_return (Err (HSM_failure ''empty derived secret''))
       | v # _ \<Rightarrow>
           if v = [] then op_return (Err (HSM_failure ''empty derived secret''))
           else (\<lambda>t. (Ok v, p11_DestroyObject lib session secretHandle t))))))))"

text \<open>One key of the listing: \<open>None\<close> when it is left out.\<close>

definition list_key :: "'t p11_lib \<Rightarrow> string list \<Rightarrow> nat \<Rightarrow> nat \<Rightarrow> 't \<Rightarrow> (hsm_error, KeyInfo option) res \<times> 't" where
  "list_key lib curves session h t =
     (case getKeyCurve lib session h t of
        (Panic, t) \<Rightarrow> (Panic, t)
      | (Err e, t) \<Rightarrow> (Ok None, t)
      | (Ok curveName, t) \<Rightarrow>
          if curves \<noteq> [] \<and> \<not> list_contains curves curveName then (Ok None, t)
          else
            (case readECPoint lib session h curveName t of
               (Panic, t) \<Rightarrow> (Panic, t)
             | (Err e, t) \<Rightarrow> (Ok None, t)
             | (Ok pubBytes, t) \<Rightarrow>
                 (case p11_GetAttributeValue lib session h [CKA_ID] t of
                    (None, t) \<Rightarrow> (Ok None, t)
                  | (Some [], t) \<Rightarrow> (Ok None, t)
                  | (Some (v # _), t) \<Rightarrow>
                      (Ok (Some \<lparr>ki_Kid = bytes_str v, ki_Curve = curveName, ki_CreationTime = 0, ki_PubKey = pubBytes\<rparr>), t))))"

fun list_batch ::
  "'t p11_lib \<Rightarrow> string list \<Rightarrow> nat \<Rightarrow> nat list \<Rightarrow> KeyInfo list \<Rightarrow> ('t, KeyInfo list) hsm_op"
where
  "list_batch lib curves session [] keys t = (Ok keys, t)"
| "list_batch lib curves session (h # hs) keys t =
     (case list_key lib curves session h t of
        (Panic, t) \<Rightarrow> (Panic, t)
      | (Err e, t) \<Rightarrow> (Err e, t)
      | (Ok None, t) \<Rightarrow> list_batch lib curves session hs keys t
      | (Ok (Some k), t) \<Rightarrow> list_batch lib curves session hs (keys @ [k]) t)"

text \<open>The loop over batches of 32 handles; \<open>None\<close> when the fuel is spent before the token reports an empty
  batch.\<close>

fun list_loop ::
  "'t p11_lib \<Rightarrow> string list \<Rightarrow> nat \<Rightarrow> nat \<Rightarrow> KeyInfo list \<Rightarrow> 't \<Rightarrow> ((hsm_error, KeyInfo list) res \<times> 't) option"
where
  "list_loop lib curves session 0 keys t = None"
| "list_loop lib curves session (Suc n) keys t =
     (case p11_FindObjects lib session 32 t of
        (None, t) \<Rightarrow> Some (Err (HSM_failure ''find objects''), p11_FindObjectsFinal lib session t)
      | (Some [], t) \<Rightarrow> Some (Ok keys, p11_FindObjectsFinal lib session t)
      | (Some handles, t) \<Rightarrow>
          (case list_batch lib curves session handles keys t of
             (Ok keys, t) \<Rightarrow> list_loop lib curves session n keys t
           | r \<Rightarrow> Some r))"

definition list_on ::
  "'t p11_lib \<Rightarrow> nat \<Rightarrow> string list \<Rightarrow> nat \<Rightarrow> 't \<Rightarrow> ((hsm_error, KeyInfo list) res \<times> 't) option"
where
  "list_on lib fuel curves session t =
     (case op_call ''find init'' (p11_FindObjectsInit lib session [(CKA_CLASS, CKO_PUBLIC_KEY), (CKA_KEY_TYPE, CKK_EC)]) t of
        (Ok _, t) \<Rightarrow> list_loop lib curves session fuel [] t
      | (Err e, t) \<Rightarrow> Some (Err e, t)
      | (Panic, t) \<Rightarrow> Some (Panic, t))"

section \<open>The backend\<close>

record PKCS11Config =
  pc_ModulePath :: string
  pc_SlotID :: nat
  pc_PIN :: string
  pc_TokenLabel :: string
  pc_PoolSize :: int

record 't hsm_state =
  hs_token :: 't
  hs_pool :: "nat list"
  hs_cap :: nat
  hs_ctxDone :: bool
  hs_random :: "bytes option"

text \<open>\<^verbatim>\<open>acquire\<close>, the operation, and the deferred \<^verbatim>\<open>release\<close>.\<close>

definition pool_acquire :: "'t hsm_state \<Rightarrow> (hsm_error, nat) res \<times> 't hsm_state" where
  "pool_acquire b =
     (case hs_pool b of
        [] \<Rightarrow> (Err HSM_canceled, b)
      | sess # rest \<Rightarrow> if hs_ctxDone b then (Err HSM_canceled, b) else (Ok sess, b\<lparr>hs_pool := rest\<rparr>))"

definition pool_release :: "nat \<Rightarrow> 't hsm_state \<Rightarrow> 't hsm_state" where
  "pool_release sess b = b\<lparr>hs_pool := hs_pool b @ [sess]\<rparr>"

definition with_session :: "(nat \<Rightarrow> ('t, 'a) hsm_op) \<Rightarrow> 't hsm_state \<Rightarrow> (hsm_error, 'a) res \<times> 't hsm_state" where
  "with_session f b =
     (case pool_acquire b of
        (Ok session, b) \<Rightarrow> (let (r, t) = f session (hs_token b) in (r, pool_release session (b\<lparr>hs_token := t\<rparr>)))
      | (Err e, b) \<Rightarrow> (Err e, b)
      | (Panic, b) \<Rightarrow> (Panic, b))"

definition p11_GenerateECKey ::
  "'t p11_lib \<Rightarrow> (bytes \<Rightarrow> bytes) \<Rightarrow> string \<Rightarrow> 't hsm_state \<Rightarrow> (hsm_error, string \<times> bytes) res \<times> 't hsm_state"
where
  "p11_GenerateECKey lib sha256 curveName b = with_session (generate_on lib sha256 (hs_random b) curveName) b"

definition p11_SignHash ::
  "'t p11_lib \<Rightarrow> string \<Rightarrow> bytes \<Rightarrow> 't hsm_state \<Rightarrow> (hsm_error, bytes) res \<times> 't hsm_state"
where
  "p11_SignHash lib kid hash b = with_session (sign_on lib kid hash) b"

definition p11_ECDH ::
  "'t p11_lib \<Rightarrow> string \<Rightarrow> bytes \<Rightarrow> 't hsm_state \<Rightarrow> (hsm_error, bytes) res \<times> 't hsm_state"
where
  "p11_ECDH lib kid peerPubKey b = with_session (ecdh_on lib kid peerPubKey) b"

text \<open>A listing that never ends holds its session forever and does not return; in the model the
  operation then gives \<open>None\<close>.\<close>

definition p11_ListKeys ::
  "'t p11_lib \<Rightarrow> nat \<Rightarrow> string list \<Rightarrow> 't hsm_state \<Rightarrow> ((hsm_error, KeyInfo list) res \<times> 't hsm_state) option"
where
  "p11_ListKeys lib fuel curves b =
     (case pool_acquire b of
        (Ok session, b) \<Rightarrow>
          map_option (\<lambda>(r, t). (r, pool_release session (b\<lparr>hs_token := t\<rparr>))) (list_on lib fuel curves session (hs_token b))
      | (Err e, b) \<Rightarrow> Some (Err e, b)
      | (Panic, b) \<Rightarrow> Some (Panic, b))"

definition p11_PoolSize :: "'t hsm_state \<Rightarrow> nat" where
  "p11_PoolSize b = hs_cap b"

section \<open>Opening and closing\<close>

text \<open>The first slot, in the order of the list, whose token carries the label.\<close>

fun find_slot :: "'t p11_lib \<Rightarrow> string \<Rightarrow> nat list \<Rightarrow> 't \<Rightarrow> nat option \<times> 't" where
  "find_slot lib label [] t = (None, t)"
| "find_slot lib label (s # ss) t =
     (case p11_GetTokenLabel lib s t of
        (None, t) \<Rightarrow> find_slot lib label ss t
      | (Some l, t) \<Rightarrow> if l = label then (Some s, t) else find_slot lib label ss t)"

definition choose_slot :: "'t p11_lib \<Rightarrow> PKCS11Config \<Rightarrow> ('t, nat) hsm_op" where
  "choose_slot lib cfg t =
     (if pc_TokenLabel cfg \<noteq> [] then
        (case p11_GetSlotList lib t of
           (None, t) \<Rightarrow> (Err (HSM_failure ''get slot list''), p11_Finalize lib t)
         | (Some slots, t) \<Rightarrow>
             (case find_slot lib (pc_TokenLabel cfg) slots t of
                (None, t) \<Rightarrow> (Err (HSM_failure ''token not found''), p11_Finalize lib t)
              | (Some s, t) \<Rightarrow> (Ok s, t)))
      else (Ok (pc_SlotID cfg), t))"

text \<open>Open the remaining sessions; when one fails, close those that are open, log out and give up.\<close>

fun open_rest :: "'t p11_lib \<Rightarrow> nat \<Rightarrow> nat \<Rightarrow> nat \<Rightarrow> nat list \<Rightarrow> ('t, nat list) hsm_op" where
  "open_rest lib slotID firstSession 0 pool t = (Ok pool, t)"
| "open_rest lib slotID firstSession (Suc n) pool t =
     (case p11_OpenSession lib slotID t of
        (Some sess, t) \<Rightarrow> open_rest lib slotID firstSession n (pool @ [sess]) t
      | (None, t) \<Rightarrow>
          (Err (HSM_failure ''open pool session''),
           p11_Finalize lib (p11_Logout lib firstSession (fold (p11_CloseSession lib) pool t))))"

definition NewPKCS11Backend :: "'t p11_lib \<Rightarrow> PKCS11Config \<Rightarrow> 't \<Rightarrow> (hsm_error, 't hsm_state) res \<times> 't" where
  "NewPKCS11Backend lib cfg t =
     (if \<not> p11_New lib (pc_ModulePath cfg) then (Err (HSM_failure ''failed to load PKCS#11 module''), t)
      else
        op_bind (op_call ''PKCS#11 initialize'' (p11_Initialize lib)) (\<lambda>_.
        op_bind (choose_slot lib cfg) (\<lambda>slotID t.
          let poolSize = (if pc_PoolSize cfg \<le> 0 then 4 else nat (pc_PoolSize cfg)) in
          case p11_OpenSession lib slotID t of
            (None, t) \<Rightarrow> (Err (HSM_failure ''open session''), p11_Finalize lib t)
          | (Some firstSession, t) \<Rightarrow>
              (case p11_Login lib firstSession (pc_PIN cfg) t of
                 (None, t) \<Rightarrow>
                   (Err (HSM_failure ''login''), p11_Finalize lib (p11_CloseSession lib firstSession t))
               | (Some _, t) \<Rightarrow>
                   (case open_rest lib slotID firstSession (poolSize - 1) [firstSession] t of
                      (Ok pool, t) \<Rightarrow>
                        (Ok \<lparr>hs_token = t, hs_pool = pool, hs_cap = poolSize, hs_ctxDone = False, hs_random = None\<rparr>, t)
                    | (Err e, t) \<Rightarrow> (Err e, t)
                    | (Panic, t) \<Rightarrow> (Panic, t))))) t)"

text \<open>\<^verbatim>\<open>Close\<close> closes the idle sessions, logs out with the first of them and finalizes the module.\<close>

definition p11_Close :: "'t p11_lib \<Rightarrow> 't hsm_state \<Rightarrow> 't hsm_state" where
  "p11_Close lib b =
     (let t = fold (p11_CloseSession lib) (hs_pool b) (hs_token b);
          t = (case hs_pool b of [] \<Rightarrow> t | first # _ \<Rightarrow> p11_Logout lib first t)
      in b\<lparr>hs_token := p11_Finalize lib t, hs_pool := []\<rparr>)"

section \<open>The backend as an implementation of the interface\<close>

text \<open>With fuel for the listing. A listing that does not end is reported as a panic here, since the
  interface has no value for it; \<open>list_loop_fuel\<close> shows when the fuel is enough.\<close>

definition pkcs11_backend :: "'t p11_lib \<Rightarrow> (bytes \<Rightarrow> bytes) \<Rightarrow> nat \<Rightarrow> 't hsm_state backend_ops" where
  "pkcs11_backend lib sha256 fuel =
     \<lparr>hb_GenerateECKey = p11_GenerateECKey lib sha256, hb_Sign = p11_SignHash lib, hb_ECDH = p11_ECDH lib,
      hb_ListKeys = (\<lambda>curves b. case p11_ListKeys lib fuel curves b of None \<Rightarrow> (Panic, b) | Some r \<Rightarrow> r)\<rparr>"

section \<open>Lemmas\<close>

lemma list_contains_iff [simp]: "list_contains ss s \<longleftrightarrow> s \<in> set ss"
  by (induction ss) auto

text \<open>More fuel than needed changes nothing.\<close>

lemma list_loop_fuel:
  "list_loop lib curves session n keys t = Some r \<Longrightarrow> n \<le> m \<Longrightarrow> list_loop lib curves session m keys t = Some r"
proof (induction lib curves session n keys t arbitrary: m r rule: list_loop.induct)
  case (2 lib curves session n keys t)
  then obtain k where m: "m = Suc k" "n \<le> k" by (cases m) auto
  have IH: "list_loop lib curves session n keys' t'' = Some r \<Longrightarrow> list_loop lib curves session k keys' t'' = Some r"
    if "p11_FindObjects lib session 32 t = (Some (h # hs), t')" "list_batch lib curves session (h # hs) keys t' = (Ok keys', t'')"
    for h hs t' keys' t''
    using "2.IH" [OF that(1) [symmetric] refl refl that(2) [symmetric] refl _ m(2), of r] by blast
  show ?case
    using "2.prems"(1) IH m(1) by (auto split: prod.splits option.splits list.splits res.splits simp del: list_batch.simps)
qed simp

text \<open>Whatever an operation does, the pool holds the same sessions afterwards.\<close>

lemma pool_restored:
  "mset (hs_pool (snd (with_session f b))) = mset (hs_pool b)"
  by (auto simp: with_session_def pool_acquire_def pool_release_def Let_def split: list.split prod.split)

lemma curve_oids:
  "der_oid oidP256 = Some [6, 8, 42, 134, 72, 206, 61, 3, 1, 7]"
  "der_oid oidP384 = Some [6, 5, 43, 129, 4, 0, 34]"
  "der_oid oidP521 = Some [6, 5, 43, 129, 4, 0, 35]"
  by (simp_all add: der_oid_def oidP256_def oidP384_def oidP521_def der_tlv_def der_length_def base128_def base128_high.simps)

lemma curve_names:
  assumes "curveOID name = Ok oid"
  shows "\<exists>d. der_oid oid = Some d \<and> oidToCurveName d = Ok name \<and> (\<exists>c. parseCurve name = Ok c)"
proof -
  have "name = ''P-256'' \<and> oid = oidP256 \<or> name = ''P-384'' \<and> oid = oidP384 \<or> name = ''P-521'' \<and> oid = oidP521"
    using assms by (auto simp: curveOID_def split: if_splits)
  moreover have "oidToCurveName [6, 8, 42, 134, 72, 206, 61, 3, 1, 7] = Ok ''P-256''"
    "oidToCurveName [6, 5, 43, 129, 4, 0, 34] = Ok ''P-384''" "oidToCurveName [6, 5, 43, 129, 4, 0, 35] = Ok ''P-521''"
    by (simp_all add: oidToCurveName_def parse_oid_def read_tlv_def read_length_def read_arcs.simps
        oidP256_def oidP384_def oidP521_def)
  ultimately show ?thesis by (auto simp: parseCurve_def curve_oids)
qed

end
