(* ===== verification/Hsm_Pool.thy ===== *)
theory Hsm_Pool
  imports Hsm_Pkcs11 WebAuthn "HOL-Library.AList"
begin

text \<open>
  Two views on the HSM backend. First the pool under concurrency: requests acquire a session, work on
  the token and release the session, in any interleaving. The step relation keeps, beside the backend,
  which request holds which session. Second the keys: what the PKCS#11 standard says about objects
  (\<open>p11_documented\<close>) is enough for a generated key to be found by its identifier.
\<close>

section \<open>Requests on the pool\<close>

datatype pool_event = Acquire nat | Refused nat | Work nat | Release nat | Environment

text \<open>A send on a full channel blocks, so a release needs room in the pool.\<close>

inductive pool_step ::
  "'t hsm_state \<times> (nat \<times> nat) list \<Rightarrow> pool_event \<Rightarrow> 't hsm_state \<times> (nat \<times> nat) list \<Rightarrow> bool"
where
  acquire: "map_of held req = None \<Longrightarrow> pool_acquire b = (Ok s, b') \<Longrightarrow>
     pool_step (b, held) (Acquire req) (b', (req, s) # held)"
| refused: "pool_acquire b = (Err e, b') \<Longrightarrow> pool_step (b, held) (Refused req) (b', held)"
| work: "map_of held req = Some s \<Longrightarrow> pool_step (b, held) (Work req) (b\<lparr>hs_token := t\<rparr>, held)"
| release: "map_of held req = Some s \<Longrightarrow> length (hs_pool b) < hs_cap b \<Longrightarrow>
     pool_step (b, held) (Release req) (pool_release s b, AList.delete req held)"
| environment: "pool_step (b, held) Environment (b\<lparr>hs_ctxDone := c, hs_random := r\<rparr>, held)"

inductive pool_run ::
  "'t hsm_state \<times> (nat \<times> nat) list \<Rightarrow> pool_event list \<Rightarrow> 't hsm_state \<times> (nat \<times> nat) list \<Rightarrow> bool"
where
  start: "pool_run p [] p"
| step: "pool_run p tr q \<Longrightarrow> pool_step q e q' \<Longrightarrow> pool_run p (tr @ [e]) q'"

inductive_cases pool_stepE: "pool_step p e q"

text \<open>The sessions are somewhere, each once, and the pool never grows beyond its capacity.\<close>

definition pool_inv :: "nat list \<Rightarrow> nat \<Rightarrow> 't hsm_state \<times> (nat \<times> nat) list \<Rightarrow> bool" where
  "pool_inv sessions cap q \<longleftrightarrow>
     mset (hs_pool (fst q)) + mset (map snd (snd q)) = mset sessions \<and> hs_cap (fst q) = cap
     \<and> distinct (map fst (snd q))"

lemma delete_mset:
  "distinct (map fst al) \<Longrightarrow> map_of al k = Some v \<Longrightarrow> mset (map snd al) = add_mset v (mset (map snd (AList.delete k al)))"
proof (induction al)
  case (Cons p al)
  obtain a w where p: "p = (a, w)" by (cases p)
  show ?case
  proof (cases "a = k")
    case True
    with Cons.prems have "k \<notin> fst ` set al" by (simp add: p)
    then have "AList.delete k al = al" by (simp add: AList.delete_eq filter_id_conv) (force simp: image_iff)
    with True Cons.prems show ?thesis by (simp add: p)
  next
    case False
    with Cons show ?thesis by (simp add: p)
  qed
qed simp

lemma pool_step_inv: "pool_step q e q' \<Longrightarrow> pool_inv sessions cap q \<Longrightarrow> pool_inv sessions cap q'"
proof (induction rule: pool_step.induct)
  case (release held req s b)
  then show ?case
    using delete_mset [of held req s] distinct_delete [of held req] by (auto simp: pool_inv_def pool_release_def)
qed (auto simp: pool_inv_def pool_acquire_def map_of_eq_None_iff split: list.splits if_splits)

lemma pool_run_inv: "pool_run p tr q \<Longrightarrow> pool_inv sessions cap p \<Longrightarrow> pool_inv sessions cap q"
  by (induction rule: pool_run.induct) (auto intro: pool_step_inv)

text \<open>The pool a new backend starts with.\<close>

lemma open_rest_length:
  "open_rest lib slot first n pool t = (Ok pool', t') \<Longrightarrow> length pool' = length pool + n"
  by (induction lib slot first n pool t rule: open_rest.induct) (auto split: prod.splits option.splits)

lemma new_backend_pool:
  assumes "NewPKCS11Backend lib cfg t = (Ok b, t')"
  shows "length (hs_pool b) = hs_cap b" and "hs_cap b = (if pc_PoolSize cfg \<le> 0 then 4 else nat (pc_PoolSize cfg))"
    and "0 < hs_cap b"
  using assms
  by (auto simp: NewPKCS11Backend_def op_bind_def Let_def split: if_splits prod.splits res.splits option.splits
      dest!: open_rest_length)

section \<open>Objects on the token\<close>

type_synonym p11_object = "p11_attr \<rightharpoonup> p11_value"

definition has_attrs :: "p11_template \<Rightarrow> p11_object \<Rightarrow> bool" where
  "has_attrs tm ob \<longleftrightarrow> (\<forall>(a, v) \<in> set tm. ob a = Some v)"

definition matching :: "(nat \<rightharpoonup> p11_object) \<Rightarrow> p11_template \<Rightarrow> nat set" where
  "matching objs tm = {h. \<exists>ob. objs h = Some ob \<and> has_attrs tm ob}"

text \<open>What PKCS#11 documents of the calls: \<open>objs\<close> are the objects of the token, \<open>search\<close> the handles an
  active search of a session has still to report.\<close>

definition p11_documented ::
  "'t p11_lib \<Rightarrow> ('t \<Rightarrow> nat \<rightharpoonup> p11_object) \<Rightarrow> ('t \<Rightarrow> nat \<Rightarrow> nat list) \<Rightarrow> bool"
where
  "p11_documented lib objs search \<longleftrightarrow>
     (\<forall>s m pt qt t hp hq t'. p11_GenerateKeyPair lib s m pt qt t = (Some (hp, hq), t') \<longrightarrow>
        objs t hp = None \<and> objs t hq = None \<and> hp \<noteq> hq
        \<and> (\<exists>p q. objs t' = (objs t)(hp \<mapsto> p, hq \<mapsto> q) \<and> has_attrs pt p \<and> has_attrs qt q
             \<and> p CKA_CLASS = Some CKO_PUBLIC_KEY \<and> q CKA_CLASS = Some CKO_PRIVATE_KEY))
     \<and> (\<forall>s h as t r t'. p11_GetAttributeValue lib s h as t = (r, t') \<longrightarrow> objs t' = objs t)
     \<and> (\<forall>s h tm t t'. p11_SetAttributeValue lib s h tm t = (Some (), t') \<longrightarrow>
          (\<exists>ob. objs t h = Some ob \<and> objs t' = (objs t)(h \<mapsto> ob ++ map_of tm)))
     \<and> (\<forall>s tm t t'. p11_FindObjectsInit lib s tm t = (Some (), t') \<longrightarrow>
          objs t' = objs t \<and> set (search t' s) = matching (objs t) tm)
     \<and> (\<forall>s n t hs t'. p11_FindObjects lib s n t = (Some hs, t') \<longrightarrow>
          objs t' = objs t \<and> hs = take n (search t s) \<and> search t' s = drop n (search t s))
     \<and> (\<forall>s t. objs (p11_FindObjectsFinal lib s t) = objs t)"

lemma documented:
  assumes "p11_documented lib objs search"
  shows generate_documented: "p11_GenerateKeyPair lib s m pt qt t = (Some (hp, hq), t') \<Longrightarrow>
        objs t hp = None \<and> objs t hq = None \<and> hp \<noteq> hq
        \<and> (\<exists>p q. objs t' = (objs t)(hp \<mapsto> p, hq \<mapsto> q) \<and> has_attrs pt p \<and> has_attrs qt q
             \<and> p CKA_CLASS = Some CKO_PUBLIC_KEY \<and> q CKA_CLASS = Some CKO_PRIVATE_KEY)"
    and get_documented: "p11_GetAttributeValue lib s h as t = (r, t') \<Longrightarrow> objs t' = objs t"
    and set_documented: "p11_SetAttributeValue lib s h tm t = (Some (), t') \<Longrightarrow>
          \<exists>ob. objs t h = Some ob \<and> objs t' = (objs t)(h \<mapsto> ob ++ map_of tm)"
    and init_documented: "p11_FindObjectsInit lib s tm t = (Some (), t') \<Longrightarrow>
          objs t' = objs t \<and> set (search t' s) = matching (objs t) tm"
    and find_documented: "p11_FindObjects lib s n t = (Some hs, t') \<Longrightarrow>
          objs t' = objs t \<and> hs = take n (search t s) \<and> search t' s = drop n (search t s)"
    and final_documented: "objs (p11_FindObjectsFinal lib s t) = objs t"
  using assms [unfolded p11_documented_def] by presburger+

lemma op_bind_Ok: "op_bind m f t = (Ok x, t') \<longleftrightarrow> (\<exists>y u. m t = (Ok y, u) \<and> f y u = (Ok x, t'))"
  by (auto simp: op_bind_def split: prod.splits res.splits)

lemma op_call_Ok: "op_call msg c t = (Ok x, t') \<longleftrightarrow> c t = (Some x, t')"
  by (auto simp: op_call_def split: prod.splits option.splits)

lemma op_return_Ok: "op_return r t = (Ok x, t') \<longleftrightarrow> r = Ok x \<and> t' = t"
  by (auto simp: op_return_def)

lemma op_defer_Ok: "op_defer d m t = (Ok x, t') \<longleftrightarrow> (\<exists>u. m t = (Ok x, u) \<and> t' = d u)"
  by (auto simp: op_defer_def split: prod.splits)

lemma first_handle_Ok: "(case hs of [] \<Rightarrow> Err e | h # _ \<Rightarrow> Ok h) = Ok x \<longleftrightarrow> (\<exists>r. hs = x # r)"
  by (cases hs) auto

lemmas op_Ok = first_handle_Ok op_bind_Ok op_call_Ok op_return_Ok op_defer_Ok

lemma find_private_Ok:
  assumes "p11_documented lib objs search" and "findPrivateKeyByID lib s kb t = (Ok h, t')"
  shows "objs t' = objs t" and "h \<in> matching (objs t) [(CKA_CLASS, CKO_PRIVATE_KEY), (CKA_ID, PBytes kb)]"
proof -
  from assms(2) obtain u u' hs where i: "p11_FindObjectsInit lib s [(CKA_CLASS, CKO_PRIVATE_KEY), (CKA_ID, PBytes kb)] t = (Some (), u)"
    "p11_FindObjects lib s 1 u = (Some (h # hs), u')" "t' = p11_FindObjectsFinal lib s u'"
    by (auto simp: findPrivateKeyByID_def op_Ok)
  note d = init_documented [OF assms(1) i(1)] find_documented [OF assms(1) i(2)]
  show "objs t' = objs t" using d i(3) final_documented [OF assms(1)] by simp
  have "h \<in> set (take 1 (search u s))" using d by (metis list.set_intros(1))
  then show "h \<in> matching (objs t) [(CKA_CLASS, CKO_PRIVATE_KEY), (CKA_ID, PBytes kb)]"
    using d by (auto dest: in_set_takeD)
qed

lemma find_private_result:
  assumes "p11_documented lib objs search"
    and "matching (objs t) [(CKA_CLASS, CKO_PRIVATE_KEY), (CKA_ID, PBytes kb)] = {h}"
  shows "fst (findPrivateKeyByID lib s kb t) = Ok h \<or> (\<exists>m. fst (findPrivateKeyByID lib s kb t) = Err (HSM_failure m))"
proof -
  let ?tm = "[(CKA_CLASS, CKO_PRIVATE_KEY), (CKA_ID, PBytes kb)]"
  obtain i u where i: "p11_FindObjectsInit lib s ?tm t = (i, u)" by (metis surj_pair)
  obtain f u' where f: "p11_FindObjects lib s 1 u = (f, u')" by (metis surj_pair)
  show ?thesis
  proof (cases i)
    case (Some x)
    then have "set (search u s) = {h}" using assms(2) init_documented [OF assms(1)] i by (cases x) auto
    moreover have "hs = take 1 (search u s)" if "f = Some hs" for hs
      using find_documented [OF assms(1)] f that by blast
    ultimately have "hs = [h]" if "f = Some hs" for hs
      using that by (cases "search u s") auto
    then show ?thesis using i f Some
      by (cases f) (auto simp: findPrivateKeyByID_def op_bind_def op_call_def op_defer_def op_return_def)
  qed (use i in \<open>auto simp: findPrivateKeyByID_def op_bind_def op_call_def\<close>)
qed

text \<open>A successful generation, call by call.\<close>

abbreviation priv_template :: "bytes \<Rightarrow> p11_template" where
  "priv_template kb \<equiv> [(CKA_CLASS, CKO_PRIVATE_KEY), (CKA_ID, PBytes kb)]"

lemma read_point_objs:
  assumes "p11_documented lib objs search" and "readECPoint lib s h c t = (r, t')"
  shows "objs t' = objs t"
proof -
  obtain a u where a: "p11_GetAttributeValue lib s h [CKA_EC_POINT] t = (a, u)" by (metis surj_pair)
  with assms(2) have "t' = u"
    by (auto simp: readECPoint_def op_bind_def op_call_def op_return_def split: option.splits)
  moreover have "objs u = objs t" by (rule get_documented [OF assms(1) a])
  ultimately show ?thesis by simp
qed

lemma generate_on_Ok:
  assumes doc: "p11_documented lib objs search"
    and new: "matching (objs t) (priv_template kb) = {}"
    and gen: "generate_on lib sha256 (Some kb) curveName s t = (Ok (kid, pub), t')"
  shows "\<exists>hp hq p q. objs t hp = None \<and> objs t hq = None \<and> hp \<noteq> hq \<and> kid = hex_encode (take 16 (sha256 pub))
     \<and> objs t' = (objs t)(hp \<mapsto> p(CKA_ID \<mapsto> PBytes (str_bytes kid)), hq \<mapsto> q(CKA_ID \<mapsto> PBytes (str_bytes kid)))
     \<and> p CKA_CLASS = Some CKO_PUBLIC_KEY \<and> q CKA_CLASS = Some CKO_PRIVATE_KEY
     \<and> q CKA_SENSITIVE = Some (PBool True) \<and> q CKA_EXTRACTABLE = Some (PBool False)"
proof -
  from gen obtain derOID hp hq t1 t2 t3 h t4 where
    g: "p11_GenerateKeyPair lib s CKM_EC_KEY_PAIR_GEN
         [(CKA_TOKEN, PBool True), (CKA_VERIFY, PBool True), (CKA_EC_PARAMS, PBytes derOID), (CKA_ID, PBytes kb)]
         [(CKA_TOKEN, PBool True), (CKA_SIGN, PBool True), (CKA_SENSITIVE, PBool True), (CKA_EXTRACTABLE, PBool False),
          (CKA_DERIVE, PBool True), (CKA_ID, PBytes kb)] t = (Some (hp, hq), t1)"
    and r: "readECPoint lib s hp curveName t1 = (Ok pub, t2)" and kid: "kid = hex_encode (take 16 (sha256 pub))"
    and sp: "p11_SetAttributeValue lib s hp [(CKA_ID, PBytes (str_bytes kid))] t2 = (Some (), t3)"
    and f: "findPrivateKeyByID lib s kb t3 = (Ok h, t4)"
    and sq: "p11_SetAttributeValue lib s h [(CKA_ID, PBytes (str_bytes kid))] t4 = (Some (), t')"
    by (auto simp: generate_on_def op_Ok Let_def)
  obtain p q where pq: "objs t hp = None" "objs t hq = None" "hp \<noteq> hq"
      "objs t1 = (objs t)(hp \<mapsto> p, hq \<mapsto> q)" "p CKA_CLASS = Some CKO_PUBLIC_KEY" "q CKA_CLASS = Some CKO_PRIVATE_KEY"
      "q CKA_SENSITIVE = Some (PBool True)" "q CKA_EXTRACTABLE = Some (PBool False)"
    using generate_documented [OF doc g] by (auto simp: has_attrs_def)
  obtain ob where "objs t2 hp = Some ob" "objs t3 = (objs t2)(hp \<mapsto> ob ++ map_of [(CKA_ID, PBytes (str_bytes kid))])"
    using set_documented [OF doc sp] by blast
  with pq read_point_objs [OF doc r]
  have t3: "objs t3 = (objs t)(hp \<mapsto> p(CKA_ID \<mapsto> PBytes (str_bytes kid)), hq \<mapsto> q)"
    by (auto simp: fun_upd_twist)
  have "h = hq"
    using find_private_Ok(2) [OF doc f] new pq(5)
    by (auto simp: t3 matching_def has_attrs_def CKO_PUBLIC_KEY_def CKO_PRIVATE_KEY_def split: if_splits)
  moreover obtain ob' where "objs t4 h = Some ob'" "objs t' = (objs t4)(h \<mapsto> ob' ++ map_of [(CKA_ID, PBytes (str_bytes kid))])"
    using set_documented [OF doc sq] by blast
  ultimately have "objs t' = (objs t)(hp \<mapsto> p(CKA_ID \<mapsto> PBytes (str_bytes kid)), hq \<mapsto> q(CKA_ID \<mapsto> PBytes (str_bytes kid)))"
    using find_private_Ok(1) [OF doc f] by (simp add: t3)
  with pq kid show ?thesis by blast
qed

section \<open>A token in memory\<close>

text \<open>A module that satisfies what is documented: the objects are an association list, and one search is
  active at a time. It refuses templates that name an attribute twice or name the class of the key, and
  every public key is the generator of P-256.\<close>

record mem_token =
  mt_objects :: "(nat \<times> p11_object) list"
  mt_search :: "nat list"
  mt_sessions :: nat

definition template_ok :: "p11_template \<Rightarrow> bool" where
  "template_ok tm \<longleftrightarrow> distinct (map fst tm) \<and> CKA_CLASS \<notin> fst ` set tm"

definition mem_p11 :: "mem_token p11_lib" where
  "mem_p11 =
     \<lparr>p11_New = (\<lambda>_. True), p11_Initialize = (\<lambda>t. (Some (), t)), p11_Finalize = (\<lambda>t. t),
      p11_GetSlotList = (\<lambda>t. (Some [0], t)), p11_GetTokenLabel = (\<lambda>_ t. (Some ''r2ps'', t)),
      p11_OpenSession = (\<lambda>_ t. (Some (mt_sessions t), t\<lparr>mt_sessions := Suc (mt_sessions t)\<rparr>)),
      p11_CloseSession = (\<lambda>_ t. t), p11_Login = (\<lambda>_ _ t. (Some (), t)), p11_Logout = (\<lambda>_ t. t),
      p11_GenerateKeyPair = (\<lambda>_ _ pt qt t.
        let n = Suc (foldr max (map fst (mt_objects t)) 0) in
        if template_ok pt \<and> template_ok qt then
          (Some (n, Suc n), t\<lparr>mt_objects := (Suc n, (map_of qt)(CKA_CLASS \<mapsto> CKO_PRIVATE_KEY))
             # (n, (map_of pt)(CKA_CLASS \<mapsto> CKO_PUBLIC_KEY)) # mt_objects t\<rparr>)
        else (None, t)),
      p11_GetAttributeValue = (\<lambda>_ _ as t.
        (if as = [CKA_EC_POINT] then
           map_option (\<lambda>d. [der_tlv 4 d]) (elliptic_Marshal P256 (pub_X P256_G) (pub_Y P256_G)) else None, t)),
      p11_SetAttributeValue = (\<lambda>_ h tm t.
        case map_of (mt_objects t) h of
          None \<Rightarrow> (None, t)
        | Some ob \<Rightarrow> (Some (), t\<lparr>mt_objects := (h, ob ++ map_of tm) # mt_objects t\<rparr>)),
      p11_FindObjectsInit = (\<lambda>_ tm t.
        (Some (), t\<lparr>mt_search :=
           filter (\<lambda>h. has_attrs tm (the (map_of (mt_objects t) h))) (remdups (map fst (mt_objects t)))\<rparr>)),
      p11_FindObjects = (\<lambda>_ n t. (Some (take n (mt_search t)), t\<lparr>mt_search := drop n (mt_search t)\<rparr>)),
      p11_FindObjectsFinal = (\<lambda>_ t. t),
      p11_SignInit = (\<lambda>_ _ _ t. (Some (), t)), p11_Sign = (\<lambda>_ _ t. (Some (replicate 64 1), t)),
      p11_DeriveKey = (\<lambda>_ _ _ _ t. (None, t)), p11_DestroyObject = (\<lambda>_ _ t. t)\<rparr>"

lemma foldr_max_bound: "x \<in> set xs \<Longrightarrow> x \<le> foldr max xs (0 :: nat)"
  by (induction xs) auto

lemma fresh_handle:
  assumes "foldr max (map fst al) 0 < (n :: nat)"
  shows "map_of al n = None"
  using assms foldr_max_bound [of n "map fst al"] by (force simp: map_of_eq_None_iff)

lemma has_attrs_template: "template_ok tm \<Longrightarrow> has_attrs tm ((map_of tm)(CKA_CLASS \<mapsto> c))"
  by (auto simp: has_attrs_def template_ok_def image_iff)

lemma mem_p11_documented: "p11_documented mem_p11 (\<lambda>t. map_of (mt_objects t)) (\<lambda>t _. mt_search t)"
proof -
  have gen: "map_of (mt_objects t) hp = None \<and> map_of (mt_objects t) hq = None \<and> hp \<noteq> hq
        \<and> (\<exists>p q. map_of (mt_objects t') = (map_of (mt_objects t))(hp \<mapsto> p, hq \<mapsto> q) \<and> has_attrs pt p \<and> has_attrs qt q
             \<and> p CKA_CLASS = Some CKO_PUBLIC_KEY \<and> q CKA_CLASS = Some CKO_PRIVATE_KEY)"
    if "p11_GenerateKeyPair mem_p11 s m pt qt t = (Some (hp, hq), t')" for s m pt qt t hp hq t'
  proof -
    let ?n = "Suc (foldr max (map fst (mt_objects t)) 0)"
    from that have "template_ok pt" "template_ok qt" "hp = ?n" "hq = Suc ?n"
      and t': "map_of (mt_objects t') = (map_of (mt_objects t))
        (hp \<mapsto> (map_of pt)(CKA_CLASS \<mapsto> CKO_PUBLIC_KEY), hq \<mapsto> (map_of qt)(CKA_CLASS \<mapsto> CKO_PRIVATE_KEY))"
      by (auto simp: mem_p11_def Let_def split: if_splits)
    moreover have "map_of (mt_objects t) ?n = None" "map_of (mt_objects t) (Suc ?n) = None"
      by (rule fresh_handle, simp)+
    moreover note has_attrs_template [of pt CKO_PUBLIC_KEY] has_attrs_template [of qt CKO_PRIVATE_KEY]
    ultimately show ?thesis by (metis fun_upd_same n_not_Suc_n)
  qed
  have init: "set (mt_search t') = matching (map_of (mt_objects t)) tm"
    if "p11_FindObjectsInit mem_p11 s tm t = (Some (), t')" for s tm t t'
  proof -
    from that have "mt_search t' = filter (\<lambda>h. has_attrs tm (the (map_of (mt_objects t) h))) (remdups (map fst (mt_objects t)))"
      by (auto simp: mem_p11_def)
    then show ?thesis by (auto simp: matching_def simp flip: dom_map_of_conv_image_fst)
  qed
  have attrs: "\<exists>ob. map_of (mt_objects t) h = Some ob \<and> map_of (mt_objects t') = (map_of (mt_objects t))(h \<mapsto> ob ++ map_of tm)"
    if "p11_SetAttributeValue mem_p11 s h tm t = (Some (), t')" for s h tm t t'
    using that by (auto simp: mem_p11_def split: option.splits)
  have finds: "map_of (mt_objects t') = map_of (mt_objects t) \<and> hs = take n (mt_search t) \<and> mt_search t' = drop n (mt_search t)"
    if "p11_FindObjects mem_p11 s n t = (Some hs, t')" for s n t hs t'
    using that by (auto simp: mem_p11_def)
  have get: "p11_GetAttributeValue mem_p11 s h as t = (r, t') \<Longrightarrow> map_of (mt_objects t') = map_of (mt_objects t)"
    and start: "p11_FindObjectsInit mem_p11 s tm t = (r', t') \<Longrightarrow> map_of (mt_objects t') = map_of (mt_objects t)"
    and final: "map_of (mt_objects (p11_FindObjectsFinal mem_p11 s t)) = map_of (mt_objects t)" for s h as tm t r r' t'
    by (auto simp: mem_p11_def)
  show ?thesis
    unfolding p11_documented_def
    by (((erule gen get attrs finds | erule start init)
          | rule conjI allI impI final)+)
qed

section \<open>Properties\<close>

text \<open>C9: Sessions of the HSM are exclusive. A new backend has as many sessions as its configuration asks for
  (four when it asks for none). Whatever the interleaving of requests that take a session, work, and give
  it back, a session is never in the hands of two requests, never idle and in use at once, no session is
  lost or added, and a request that holds one can always give it back without blocking.\<close>

theorem hsm_sessions_exclusive:
  assumes "NewPKCS11Backend lib cfg t = (Ok b0, t')" and "distinct (hs_pool b0)"
    and "pool_run (b0, []) tr (b, held)"
  shows "p11_PoolSize b = (if pc_PoolSize cfg \<le> 0 then 4 else nat (pc_PoolSize cfg))
     \<and> length (hs_pool b) + length held = p11_PoolSize b
     \<and> set (hs_pool b) \<union> snd ` set held = set (hs_pool b0)
     \<and> distinct (map snd held) \<and> set (hs_pool b) \<inter> snd ` set held = {}
     \<and> ((\<exists>s. map_of held req = Some s) \<longrightarrow> (\<exists>q. pool_step (b, held) (Release req) q))"
proof -
  have inv: "mset (hs_pool b @ map snd held) = mset (hs_pool b0)" "hs_cap b = hs_cap b0"
    using pool_run_inv [OF assms(3), of "hs_pool b0" "hs_cap b0"] by (simp_all add: pool_inv_def)
  have d: "distinct (hs_pool b @ map snd held)" using assms(2) mset_eq_imp_distinct_iff [OF inv(1)] by simp
  have len: "length (hs_pool b) + length held = hs_cap b"
    using mset_eq_length [OF inv(1)] inv(2) new_backend_pool(1) [OF assms(1)] by simp
  have "\<exists>q. pool_step (b, held) (Release req) q" if "map_of held req = Some s" for s
  proof -
    have "held \<noteq> []" using that by auto
    then have "length (hs_pool b) < hs_cap b" using len by (cases held) auto
    with that show ?thesis by (blast intro: pool_step.release)
  qed
  moreover have "set (hs_pool b) \<union> snd ` set held = set (hs_pool b0)" using mset_eq_setD [OF inv(1)] by simp
  ultimately show ?thesis
    using d len inv(2) new_backend_pool(2) [OF assms(1)] by (auto simp: p11_PoolSize_def)
qed

definition demo_p11_cfg :: PKCS11Config where
  "demo_p11_cfg = \<lparr>pc_ModulePath = ''softhsm'', pc_SlotID = 0, pc_PIN = ''1234'', pc_TokenLabel = ''r2ps'', pc_PoolSize = 2\<rparr>"

definition demo_token :: mem_token where
  "demo_token = \<lparr>mt_objects = [], mt_search = [], mt_sessions = 0\<rparr>"

definition demo_hsm :: "mem_token hsm_state" where
  "demo_hsm = \<lparr>hs_token = demo_token\<lparr>mt_sessions := 2\<rparr>, hs_pool = [0, 1], hs_cap = 2, hs_ctxDone = False, hs_random = None\<rparr>"

lemma demo_new: "NewPKCS11Backend mem_p11 demo_p11_cfg demo_token = (Ok demo_hsm, demo_token\<lparr>mt_sessions := 2\<rparr>)"
  by (simp add: NewPKCS11Backend_def mem_p11_def op_bind_def op_call_def choose_slot_def demo_p11_cfg_def demo_token_def
      demo_hsm_def numeral_2_eq_2)

lemma demo_pool_run: "pool_run (demo_hsm, []) [Acquire 7, Acquire 8] (demo_hsm\<lparr>hs_pool := []\<rparr>, [(8, 1), (7, 0)])"
proof -
  have "pool_step (demo_hsm, []) (Acquire 7) (demo_hsm\<lparr>hs_pool := [1]\<rparr>, [(7, 0)])"
    by (rule pool_step.acquire) (simp_all add: pool_acquire_def demo_hsm_def)
  moreover have "pool_step (demo_hsm\<lparr>hs_pool := [1]\<rparr>, [(7, 0)]) (Acquire 8) (demo_hsm\<lparr>hs_pool := []\<rparr>, [(8, 1), (7, 0)])"
    by (rule pool_step.acquire) (simp_all add: pool_acquire_def demo_hsm_def)
  ultimately show ?thesis
    using pool_run.step [OF pool_run.step [OF pool_run.start]] by fastforce
qed

theorem hsm_sessions_exclusive_witness:
  "length (hs_pool (demo_hsm\<lparr>hs_pool := []\<rparr>)) + length [(8 :: nat, 1 :: nat), (7, 0)] = 2
   \<and> (\<exists>q. pool_step (demo_hsm\<lparr>hs_pool := []\<rparr>, [(8, 1), (7, 0)]) (Release 7) q)"
proof -
  have d: "distinct (hs_pool demo_hsm)" by (simp add: demo_hsm_def)
  show ?thesis
    using hsm_sessions_exclusive [OF demo_new d demo_pool_run, of 7] by simp
qed

text \<open>C20: A generated key is a key of the token. With a module that behaves as PKCS#11 documents, when the
  generation of a key answers and the temporary identifier was not in use for a private key, exactly two
  objects are new, a public and a private key, both named by the first 16 bytes of the SHA-256 of the
  public key in hexadecimal; the private key is marked sensitive and not extractable, all other objects
  are as before and all sessions are back in the pool. When no private key had that name, looking it up
  finds the new private key, or the module reports a failure.\<close>

theorem generated_key_found:
  assumes "p11_documented lib objs search" and "hs_random b = Some kb"
    and "matching (objs (hs_token b)) [(CKA_CLASS, CKO_PRIVATE_KEY), (CKA_ID, PBytes kb)] = {}"
    and "p11_GenerateECKey lib sha256 curveName b = (Ok (kid, pub), b')"
    and "matching (objs (hs_token b)) [(CKA_CLASS, CKO_PRIVATE_KEY), (CKA_ID, PBytes (str_bytes kid))] = {}"
  shows "kid = hex_encode (take 16 (sha256 pub)) \<and> mset (hs_pool b') = mset (hs_pool b)
     \<and> (\<exists>hp hq p q. objs (hs_token b) hp = None \<and> objs (hs_token b) hq = None \<and> hp \<noteq> hq
         \<and> objs (hs_token b') = (objs (hs_token b))(hp \<mapsto> p, hq \<mapsto> q)
         \<and> p CKA_CLASS = Some CKO_PUBLIC_KEY \<and> p CKA_ID = Some (PBytes (str_bytes kid))
         \<and> q CKA_CLASS = Some CKO_PRIVATE_KEY \<and> q CKA_ID = Some (PBytes (str_bytes kid))
         \<and> q CKA_SENSITIVE = Some (PBool True) \<and> q CKA_EXTRACTABLE = Some (PBool False)
         \<and> (\<forall>s. fst (findPrivateKeyByID lib s (str_bytes kid) (hs_token b')) = Ok hq
             \<or> (\<exists>m. fst (findPrivateKeyByID lib s (str_bytes kid) (hs_token b')) = Err (HSM_failure m))))"
proof -
  obtain session where g: "generate_on lib sha256 (Some kb) curveName session (hs_token b) = (Ok (kid, pub), hs_token b')"
    using assms(2,4)
    by (auto simp: p11_GenerateECKey_def with_session_def pool_acquire_def pool_release_def Let_def
        split: list.splits if_splits prod.splits)
  from generate_on_Ok [OF assms(1,3) g] obtain hp hq p q where
    k: "objs (hs_token b) hp = None" "objs (hs_token b) hq = None" "hp \<noteq> hq" "kid = hex_encode (take 16 (sha256 pub))"
    and o': "objs (hs_token b') = (objs (hs_token b))
       (hp \<mapsto> p(CKA_ID \<mapsto> PBytes (str_bytes kid)), hq \<mapsto> q(CKA_ID \<mapsto> PBytes (str_bytes kid)))"
    and a: "p CKA_CLASS = Some CKO_PUBLIC_KEY" "q CKA_CLASS = Some CKO_PRIVATE_KEY"
      "q CKA_SENSITIVE = Some (PBool True)" "q CKA_EXTRACTABLE = Some (PBool False)" by blast
  have "matching (objs (hs_token b')) (priv_template (str_bytes kid)) = {hq}"
    using assms(5) k(3) a(1,2)
    by (auto simp: o' matching_def has_attrs_def CKO_PUBLIC_KEY_def CKO_PRIVATE_KEY_def split: if_splits)
  note found = find_private_result [OF assms(1) this]
  have "mset (hs_pool b') = mset (hs_pool b)"
    using pool_restored [of "generate_on lib sha256 (hs_random b) curveName" b] assms(4) by (simp add: p11_GenerateECKey_def)
  moreover have "(p(CKA_ID \<mapsto> PBytes (str_bytes kid))) CKA_CLASS = Some CKO_PUBLIC_KEY"
    "(q(CKA_ID \<mapsto> PBytes (str_bytes kid))) CKA_CLASS = Some CKO_PRIVATE_KEY"
    "(q(CKA_ID \<mapsto> PBytes (str_bytes kid))) CKA_SENSITIVE = Some (PBool True)"
    "(q(CKA_ID \<mapsto> PBytes (str_bytes kid))) CKA_EXTRACTABLE = Some (PBool False)"
    using a by simp_all
  moreover have "(p(CKA_ID \<mapsto> PBytes (str_bytes kid))) CKA_ID = Some (PBytes (str_bytes kid))"
    "(q(CKA_ID \<mapsto> PBytes (str_bytes kid))) CKA_ID = Some (PBytes (str_bytes kid))" by simp_all
  ultimately show ?thesis using k o' found by blast
qed

lemma demo_read_point:
  "readECPoint mem_p11 s h ''P-256'' t = (Ok (3 # be_bytes 32 (nat (pub_X P256_G))), t)"
proof -
  obtain d where d: "elliptic_Marshal P256 (pub_X P256_G) (pub_Y P256_G) = Some d" "length d = 65"
    using P256_G_on_curve by (simp add: elliptic_Marshal_def byte_len_def P256_params_def)
  have "parse_octets (der_tlv 4 d) = Some (d, [])"
    using read_der_tlv [of d 4 "[]"] d(2) by (simp add: parse_octets_def)
  moreover have "elliptic_Unmarshal P256 d = Some (pub_X P256_G, pub_Y P256_G)" using d(1) by (simp add: elliptic_iff)
  moreover have "odd (pub_Y P256_G)" by (simp add: P256_G_def)
  ultimately have "compress_point ''P-256'' (unwrap_point (der_tlv 4 d)) = Ok (3 # be_bytes 32 (nat (pub_X P256_G)))"
    using P256_G_on_curve
    by (simp add: compress_point_def unwrap_point_def parseCurve_def elliptic_MarshalCompressed_def byte_len_def P256_params_def)
  moreover have "der_tlv 4 d \<noteq> []" by (simp add: der_tlv_def)
  ultimately show ?thesis by (simp add: readECPoint_def mem_p11_def op_bind_def op_call_def op_return_def d(1))
qed

definition demo_sha256 :: "bytes \<Rightarrow> bytes" where "demo_sha256 _ = replicate 32 0"

lemma mem_p11_calls:
  "p11_GenerateKeyPair mem_p11 s m pt qt t =
     (let n = Suc (foldr max (map fst (mt_objects t)) 0) in
      if template_ok pt \<and> template_ok qt then
        (Some (n, Suc n), t\<lparr>mt_objects := (Suc n, (map_of qt)(CKA_CLASS \<mapsto> CKO_PRIVATE_KEY))
           # (n, (map_of pt)(CKA_CLASS \<mapsto> CKO_PUBLIC_KEY)) # mt_objects t\<rparr>)
      else (None, t))"
  "p11_SetAttributeValue mem_p11 s h tm t =
     (case map_of (mt_objects t) h of
        None \<Rightarrow> (None, t)
      | Some ob \<Rightarrow> (Some (), t\<lparr>mt_objects := (h, ob ++ map_of tm) # mt_objects t\<rparr>))"
  "p11_FindObjectsInit mem_p11 s tm t =
     (Some (), t\<lparr>mt_search := filter (\<lambda>h. has_attrs tm (the (map_of (mt_objects t) h))) (remdups (map fst (mt_objects t)))\<rparr>)"
  "p11_FindObjects mem_p11 s n t = (Some (take n (mt_search t)), t\<lparr>mt_search := drop n (mt_search t)\<rparr>)"
  "p11_FindObjectsFinal mem_p11 s t = t"
  by (simp_all add: mem_p11_def)

lemma demo_generate:
  "\<exists>pub b'. p11_GenerateECKey mem_p11 demo_sha256 ''P-256'' (demo_hsm\<lparr>hs_random := Some (replicate 16 9)\<rparr>)
     = (Ok (hex_encode (replicate 16 0), pub), b')"
proof -
  have tm: "template_ok [(CKA_TOKEN, PBool True), (CKA_VERIFY, PBool True), (CKA_EC_PARAMS, PBytes d), (CKA_ID, PBytes kb)]"
    "template_ok [(CKA_TOKEN, PBool True), (CKA_SIGN, PBool True), (CKA_SENSITIVE, PBool True), (CKA_EXTRACTABLE, PBool False),
          (CKA_DERIVE, PBool True), (CKA_ID, PBytes kb)]" for d kb
    by (simp_all add: template_ok_def)
  show ?thesis
    by (simp add: p11_GenerateECKey_def with_session_def pool_acquire_def demo_hsm_def generate_on_def findPrivateKeyByID_def
        op_bind_def op_return_def op_call_def op_defer_def curveOID_def curve_oids demo_read_point demo_sha256_def
        mem_p11_calls tm demo_token_def has_attrs_def CKO_PUBLIC_KEY_def CKO_PRIVATE_KEY_def Let_def)
qed

theorem generated_key_found_witness:
  "\<exists>pub b' hq. p11_GenerateECKey mem_p11 demo_sha256 ''P-256'' (demo_hsm\<lparr>hs_random := Some (replicate 16 9)\<rparr>)
     = (Ok (hex_encode (replicate 16 0), pub), b')
   \<and> map_of (mt_objects (hs_token b')) hq \<noteq> None \<and> mset (hs_pool b') = {#0, 1#}"
proof -
  let ?b = "demo_hsm\<lparr>hs_random := Some (replicate 16 9)\<rparr>" and ?objs = "\<lambda>t. map_of (mt_objects t)"
  obtain pub b' where g: "p11_GenerateECKey mem_p11 demo_sha256 ''P-256'' ?b = (Ok (hex_encode (replicate 16 0), pub), b')"
    using demo_generate by blast
  have e: "matching (?objs (hs_token ?b)) tm = {}" for tm
    by (simp add: matching_def demo_hsm_def demo_token_def)
  have r: "hs_random ?b = Some (replicate 16 9)" by simp
  from generated_key_found [OF mem_p11_documented r e g e]
  obtain hq q where "?objs (hs_token b') hq = Some q" "mset (hs_pool b') = mset (hs_pool ?b)"
    by (metis fun_upd_same)
  with g show ?thesis by (fastforce simp: demo_hsm_def)
qed

end
