(* ===== verification/R2PS_Client.thy ===== *)
theory R2PS_Client
  imports Dispatcher_Policies
begin

text \<open>
  \<^verbatim>\<open>pkg/client/client.go\<close>: the protocol client, and its conversation with the dispatcher. The client side
  of the bytemare/opaque library is the parameter \<open>opaque_client\<close>, with \<open>'c\<close> the state of its client
  object; a transport is a function on the state \<open>'t\<close> of whatever carries the request.
\<close>

section \<open>The client\<close>

type_synonym 't transport = "string \<Rightarrow> 't \<Rightarrow> string option \<times> 't"

record Client =
  rc_clientID :: string
  rc_context :: string
  rc_clientKey :: PrivateKey
  rc_serverPub :: PublicKey
  rc_sessionID :: string
  rc_sessionKey :: "bytes option"

definition NewClient :: "string \<Rightarrow> string \<Rightarrow> PrivateKey \<Rightarrow> PublicKey \<Rightarrow> Client" where
  "NewClient clientID ctx clientKey serverPub =
     \<lparr>rc_clientID = clientID, rc_context = ctx, rc_clientKey = clientKey, rc_serverPub = serverPub,
      rc_sessionID = [], rc_sessionKey = None\<rparr>"

definition client_SessionID :: "Client \<Rightarrow> string" where
  "client_SessionID c = rc_sessionID c"

text \<open>Calls that draw randomness inside the library take it as a first argument.\<close>

record ('c, 'm) opaque_client =
  oc_Client :: "'c option"
  oc_RegistrationInit :: "bytes \<Rightarrow> 'c \<Rightarrow> bytes \<Rightarrow> ('m \<times> 'c) option"
  oc_GetRegistrationResponse :: "bytes \<Rightarrow> 'm option"
  oc_RegistrationFinalize :: "bytes \<Rightarrow> 'c \<Rightarrow> 'm \<Rightarrow> 'm option"
  oc_GenerateKE1 :: "bytes \<Rightarrow> 'c \<Rightarrow> bytes \<Rightarrow> ('m \<times> 'c) option"
  oc_GetKE2 :: "bytes \<Rightarrow> 'm option"
  oc_GenerateKE3 :: "'c \<Rightarrow> 'm \<Rightarrow> ('m \<times> bytes) option"

text \<open>What one request reads from its environment: the nonce and the clock.\<close>

record send_env =
  se_nonce :: "(nat \<Rightarrow> byte) option"
  se_now :: instant

datatype client_error =
    CE_create_client | CE_registration_init | CE_registration_finalize | CE_generate_KE1 | CE_generate_KE3
  | CE_create_deserializer | CE_decode | CE_deserialize | CE_unmarshal_data
  | CE_marshal_request | CE_sign | CE_transport | CE_verify | CE_unmarshal_response | CE_not_authenticated

section \<open>One signed exchange\<close>

text \<open>The part \<^verbatim>\<open>CallService\<close> and \<^verbatim>\<open>send2FA\<close> share: build and sign the request, send it, verify and parse the
  answer. Neither the nonce nor the success flag of the answer is looked at.\<close>

definition service_request :: "Client \<Rightarrow> send_env \<Rightarrow> string \<Rightarrow> string \<Rightarrow> string \<Rightarrow> bytes \<Rightarrow> ServiceRequest" where
  "service_request c env typ sessionID data nonce =
     \<lparr>sr_Ver = ProtocolVersion, sr_Nonce = URLEncoding_Encode nonce, sr_Iat = to_unix (se_now env), sr_Data = data,
      sr_ClientID = rc_clientID c, sr_Context = rc_context c, sr_Type = typ, sr_TFASessionID = sessionID,
      sr_JWEHash = []\<rparr>"

definition read_response :: "jose_lib \<Rightarrow> PublicKey \<Rightarrow> string \<Rightarrow> (client_error, string) res" where
  "read_response lib serverPub respBody =
     res_bind (res_wrap (\<lambda>_. CE_verify) (VerifyJWS lib respBody serverPub)) (\<lambda>respPayload.
       case Unmarshal_ServiceResponse (bytes_str respPayload) of
         None \<Rightarrow> Err CE_unmarshal_response
       | Some svcResp \<Rightarrow> Ok (sp_Data svcResp))"

definition exchange ::
  "jose_lib \<Rightarrow> 't transport \<Rightarrow> Client \<Rightarrow> send_env \<Rightarrow> string \<Rightarrow> string \<Rightarrow> string \<Rightarrow> 't \<Rightarrow> (client_error, string) res \<times> 't"
where
  "exchange lib send c env typ sessionID data t =
     (case RandomBytes (se_nonce env) 16 of
        Ok nonce \<Rightarrow>
          (case Marshal_ServiceRequest (service_request c env typ sessionID data nonce) of
             None \<Rightarrow> (Err CE_marshal_request, t)
           | Some reqJSON \<Rightarrow>
               (case SignJWS lib (str_bytes reqJSON) (rc_clientKey c) [] [TypRequest] of
                  Err e \<Rightarrow> (Err CE_sign, t)
                | Panic \<Rightarrow> (Panic, t)
                | Ok jws \<Rightarrow>
                    (case send jws t of
                       (None, t) \<Rightarrow> (Err CE_transport, t)
                     | (Some respBody, t) \<Rightarrow> (read_response lib (rc_serverPub c) respBody, t))))
      | _ \<Rightarrow> (Panic, t))"

definition send2FA ::
  "jose_lib \<Rightarrow> 't transport \<Rightarrow> Client \<Rightarrow> send_env \<Rightarrow> string \<Rightarrow> string \<Rightarrow> TFARequestData \<Rightarrow> 't \<Rightarrow> (client_error, string) res \<times> 't"
where
  "send2FA lib send c env reqType sessionID tfaReq t =
     exchange lib send c env reqType sessionID (Marshal_TFARequestData tfaReq) t"

definition CallService ::
  "jose_lib \<Rightarrow> 't transport \<Rightarrow> Client \<Rightarrow> send_env \<Rightarrow> string \<Rightarrow> string \<Rightarrow> 't \<Rightarrow> (client_error, string) res \<times> 't"
where
  "CallService lib send c env serviceType reqData t =
     (if rc_sessionKey c = None then (Err CE_not_authenticated, t)
      else exchange lib send c env serviceType (rc_sessionID c) reqData t)"

text \<open>The data of an OPAQUE phase as the client sends it.\<close>

definition opaque_phase :: "string \<Rightarrow> bytes \<Rightarrow> TFARequestData" where
  "opaque_phase state msg =
     zero_TFARequestData\<lparr>tfa_Protocol := TFAModeOPAQUE, tfa_State := state, tfa_PData := URLEncoding_Encode msg\<rparr>"

section \<open>Registration\<close>

text \<open>The first phase gives the state of the OPAQUE client and the server's message, the second stores the
  record. \<open>seed1\<close> and \<open>seed2\<close> are what the library draws.\<close>

definition register_evaluate ::
  "jose_lib \<Rightarrow> 'm opaque_lib \<Rightarrow> ('c, 'm) opaque_client \<Rightarrow> 't transport \<Rightarrow> Client \<Rightarrow> send_env \<Rightarrow> bytes \<Rightarrow> bytes \<Rightarrow> 't
   \<Rightarrow> (client_error, 'c \<times> 'm) res \<times> 't"
where
  "register_evaluate lib ol oc send c env seed1 password t =
     (case oc_Client oc of
        None \<Rightarrow> (Err CE_create_client, t)
      | Some client \<Rightarrow>
          (case oc_RegistrationInit oc seed1 client password of
             None \<Rightarrow> (Err CE_registration_init, t)
           | Some (regReq, client) \<Rightarrow>
               (case send2FA lib send c env Type2FARegistration [] (opaque_phase StateEvaluate (ol_Serialize ol regReq)) t of
                  (Panic, t) \<Rightarrow> (Panic, t)
                | (Err e, t) \<Rightarrow> (Err e, t)
                | (Ok resp, t) \<Rightarrow>
                    (case Unmarshal_TFAResponseData resp of
                       None \<Rightarrow> Err CE_unmarshal_data
                     | Some tfaResp \<Rightarrow>
                         if \<not> ol_Deserializer ol then Err CE_create_deserializer
                         else
                           (case URLEncoding_Decode (tr_Response tfaResp) of
                              None \<Rightarrow> Err CE_decode
                            | Some respBytes \<Rightarrow>
                                (case oc_GetRegistrationResponse oc respBytes of
                                   None \<Rightarrow> Err CE_deserialize
                                 | Some regResp \<Rightarrow> Ok (client, regResp))), t))))"

definition client_Register ::
  "jose_lib \<Rightarrow> 'm opaque_lib \<Rightarrow> ('c, 'm) opaque_client \<Rightarrow> 't transport \<Rightarrow> Client \<Rightarrow> send_env \<times> send_env
   \<Rightarrow> bytes \<times> bytes \<Rightarrow> bytes \<Rightarrow> 't \<Rightarrow> (client_error, unit) res \<times> 't"
where
  "client_Register lib ol oc send c envs seeds password t =
     (case register_evaluate lib ol oc send c (fst envs) (fst seeds) password t of
        (Panic, t) \<Rightarrow> (Panic, t)
      | (Err e, t) \<Rightarrow> (Err e, t)
      | (Ok (client, regResp), t) \<Rightarrow>
          (case oc_RegistrationFinalize oc (snd seeds) client regResp of
             None \<Rightarrow> (Err CE_registration_finalize, t)
           | Some rec \<Rightarrow>
               (case send2FA lib send c (snd envs) Type2FARegistration []
                       (opaque_phase StateFinalize (ol_Serialize ol rec)) t of
                  (Panic, t) \<Rightarrow> (Panic, t)
                | (Err e, t) \<Rightarrow> (Err e, t)
                | (Ok _, t) \<Rightarrow> (Ok (), t))))"

section \<open>Authentication\<close>

definition auth_evaluate ::
  "jose_lib \<Rightarrow> 'm opaque_lib \<Rightarrow> ('c, 'm) opaque_client \<Rightarrow> 't transport \<Rightarrow> Client \<Rightarrow> send_env \<Rightarrow> bytes \<Rightarrow> bytes \<Rightarrow> 't
   \<Rightarrow> (client_error, 'c \<times> 'm \<times> string) res \<times> 't"
where
  "auth_evaluate lib ol oc send c env seed password t =
     (case oc_Client oc of
        None \<Rightarrow> (Err CE_create_client, t)
      | Some client \<Rightarrow>
          (case oc_GenerateKE1 oc seed client password of
             None \<Rightarrow> (Err CE_generate_KE1, t)
           | Some (ke1, client) \<Rightarrow>
               (case send2FA lib send c env Type2FAAuthenticate [] (opaque_phase StateEvaluate (ol_Serialize ol ke1)) t of
                  (Panic, t) \<Rightarrow> (Panic, t)
                | (Err e, t) \<Rightarrow> (Err e, t)
                | (Ok resp, t) \<Rightarrow>
                    (case Unmarshal_TFAAuthResponseData resp of
                       None \<Rightarrow> Err CE_unmarshal_data
                     | Some authResp \<Rightarrow>
                         if \<not> ol_Deserializer ol then Err CE_create_deserializer
                         else
                           (case URLEncoding_Decode (ta_Response authResp) of
                              None \<Rightarrow> Err CE_decode
                            | Some ke2Bytes \<Rightarrow>
                                (case oc_GetKE2 oc ke2Bytes of
                                   None \<Rightarrow> Err CE_deserialize
                                 | Some ke2 \<Rightarrow> Ok (client, ke2, ta_TFASessionID authResp))), t))))"

text \<open>Only the last step writes the client's session.\<close>

definition client_Authenticate ::
  "jose_lib \<Rightarrow> 'm opaque_lib \<Rightarrow> ('c, 'm) opaque_client \<Rightarrow> 't transport \<Rightarrow> send_env \<times> send_env \<Rightarrow> bytes \<Rightarrow> bytes
   \<Rightarrow> Client \<times> 't \<Rightarrow> (client_error, unit) res \<times> Client \<times> 't"
where
  "client_Authenticate lib ol oc send envs seed password ct =
     (let (c, t) = ct in
      case auth_evaluate lib ol oc send c (fst envs) seed password t of
        (Panic, t) \<Rightarrow> (Panic, c, t)
      | (Err e, t) \<Rightarrow> (Err e, c, t)
      | (Ok (client, ke2, sid), t) \<Rightarrow>
          (case oc_GenerateKE3 oc client ke2 of
             None \<Rightarrow> (Err CE_generate_KE3, c, t)
           | Some (ke3, sessionKey) \<Rightarrow>
               (case send2FA lib send c (snd envs) Type2FAAuthenticate sid
                       (opaque_phase StateFinalize (ol_Serialize ol ke3)) t of
                  (Panic, t) \<Rightarrow> (Panic, c, t)
                | (Err e, t) \<Rightarrow> (Err e, c, t)
                | (Ok _, t) \<Rightarrow> (Ok (), c\<lparr>rc_sessionID := sid, rc_sessionKey := Some sessionKey\<rparr>, t))))"

end
