(* ===== verification/Client_Flows.thy ===== *)
theory Client_Flows
  imports R2PS_Client
begin

text \<open>
  The client of \<^verbatim>\<open>pkg/client\<close> talking to the dispatcher: registration, login and service calls end to end,
  through the printed, signed and parsed messages of both sides.
\<close>

section \<open>The dispatcher as a transport\<close>

text \<open>Each request is processed in the next environment; an error of \<^verbatim>\<open>Process\<close> is a failure of the
  transport.\<close>

definition dispatcher_send ::
  "'m libs \<Rightarrow> ('h, 's, 'm) Dispatcher \<Rightarrow> (req_env list \<times> ('h, 's, 'm) dstate) transport"
where
  "dispatcher_send L d body q =
     (case fst q of
        [] \<Rightarrow> (None, q)
      | env # envs \<Rightarrow>
          (let (r, st) = Process L d env body (snd q) in (case r of Ok jws \<Rightarrow> Some jws | _ \<Rightarrow> None, envs, st)))"

text \<open>Client and server share the key the server verifies requests with, the client knows the server's
  public key, and signing with either works.\<close>

definition connected :: "'m libs \<Rightarrow> ('h, 's, 'm) Dispatcher \<Rightarrow> Client \<Rightarrow> bool" where
  "connected L d c \<longleftrightarrow>
     jose_signs (lib_jose L) \<and> d_clientKeys d = None \<and> rc_clientKey c = d_serverKey d
     \<and> rc_serverPub c = priv_PublicKey (d_serverKey d)
     \<and> (\<forall>p kid opts. \<exists>jws. SignJWS (lib_jose L) p (d_serverKey d) kid opts = Ok jws)
     \<and> utf8_valid (rc_clientID c) \<and> utf8_valid (rc_context c)"

text \<open>The clocks of both sides agree up to the allowed skew and fit 64 bits.\<close>

definition in_time :: "('h, 's, 'm) Dispatcher \<Rightarrow> send_env \<Rightarrow> req_env \<Rightarrow> bool" where
  "in_time d e env \<longleftrightarrow>
     se_nonce e \<noteq> None \<and> dur_Abs (time_Sub (re_iat env) (time_Unix (to_unix (se_now e)))) \<le> d_iatMaxSkew d
     \<and> min_int64 \<le> to_unix (se_now e) \<and> to_unix (se_now e) \<le> max_int64
     \<and> min_int64 \<le> to_unix (re_resp env) \<and> to_unix (re_resp env) \<le> max_int64"

definition nonce_of :: "send_env \<Rightarrow> bytes" where
  "nonce_of e = map (the (se_nonce e)) [0..<16]"

text \<open>The request the server reads, and the outcome when the server answers with signed data or with an
  error.\<close>

lemma exchange_routes:
  assumes "connected L d c" and "in_time d e env" and "utf8_valid typ" and "utf8_valid sid"
    and "encodes k data j" and "k < 9999"
  shows "exchange (lib_jose L) (dispatcher_send L d) c e typ sid data (env # envs, st) =
     (case route L d env (service_request c e typ sid data (nonce_of e)) st of
        (Ok jws, st') \<Rightarrow> (read_response (lib_jose L) (rc_serverPub c) jws, envs, st')
      | (_, st') \<Rightarrow> (Err CE_transport, envs, st'))"
proof -
  let ?req = "service_request c e typ sid data (nonce_of e)"
  obtain f where f: "se_nonce e = Some f" using assms(2) by (auto simp: in_time_def)
  have ok: "request_ok ?req" and wf: "well_formed_request d env ?req"
    using assms(1-4)
    by (simp_all add: request_ok_def well_formed_request_def service_request_def connected_def in_time_def nonce_of_def
        ProtocolVersion_def utf8_valid_ascii)
  have enc: "encodes k (sr_Data ?req) j" using assms(5) by (simp add: service_request_def)
  obtain p where p: "Marshal_ServiceRequest ?req = Some p" using request_roundtrip [OF ok enc assms(6)] by blast
  obtain jws where jws: "SignJWS (lib_jose L) (str_bytes p) (d_serverKey d) [] [TypRequest] = Ok jws"
    using assms(1) unfolding connected_def by blast
  have c: "jose_signs (lib_jose L)" "d_clientKeys d = None" "rc_clientKey c = d_serverKey d"
    using assms(1) by (simp_all add: connected_def)
  have acc: "accept_request L d env jws = Ok ?req"
    by (rule accept_signed [OF c(1,2) ok enc assms(6) wf p jws])
  have "RandomBytes (se_nonce e) 16 = Ok (nonce_of e)" by (simp add: RandomBytes_def f nonce_of_def del: upt.simps)
  then show ?thesis
    using p jws acc c(3)
    by (simp add: exchange_def dispatcher_send_def Process_def split: res.split prod.split)
qed

lemma read_respond:
  assumes "connected L d c" and "in_time d e env" and "encodes k data j" and "k < 9999" and "utf8_valid (sr_Nonce req)"
  shows "\<exists>jws. respond L d (re_resp env) req data = Ok jws \<and> read_response (lib_jose L) (rc_serverPub c) jws = Ok data"
proof -
  let ?r = "\<lparr>sp_Ver = ProtocolVersion, sp_Nonce = sr_Nonce req, sp_Iat = to_unix (re_resp env), sp_Data = data,
       sp_Success = Some True\<rparr>"
  have "response_ok ?r" using assms(2,5) by (simp add: response_ok_def in_time_def ProtocolVersion_def utf8_valid_ascii)
  then obtain p where "Marshal_ServiceResponse ?r = Some p"
    using response_roundtrip [of ?r k j] assms(3,4) by auto
  moreover obtain jws where "SignJWS (lib_jose L) (str_bytes p) (d_serverKey d) [] [TypResponse] = Ok jws"
    using assms(1) unfolding connected_def by blast
  ultimately have r: "respond L d (re_resp env) req data = Ok jws" by (simp add: respond_def)
  have "answers (lib_jose L) (priv_PublicKey (d_serverKey d)) req jws ?r"
    using assms r by (intro respond_answers) (auto simp: connected_def in_time_def)
  with r assms(1) show ?thesis
    by (auto simp: answers_def read_response_def connected_def)
qed

lemma exchange_answered:
  assumes "connected L d c" and "in_time d e env" and "utf8_valid typ" and "utf8_valid sid"
    and "encodes k data j" and "k < 9999" and "encodes k' out j'" and "k' < 9999"
    and "route L d env (service_request c e typ sid data (nonce_of e)) st =
       (respond L d (re_resp env) (service_request c e typ sid data (nonce_of e)) out, st')"
  shows "exchange (lib_jose L) (dispatcher_send L d) c e typ sid data (env # envs, st) = (Ok out, envs, st')"
proof -
  have "utf8_valid (sr_Nonce (service_request c e typ sid data (nonce_of e)))"
    by (simp add: service_request_def)
  from read_respond [OF assms(1,2,7,8) this] show ?thesis
    using exchange_routes [OF assms(1-6), of envs st] assms(9) by auto
qed

section \<open>What OPAQUE documents\<close>

text \<open>Registering succeeds against the server's key material and gives a record that survives its encoding;
  \<open>opens pw cid r\<close> says that the record opens with that password under that credential identifier. A
  login on such a record with the right password agrees on the session key and on the client MAC; with any
  other password the client cannot open the envelope and \<^verbatim>\<open>GenerateKE3\<close> fails.\<close>

definition registers ::
  "'m opaque_lib \<Rightarrow> ('c, 'm) opaque_client \<Rightarrow> ServerKeyMaterial option \<Rightarrow> (bytes \<Rightarrow> bytes \<Rightarrow> 'm \<Rightarrow> bool) \<Rightarrow> bool"
where
  "registers ol oc k opens \<longleftrightarrow>
     (\<forall>seed c pw. \<exists>m c'. oc_RegistrationInit oc seed c pw = Some (m, c') \<and> ol_Serialize ol m \<noteq> []
        \<and> ol_GetRegistrationRequest ol (ol_Serialize ol m) = Some m
        \<and> (\<forall>cid. \<exists>resp. ol_RegistrationResponse ol k m cid = Some resp
             \<and> oc_GetRegistrationResponse oc (ol_Serialize ol resp) = Some resp
             \<and> (\<forall>seed2. \<exists>r. oc_RegistrationFinalize oc seed2 c' resp = Some r \<and> ol_Serialize ol r \<noteq> []
                  \<and> ol_GetRegistrationRecord ol (ol_Serialize ol r) = Some r \<and> opens pw cid r)))"

definition logs_in ::
  "'m opaque_lib \<Rightarrow> ('c, 'm) opaque_client \<Rightarrow> ServerKeyMaterial option \<Rightarrow> (bytes \<Rightarrow> bytes \<Rightarrow> 'm \<Rightarrow> bool) \<Rightarrow> bool"
where
  "logs_in ol oc k opens \<longleftrightarrow>
     (\<forall>pw pw' cid r seed seed' c. opens pw cid r \<longrightarrow>
        (\<exists>ke1 c' ke2 mac secret. oc_GenerateKE1 oc seed c pw' = Some (ke1, c') \<and> ol_Serialize ol ke1 \<noteq> []
           \<and> ol_GetKE1 ol (ol_Serialize ol ke1) = Some ke1
           \<and> ol_GenerateKE2 ol k seed' ke1
               (Some \<lparr>rec_RegistrationRecord = r, rec_CredentialIdentifier = cid, rec_ClientIdentity = []\<rparr>)
             = Some (ke2, mac, secret)
           \<and> oc_GetKE2 oc (ol_Serialize ol ke2) = Some ke2
           \<and> (if pw' = pw
              then \<exists>ke3. oc_GenerateKE3 oc c' ke2 = Some (ke3, secret) \<and> ol_Serialize ol ke3 \<noteq> []
                 \<and> ol_GetKE3 ol (ol_Serialize ol ke3) = Some ke3 \<and> ol_LoginFinish ol k ke3 mac
              else oc_GenerateKE3 oc c' ke2 = None)))"

section \<open>The phases\<close>

lemma opaque_phase_sent:
  assumes "b \<noteq> []" and "state \<in> {StateEvaluate, StateFinalize}"
  shows "encodes 1 (Marshal_TFARequestData (opaque_phase state b)) (JObj (tfa_members (opaque_phase state b)))"
    and "Unmarshal_TFARequestData (Marshal_TFARequestData (opaque_phase state b)) = Some (opaque_phase state b)"
    and "tfa_phase (opaque_phase state b) state b"
proof -
  have ok: "tfa_ok (opaque_phase state b)"
    using assms(2)
    by (auto simp: tfa_ok_def opaque_phase_def zero_TFARequestData_def r2ps_state_defs min_int64_def max_int64_def
        TFAModeOPAQUE_def intro: utf8_valid_ascii)
  from enc_tfa [OF ok] tfa_roundtrip [OF ok]
  show "encodes 1 (Marshal_TFARequestData (opaque_phase state b)) (JObj (tfa_members (opaque_phase state b)))"
    and "Unmarshal_TFARequestData (Marshal_TFARequestData (opaque_phase state b)) = Some (opaque_phase state b)" .
  show "tfa_phase (opaque_phase state b) state b"
    using assms(1)
    by (simp add: tfa_phase_def opaque_phase_def zero_TFARequestData_def tfa_GetProtocol_def tfa_GetPData_def
        TFAModeOPAQUE_def b64_encode_not_Nil)
qed

lemma route_register_evaluate:
  assumes "sr_Type req = Type2FARegistration" and "Unmarshal_TFARequestData (sr_Data req) = Some tfa"
    and "tfa_phase tfa StateEvaluate b"
  shows "route L d env req st = regEvaluate L d env req b st"
  using assms by (simp add: route_def handle2FA_def tfa_phase_def r2ps_state_defs TFAModeOPAQUE_def TFAModeFIDO2_def)

lemma utf8_phase_types [simp]: "utf8_valid Type2FARegistration" "utf8_valid Type2FAAuthenticate"
  by (simp_all add: r2ps_type_defs utf8_valid_ascii)

text \<open>The three kinds of answers of the OPAQUE flows, as the client reads them.\<close>

lemma tr_answer:
  "tr_ok r \<Longrightarrow> encodes 1 (Marshal_TFAResponseData r) (JObj (tr_members r))
     \<and> Unmarshal_TFAResponseData (Marshal_TFAResponseData r) = Some r"
  using enc_tr tr_roundtrip by blast

lemma ta_answer:
  "ta_ok r \<Longrightarrow> encodes 1 (Marshal_TFAAuthResponseData r) (JObj (ta_members r))
     \<and> Unmarshal_TFAAuthResponseData (Marshal_TFAAuthResponseData r) = Some r"
  using enc_ta ta_roundtrip by blast

lemma registration_evaluated:
  assumes con: "connected L d c" and time: "in_time d e env" and "ol_Serialize (lib_opaque L) m \<noteq> []"
    and "ol_GetRegistrationRequest (lib_opaque L) (ol_Serialize (lib_opaque L) m) = Some m"
    and "ol_RegistrationResponse (lib_opaque L) (os_server (d_opaque d)) m (cred_id (rc_context c) (rc_clientID c)) = Some resp"
  shows "\<exists>out. send2FA (lib_jose L) (dispatcher_send L d) c e Type2FARegistration []
       (opaque_phase StateEvaluate (ol_Serialize (lib_opaque L) m)) (env # envs, st) = (Ok out, envs, st)
     \<and> (\<exists>r. Unmarshal_TFAResponseData out = Some r \<and> tr_Response r = URLEncoding_Encode (ol_Serialize (lib_opaque L) resp))"
proof -
  let ?b = "ol_Serialize (lib_opaque L) m" and ?enc = "URLEncoding_Encode (ol_Serialize (lib_opaque L) resp)"
  let ?data = "Marshal_TFARequestData (opaque_phase StateEvaluate ?b)"
  let ?req = "service_request c e Type2FARegistration [] ?data (nonce_of e)"
  let ?r = "\<lparr>tr_PData = ?enc, tr_Response = ?enc, tr_Message = []\<rparr>"
  have S: "StateEvaluate \<in> {StateEvaluate, StateFinalize}" by simp
  note ph = opaque_phase_sent [OF assms(3) S]
  have "route L d env ?req st = regEvaluate L d env ?req ?b st"
    by (rule route_register_evaluate [OF _ _ ph(3)]) (simp_all add: service_request_def ph(2))
  also have "\<dots> = (respond L d (re_resp env) ?req (Marshal_TFAResponseData ?r), st)"
    using assms(4,5)
    by (simp add: regEvaluate_def opaque_RegistrationResponse_def signResponse_def service_request_def Let_def)
  finally have r: "route L d env ?req st = (respond L d (re_resp env) ?req (Marshal_TFAResponseData ?r), st)" .
  have tr: "tr_ok ?r" by (simp add: tr_ok_def)
  have "send2FA (lib_jose L) (dispatcher_send L d) c e Type2FARegistration []
       (opaque_phase StateEvaluate ?b) (env # envs, st) = (Ok (Marshal_TFAResponseData ?r), envs, st)"
    unfolding send2FA_def
    by (rule exchange_answered [OF con time _ _ ph(1) _ tr_answer [OF tr, THEN conjunct1] _ r]) simp_all
  with tr_answer [OF tr] show ?thesis by auto
qed

lemma registration_finalized:
  assumes con: "connected L d c" and time: "in_time d e env" and "ol_Serialize (lib_opaque L) r \<noteq> []"
    and "ol_GetRegistrationRecord (lib_opaque L) (ol_Serialize (lib_opaque L) r) = Some r"
    and store: "d_records d = InMemoryRecordStore
      \<or> (d_records d = StoreRecordStore (lib_opaque L) memory_ops \<and> opaque_records (lib_opaque L))"
  shows "\<exists>out st'. send2FA (lib_jose L) (dispatcher_send L d) c e Type2FARegistration []
       (opaque_phase StateFinalize (ol_Serialize (lib_opaque L) r)) (env # envs, st) = (Ok out, envs, st')
     \<and> ds_sessions st' = ds_sessions st \<and> ds_counter st' = ds_counter st
     \<and> rs_GetRecord (d_records d) (rc_clientID c) (rc_context c) (rec_view st') =
         Ok \<lparr>rec_RegistrationRecord = r, rec_CredentialIdentifier = cred_id (rc_context c) (rc_clientID c),
             rec_ClientIdentity = []\<rparr>"
proof -
  let ?b = "ol_Serialize (lib_opaque L) r"
  let ?data = "Marshal_TFARequestData (opaque_phase StateFinalize ?b)"
  let ?req = "service_request c e Type2FARegistration [] ?data (nonce_of e)"
  let ?r = "zero_TFAResponseData\<lparr>tr_Message := ''success''\<rparr>"
  let ?rec = "\<lparr>rec_RegistrationRecord = r, rec_CredentialIdentifier = cred_id (rc_context c) (rc_clientID c), rec_ClientIdentity = []\<rparr>"
  obtain v where v: "rs_PutRecord (d_records d) (rc_clientID c) (rc_context c) ?rec (rec_view st) = (Ok (), v)"
    "rs_GetRecord (d_records d) (rc_clientID c) (rc_context c) v = Ok ?rec"
    using record_kept [OF assms(4) store] by blast
  have S: "StateFinalize \<in> {StateEvaluate, StateFinalize}" by simp
  note ph = opaque_phase_sent [OF assms(3) S]
  have "route L d env ?req st = regFinalize L d env ?req ?b st"
    by (rule route_register [OF _ _ ph(3)]) (simp_all add: service_request_def ph(2))
  also have "\<dots> = (respond L d (re_resp env) ?req (Marshal_TFAResponseData ?r), set_rec_view v st)"
    using assms(4) v(1)
    by (simp add: regFinalize_def DeserializeRegistrationRecord_def signResponse_def service_request_def)
  finally have route: "route L d env ?req st =
      (respond L d (re_resp env) ?req (Marshal_TFAResponseData ?r), set_rec_view v st)" .
  have tr: "tr_ok ?r" by (simp add: tr_ok_def zero_TFAResponseData_def utf8_valid_ascii)
  have "send2FA (lib_jose L) (dispatcher_send L d) c e Type2FARegistration []
       (opaque_phase StateFinalize ?b) (env # envs, st) = (Ok (Marshal_TFAResponseData ?r), envs, set_rec_view v st)"
    unfolding send2FA_def
    by (rule exchange_answered [OF con time _ _ ph(1) _ tr_answer [OF tr, THEN conjunct1] _ route]) simp_all
  moreover have "rec_view (set_rec_view v st) = v" by (simp add: rec_view_def set_rec_view_def)
  ultimately show ?thesis using v(2) by auto
qed

lemma login_evaluated:
  assumes con: "connected L d c" and time: "in_time d e env" and "ol_Serialize (lib_opaque L) ke1 \<noteq> []"
    and "fst (counter_Check (re_check env) (rc_clientID c) (rc_context c) (rc_context c) (ds_counter st)) = None"
    and "rs_GetRecord (d_records d) (rc_clientID c) (rc_context c) (rec_view st) = Ok r"
    and "ol_GetKE1 (lib_opaque L) (ol_Serialize (lib_opaque L) ke1) = Some ke1"
    and "ol_GenerateKE2 (lib_opaque L) (os_server (d_opaque d)) (re_ke2 env) ke1 (Some r) = Some (ke2, mac, secret)"
    and "re_session_id env = Some rnd" and sid: "sid = URLEncoding_Encode (map rnd [0..<32])"
    and "map_of (ds_sessions st) sid = None"
  shows "\<exists>out a ct. send2FA (lib_jose L) (dispatcher_send L d) c e Type2FAAuthenticate []
       (opaque_phase StateEvaluate (ol_Serialize (lib_opaque L) ke1)) (env # envs, st) =
         (Ok out, envs, st\<lparr>ds_counter := ct, ds_sessions := AList.update sid
            \<lparr>s_ID = sid, s_ClientID = rc_clientID c, s_Context = rc_context c, s_SessionKey = secret, s_ClientMAC = mac,
             s_ExpiresAt = re_new env + d_sessionTTL d, s_Verified = False, s_Task = []\<rparr> (ds_sessions st)\<rparr>)
     \<and> Unmarshal_TFAAuthResponseData out = Some a \<and> ta_TFASessionID a = sid
     \<and> ta_Response a = URLEncoding_Encode (ol_Serialize (lib_opaque L) ke2)"
proof -
  let ?b = "ol_Serialize (lib_opaque L) ke1" and ?enc = "URLEncoding_Encode (ol_Serialize (lib_opaque L) ke2)"
  let ?data = "Marshal_TFARequestData (opaque_phase StateEvaluate ?b)"
  let ?req = "service_request c e Type2FAAuthenticate [] ?data (nonce_of e)"
  let ?a = "zero_TFAAuthResponseData\<lparr>ta_SessionID := sid, ta_TFASessionID := sid, ta_PData := ?enc, ta_Response := ?enc\<rparr>"
  let ?sess = "\<lparr>s_ID = sid, s_ClientID = rc_clientID c, s_Context = rc_context c, s_SessionKey = secret, s_ClientMAC = mac,
             s_ExpiresAt = re_new env + d_sessionTTL d, s_Verified = False, s_Task = []\<rparr>"
  have S: "StateEvaluate \<in> {StateEvaluate, StateFinalize}" by simp
  note ph = opaque_phase_sent [OF assms(3) S]
  obtain ct where ct: "counter_Check (re_check env) (rc_clientID c) (rc_context c) (rc_context c) (ds_counter st) = (None, ct)"
    using assms(4) by (metis surj_pair fst_conv)
  let ?st = "st\<lparr>ds_counter := ct, ds_sessions := AList.update sid ?sess (ds_sessions st)\<rparr>"
  have rec: "lookup_record L d env ?req (st\<lparr>ds_counter := ct\<rparr>) = Ok (Some r)"
    using assms(5) by (simp add: lookup_record_def rec_view_def service_request_def)
  have ev: "AuthEvaluate (lib_opaque L) (re_ke2 env) (d_opaque d) ?b (Some r)
      = Ok (ol_Serialize (lib_opaque L) ke2, mac, secret)"
    using assms(6,7) by (simp add: AuthEvaluate_def)
  have "route L d env ?req st = authEvaluate L d env ?req (opaque_phase StateEvaluate ?b) ?b st"
    by (rule route_evaluate [OF _ _ ph(3)]) (simp_all add: service_request_def is_auth_def ph(2))
  also have "\<dots> = (respond L d (re_resp env) ?req (Marshal_TFAAuthResponseData ?a), ?st)"
    using rec ev ct assms(8,10)
    by (simp add: authEvaluate_def RandomBytes_def Let_def session_Create_def signResponse_def sid session_ttl_def
        opaque_phase_def zero_TFARequestData_def service_request_def del: upt.simps)
  finally have route: "route L d env ?req st = (respond L d (re_resp env) ?req (Marshal_TFAAuthResponseData ?a), ?st)" .
  have ta: "ta_ok ?a" by (simp add: ta_ok_def zero_TFAAuthResponseData_def sid min_int64_def max_int64_def)
  have "send2FA (lib_jose L) (dispatcher_send L d) c e Type2FAAuthenticate []
       (opaque_phase StateEvaluate ?b) (env # envs, st) = (Ok (Marshal_TFAAuthResponseData ?a), envs, ?st)"
    unfolding send2FA_def
    by (rule exchange_answered [OF con time _ _ ph(1) _ ta_answer [OF ta, THEN conjunct1] _ route]) simp_all
  with ta_answer [OF ta] show ?thesis by auto
qed

lemma login_finalized:
  assumes con: "connected L d c" and time: "in_time d e env" and "ol_Serialize (lib_opaque L) ke3 \<noteq> []"
    and "ol_GetKE3 (lib_opaque L) (ol_Serialize (lib_opaque L) ke3) = Some ke3"
    and "map_of (ds_sessions st) sid = Some sess" and "re_get env \<le> s_ExpiresAt sess" and "utf8_valid sid"
    and "ol_LoginFinish (lib_opaque L) (os_server (d_opaque d)) ke3 (s_ClientMAC sess)"
    and "min_int64 \<le> to_unix (s_ExpiresAt sess)" and "to_unix (s_ExpiresAt sess) \<le> max_int64"
  shows "\<exists>out st'. send2FA (lib_jose L) (dispatcher_send L d) c e Type2FAAuthenticate sid
       (opaque_phase StateFinalize (ol_Serialize (lib_opaque L) ke3)) (env # envs, st) = (Ok out, envs, st')
     \<and> map_of (ds_sessions st') sid = Some (sess\<lparr>s_Verified := True\<rparr>)
     \<and> ds_records st' = ds_records st"
proof -
  let ?b = "ol_Serialize (lib_opaque L) ke3"
  let ?data = "Marshal_TFARequestData (opaque_phase StateFinalize ?b)"
  let ?req = "service_request c e Type2FAAuthenticate sid ?data (nonce_of e)"
  let ?a = "zero_TFAAuthResponseData\<lparr>ta_SessionID := sid, ta_TFASessionID := sid, ta_Message := ''authenticated'',
             ta_SessionExpirationTime := to_unix (s_ExpiresAt sess)\<rparr>"
  have S: "StateFinalize \<in> {StateEvaluate, StateFinalize}" by simp
  note ph = opaque_phase_sent [OF assms(3) S]
  have get: "session_Get (re_get env) (sr_TFASessionID ?req) (ds_sessions st) = Some sess"
    using assms(5,6) by (simp add: session_Get_def session_expired_def service_request_def)
  have fin: "AuthFinalize (lib_opaque L) (d_opaque d) ?b (s_ClientMAC sess) = Ok ()"
    using assms(4,8) by (simp add: AuthFinalize_def)
  obtain st' where st': "authFinalize L d env ?req ?b st = (respond L d (re_resp env) ?req (Marshal_TFAAuthResponseData ?a), st')"
    using get fin assms(5)
    by (simp add: authFinalize_def session_MarkVerified_def signResponse_def Let_def service_request_def)
  have "route L d env ?req st = authFinalize L d env ?req ?b st"
    by (rule route_finalize [OF _ _ ph(3)]) (simp_all add: service_request_def is_auth_def ph(2))
  with st' have route: "route L d env ?req st = (respond L d (re_resp env) ?req (Marshal_TFAAuthResponseData ?a), st')" by simp
  have ta: "ta_ok ?a"
    using assms(7,9,10) by (simp add: ta_ok_def zero_TFAAuthResponseData_def utf8_valid_ascii)
  have "send2FA (lib_jose L) (dispatcher_send L d) c e Type2FAAuthenticate sid
       (opaque_phase StateFinalize ?b) (env # envs, st) = (Ok (Marshal_TFAAuthResponseData ?a), envs, st')"
    unfolding send2FA_def
    by (rule exchange_answered [OF con time _ assms(7) ph(1) _ ta_answer [OF ta, THEN conjunct1] _ route]) simp_all
  moreover have "map_of (ds_sessions st') sid = Some (sess\<lparr>s_Verified := True\<rparr>)"
    using finalize_verifies [OF get fin] st' by (simp add: update_conv' service_request_def)
  moreover have "ds_records st' = ds_records st" using auth_records(2) [of L d env ?req ?b st] st' by simp
  ultimately show ?thesis by auto
qed

section \<open>Registration and login\<close>

lemma client_registers:
  assumes con: "connected L d c" and "registers (lib_opaque L) oc (os_server (d_opaque d)) opens"
    and "oc_Client oc = Some c0" and "ol_Deserializer (lib_opaque L)"
    and store: "d_records d = InMemoryRecordStore
      \<or> (d_records d = StoreRecordStore (lib_opaque L) memory_ops \<and> opaque_records (lib_opaque L))"
    and time: "in_time d (fst es) env1" "in_time d (snd es) env2"
  shows "\<exists>r st1. client_Register (lib_jose L) (lib_opaque L) oc (dispatcher_send L d) c es seeds pw (env1 # env2 # envs, st)
         = (Ok (), envs, st1)
     \<and> opens pw (cred_id (rc_context c) (rc_clientID c)) r
     \<and> ds_sessions st1 = ds_sessions st \<and> ds_counter st1 = ds_counter st
     \<and> rs_GetRecord (d_records d) (rc_clientID c) (rc_context c) (rec_view st1) =
         Ok \<lparr>rec_RegistrationRecord = r, rec_CredentialIdentifier = cred_id (rc_context c) (rc_clientID c),
             rec_ClientIdentity = []\<rparr>"
proof -
  let ?ol = "lib_opaque L" and ?cid = "cred_id (rc_context c) (rc_clientID c)" and ?k = "os_server (d_opaque d)"
  obtain m c' where m: "oc_RegistrationInit oc (fst seeds) c0 pw = Some (m, c')" "ol_Serialize ?ol m \<noteq> []"
      "ol_GetRegistrationRequest ?ol (ol_Serialize ?ol m) = Some m"
    and server: "\<And>cid. \<exists>resp. ol_RegistrationResponse ?ol ?k m cid = Some resp
             \<and> oc_GetRegistrationResponse oc (ol_Serialize ?ol resp) = Some resp
             \<and> (\<forall>seed2. \<exists>r. oc_RegistrationFinalize oc seed2 c' resp = Some r \<and> ol_Serialize ?ol r \<noteq> []
                  \<and> ol_GetRegistrationRecord ?ol (ol_Serialize ?ol r) = Some r \<and> opens pw cid r)"
    using assms(2) unfolding registers_def by metis
  obtain resp where resp: "ol_RegistrationResponse ?ol ?k m ?cid = Some resp"
      "oc_GetRegistrationResponse oc (ol_Serialize ?ol resp) = Some resp"
    and fin: "\<And>seed2. \<exists>r. oc_RegistrationFinalize oc seed2 c' resp = Some r \<and> ol_Serialize ?ol r \<noteq> []
                  \<and> ol_GetRegistrationRecord ?ol (ol_Serialize ?ol r) = Some r \<and> opens pw ?cid r"
    using server [of ?cid] by blast
  obtain r where r: "oc_RegistrationFinalize oc (snd seeds) c' resp = Some r" "ol_Serialize ?ol r \<noteq> []"
      "ol_GetRegistrationRecord ?ol (ol_Serialize ?ol r) = Some r" "opens pw ?cid r"
    using fin by blast
  have "register_evaluate (lib_jose L) ?ol oc (dispatcher_send L d) c (fst es) (fst seeds) pw (env1 # env2 # envs, st)
      = (Ok (c', resp), env2 # envs, st)"
    using registration_evaluated [OF con time(1) m(2,3) resp(1), of "env2 # envs" st] assms(3,4) m(1) resp(2)
    by (auto simp: register_evaluate_def)
  moreover obtain out st1 where f: "send2FA (lib_jose L) (dispatcher_send L d) c (snd es) Type2FARegistration []
       (opaque_phase StateFinalize (ol_Serialize ?ol r)) (env2 # envs, st) = (Ok out, envs, st1)"
     "ds_sessions st1 = ds_sessions st" "ds_counter st1 = ds_counter st"
     "rs_GetRecord (d_records d) (rc_clientID c) (rc_context c) (rec_view st1) =
         Ok \<lparr>rec_RegistrationRecord = r, rec_CredentialIdentifier = ?cid, rec_ClientIdentity = []\<rparr>"
    using registration_finalized [OF con time(2) r(2,3) store, of envs st] by blast
  ultimately have "client_Register (lib_jose L) ?ol oc (dispatcher_send L d) c es seeds pw (env1 # env2 # envs, st)
      = (Ok (), envs, st1)"
    using r(1) by (simp add: client_Register_def)
  with f(2-4) r(4) show ?thesis by blast
qed

lemma client_logs_in:
  assumes con: "connected L d c" and "logs_in (lib_opaque L) oc (os_server (d_opaque d)) opens"
    and "oc_Client oc = Some c0" and "ol_Deserializer (lib_opaque L)"
    and time: "in_time d (fst es) env1" "in_time d (snd es) env2"
    and "opens pw (cred_id (rc_context c) (rc_clientID c)) r"
    and rec: "rs_GetRecord (d_records d) (rc_clientID c) (rc_context c) (rec_view st) =
         Ok \<lparr>rec_RegistrationRecord = r, rec_CredentialIdentifier = cred_id (rc_context c) (rc_clientID c),
             rec_ClientIdentity = []\<rparr>"
    and check: "fst (counter_Check (re_check env1) (rc_clientID c) (rc_context c) (rc_context c) (ds_counter st)) = None"
    and rnd: "re_session_id env1 = Some rnd" "map_of (ds_sessions st) (URLEncoding_Encode (map rnd [0..<32])) = None"
    and sid: "sid = URLEncoding_Encode (map rnd [0..<32])"
    and alive: "re_get env2 \<le> re_new env1 + d_sessionTTL d"
    and bounds: "min_int64 \<le> to_unix (re_new env1 + d_sessionTTL d)" "to_unix (re_new env1 + d_sessionTTL d) \<le> max_int64"
  shows "\<exists>res c' envs' st'. client_Authenticate (lib_jose L) (lib_opaque L) oc (dispatcher_send L d) es seed pw'
         (c, env1 # env2 # envs, st) = (res, c', envs', st')
     \<and> (\<exists>sess. map_of (ds_sessions st') sid = Some sess \<and> s_ClientID sess = rc_clientID c \<and> s_Context sess = rc_context c
          \<and> s_Task sess = [] \<and> s_ExpiresAt sess = re_new env1 + d_sessionTTL d
          \<and> (s_Verified sess \<longleftrightarrow> pw' = pw)
          \<and> (if pw' = pw
             then res = Ok () \<and> c' = c\<lparr>rc_sessionID := sid, rc_sessionKey := Some (s_SessionKey sess)\<rparr>
             else res = Err CE_generate_KE3 \<and> c' = c))"
proof -
  let ?ol = "lib_opaque L" and ?k = "os_server (d_opaque d)" and ?cid = "cred_id (rc_context c) (rc_clientID c)"
  let ?rec = "\<lparr>rec_RegistrationRecord = r, rec_CredentialIdentifier = ?cid, rec_ClientIdentity = []\<rparr>"
  obtain ke1 c1 ke2 mac secret where k: "oc_GenerateKE1 oc seed c0 pw' = Some (ke1, c1)" "ol_Serialize ?ol ke1 \<noteq> []"
      "ol_GetKE1 ?ol (ol_Serialize ?ol ke1) = Some ke1"
      "ol_GenerateKE2 ?ol ?k (re_ke2 env1) ke1 (Some ?rec) = Some (ke2, mac, secret)"
      "oc_GetKE2 oc (ol_Serialize ?ol ke2) = Some ke2"
    and ke3: "if pw' = pw
        then \<exists>ke3. oc_GenerateKE3 oc c1 ke2 = Some (ke3, secret) \<and> ol_Serialize ?ol ke3 \<noteq> []
           \<and> ol_GetKE3 ?ol (ol_Serialize ?ol ke3) = Some ke3 \<and> ol_LoginFinish ?ol ?k ke3 mac
        else oc_GenerateKE3 oc c1 ke2 = None"
    using assms(2,7) unfolding logs_in_def by metis
  define sess where "sess = \<lparr>s_ID = sid, s_ClientID = rc_clientID c, s_Context = rc_context c, s_SessionKey = secret,
      s_ClientMAC = mac, s_ExpiresAt = re_new env1 + d_sessionTTL d, s_Verified = False, s_Task = []\<rparr>"
  obtain st1 out a where s1: "send2FA (lib_jose L) (dispatcher_send L d) c (fst es) Type2FAAuthenticate []
       (opaque_phase StateEvaluate (ol_Serialize ?ol ke1)) (env1 # env2 # envs, st) = (Ok out, env2 # envs, st1)"
     "ds_sessions st1 = AList.update sid sess (ds_sessions st)"
     "Unmarshal_TFAAuthResponseData out = Some a" "ta_TFASessionID a = sid" "ta_Response a = URLEncoding_Encode (ol_Serialize ?ol ke2)"
    using login_evaluated [OF con time(1) k(2) check rec k(3,4) rnd(1) sid, of "env2 # envs"] rnd(2)
    by (auto simp: sid sess_def simp del: upt.simps)
  have ev: "auth_evaluate (lib_jose L) ?ol oc (dispatcher_send L d) c (fst es) seed pw' (env1 # env2 # envs, st)
      = (Ok (c1, ke2, sid), env2 # envs, st1)"
    using s1 assms(3,4) k(1,5) by (simp add: auth_evaluate_def)
  have m: "map_of (ds_sessions st1) sid = Some sess" by (simp add: s1(2) update_conv')
  show ?thesis
  proof (cases "pw' = pw")
    case True
    with ke3 obtain x where x: "oc_GenerateKE3 oc c1 ke2 = Some (x, secret)" "ol_Serialize ?ol x \<noteq> []"
      "ol_GetKE3 ?ol (ol_Serialize ?ol x) = Some x" "ol_LoginFinish ?ol ?k x (s_ClientMAC sess)" by (auto simp: sess_def)
    have "utf8_valid sid" "re_get env2 \<le> s_ExpiresAt sess" "min_int64 \<le> to_unix (s_ExpiresAt sess)"
      "to_unix (s_ExpiresAt sess) \<le> max_int64"
      using alive bounds by (simp_all add: sid sess_def)
    from login_finalized [OF con time(2) x(2,3) m this(2,1) x(4) this(3,4), of envs] obtain out' st' where
      "send2FA (lib_jose L) (dispatcher_send L d) c (snd es) Type2FAAuthenticate sid
        (opaque_phase StateFinalize (ol_Serialize ?ol x)) (env2 # envs, st1) = (Ok out', envs, st')"
      and "map_of (ds_sessions st') sid = Some (sess\<lparr>s_Verified := True\<rparr>)" by blast
    with ev x(1) True show ?thesis by (simp add: client_Authenticate_def sess_def)
  next
    case False
    with ev ke3 m show ?thesis by (simp add: client_Authenticate_def sess_def)
  qed
qed

section \<open>A service call\<close>

lemma authorize_verified:
  assumes "map_of (ds_sessions st) (sr_TFASessionID req) = Some sess" and "s_Verified sess" and "s_Task sess = []"
    and "s_Context sess = sr_Context req" and "re_get env \<le> s_ExpiresAt sess"
  shows "authorize L env h req (ds_sessions st) = Ok ()"
  using assms by (simp add: authorize_def require_session_def session_Get_def session_expired_def sad_check_def)

section \<open>A client and a server in memory\<close>

text \<open>An OPAQUE without cryptography: a record is the password behind a leading byte, and the server's KE2 is
  the record, which the client compares with its password.\<close>

definition plain_opaque :: "bytes opaque_lib" where
  "plain_opaque = toy_opaque\<lparr>ol_GenerateKE2 := \<lambda>k s m r.
     map_option (\<lambda>r. (rec_RegistrationRecord r, rec_RegistrationRecord r, rec_RegistrationRecord r)) r\<rparr>"

definition plain_client :: "(bytes, bytes) opaque_client" where
  "plain_client =
     \<lparr>oc_Client = Some [], oc_RegistrationInit = (\<lambda>s c pw. Some (1 # pw, pw)), oc_GetRegistrationResponse = Some,
      oc_RegistrationFinalize = (\<lambda>s c m. Some (1 # c)), oc_GenerateKE1 = (\<lambda>s c pw. Some (1 # pw, pw)),
      oc_GetKE2 = Some, oc_GenerateKE3 = (\<lambda>c ke2. if ke2 = 1 # c then Some (ke2, ke2) else None)\<rparr>"

definition plain_opens :: "bytes \<Rightarrow> bytes \<Rightarrow> bytes \<Rightarrow> bool" where
  "plain_opens pw cid r \<longleftrightarrow> r = 1 # pw"

lemma plain_documented: "registers plain_opaque plain_client k plain_opens" "logs_in plain_opaque plain_client k plain_opens"
  by (auto simp: registers_def logs_in_def plain_opaque_def plain_client_def plain_opens_def toy_opaque_def)

definition plain_libs :: "bytes libs" where
  "plain_libs = demo_libs\<lparr>lib_opaque := plain_opaque\<rparr>"

definition demo_client :: Client where
  "demo_client = NewClient ''alice'' ''hsm'' (d_serverKey demo_dispatcher) (priv_PublicKey (d_serverKey demo_dispatcher))"

definition demo_send :: send_env where
  "demo_send = \<lparr>se_nonce = Some (\<lambda>_. 1), se_now = 0\<rparr>"

lemma demo_connected: "connected plain_libs demo_dispatcher demo_client"
  using demo_jose toy_SignJWS demo_dispatcher_keys
  by (auto simp: connected_def plain_libs_def demo_client_def NewClient_def demo_libs_def utf8_valid_ascii)

lemma demo_in_time: "in_time demo_dispatcher demo_send demo_env"
proof -
  have "dur_Abs (time_Sub 0 (time_Unix 0)) = 0"
    by (simp add: time_Unix_def wrap64_def unixToInternal_def time_Sub_def clamp64_def dur_Abs_def min_int64_def max_int64_def)
  then show ?thesis
    by (simp add: in_time_def demo_send_def demo_env_def demo_dispatcher_def to_unix_def Second_def min_int64_def max_int64_def)
qed

section \<open>Properties\<close>

text \<open>C4: Registration and login end to end. A client that shares its key with the server registers a password
  and then logs in, each message printed, signed, verified and parsed by the two sides. The registration
  succeeds; a login with the registered password succeeds and leaves both sides with the same session
  identifier and session key, the session verified on the server; a login with any other password fails at
  the client, which keeps its state, and leaves the session unverified.\<close>

theorem client_login_end_to_end:
  assumes "connected L d c" and "registers (lib_opaque L) oc (os_server (d_opaque d)) opens"
    and "logs_in (lib_opaque L) oc (os_server (d_opaque d)) opens"
    and "oc_Client oc = Some c0" and "ol_Deserializer (lib_opaque L)"
    and "d_records d = InMemoryRecordStore
      \<or> (d_records d = StoreRecordStore (lib_opaque L) memory_ops \<and> opaque_records (lib_opaque L))"
    and "in_time d (fst es) env1" and "in_time d (snd es) env2" and "in_time d (fst es') env3" and "in_time d (snd es') env4"
    and "fst (counter_Check (re_check env3) (rc_clientID c) (rc_context c) (rc_context c) (ds_counter st)) = None"
    and "re_session_id env3 = Some rnd" and "sid = URLEncoding_Encode (map rnd [0..<32])" and "map_of (ds_sessions st) sid = None"
    and "re_get env4 \<le> re_new env3 + d_sessionTTL d"
    and "min_int64 \<le> to_unix (re_new env3 + d_sessionTTL d)" and "to_unix (re_new env3 + d_sessionTTL d) \<le> max_int64"
    and "client_Register (lib_jose L) (lib_opaque L) oc (dispatcher_send L d) c es seeds pw ([env1, env2], st) = (res, q)"
    and "client_Authenticate (lib_jose L) (lib_opaque L) oc (dispatcher_send L d) es' seed pw' (c, [env3, env4], snd q)
         = (res', c', q')"
  shows "res = Ok ()
     \<and> (\<exists>sess. map_of (ds_sessions (snd q')) sid = Some sess \<and> s_ClientID sess = rc_clientID c
          \<and> s_Context sess = rc_context c \<and> (s_Verified sess \<longleftrightarrow> pw' = pw)
          \<and> (if pw' = pw
             then res' = Ok () \<and> client_SessionID c' = sid \<and> rc_sessionKey c' = Some (s_SessionKey sess)
             else res' = Err CE_generate_KE3 \<and> c' = c))"
proof -
  obtain r where r: "res = Ok ()" "opens pw (cred_id (rc_context c) (rc_clientID c)) r"
    "ds_sessions (snd q) = ds_sessions st" "ds_counter (snd q) = ds_counter st"
    "rs_GetRecord (d_records d) (rc_clientID c) (rc_context c) (rec_view (snd q)) =
         Ok \<lparr>rec_RegistrationRecord = r, rec_CredentialIdentifier = cred_id (rc_context c) (rc_clientID c), rec_ClientIdentity = []\<rparr>"
    using client_registers [OF assms(1,2,4-8), of seeds pw "[]" st] assms(18) by auto
  have "fst (counter_Check (re_check env3) (rc_clientID c) (rc_context c) (rc_context c) (ds_counter (snd q))) = None"
    "map_of (ds_sessions (snd q)) (URLEncoding_Encode (map rnd [0..<32])) = None"
    using assms(11,13,14) r(3,4) by (simp_all del: upt.simps)
  from client_logs_in [OF assms(1,3-5,9,10) r(2,5) this(1) assms(12) this(2) assms(13,15-17), of seed pw' "[]"]
    assms(19) r(1)
  show ?thesis by (auto simp: client_SessionID_def split: if_splits)
qed

theorem client_login_end_to_end_witness:
  "\<exists>q c' q'. client_Register toy_jose plain_opaque plain_client (dispatcher_send plain_libs demo_dispatcher) demo_client
       (demo_send, demo_send) ([], []) [42] ([demo_env, demo_env], demo_state) = (Ok (), q)
     \<and> client_Authenticate toy_jose plain_opaque plain_client (dispatcher_send plain_libs demo_dispatcher)
       (demo_send, demo_send) [] [42] (demo_client, [demo_env, demo_env], snd q) = (Ok (), c', q')
     \<and> client_SessionID c' = demo_sid"
proof -
  let ?send = "dispatcher_send plain_libs demo_dispatcher"
  have L: "lib_jose plain_libs = toy_jose" "lib_opaque plain_libs = plain_opaque"
    by (simp_all add: plain_libs_def demo_libs_def)
  obtain res q where r: "client_Register toy_jose plain_opaque plain_client ?send demo_client
      (demo_send, demo_send) ([], []) [42] ([demo_env, demo_env], demo_state) = (res, q)" by (metis surj_pair)
  obtain res' c' q' where a: "client_Authenticate toy_jose plain_opaque plain_client ?send
      (demo_send, demo_send) [] [42] (demo_client, [demo_env, demo_env], snd q) = (res', c', q')" by (metis surj_pair)
  have d: "ol_Deserializer (lib_opaque plain_libs)" "oc_Client plain_client = Some []"
    "d_records demo_dispatcher = InMemoryRecordStore" "re_session_id demo_env = Some (\<lambda>_. 7)"
    "map_of (ds_sessions demo_state) demo_sid = None"
    by (simp_all add: L plain_opaque_def toy_opaque_def plain_client_def demo_dispatcher_def demo_env_def demo_state_def
        NewSessionStore_def)
  have t: "in_time demo_dispatcher (fst (demo_send, demo_send)) demo_env" "in_time demo_dispatcher (snd (demo_send, demo_send)) demo_env"
    by (simp_all add: demo_in_time)
  have u: "fst (counter_Check (re_check demo_env) (rc_clientID demo_client) (rc_context demo_client) (rc_context demo_client)
      (ds_counter demo_state)) = None"
    by (simp add: demo_state_def counter_Check_def NewAttemptCounter_def)
  have e: "re_get demo_env \<le> re_new demo_env + d_sessionTTL demo_dispatcher"
    "min_int64 \<le> to_unix (re_new demo_env + d_sessionTTL demo_dispatcher)"
    "to_unix (re_new demo_env + d_sessionTTL demo_dispatcher) \<le> max_int64"
    by (simp_all add: demo_env_def demo_dispatcher_def to_unix_def Second_def min_int64_def max_int64_def)
  have "res = Ok () \<and> res' = Ok () \<and> client_SessionID c' = demo_sid"
    using client_login_end_to_end [OF demo_connected plain_documented [folded L(2)] d(2,1) disjI1 [OF d(3)]
        t(1,2) t(1,2) u d(4) demo_sid_random d(5) e, unfolded L, OF r a] by auto
  with r a show ?thesis by blast
qed

text \<open>C12: A service call of a logged-in client. When the server holds the client's session as verified, for the
  client's context, unexpired and without a task, a call of a registered service runs its handler exactly
  once, on the data the client passed and in the client's name; the client gets what the handler answers, or
  a failure of the transport when the handler fails, and the server's state changes by what the handler did,
  sessions and counters excepted. Without a session nothing is sent.\<close>

theorem client_call_answered:
  assumes "connected L d c" and "in_time d e env" and "utf8_valid typ" and "utf8_valid (rc_sessionID c)"
    and "encodes k data j" and "k < 9999"
    and "typ \<notin> {Type2FARegistration, Type2FAAuthenticate, TypeCreateSession, Type2FAChange, Type2FAUpdate}"
    and "map_of (ds_sessions st) (rc_sessionID c) = Some sess" and "s_Verified sess" and "s_Task sess = []"
    and "s_Context sess = rc_context c" and "re_get env \<le> s_ExpiresAt sess"
    and "d_handlers d typ = Some h" and run: "h_Handle h (re_handler env) (rc_clientID c) data (ds_world st) = (r, w)"
    and "\<forall>out. r = Ok out \<longrightarrow> (\<exists>k' j'. encodes k' (wrap_data out) j' \<and> k' < 9999)"
  shows "CallService (lib_jose L) (dispatcher_send L d) c e typ data (env # envs, st) =
     (if rc_sessionKey c = None then (Err CE_not_authenticated, env # envs, st)
      else (case r of Ok out \<Rightarrow> Ok (wrap_data out) | _ \<Rightarrow> Err CE_transport, envs, st\<lparr>ds_world := w\<rparr>))"
proof -
  let ?req = "service_request c e typ (rc_sessionID c) data (nonce_of e)"
  have "authorize L env h ?req (ds_sessions st) = Ok ()"
    using assms(8-12) by (intro authorize_verified) (auto simp: service_request_def)
  moreover have "route L d env ?req st = handleService L d env ?req st"
    using assms(7,13) by (intro route_service) (simp_all add: service_request_def)
  ultimately have route: "route L d env ?req st =
      (case r of Err x \<Rightarrow> fail ErrServerError (typ @ '' failed'') (st\<lparr>ds_world := w\<rparr>)
       | Panic \<Rightarrow> (Panic, st\<lparr>ds_world := w\<rparr>)
       | Ok out \<Rightarrow> (respond L d (re_resp env) ?req (wrap_data out), st\<lparr>ds_world := w\<rparr>))"
    using assms(13) run by (auto simp: handleService_def service_request_def Let_def split: res.split)
  have "exchange (lib_jose L) (dispatcher_send L d) c e typ (rc_sessionID c) data (env # envs, st) =
      (case r of Ok out \<Rightarrow> Ok (wrap_data out) | _ \<Rightarrow> Err CE_transport, envs, st\<lparr>ds_world := w\<rparr>)"
  proof (cases r)
    case (Ok out)
    then obtain k' j' where "encodes k' (wrap_data out) j'" "k' < 9999" using assms(15) by blast
    from exchange_answered [OF assms(1-6) this] route Ok show ?thesis by auto
  qed (use exchange_routes [OF assms(1-6), of envs st] route in \<open>auto simp: fail_def\<close>)
  then show ?thesis by (simp add: CallService_def)
qed

lemma raw_signature_quoted: "wrap_data (bytes_str (replicate 32 7)) = json_quote (URLEncoding_Encode (replicate 32 7))"
proof -
  have "replicate 32 (7 :: byte) = 7 # replicate 31 7" by (simp flip: replicate_Suc)
  moreover have "char_of (unat (7 :: byte)) = CHR 0x07" by code_simp
  ultimately have "bytes_str (replicate 32 7) = CHR 0x07 # bytes_str (replicate 31 7)" by (simp add: bytes_str_def)
  moreover have "\<not> json_Valid (CHR 0x07 # t)" for t
    by (simp add: json_Valid_def json_parse_eq read_value_eq value_step_def json_num_def num_int_def HasPrefix_def is_digit_def
        json_ws_def)
  ultimately have "\<not> json_Valid (bytes_str (replicate 32 7))" by metis
  then show ?thesis by (simp add: wrap_data_def)
qed

theorem client_call_answered_witness:
  "\<exists>q. CallService toy_jose (dispatcher_send demo_libs demo_dispatcher)
       (demo_client\<lparr>rc_sessionID := demo_sid, rc_sessionKey := Some [9]\<rparr>) demo_send TypeSignECDSA
       (sign_request ''k1'' (replicate 32 7)) ([demo_env], demo_st2)
     = (Ok (json_quote (URLEncoding_Encode (replicate 32 7))), q)"
proof -
  let ?c = "demo_client\<lparr>rc_sessionID := demo_sid, rc_sessionKey := Some [9]\<rparr>" and ?data = "sign_request ''k1'' (replicate 32 7)"
  have con: "connected demo_libs demo_dispatcher ?c"
    using demo_connected by (simp add: connected_def plain_libs_def)
  have k: "utf8_valid ''k1''" by (simp add: utf8_valid_ascii)
  have enc: "encodes 1 ?data (JObj (sign_members ''k1'' (replicate 32 7)))"
    using enc_object [OF sign_members_ok [OF k]] by (simp add: sign_request_members)
  have ty: "utf8_valid TypeSignECDSA" "utf8_valid (rc_sessionID ?c)"
    "TypeSignECDSA \<notin> {Type2FARegistration, Type2FAAuthenticate, TypeCreateSession, Type2FAChange, Type2FAUpdate}"
    using demo_sid_utf8 by (simp_all add: r2ps_type_defs utf8_valid_ascii)
  let ?sess = "demo_session\<lparr>s_Verified := True\<rparr>"
  have sess: "map_of (ds_sessions demo_st2) (rc_sessionID ?c) = Some ?sess" "s_Verified ?sess" "s_Task ?sess = []"
    "s_Context ?sess = rc_context ?c" "re_get demo_env \<le> s_ExpiresAt ?sess"
    by (simp_all add: demo_st2_sessions demo_session_def new_session_def demo_client_def NewClient_def demo_login_def demo_req_def
        demo_env_def demo_tfa_def zero_TFARequestData_def session_ttl_def Second_def)
  have h: "d_handlers demo_dispatcher TypeSignECDSA = Some (ECDSAHandler toy_backend)" by (simp add: demo_dispatcher_def)
  have "ecdsa_check ?data = Ok (''k1'', replicate 32 7)"
    using ecdsa_check_sign_request [of "''k1''" "replicate 32 7"] by (simp add: validKid_def kid_char_def)
  then obtain w where run: "h_Handle (ECDSAHandler toy_backend) (re_handler demo_env) (rc_clientID ?c) ?data (ds_world demo_st2)
      = (Ok (bytes_str (replicate 32 7)), w)"
    by (simp add: ECDSAHandler_def ECDSAHandler_Handle_def toy_backend_def)
  have out: "\<forall>out. (Ok (bytes_str (replicate 32 7)) :: (handler_error, string) res) = Ok out \<longrightarrow>
      (\<exists>k' j'. encodes k' (wrap_data out) j' \<and> k' < 9999)"
    using enc_quote [of "URLEncoding_Encode (replicate 32 7)"] raw_signature_quoted
    by (metis res.inject(1) b64_encode_utf8 zero_less_numeral)
  from client_call_answered [OF con demo_in_time ty(1,2) enc _ ty(3) sess h run out, of "[]"]
  show ?thesis by (simp add: raw_signature_quoted demo_libs_def)
qed

end
