(* ===== verification/Go_Duration.thy ===== *)
theory Go_Duration
  imports Go_Prelude Complex_Main
begin

text \<open>
  \<^verbatim>\<open>time.ParseDuration\<close> of the Go standard library, which the server's settings go through. The integer
  part of a number and the sum are exact in 64 bits (the sum of two terms of \<open>2 ^ 63\<close> wraps to zero); the fraction is scaled in double precision, which \<open>float64\<close> is:
  rounding to 53 significant bits, ties to even. Exponents are unbounded here; where a double overflows or
  is subnormal the scaled fraction is below one nanosecond either way.
\<close>

section \<open>Double precision\<close>

function log2_int :: "int \<Rightarrow> int" where
  "log2_int n = (if n \<le> 1 then 0 else 1 + log2_int (n div 2))"
  by pat_completeness auto
termination by (relation "measure nat") auto

declare log2_int.simps [simp del]

definition round_even :: "rat \<Rightarrow> int" where
  "round_even q =
     (let n = \<lfloor>q\<rfloor>; r = q - of_int n in if r < 1 / 2 \<or> (r = 1 / 2 \<and> even n) then n else n + 1)"

definition log2_floor :: "rat \<Rightarrow> int" where
  "log2_floor x =
     (let (a, b) = quotient_of x; e = log2_int a - log2_int b
      in if 2 powi e \<le> x then e else e - 1)"

definition float64 :: "rat \<Rightarrow> rat" where
  "float64 x =
     (if x = 0 then 0
      else let e = log2_floor x - 52 in of_int (round_even (x / 2 powi e)) * 2 powi e)"

section \<open>Numbers\<close>

definition dec_digit :: "char \<Rightarrow> bool" where
  "dec_digit c \<longleftrightarrow> 48 \<le> (of_char c :: nat) \<and> (of_char c :: nat) \<le> 57"

text \<open>\<^verbatim>\<open>leadingInt\<close>: \<open>None\<close> on overflow.\<close>

fun leadingInt :: "int \<Rightarrow> string \<Rightarrow> (int \<times> string) option" where
  "leadingInt x [] = Some (x, [])"
| "leadingInt x (c # s) =
     (if \<not> dec_digit c then Some (x, c # s)
      else if 2 ^ 63 div 10 < x then None
      else
        (let y = x * 10 + (of_char c - 48) in if 2 ^ 63 < y then None else leadingInt y s))"

text \<open>\<^verbatim>\<open>leadingFraction\<close>: digits beyond the 64 bits are dropped.\<close>

fun leadingFraction :: "int \<Rightarrow> rat \<Rightarrow> bool \<Rightarrow> string \<Rightarrow> int \<times> rat \<times> string" where
  "leadingFraction x scale overflow [] = (x, scale, [])"
| "leadingFraction x scale overflow (c # s) =
     (if \<not> dec_digit c then (x, scale, c # s)
      else if overflow \<or> (2 ^ 63 - 1) div 10 < x then leadingFraction x scale True s
      else
        (let y = x * 10 + (of_char c - 48) in
         if 2 ^ 63 < y then leadingFraction x scale True s else leadingFraction y (float64 (scale * 10)) False s))"

text \<open>Both spellings of the micro sign are accepted.\<close>

definition unitMap :: "(string \<times> int) list" where
  "unitMap =
     [(''ns'', 1), (''us'', 1000), ([CHR 0xC2, CHR 0xB5, CHR ''s''], 1000), ([CHR 0xCE, CHR 0xBC, CHR ''s''], 1000),
      (''ms'', 1000000), (''s'', 1000000000), (''m'', 60000000000), (''h'', 3600000000000)]"

section \<open>The parser\<close>

text \<open>One number with its unit: the nanoseconds it adds and the rest.\<close>

definition parse_item :: "string \<Rightarrow> (int \<times> string) option" where
  "parse_item s =
     (if s = [] \<or> \<not> (hd s = CHR ''.'' \<or> dec_digit (hd s)) then None
      else
        (case leadingInt 0 s of
           None \<Rightarrow> None
         | Some (v, s1) \<Rightarrow>
             (let pre = length s1 \<noteq> length s;
                  dot = (s1 \<noteq> [] \<and> hd s1 = CHR ''.'');
                  (f, scale, s2) = (if dot then leadingFraction 0 1 False (tl s1) else (0, 1, s1));
                  post = (dot \<and> length s2 \<noteq> length (tl s1));
                  u = takeWhile (\<lambda>c. \<not> (c = CHR ''.'' \<or> dec_digit c)) s2;
                  s3 = drop (length u) s2
              in if \<not> pre \<and> \<not> post then None
                 else if u = [] then None
                 else
                   (case map_of unitMap u of
                      None \<Rightarrow> None
                    | Some unit \<Rightarrow>
                        if 2 ^ 63 div unit < v then None
                        else
                          (let n = v * unit;
                               n = (if 0 < f
                                    then n + \<lfloor>float64 (float64 (of_int f) * float64 (of_int unit / scale))\<rfloor> else n)
                           in if 2 ^ 63 < n then None else Some (n, s3))))))"

text \<open>Every round consumes the unit at least, so as much fuel as there are characters is enough.\<close>

fun parse_items :: "nat \<Rightarrow> string \<Rightarrow> int \<Rightarrow> int option" where
  "parse_items fuel [] d = Some d"
| "parse_items 0 (c # s) d = None"
| "parse_items (Suc fuel) (c # s) d =
     (case parse_item (c # s) of
        None \<Rightarrow> None
      | Some (n, r) \<Rightarrow> (let d = (d + n) mod 2 ^ 64 in if 2 ^ 63 < d then None else parse_items fuel r d))"

definition ParseDuration :: "string \<Rightarrow> duration option" where
  "ParseDuration s =
     (let signed_s = (s \<noteq> [] \<and> (hd s = CHR ''-'' \<or> hd s = CHR ''+'')); neg = (s \<noteq> [] \<and> hd s = CHR ''-'');
          s = (if signed_s then tl s else s)
      in if s = ''0'' then Some 0
         else if s = [] then None
         else
           (case parse_items (length s) s 0 of
              None \<Rightarrow> None
            | Some d \<Rightarrow>
                if neg then Some (wrap64 (- d))
                else if 2 ^ 63 - 1 < d then None else Some d))"

section \<open>Lemmas\<close>

lemma leadingInt_length: "leadingInt x s = Some (v, r) \<Longrightarrow> length r \<le> length s"
  by (induction s arbitrary: x) (auto simp: Let_def intro: le_SucI split: if_splits)

lemma leadingFraction_length: "leadingFraction x sc ov s = (f, sc', r) \<Longrightarrow> length r \<le> length s"
  by (induction s arbitrary: x sc ov) (auto simp: Let_def intro: le_SucI split: if_splits)

lemma parse_item_shorter:
  assumes "parse_item s = Some (n, r)"
  shows "length r < length s"
proof -
  obtain v s1 where s1: "leadingInt 0 s = Some (v, s1)"
    using assms by (auto simp: parse_item_def split: if_splits option.splits)
  define q where "q = (if s1 \<noteq> [] \<and> hd s1 = CHR ''.'' then leadingFraction 0 1 False (tl s1) else (0, 1, s1))"
  obtain f sc s2 where q: "q = (f, sc, s2)" by (metis surj_pair)
  let ?u = "takeWhile (\<lambda>c. \<not> (c = CHR ''.'' \<or> dec_digit c)) s2"
  have r: "r = drop (length ?u) s2" "?u \<noteq> []"
    using assms s1 q [unfolded q_def]
    by (auto simp: parse_item_def Let_def split: if_splits option.splits prod.splits)
  have "length s2 \<le> length s1"
    using q leadingFraction_length [of 0 1 False "tl s1" f sc s2] by (auto simp: q_def split: if_splits)
  moreover have "length s1 \<le> length s" using leadingInt_length [OF s1] .
  moreover have "0 < length ?u" using r(2) by (metis length_greater_0_conv)
  then have "length r < length s2"
    using r(1) length_takeWhile_le [of "\<lambda>c. \<not> (c = CHR ''.'' \<or> dec_digit c)" s2] by (simp only: length_drop)
  ultimately show ?thesis by simp
qed

lemma parse_items_fuel: "length s \<le> n \<Longrightarrow> length s \<le> m \<Longrightarrow> parse_items n s d = parse_items m s d"
proof (induction n s d arbitrary: m rule: parse_items.induct)
  case (3 n c s d)
  then obtain k where k: "m = Suc k" by (cases m) auto
  have "parse_items n r ((d + x) mod 2 ^ 64) = parse_items k r ((d + x) mod 2 ^ 64)"
    if "parse_item (c # s) = Some (x, r)" "\<not> 2 ^ 63 < (d + x) mod 2 ^ 64" for x r
    using "3.IH" [OF that(1) refl refl that(2)] parse_item_shorter [OF that(1)] "3.prems" k by simp
  then show ?case by (auto simp: k Let_def split: option.splits)
qed auto

end
