(* ===== verification/Store_Mongo.thy ===== *)
theory Store_Mongo
  imports Store_Memory
begin

text \<open>
  \<^verbatim>\<open>internal/store/mongodb.go\<close>: the store on a MongoDB database. The driver (go.mongodb.org/mongo-driver) is
  the parameter \<open>mongo_lib\<close> on the state \<open>'d\<close> of the database; a call gives \<open>Inl\<close> its error or \<open>Inr\<close> its
  result. A cursor is the documents it still delivers and the error it stops with. A nil slice and an empty one,
  which the driver stores differently, are the same list of bytes here. The five- and ten-second
  deadlines of the calls are failures the driver may report at any time.
\<close>

section \<open>Documents\<close>

datatype bson = B_int int | B_str string | B_bin bytes | B_time instant | B_doc "(string \<times> bson) list"

type_synonym document = "(string \<times> bson) list"
type_synonym collection = "string \<times> string"

text \<open>A struct field is decoded from the element of its name; a missing element leaves the zero value, an
  element of another type or out of range is an error. The integers of a document have at most 64 bits,
  which a Go \<^verbatim>\<open>int\<close> holds.\<close>

definition decode_field :: "(bson \<Rightarrow> 'a option) \<Rightarrow> 'a \<Rightarrow> string \<Rightarrow> document \<Rightarrow> 'a option" where
  "decode_field dec zero k doc = (case map_of doc k of None \<Rightarrow> Some zero | Some b \<Rightarrow> dec b)"

fun bson_str :: "bson \<Rightarrow> string option" where "bson_str (B_str s) = Some s" | "bson_str _ = None"
fun bson_int :: "bson \<Rightarrow> int option" where "bson_int (B_int n) = Some n" | "bson_int _ = None"
fun bson_bin :: "bson \<Rightarrow> bytes option" where "bson_bin (B_bin b) = Some b" | "bson_bin _ = None"
fun bson_byte :: "bson \<Rightarrow> byte option" where
  "bson_byte (B_int n) = (if 0 \<le> n \<and> n < 256 then Some (of_int n) else None)"
| "bson_byte _ = None"
fun bson_uint32 :: "bson \<Rightarrow> 32 word option" where
  "bson_uint32 (B_int n) = (if 0 \<le> n \<and> n < 2 ^ 32 then Some (of_int n) else None)"
| "bson_uint32 _ = None"

abbreviation "str_field \<equiv> decode_field bson_str []"
abbreviation "int_field \<equiv> decode_field bson_int 0"
abbreviation "bin_field \<equiv> decode_field bson_bin []"

record statusEntry =
  ste_Category :: string
  ste_Idx :: int
  ste_Status :: byte

definition encode_statusEntry :: "statusEntry \<Rightarrow> document" where
  "encode_statusEntry e =
     [(''category'', B_str (ste_Category e)), (''idx'', B_int (ste_Idx e)), (''status'', B_int (uint (ste_Status e)))]"

definition decode_statusEntry :: "document \<Rightarrow> statusEntry option" where
  "decode_statusEntry d =
     (case (str_field ''category'' d, int_field ''idx'' d, decode_field bson_byte 0 ''status'' d) of
        (Some c, Some i, Some v) \<Rightarrow> Some \<lparr>ste_Category = c, ste_Idx = i, ste_Status = v\<rparr>
      | _ \<Rightarrow> None)"

record clientIndexEntry =
  cie_ClientID :: string
  cie_Category :: string
  cie_Idx :: int

definition encode_clientIndexEntry :: "clientIndexEntry \<Rightarrow> document" where
  "encode_clientIndexEntry e =
     [(''client_id'', B_str (cie_ClientID e)), (''category'', B_str (cie_Category e)), (''idx'', B_int (cie_Idx e))]"

definition decode_clientIndexEntry :: "document \<Rightarrow> clientIndexEntry option" where
  "decode_clientIndexEntry d =
     (case (str_field ''client_id'' d, str_field ''category'' d, int_field ''idx'' d) of
        (Some c, Some k, Some i) \<Rightarrow> Some \<lparr>cie_ClientID = c, cie_Category = k, cie_Idx = i\<rparr>
      | _ \<Rightarrow> None)"

record usageEntry =
  ue_Category :: string
  ue_Idx :: int
  ue_UsedAt :: instant

definition encode_usageEntry :: "usageEntry \<Rightarrow> document" where
  "encode_usageEntry e =
     [(''category'', B_str (ue_Category e)), (''idx'', B_int (ue_Idx e)), (''used_at'', B_time (ue_UsedAt e))]"

definition encode_PublicKeyInfo :: "PublicKeyInfo \<Rightarrow> document" where
  "encode_PublicKeyInfo k =
     [(''kid'', B_str (pk_Kid k)), (''curve'', B_str (pk_Curve k)), (''pub_key'', B_bin (pk_PubKey k)),
      (''creation_time'', B_int (pk_CreationTime k)), (''client_id'', B_str (pk_ClientID k))]"

definition decode_PublicKeyInfo :: "document \<Rightarrow> PublicKeyInfo option" where
  "decode_PublicKeyInfo d =
     (case (str_field ''kid'' d, str_field ''curve'' d, bin_field ''pub_key'' d, int_field ''creation_time'' d,
            str_field ''client_id'' d) of
        (Some kid, Some crv, Some pub, Some t, Some c) \<Rightarrow>
          Some \<lparr>pk_Kid = kid, pk_Curve = crv, pk_PubKey = pub, pk_CreationTime = t, pk_ClientID = c\<rparr>
      | _ \<Rightarrow> None)"

record opaqueRecordDoc =
  ord_ClientID :: string
  ord_Context :: string
  ord_Record :: bytes

definition encode_opaqueRecordDoc :: "opaqueRecordDoc \<Rightarrow> document" where
  "encode_opaqueRecordDoc r =
     [(''client_id'', B_str (ord_ClientID r)), (''context'', B_str (ord_Context r)), (''record'', B_bin (ord_Record r))]"

definition decode_opaqueRecordDoc :: "document \<Rightarrow> opaqueRecordDoc option" where
  "decode_opaqueRecordDoc d =
     (case (str_field ''client_id'' d, str_field ''context'' d, bin_field ''record'' d) of
        (Some c, Some x, Some r) \<Rightarrow> Some \<lparr>ord_ClientID = c, ord_Context = x, ord_Record = r\<rparr>
      | _ \<Rightarrow> None)"

record webauthnCredDoc =
  wd_ClientID :: string
  wd_Context :: string
  wd_CredentialID :: bytes
  wd_PublicKey :: bytes
  wd_SignCount :: "32 word"
  wd_AAGUID :: bytes
  wd_CreatedAt :: int

definition encode_webauthnCredDoc :: "webauthnCredDoc \<Rightarrow> document" where
  "encode_webauthnCredDoc w =
     [(''client_id'', B_str (wd_ClientID w)), (''context'', B_str (wd_Context w)), (''credential_id'', B_bin (wd_CredentialID w)),
      (''public_key'', B_bin (wd_PublicKey w)), (''sign_count'', B_int (uint (wd_SignCount w))), (''aaguid'', B_bin (wd_AAGUID w)),
      (''created_at'', B_int (wd_CreatedAt w))]"

definition decode_webauthnCredDoc :: "document \<Rightarrow> webauthnCredDoc option" where
  "decode_webauthnCredDoc d =
     (case (str_field ''client_id'' d, str_field ''context'' d, bin_field ''credential_id'' d, bin_field ''public_key'' d,
            decode_field bson_uint32 0 ''sign_count'' d, bin_field ''aaguid'' d, int_field ''created_at'' d) of
        (Some c, Some x, Some i, Some p, Some n, Some a, Some t) \<Rightarrow>
          Some \<lparr>wd_ClientID = c, wd_Context = x, wd_CredentialID = i, wd_PublicKey = p, wd_SignCount = n, wd_AAGUID = a,
                wd_CreatedAt = t\<rparr>
      | _ \<Rightarrow> None)"

section \<open>The driver\<close>

datatype mongo_error = No_documents | Duplicate_key string | Mongo_failure string

fun mongo_text :: "mongo_error \<Rightarrow> string" where
  "mongo_text No_documents = ''mongo: no documents in result''"
| "mongo_text (Duplicate_key m) = m"
| "mongo_text (Mongo_failure m) = m"

type_synonym cursor = "document list \<times> mongo_error option"

record tls_options =
  to_RootCAs :: "bytes option"
  to_Certificate :: "bytes option"

record client_options =
  co_URI :: string
  co_ConnectTimeout :: duration
  co_TLS :: "tls_options option"

text \<open>\<open>mg_FindOneAndUpdate\<close> and \<open>mg_ReplaceOne\<close> are used with the upsert option, the former with the document
  after the update as its result. \<open>mg_UpdateOne\<close> gives the number of documents matched. \<open>mg_Now\<close> is the clock,
  \<open>mg_DecodeError\<close> the text of the error for a document that does not decode.\<close>

record 'd mongo_lib =
  mg_Connect :: "client_options \<Rightarrow> 'd \<Rightarrow> mongo_error option \<times> 'd"
  mg_Ping :: "'d \<Rightarrow> mongo_error option"
  mg_Disconnect :: "'d \<Rightarrow> mongo_error option \<times> 'd"
  mg_CreateIndex :: "collection \<Rightarrow> document \<Rightarrow> bool \<Rightarrow> 'd \<Rightarrow> mongo_error option \<times> 'd"
  mg_FindOneAndUpdate :: "collection \<Rightarrow> document \<Rightarrow> document \<Rightarrow> 'd \<Rightarrow> (mongo_error + document) \<times> 'd"
  mg_InsertOne :: "collection \<Rightarrow> document \<Rightarrow> 'd \<Rightarrow> mongo_error option \<times> 'd"
  mg_FindOne :: "collection \<Rightarrow> document \<Rightarrow> 'd \<Rightarrow> mongo_error + document"
  mg_UpdateOne :: "collection \<Rightarrow> document \<Rightarrow> document \<Rightarrow> 'd \<Rightarrow> (mongo_error + int) \<times> 'd"
  mg_ReplaceOne :: "collection \<Rightarrow> document \<Rightarrow> document \<Rightarrow> 'd \<Rightarrow> mongo_error option \<times> 'd"
  mg_Find :: "collection \<Rightarrow> document \<Rightarrow> 'd \<Rightarrow> mongo_error + cursor"
  mg_Now :: "'d \<Rightarrow> instant"
  mg_DecodeError :: "document \<Rightarrow> string"

text \<open>\<^verbatim>\<open>cursor.All\<close>.\<close>

definition cursor_All :: "'d mongo_lib \<Rightarrow> (document \<Rightarrow> 'a option) \<Rightarrow> cursor \<Rightarrow> string + 'a list" where
  "cursor_All lib dec cur =
     (case find (\<lambda>x. dec x = None) (fst cur) of
        Some x \<Rightarrow> Inl (mg_DecodeError lib x)
      | None \<Rightarrow>
          (case snd cur of
             Some e \<Rightarrow> Inl (mongo_text e)
           | None \<Rightarrow> Inr (map (\<lambda>x. the (dec x)) (fst cur))))"

section \<open>Opening the store\<close>

record MongoDBConfig =
  mc_URI :: string
  mc_Database :: string
  mc_Timeout :: int
  mc_PasswordPath :: string
  mc_TLSEnabled :: bool
  mc_CAPath :: string
  mc_CertPath :: string
  mc_KeyPath :: string

record MongoDBStore =
  ms_counters :: collection
  ms_statuses :: collection
  ms_clientIndices :: collection
  ms_usage :: collection
  ms_publicKeys :: collection
  ms_records :: collection
  ms_webauthnCreds :: collection

definition mongo_collections :: "string \<Rightarrow> MongoDBStore" where
  "mongo_collections database =
     \<lparr>ms_counters = (database, ''counters''), ms_statuses = (database, ''statuses''),
      ms_clientIndices = (database, ''client_indices''), ms_usage = (database, ''usage''),
      ms_publicKeys = (database, ''public_keys''), ms_records = (database, ''opaque_records''),
      ms_webauthnCreds = (database, ''webauthn_credentials'')\<rparr>"

datatype mongo_boot_error =
    Password_file_unreadable
  | CA_unreadable
  | CA_unparsable
  | Client_cert_unusable
  | Connect_failed mongo_error
  | Ping_failed mongo_error
  | Index_failed string mongo_error

text \<open>\<^verbatim>\<open>url.QueryEscape\<close> and \<^verbatim>\<open>strings.Replace\<close> with the limit 1.\<close>

definition upper_hex :: "nat \<Rightarrow> char" where
  "upper_hex n = (if n < 10 then char_of (48 + n) else char_of (55 + n))"

definition query_char :: "char \<Rightarrow> string" where
  "query_char c =
     (let n = of_char c :: nat in
      if 48 \<le> n \<and> n \<le> 57 \<or> 65 \<le> n \<and> n \<le> 90 \<or> 97 \<le> n \<and> n \<le> 122 \<or> c \<in> set ''-_.~'' then [c]
      else if c = CHR '' '' then ''+''
      else [CHR ''%'', upper_hex (n div 16), upper_hex (n mod 16)])"

definition QueryEscape :: "string \<Rightarrow> string" where
  "QueryEscape s = concat (map query_char s)"

fun replace_first :: "string \<Rightarrow> string \<Rightarrow> string \<Rightarrow> string" where
  "replace_first old new [] = []"
| "replace_first old new (c # cs) =
     (if HasPrefix (c # cs) old then new @ drop (length old) (c # cs) else c # replace_first old new cs)"

text \<open>\<open>read\<close> is the file system, \<open>pem_ok\<close> is \<^verbatim>\<open>AppendCertsFromPEM\<close>, \<open>load_pair\<close> is \<^verbatim>\<open>tls.LoadX509KeyPair\<close>.\<close>

record os_files =
  of_read :: "string \<Rightarrow> bytes option"
  of_pem_ok :: "bytes \<Rightarrow> bool"
  of_load_pair :: "string \<Rightarrow> string \<Rightarrow> bytes option"

definition mongo_uri :: "os_files \<Rightarrow> MongoDBConfig \<Rightarrow> (mongo_boot_error, string) res" where
  "mongo_uri fs cfg =
     (if mc_PasswordPath cfg \<noteq> [] then
        (case of_read fs (mc_PasswordPath cfg) of
           None \<Rightarrow> Err Password_file_unreadable
         | Some raw \<Rightarrow>
             Ok (replace_first ''${MONGODB_PASSWORD}'' (QueryEscape (TrimSpace (bytes_str raw))) (mc_URI cfg)))
      else Ok (mc_URI cfg))"

definition mongo_tls :: "os_files \<Rightarrow> MongoDBConfig \<Rightarrow> (mongo_boot_error, tls_options option) res" where
  "mongo_tls fs cfg =
     (if mc_TLSEnabled cfg then
        res_bind
          (if mc_CAPath cfg \<noteq> [] then
             (case of_read fs (mc_CAPath cfg) of
                None \<Rightarrow> Err CA_unreadable
              | Some caCert \<Rightarrow> if of_pem_ok fs caCert then Ok (Some caCert) else Err CA_unparsable)
           else Ok None) (\<lambda>root.
        res_bind
          (if mc_CertPath cfg \<noteq> [] \<and> mc_KeyPath cfg \<noteq> [] then
             (case of_load_pair fs (mc_CertPath cfg) (mc_KeyPath cfg) of
                None \<Rightarrow> Err Client_cert_unusable | Some cert \<Rightarrow> Ok (Some cert))
           else Ok None) (\<lambda>cert.
          Ok (Some \<lparr>to_RootCAs = root, to_Certificate = cert\<rparr>)))
      else Ok None)"

text \<open>The indexes in the order they are created: the collection, the keys, uniqueness, the name the error has.\<close>

definition index_models :: "MongoDBStore \<Rightarrow> (collection \<times> string list \<times> bool \<times> string) list" where
  "index_models s =
     [(ms_statuses s, [''category'', ''idx''], True, ''statuses''),
      (ms_clientIndices s, [''client_id'', ''category''], False, ''client_indices''),
      (ms_usage s, [''category'', ''idx''], True, ''usage''),
      (ms_publicKeys s, [''kid''], True, ''public_keys''),
      (ms_records s, [''client_id'', ''context''], True, ''records''),
      (ms_webauthnCreds s, [''client_id'', ''context''], False, ''webauthn_credentials'')]"

fun create_indexes ::
  "'d mongo_lib \<Rightarrow> (collection \<times> string list \<times> bool \<times> string) list \<Rightarrow> 'd \<Rightarrow> (mongo_boot_error, unit) res \<times> 'd"
where
  "create_indexes lib [] d = (Ok (), d)"
| "create_indexes lib ((c, keys, unique, name) # ms) d =
     (case mg_CreateIndex lib c (map (\<lambda>k. (k, B_int 1)) keys) unique d of
        (Some e, d) \<Rightarrow> (Err (Index_failed name e), d)
      | (None, d) \<Rightarrow> create_indexes lib ms d)"

definition createIndexes :: "'d mongo_lib \<Rightarrow> MongoDBStore \<Rightarrow> 'd \<Rightarrow> (mongo_boot_error, unit) res \<times> 'd" where
  "createIndexes lib s d = create_indexes lib (index_models s) d"

definition NewMongoDBStore ::
  "'d mongo_lib \<Rightarrow> os_files \<Rightarrow> MongoDBConfig \<Rightarrow> 'd \<Rightarrow> (mongo_boot_error, MongoDBStore) res \<times> 'd"
where
  "NewMongoDBStore lib fs cfg d =
     (let timeout = (if mc_Timeout cfg = 0 then 10 else mc_Timeout cfg) in
      case res_bind (mongo_uri fs cfg) (\<lambda>uri. res_bind (mongo_tls fs cfg) (\<lambda>tls.
             Ok \<lparr>co_URI = uri, co_ConnectTimeout = dur_mul timeout Second, co_TLS = tls\<rparr>)) of
        Err e \<Rightarrow> (Err e, d)
      | Panic \<Rightarrow> (Panic, d)
      | Ok opts \<Rightarrow>
          (case mg_Connect lib opts d of
             (Some e, d) \<Rightarrow> (Err (Connect_failed e), d)
           | (None, d) \<Rightarrow>
               (case mg_Ping lib d of
                  Some e \<Rightarrow> (Err (Ping_failed e), d)
                | None \<Rightarrow>
                    (let dbName = (if mc_Database cfg = [] then ''r2ps'' else mc_Database cfg);
                         s = mongo_collections dbName
                     in case createIndexes lib s d of
                          (Ok _, d) \<Rightarrow> (Ok s, d)
                        | (Err e, d) \<Rightarrow> (Err e, d)
                        | (Panic, d) \<Rightarrow> (Panic, d)))))"

definition mongo_Close :: "'d mongo_lib \<Rightarrow> 'd \<Rightarrow> mongo_error option \<times> 'd" where
  "mongo_Close lib d = mg_Disconnect lib d"

definition mongo_Ping :: "'d mongo_lib \<Rightarrow> 'd \<Rightarrow> mongo_error option" where
  "mongo_Ping lib d = mg_Ping lib d"

section \<open>The operations\<close>

text \<open>\<^verbatim>\<open>fmt.Errorf("failed to ...: %w", err)\<close>; \<open>q\<close> is \<^verbatim>\<open>strconv.Quote\<close>, the verb %q.\<close>

definition failed_to :: "string \<Rightarrow> string \<Rightarrow> store_error" where
  "failed_to what cause = Backend_error (''failed to '' @ what @ '': '' @ cause)"

definition unit_result :: "string \<Rightarrow> mongo_error option \<Rightarrow> (store_error, unit) res" where
  "unit_result what e = (case e of None \<Rightarrow> Ok () | Some e \<Rightarrow> Err (failed_to what (mongo_text e)))"

definition mongo_AllocateIndex ::
  "(string \<Rightarrow> string) \<Rightarrow> 'd mongo_lib \<Rightarrow> MongoDBStore \<Rightarrow> string \<Rightarrow> 'd \<Rightarrow> (store_error, int) res \<times> 'd"
where
  "mongo_AllocateIndex q lib s category d =
     (case mg_FindOneAndUpdate lib (ms_counters s) [(''_id'', B_str category)]
             [(''$inc'', B_doc [(''value'', B_int 1)])] d of
        (Inl e, d) \<Rightarrow> (Err (failed_to (''allocate index for '' @ q category) (mongo_text e)), d)
      | (Inr doc, d) \<Rightarrow>
          (case int_field ''value'' doc of
             None \<Rightarrow> (Err (failed_to (''allocate index for '' @ q category) (mg_DecodeError lib doc)), d)
           | Some v \<Rightarrow>
               (let idx = wrap64 (v - 1) in
                case mg_InsertOne lib (ms_statuses s)
                       (encode_statusEntry \<lparr>ste_Category = category, ste_Idx = idx, ste_Status = StatusValid\<rparr>) d of
                  (Some e, d) \<Rightarrow> (Err (failed_to ''insert status entry'' (mongo_text e)), d)
                | (None, d) \<Rightarrow> (Ok idx, d))))"

definition entry_filter :: "string \<Rightarrow> int \<Rightarrow> document" where
  "entry_filter category idx = [(''category'', B_str category), (''idx'', B_int idx)]"

definition mongo_GetStatus ::
  "'d mongo_lib \<Rightarrow> MongoDBStore \<Rightarrow> string \<Rightarrow> int \<Rightarrow> 'd \<Rightarrow> (store_error, byte) res"
where
  "mongo_GetStatus lib s category idx d =
     (case mg_FindOne lib (ms_statuses s) (entry_filter category idx) d of
        Inl No_documents \<Rightarrow> Err (Index_not_found idx category)
      | Inl e \<Rightarrow> Err (failed_to ''get status'' (mongo_text e))
      | Inr x \<Rightarrow>
          (case decode_statusEntry x of
             None \<Rightarrow> Err (failed_to ''get status'' (mg_DecodeError lib x))
           | Some e \<Rightarrow> Ok (ste_Status e)))"

definition mongo_SetStatus ::
  "'d mongo_lib \<Rightarrow> MongoDBStore \<Rightarrow> string \<Rightarrow> int \<Rightarrow> byte \<Rightarrow> 'd \<Rightarrow> (store_error, unit) res \<times> 'd"
where
  "mongo_SetStatus lib s category idx status d =
     (case mg_UpdateOne lib (ms_statuses s) (entry_filter category idx)
             [(''$set'', B_doc [(''status'', B_int (uint status))])] d of
        (Inl e, d) \<Rightarrow> (Err (failed_to ''set status'' (mongo_text e)), d)
      | (Inr matched, d) \<Rightarrow> (if matched = 0 then Err (Index_not_found idx category) else Ok (), d))"

fun status_loop ::
  "'d mongo_lib \<Rightarrow> document list \<Rightarrow> (int \<times> byte) list \<Rightarrow> (store_error, (int \<times> byte) list) res"
where
  "status_loop lib [] acc = Ok acc"
| "status_loop lib (x # xs) acc =
     (case decode_statusEntry x of
        None \<Rightarrow> Err (failed_to ''decode status entry'' (mg_DecodeError lib x))
      | Some e \<Rightarrow> status_loop lib xs (AList.update (ste_Idx e) (ste_Status e) acc))"

definition cursor_end :: "mongo_error option \<Rightarrow> 'a \<Rightarrow> (store_error, 'a) res" where
  "cursor_end e r = (case e of None \<Rightarrow> Ok r | Some e \<Rightarrow> Err (Backend_error (''cursor error: '' @ mongo_text e)))"

definition mongo_GetAllStatuses ::
  "'d mongo_lib \<Rightarrow> MongoDBStore \<Rightarrow> string \<Rightarrow> 'd \<Rightarrow> (store_error, (int \<times> byte) list) res"
where
  "mongo_GetAllStatuses lib s category d =
     (case mg_Find lib (ms_statuses s) [(''category'', B_str category)] d of
        Inl e \<Rightarrow> Err (failed_to ''find statuses'' (mongo_text e))
      | Inr (xs, e) \<Rightarrow> res_bind (status_loop lib xs []) (cursor_end e))"

definition mongo_RecordWUA ::
  "'d mongo_lib \<Rightarrow> MongoDBStore \<Rightarrow> string \<Rightarrow> string \<Rightarrow> int \<Rightarrow> 'd \<Rightarrow> (store_error, unit) res \<times> 'd"
where
  "mongo_RecordWUA lib s clientID category idx d =
     (case mg_InsertOne lib (ms_clientIndices s)
             (encode_clientIndexEntry \<lparr>cie_ClientID = clientID, cie_Category = category, cie_Idx = idx\<rparr>) d of
        (e, d) \<Rightarrow> (unit_result ''record WUA'' e, d))"

fun index_loop :: "'d mongo_lib \<Rightarrow> document list \<Rightarrow> int list \<Rightarrow> (store_error, int list) res" where
  "index_loop lib [] acc = Ok acc"
| "index_loop lib (x # xs) acc =
     (case decode_clientIndexEntry x of
        None \<Rightarrow> Err (failed_to ''decode client index'' (mg_DecodeError lib x))
      | Some e \<Rightarrow> index_loop lib xs (acc @ [cie_Idx e]))"

definition mongo_GetClientIndices ::
  "'d mongo_lib \<Rightarrow> MongoDBStore \<Rightarrow> string \<Rightarrow> string \<Rightarrow> 'd \<Rightarrow> (store_error, int list) res"
where
  "mongo_GetClientIndices lib s clientID category d =
     (case mg_Find lib (ms_clientIndices s) [(''client_id'', B_str clientID), (''category'', B_str category)] d of
        Inl e \<Rightarrow> Err (failed_to ''find client indices'' (mongo_text e))
      | Inr (xs, e) \<Rightarrow> res_bind (index_loop lib xs []) (cursor_end e))"

text \<open>A usage that is recorded already is not an error.\<close>

definition mongo_RecordUsage ::
  "'d mongo_lib \<Rightarrow> MongoDBStore \<Rightarrow> string \<Rightarrow> int \<Rightarrow> 'd \<Rightarrow> (store_error, unit) res \<times> 'd"
where
  "mongo_RecordUsage lib s category idx d =
     (case mg_InsertOne lib (ms_usage s)
             (encode_usageEntry \<lparr>ue_Category = category, ue_Idx = idx, ue_UsedAt = mg_Now lib d\<rparr>) d of
        (Some (Duplicate_key _), d) \<Rightarrow> (Ok (), d)
      | (e, d) \<Rightarrow> (unit_result ''record usage'' e, d))"

definition mongo_IsUsed ::
  "'d mongo_lib \<Rightarrow> MongoDBStore \<Rightarrow> string \<Rightarrow> int \<Rightarrow> 'd \<Rightarrow> (store_error, bool) res"
where
  "mongo_IsUsed lib s category idx d =
     (case mg_FindOne lib (ms_usage s) (entry_filter category idx) d of
        Inl No_documents \<Rightarrow> Ok False
      | Inl e \<Rightarrow> Err (failed_to ''check usage'' (mongo_text e))
      | Inr _ \<Rightarrow> Ok True)"

definition mongo_PutPublicKey ::
  "'d mongo_lib \<Rightarrow> MongoDBStore \<Rightarrow> PublicKeyInfo \<Rightarrow> 'd \<Rightarrow> (store_error, unit) res \<times> 'd"
where
  "mongo_PutPublicKey lib s key d =
     (case mg_ReplaceOne lib (ms_publicKeys s) [(''kid'', B_str (pk_Kid key))] (encode_PublicKeyInfo key) d of
        (e, d) \<Rightarrow> (unit_result ''put public key'' e, d))"

definition mongo_GetPublicKey ::
  "'d mongo_lib \<Rightarrow> MongoDBStore \<Rightarrow> string \<Rightarrow> 'd \<Rightarrow> (store_error, PublicKeyInfo) res"
where
  "mongo_GetPublicKey lib s kid d =
     (case mg_FindOne lib (ms_publicKeys s) [(''kid'', B_str kid)] d of
        Inl No_documents \<Rightarrow> Err (Key_not_found kid)
      | Inl e \<Rightarrow> Err (failed_to ''get public key'' (mongo_text e))
      | Inr x \<Rightarrow>
          (case decode_PublicKeyInfo x of
             None \<Rightarrow> Err (failed_to ''get public key'' (mg_DecodeError lib x))
           | Some key \<Rightarrow> Ok key))"

definition mongo_ListPublicKeys ::
  "'d mongo_lib \<Rightarrow> MongoDBStore \<Rightarrow> string \<Rightarrow> 'd \<Rightarrow> (store_error, PublicKeyInfo list) res"
where
  "mongo_ListPublicKeys lib s clientID d =
     (case mg_Find lib (ms_publicKeys s) (if clientID \<noteq> [] then [(''client_id'', B_str clientID)] else []) d of
        Inl e \<Rightarrow> Err (failed_to ''find public keys'' (mongo_text e))
      | Inr cur \<Rightarrow>
          (case cursor_All lib decode_PublicKeyInfo cur of
             Inl m \<Rightarrow> Err (failed_to ''decode public keys'' m)
           | Inr keys \<Rightarrow> Ok keys))"

definition owner_filter :: "string \<Rightarrow> string \<Rightarrow> document" where
  "owner_filter clientID ctx = [(''client_id'', B_str clientID), (''context'', B_str ctx)]"

definition mongo_PutRecord ::
  "'d mongo_lib \<Rightarrow> MongoDBStore \<Rightarrow> string \<Rightarrow> string \<Rightarrow> bytes \<Rightarrow> 'd \<Rightarrow> (store_error, unit) res \<times> 'd"
where
  "mongo_PutRecord lib s clientID ctx record_bytes d =
     (case mg_ReplaceOne lib (ms_records s) (owner_filter clientID ctx)
             (encode_opaqueRecordDoc \<lparr>ord_ClientID = clientID, ord_Context = ctx, ord_Record = record_bytes\<rparr>) d of
        (e, d) \<Rightarrow> (unit_result ''put record'' e, d))"

definition mongo_GetRecord ::
  "'d mongo_lib \<Rightarrow> MongoDBStore \<Rightarrow> string \<Rightarrow> string \<Rightarrow> 'd \<Rightarrow> (store_error, bytes) res"
where
  "mongo_GetRecord lib s clientID ctx d =
     (case mg_FindOne lib (ms_records s) (owner_filter clientID ctx) d of
        Inl No_documents \<Rightarrow> Err (No_record clientID ctx)
      | Inl e \<Rightarrow> Err (failed_to ''get record'' (mongo_text e))
      | Inr x \<Rightarrow>
          (case decode_opaqueRecordDoc x of
             None \<Rightarrow> Err (failed_to ''get record'' (mg_DecodeError lib x))
           | Some r \<Rightarrow> Ok (ord_Record r)))"

definition cred_doc :: "string \<Rightarrow> string \<Rightarrow> WebAuthnCredential \<Rightarrow> webauthnCredDoc" where
  "cred_doc clientID ctx cred =
     \<lparr>wd_ClientID = clientID, wd_Context = ctx, wd_CredentialID = wc_CredentialID cred, wd_PublicKey = wc_PublicKey cred,
      wd_SignCount = wc_SignCount cred, wd_AAGUID = wc_AAGUID cred, wd_CreatedAt = wc_CreatedAt cred\<rparr>"

definition doc_cred :: "webauthnCredDoc \<Rightarrow> WebAuthnCredential" where
  "doc_cred w =
     \<lparr>wc_CredentialID = wd_CredentialID w, wc_PublicKey = wd_PublicKey w, wc_SignCount = wd_SignCount w,
      wc_AAGUID = wd_AAGUID w, wc_CreatedAt = wd_CreatedAt w\<rparr>"

definition mongo_PutWebAuthnCredential ::
  "'d mongo_lib \<Rightarrow> MongoDBStore \<Rightarrow> string \<Rightarrow> string \<Rightarrow> WebAuthnCredential \<Rightarrow> 'd \<Rightarrow> (store_error, unit) res \<times> 'd"
where
  "mongo_PutWebAuthnCredential lib s clientID ctx cred d =
     (case mg_InsertOne lib (ms_webauthnCreds s) (encode_webauthnCredDoc (cred_doc clientID ctx cred)) d of
        (e, d) \<Rightarrow> (unit_result ''put WebAuthn credential'' e, d))"

definition mongo_GetWebAuthnCredential ::
  "'d mongo_lib \<Rightarrow> MongoDBStore \<Rightarrow> string \<Rightarrow> string \<Rightarrow> 'd \<Rightarrow> (store_error, WebAuthnCredential list) res"
where
  "mongo_GetWebAuthnCredential lib s clientID ctx d =
     (case mg_Find lib (ms_webauthnCreds s) (owner_filter clientID ctx) d of
        Inl e \<Rightarrow> Err (failed_to ''find WebAuthn credentials'' (mongo_text e))
      | Inr cur \<Rightarrow>
          (case cursor_All lib decode_webauthnCredDoc cur of
             Inl m \<Rightarrow> Err (failed_to ''decode WebAuthn credentials'' m)
           | Inr docs \<Rightarrow>
               if docs = [] then Err (No_webauthn_credentials clientID ctx) else Ok (map doc_cred docs)))"

definition mongo_UpdateWebAuthnSignCount ::
  "'d mongo_lib \<Rightarrow> MongoDBStore \<Rightarrow> string \<Rightarrow> string \<Rightarrow> bytes \<Rightarrow> 32 word \<Rightarrow> 'd \<Rightarrow> (store_error, unit) res \<times> 'd"
where
  "mongo_UpdateWebAuthnSignCount lib s clientID ctx credentialID signCount d =
     (case mg_UpdateOne lib (ms_webauthnCreds s)
             (owner_filter clientID ctx @ [(''credential_id'', B_bin credentialID)])
             [(''$set'', B_doc [(''sign_count'', B_int (uint signCount))])] d of
        (Inl e, d) \<Rightarrow> (Err (failed_to ''update WebAuthn sign count'' (mongo_text e)), d)
      | (Inr matched, d) \<Rightarrow> (if matched = 0 then Err Credential_not_found else Ok (), d))"

definition mongo_ops :: "(string \<Rightarrow> string) \<Rightarrow> 'd mongo_lib \<Rightarrow> MongoDBStore \<Rightarrow> 'd store_ops" where
  "mongo_ops q lib s =
     \<lparr>AllocateIndex = mongo_AllocateIndex q lib s, GetStatus = mongo_GetStatus lib s, SetStatus = mongo_SetStatus lib s,
      GetAllStatuses = mongo_GetAllStatuses lib s, RecordWUA = mongo_RecordWUA lib s,
      GetClientIndices = mongo_GetClientIndices lib s, RecordUsage = mongo_RecordUsage lib s, IsUsed = mongo_IsUsed lib s,
      PutPublicKey = mongo_PutPublicKey lib s, GetPublicKey = mongo_GetPublicKey lib s,
      ListPublicKeys = mongo_ListPublicKeys lib s, PutRecord = mongo_PutRecord lib s, GetRecord = mongo_GetRecord lib s,
      PutWebAuthnCredential = mongo_PutWebAuthnCredential lib s,
      GetWebAuthnCredential = mongo_GetWebAuthnCredential lib s,
      UpdateWebAuthnSignCount = mongo_UpdateWebAuthnSignCount lib s\<rparr>"

end
