(* ===== verification/Server_Main.thy ===== *)
theory Server_Main
  imports Dispatcher_Policies Service_Eudiw Status_List Admin_Api Hsm_Pkcs11 Server_Modes Go_Duration Store_Mongo
begin

text \<open>
  \<^verbatim>\<open>cmd/server/main.go\<close>: the settings, the wiring of the components according to the roles, and the HTTP
  endpoints. \<open>main_start\<close> is the part of \<^verbatim>\<open>main\<close> up to the listeners: it gives the server that is going to
  run, or the reason of the exit. What main opens (the HSM, the store, files, tokens, random bytes) are the
  fields of \<open>main_deps\<close>; the settings come from \<open>getenv\<close>. Log lines, timeouts of the listeners and the
  shutdown are left out.
\<close>

section \<open>Settings\<close>

definition envOr :: "(string \<Rightarrow> string) \<Rightarrow> string \<Rightarrow> string \<Rightarrow> string" where
  "envOr getenv key fallback = (let v = getenv key in if v \<noteq> [] then v else fallback)"

definition envInt :: "(string \<Rightarrow> string) \<Rightarrow> string \<Rightarrow> int \<Rightarrow> int" where
  "envInt getenv key fallback =
     (let v = getenv key in
      if v \<noteq> [] then (case Atoi v of Some n \<Rightarrow> n | None \<Rightarrow> fallback) else fallback)"

definition envDuration :: "(string \<Rightarrow> string) \<Rightarrow> string \<Rightarrow> duration \<Rightarrow> duration" where
  "envDuration getenv key fallback =
     (let v = getenv key in
      if v \<noteq> [] then (case ParseDuration v of Some d \<Rightarrow> d | None \<Rightarrow> fallback) else fallback)"

text \<open>The level and whether the format is JSON. \<^verbatim>\<open>ToUpper\<close> and \<^verbatim>\<open>EqualFold\<close> on the ASCII letters the
  settings are made of.\<close>

datatype log_level = LevelDebug | LevelInfo | LevelWarn | LevelError

definition upper_char :: "char \<Rightarrow> char" where
  "upper_char c = (let n = of_char c :: nat in if 97 \<le> n \<and> n \<le> 122 then char_of (n - 32) else c)"

definition initLogging :: "(string \<Rightarrow> string) \<Rightarrow> log_level \<times> bool" where
  "initLogging getenv =
     (let l = map upper_char (getenv ''R2PS_LOG_LEVEL'') in
      (if l = ''DEBUG'' then LevelDebug
       else if l = ''INFO'' then LevelInfo
       else if l = ''WARN'' \<or> l = ''WARNING'' then LevelWarn
       else if l = ''ERROR'' then LevelError
       else LevelWarn,
       map upper_char (getenv ''R2PS_LOG_FORMAT'') = ''JSON''))"

text \<open>\<^verbatim>\<open>LoadX5CChain\<close> of \<^verbatim>\<open>eudiw_handlers.go\<close>: \<open>read\<close> is the file system, \<open>pem\<close> is \<^verbatim>\<open>pem.Decode\<close>, which gives the
  type and bytes of the first block and the rest. A block is not empty, so the length of the file is enough
  fuel.\<close>

fun x5c_loop :: "(bytes \<Rightarrow> ((string \<times> bytes) \<times> bytes) option) \<Rightarrow> nat \<Rightarrow> bytes \<Rightarrow> bytes list \<Rightarrow> bytes list" where
  "x5c_loop pem 0 rest chain = chain"
| "x5c_loop pem (Suc n) rest chain =
     (case pem rest of
        None \<Rightarrow> chain
      | Some ((typ, b), rest) \<Rightarrow> x5c_loop pem n rest (if typ = ''CERTIFICATE'' then chain @ [b] else chain))"

definition LoadX5CChain ::
  "(string \<Rightarrow> bytes option) \<Rightarrow> (bytes \<Rightarrow> ((string \<times> bytes) \<times> bytes) option) \<Rightarrow> string \<Rightarrow> bytes list option"
where
  "LoadX5CChain read pem path =
     (if path = [] then Some []
      else
        (case read path of
           None \<Rightarrow> None
         | Some data \<Rightarrow> (let chain = x5c_loop pem (Suc (length data)) data [] in if chain = [] then None else Some chain)))"

text \<open>A chain that cannot be loaded is a warning, and the chain stays empty.\<close>

definition walletProviderConfig ::
  "(string \<Rightarrow> string) \<Rightarrow> (string \<Rightarrow> bytes list option) \<Rightarrow> PrivateKey \<Rightarrow> 's store_ops \<Rightarrow> 's WalletProviderConfig"
where
  "walletProviderConfig getenv loadX5C serverKey s =
     (let x5cPath = getenv ''R2PS_WP_X5C_PATH'';
          x5c = (if x5cPath \<noteq> [] then (case loadX5C x5cPath of None \<Rightarrow> [] | Some c \<Rightarrow> c) else [])
      in \<lparr>wp_SigningKey = serverKey, wp_X5CChain = x5c,
          wp_WalletLink = envOr getenv ''R2PS_WP_WALLET_LINK'' [],
          wp_WalletName = envOr getenv ''R2PS_WP_WALLET_NAME'' ''SIROS EUDI Wallet'',
          wp_WalletVersion = envOr getenv ''R2PS_WP_WALLET_VERSION'' ''0.1.0'',
          wp_CertificationInfo = json_quote (envOr getenv ''R2PS_WP_CERT_INFO'' []),
          wp_KeyStorageLevel = Some [envOr getenv ''R2PS_WP_KEY_STORAGE_LEVEL'' ''iso_18045_high''],
          wp_UserAuthLevel = Some [envOr getenv ''R2PS_WP_USER_AUTH_LEVEL'' ''iso_18045_high''],
          wp_Certification = envOr getenv ''R2PS_WP_CERTIFICATION'' [],
          wp_StatusListBaseURI = envOr getenv ''R2PS_WP_STATUS_LIST_BASE'' ''https://wp.example.com/statuslists'',
          wp_WKATTL = envDuration getenv ''R2PS_WP_WKA_TTL'' (24 * Hour),
          wp_WIATTL = envDuration getenv ''R2PS_WP_WIA_TTL'' (12 * Hour),
          wp_StatusMaintenancePeriod = envDuration getenv ''R2PS_WP_STATUS_MAINT'' (31 * 24 * Hour),
          wp_Store = Some s, wp_Audit = True\<rparr>)"

text \<open>\<open>None\<close> stands for the in-memory store.\<close>

definition store_settings :: "(string \<Rightarrow> string) \<Rightarrow> MongoDBConfig option" where
  "store_settings getenv =
     (let mongoURI = getenv ''R2PS_STORE_URI'' in
      if mongoURI \<noteq> [] then
        Some \<lparr>mc_URI = mongoURI, mc_Database = envOr getenv ''R2PS_STORE_DATABASE'' ''r2ps'',
              mc_Timeout = envInt getenv ''R2PS_STORE_TIMEOUT'' 10, mc_PasswordPath = getenv ''R2PS_STORE_PASSWORD_PATH'',
              mc_TLSEnabled = (getenv ''R2PS_STORE_TLS_ENABLED'' = ''true''), mc_CAPath = getenv ''R2PS_STORE_TLS_CA'',
              mc_CertPath = getenv ''R2PS_STORE_TLS_CERT'', mc_KeyPath = getenv ''R2PS_STORE_TLS_KEY''\<rparr>
      else None)"

section \<open>Start-up\<close>

datatype boot_error =
    Bad_mode mode_error
  | No_server_key
  | Bad_hsm_settings string
  | Hsm_unavailable hsm_error
  | Store_unavailable
  | Opaque_failed opaque_error
  | Dispatcher_failed opaque_error
  | No_dev_token

text \<open>\<^verbatim>\<open>strconv.ParseUint(s, 10, 32)\<close>.\<close>

definition ParseUint32 :: "string \<Rightarrow> nat option" where
  "ParseUint32 s =
     (let n = foldl (\<lambda>a c. 10 * a + (of_char c - 48)) 0 s in
      if s \<noteq> [] \<and> list_all (\<lambda>c. 48 \<le> (of_char c :: nat) \<and> (of_char c :: nat) \<le> 57) s \<and> n < 2 ^ 32 then Some n else None)"

definition hsm_settings :: "(string \<Rightarrow> string) \<Rightarrow> (boot_error, PKCS11Config) res" where
  "hsm_settings getenv =
     (if getenv ''R2PS_HSM_MODULE'' = [] then Err (Bad_hsm_settings ''R2PS_HSM_MODULE'')
      else if getenv ''R2PS_HSM_PIN'' = [] then Err (Bad_hsm_settings ''R2PS_HSM_PIN'')
      else
        (let cfg = \<lparr>pc_ModulePath = getenv ''R2PS_HSM_MODULE'', pc_SlotID = 0, pc_PIN = getenv ''R2PS_HSM_PIN'',
               pc_TokenLabel = getenv ''R2PS_HSM_TOKEN_LABEL'', pc_PoolSize = envInt getenv ''R2PS_HSM_POOL_SIZE'' 4\<rparr>;
             slotStr = getenv ''R2PS_HSM_SLOT''
         in if slotStr \<noteq> [] then
              (case ParseUint32 slotStr of
                 None \<Rightarrow> Err (Bad_hsm_settings ''R2PS_HSM_SLOT'')
               | Some slot \<Rightarrow> Ok (cfg\<lparr>pc_SlotID := slot\<rparr>))
            else Ok cfg))"

text \<open>The options of the admin API; \<open>validator\<close> builds the token validator from the JWKS URL, the issuer and
  the audiences.\<close>

definition admin_settings ::
  "(string \<Rightarrow> string) \<Rightarrow> (string \<Rightarrow> string \<Rightarrow> string list \<Rightarrow> Validator) \<Rightarrow> (nat \<Rightarrow> byte) option
   \<Rightarrow> (boot_error, admin_opt list) res"
where
  "admin_settings getenv validator rnd =
     (let jwksURL = getenv ''R2PS_ADMIN_JWKS_URL'' in
      if jwksURL \<noteq> [] then
        Ok [WithValidator (validator jwksURL (getenv ''R2PS_ADMIN_TOKEN_ISSUER'')
              (split_on CHR '','' (envOr getenv ''R2PS_ADMIN_TOKEN_AUDIENCE'' ''r2ps-admin'')))]
      else
        (let devToken = getenv ''R2PS_ADMIN_DEV_TOKEN'' in
         if devToken = [] then
           (case GenerateDevToken rnd of None \<Rightarrow> Err No_dev_token | Some t \<Rightarrow> Ok [WithDevToken t])
         else Ok [WithDevToken devToken]))"

text \<open>The handlers of the active roles.\<close>

definition role_handlers ::
  "jose_lib \<Rightarrow> RoleSet \<Rightarrow> 'h backend_ops \<Rightarrow> 's store_ops \<Rightarrow> 's WalletProviderConfig \<Rightarrow> ('h, 's) world Handler list"
where
  "role_handlers lib roles backend s wpCfg =
     (if roles_Has roles RoleWSCD
      then [ECDSAHandler backend, ECKeygenHandler backend (Some s), ECDHHandler backend, ListKeysHandler backend] else [])
     @ (if roles_Has roles RoleWSCA
        then [WKAHandler lib wpCfg, WIAHandler lib wpCfg, WIRevokeHandler wpCfg, WISuspendHandler wpCfg] else [])"

text \<open>\<open>md_noHsm\<close> is the state behind the nil backend of a server without the WSCD role, which nothing uses.\<close>

record ('h, 's) main_deps =
  md_getenv :: "string \<Rightarrow> string"
  md_serverKey :: "PrivateKey option"
  md_opaqueSeeds :: "bytes \<times> bytes"
  md_openHsm :: "PKCS11Config \<Rightarrow> (hsm_error, 'h) res"
  md_noHsm :: 'h
  md_backend :: "'h backend_ops"
  md_openStore :: "MongoDBConfig option \<Rightarrow> ('s store_ops \<times> 's) option"
  md_loadX5C :: "string \<Rightarrow> bytes list option"
  md_validator :: "string \<Rightarrow> string \<Rightarrow> string list \<Rightarrow> Validator"
  md_random :: "(nat \<Rightarrow> byte) option"

record ('h, 's, 'm) server =
  sv_Listen :: string
  sv_Roles :: RoleSet
  sv_Dispatcher :: "('h, 's, 'm) Dispatcher"
  sv_Backend :: "'h backend_ops option"
  sv_Store :: "'s store_ops"
  sv_WP :: "'s WalletProviderConfig"
  sv_hsmTimeout :: duration
  sv_TLS :: "(string \<times> string) option"
  sv_Admin :: "(string \<times> admin_opt list) option"

definition open_hsm :: "('h, 's) main_deps \<Rightarrow> RoleSet \<Rightarrow> (boot_error, 'h backend_ops option \<times> 'h) res" where
  "open_hsm md roles =
     (if roles_Has roles RoleWSCD then
        res_bind (hsm_settings (md_getenv md)) (\<lambda>cfg.
        res_bind (res_wrap Hsm_unavailable (md_openHsm md cfg)) (\<lambda>h. Ok (Some (md_backend md), h)))
      else Ok (None, md_noHsm md))"

definition start_dispatcher ::
  "'m libs \<Rightarrow> ('h, 's) main_deps \<Rightarrow> RoleSet \<Rightarrow> PrivateKey \<Rightarrow> 'h \<Rightarrow> 's store_ops \<Rightarrow> 's
   \<Rightarrow> (boot_error, ('h, 's, 'm) Dispatcher \<times> ('h, 's, 'm) dstate) res"
where
  "start_dispatcher L md roles serverKey h st s =
     (let getenv = md_getenv md;
          opaqueKey = GenerateServerKeyMaterial (lib_opaque L) (fst (md_opaqueSeeds md)) (snd (md_opaqueSeeds md));
          wpCfg = walletProviderConfig getenv (md_loadX5C md) serverKey st
      in res_bind (res_wrap Opaque_failed (NewOPAQUEServer (lib_opaque L) (Some opaqueKey))) (\<lambda>opaqueServer.
         res_wrap Dispatcher_failed
           (NewDispatcher L
              \<lparr>dc_ServerKey = serverKey, dc_OPAQUEKey = None, dc_OPAQUEServer = Some opaqueServer,
               dc_Records = StoreRecordStore (lib_opaque L) st, dc_ClientKeys = None,
               dc_Handlers = role_handlers (lib_jose L) roles (md_backend md) st wpCfg,
               dc_MaxAttempts = envInt getenv ''R2PS_MAX_ATTEMPTS'' 5,
               dc_LockoutDur = envDuration getenv ''R2PS_LOCKOUT_DURATION'' (15 * Minute),
               dc_SessionTTL = envDuration getenv ''R2PS_SESSION_TTL'' (5 * Minute),
               dc_IatMaxSkew = 0, dc_FIDO2 = None\<rparr>
              \<lparr>w_hsm = h, w_store = s, w_metrics = [], w_audit = []\<rparr> Map.empty)))"

definition main_start ::
  "'m libs \<Rightarrow> ('h, 's) main_deps \<Rightarrow> (boot_error, ('h, 's, 'm) server \<times> ('h, 's, 'm) dstate) res"
where
  "main_start L md =
     (let getenv = md_getenv md in
      res_bind (res_wrap Bad_mode (ParseRoles (envOr getenv ''R2PS_MODE'' ''all''))) (\<lambda>roles.
      res_bind (case md_serverKey md of None \<Rightarrow> Err No_server_key | Some k \<Rightarrow> Ok k) (\<lambda>serverKey.
      res_bind (open_hsm md roles) (\<lambda>(backend, h).
      res_bind (case md_openStore md (store_settings getenv) of None \<Rightarrow> Err Store_unavailable | Some x \<Rightarrow> Ok x) (\<lambda>(st, s).
      res_bind (start_dispatcher L md roles serverKey h st s) (\<lambda>(d, ds).
      res_bind
        (if roles_Has roles RoleAdmin \<and> getenv ''R2PS_ADMIN_LISTEN'' \<noteq> []
         then res_bind (admin_settings getenv (md_validator md) (md_random md)) (\<lambda>opts. Ok (Some (getenv ''R2PS_ADMIN_LISTEN'', opts)))
         else Ok None) (\<lambda>adm.
      let tlsCert = getenv ''R2PS_TLS_CERT''; tlsKey = getenv ''R2PS_TLS_KEY'' in
      Ok (\<lparr>sv_Listen = envOr getenv ''R2PS_LISTEN'' '':8443'', sv_Roles = roles, sv_Dispatcher = d, sv_Backend = backend,
           sv_Store = st, sv_WP = walletProviderConfig getenv (md_loadX5C md) serverKey st,
           sv_hsmTimeout = envDuration getenv ''R2PS_HSM_TIMEOUT'' (5 * Second),
           sv_TLS = (if tlsCert \<noteq> [] \<and> tlsKey \<noteq> [] then Some (tlsCert, tlsKey) else None), sv_Admin = adm\<rparr>, ds))))))))"

section \<open>The endpoints\<close>

type_synonym 'st http_handler = "http_request \<Rightarrow> 'st \<Rightarrow> http_writer \<Rightarrow> (unit, http_writer) res \<times> 'st"

text \<open>A JSON object literal with the given members, as the handlers write it.\<close>

definition json_literal :: "(string \<times> string) list \<Rightarrow> string" where
  "json_literal ms = json_object (map (\<lambda>(k, v). (k, json_quote v)) ms)"

definition handleHealthz :: "'st http_handler" where
  "handleHealthz r st w = (Ok (http_reply ''application/json'' StatusOK (json_literal [(''status'', ''ok'')]) w), st)"

definition readyzHandler :: "'h backend_ops \<Rightarrow> ('h, 's, 'm) dstate http_handler" where
  "readyzHandler backend r st w =
     (let (res, h) = hb_ListKeys backend [] (w_hsm (ds_world st)); st = st\<lparr>ds_world := (ds_world st)\<lparr>w_hsm := h\<rparr>\<rparr> in
      case res of
        Panic \<Rightarrow> (Panic, st)
      | Err _ \<Rightarrow>
          (Ok (http_reply ''application/json'' StatusServiceUnavailable
             (json_literal [(''status'', ''not ready''), (''reason'', ''hsm'')]) w), st)
      | Ok _ \<Rightarrow> (Ok (http_reply ''application/json'' StatusOK (json_literal [(''status'', ''ready'')]) w), st))"

definition mapErrorStatus :: "string \<Rightarrow> int" where
  "mapErrorStatus code =
     (if code = ErrUnauthorized then StatusUnauthorized
      else if code = ErrAccessDenied then StatusForbidden
      else if code = ErrUnsupportedType then StatusUnsupportedMediaType
      else if code = ErrIllegalRequestData then StatusBadRequest
      else if code = ErrIllegalState then StatusConflict
      else if code = ErrTryLater then StatusServiceUnavailable
      else StatusInternalServerError)"

definition main_writeError :: "int \<Rightarrow> string \<Rightarrow> string \<Rightarrow> http_writer \<Rightarrow> http_writer" where
  "main_writeError status code msg w =
     http_reply ''application/json'' status
       (Marshal_ErrorResponse \<lparr>er_ErrorCode = code, er_ErrorMessage = msg\<rparr> @ [CHR 0x0A]) w"

text \<open>\<^verbatim>\<open>io.ReadAll\<close> of a reader limited to 1 MB: a failure beyond the limit is not seen.\<close>

definition body_limit :: nat where "body_limit = 2 ^ 20"

definition read_body :: "http_request \<Rightarrow> string option" where
  "read_body r = (if rq_BodyFails r \<and> length (rq_Body r) < body_limit then None else Some (take body_limit (rq_Body r)))"

text \<open>\<open>etext\<close> is the text of an error the message wraps; the duration histogram is left out.\<close>

definition r2psHandler ::
  "'m libs \<Rightarrow> (err_msg \<Rightarrow> string) \<Rightarrow> ('h, 's, 'm) Dispatcher \<Rightarrow> req_env \<Rightarrow> ('h, 's, 'm) dstate http_handler"
where
  "r2psHandler L etext d env r st w =
     (let st = metric ''r2ps_requests_total'' [''received''] st in
      case read_body r of
        None \<Rightarrow>
          (Ok (main_writeError StatusBadRequest ErrIllegalRequestData ''read body failed'' w),
           metric ''r2ps_requests_total'' [''error''] st)
      | Some body \<Rightarrow>
          (case Process L d env body st of
             (Panic, st) \<Rightarrow> (Panic, st)
           | (Err e, st) \<Rightarrow>
               (Ok (main_writeError (mapErrorStatus (e_Code e)) (e_Code e) (etext (e_Msg e)) w),
                metric ''r2ps_requests_total'' [''error''] st)
           | (Ok resp, st) \<Rightarrow>
               (Ok (http_reply ''application/jose'' StatusOK resp w), metric ''r2ps_requests_total'' [''success''] st)))"

definition isInfrastructurePanic :: "string \<Rightarrow> bool" where
  "isInfrastructurePanic stack =
     list_ex (Contains stack) [''internal/hsm.'', ''internal/pake.'', ''sync.(*Pool)'', ''runtime.fatal'']"

text \<open>No handler behind the middleware sends anything before it panics, and \<^verbatim>\<open>http.Error\<close> overwrites the one
  header that may be set by then. A panic that is passed on closes the connection.\<close>

definition recoverMiddleware :: "string \<Rightarrow> 'st http_handler \<Rightarrow> 'st http_handler" where
  "recoverMiddleware stack next_handler r st w =
     (case next_handler r st w of
        (Panic, st) \<Rightarrow>
          if isInfrastructurePanic stack then (Panic, st)
          else (Ok (http_Error (json_literal [(''error_code'', ''server_error''), (''error_message'', ''internal error'')])
                  StatusInternalServerError w), st)
      | r \<Rightarrow> r)"

text \<open>The routes of the server; \<open>prom\<close> is the handler of the metrics library.\<close>

definition server_routes ::
  "'m libs \<Rightarrow> (bytes \<Rightarrow> bytes option) \<Rightarrow> (err_msg \<Rightarrow> string) \<Rightarrow> ('h, 's, 'm) dstate http_handler
   \<Rightarrow> ('h, 's, 'm) server \<Rightarrow> req_env \<Rightarrow> ('h, 's, 'm) dstate http_handler mux_route list"
where
  "server_routes L deflate etext prom srv env =
     (let on = (\<lambda>m p h. \<lparr>mr_Method = m, mr_Pattern = p, mr_Handler = h\<rparr>) in
      [on ''GET'' [Lit ''healthz''] handleHealthz,
       on ''GET'' [Lit ''readyz''] (case sv_Backend srv of Some b \<Rightarrow> readyzHandler b | None \<Rightarrow> handleHealthz),
       on ''GET'' [Lit ''metrics''] prom,
       on ''GET'' [Lit ''health''] handleHealthz,
       on ''POST'' [Lit ''r2ps''] (r2psHandler L etext (sv_Dispatcher srv) env)]
      @ (if roles_Has (sv_Roles srv) RoleWSCA
         then [on ''GET'' [Lit ''statuslists'', Rest]
                 (\<lambda>r st w. (sl_ServeHTTP (lib_jose L) deflate
                    (NewSLHandler (sv_Store srv)
                       \<lparr>slc_SigningKey = d_serverKey (sv_Dispatcher srv), slc_X5CChain = wp_X5CChain (sv_WP srv),
                        slc_BaseURI = wp_StatusListBaseURI (sv_WP srv), slc_TTL = 0\<rparr>)
                    (re_handler env) r (w_store (ds_world st)) w, st))]
         else []))"

definition server_handle ::
  "'m libs \<Rightarrow> (bytes \<Rightarrow> bytes option) \<Rightarrow> (err_msg \<Rightarrow> string) \<Rightarrow> ('h, 's, 'm) dstate http_handler
   \<Rightarrow> ('h, 's, 'm) server \<Rightarrow> req_env \<Rightarrow> string \<Rightarrow> ('h, 's, 'm) dstate http_handler"
where
  "server_handle L deflate etext prom srv env stack =
     recoverMiddleware stack (mux_serve (server_routes L deflate etext prom srv env) (\<lambda>h. h))"

text \<open>The admin listener works on the same store. It has no recovery middleware.\<close>

definition admin_handle ::
  "claims_lib \<Rightarrow> (string \<Rightarrow> string) \<Rightarrow> ('h, 's, 'm) server \<Rightarrow> admin_opt list \<Rightarrow> ('h, 's, 'm) dstate http_handler"
where
  "admin_handle cl q srv opts r st w =
     (let (res, s) = admin_ServeHTTP (admin_New cl q (sv_Store srv) opts) r (w_store (ds_world st)) w
      in (res, st\<lparr>ds_world := (ds_world st)\<lparr>w_store := s\<rparr>\<rparr>))"

section \<open>What the start-up decides\<close>

text \<open>A request without valid credentials gets no answer of success and changes nothing.\<close>

lemma admin_without_claims:
  fixes s :: 's
  assumes "ao_validator (admin_options_of opts) \<noteq> None \<or> ao_devToken (admin_options_of opts) \<noteq> []"
    and "admin_claims (admin_options_of opts) r = None"
  shows "\<exists>w. admin_ServeHTTP (admin_New cl q st opts) r s new_writer = (Ok w, s) \<and> 300 \<le> answer_code w"
proof (cases "mux_route (admin_endpoints q st) r")
  case (Routed th vs)
  have "admin_auth (admin_options_of opts) \<noteq> (None :: 's middleware option)"
    using assms(1) by (auto simp: admin_auth_def split: option.split)
  then obtain auth where "admin_auth (admin_options_of opts) = (Some auth :: 's middleware option)" by blast
  from guarded_outcome [OF this, of q st r "fst th" "snd th" vs cl s] Routed assms(2)
  show ?thesis by (auto simp: StatusUnauthorized_def)
qed (use unrouted_outcome [of q st r cl opts s] in
    \<open>auto simp: StatusTemporaryRedirect_def StatusMethodNotAllowed_def StatusNotFound_def\<close>)

lemma admin_settings_guarded:
  assumes "admin_settings getenv validator rnd = Ok opts"
  shows "ao_validator (admin_options_of opts) \<noteq> None \<or> ao_devToken (admin_options_of opts) \<noteq> []"
  using assms hex_token_length
  by (fastforce simp: admin_settings_def admin_options_of_def Let_def split: if_splits option.splits)

lemma handler_map_types: "handler_map hs m typ = None \<longleftrightarrow> typ \<notin> h_Type ` set hs \<and> m typ = None"
  by (induction hs arbitrary: m) auto

definition wscd_types :: "string set" where
  "wscd_types = {TypeSignECDSA, TypeP256Generate, TypeAgreeECDH, TypeHSMListKeys}"

definition wsca_types :: "string set" where
  "wsca_types = {TypeEUDIWWKAETSI, TypeEUDIWWIAETSI, TypeEUDIWWIRevoke, TypeEUDIWWISuspend}"

lemma role_handlers_types:
  "h_Type ` set (role_handlers lib roles backend s wpCfg) =
     (if roles_Has roles RoleWSCD then wscd_types else {}) \<union> (if roles_Has roles RoleWSCA then wsca_types else {})"
proof -
  have "map h_Type (role_handlers lib roles backend s wpCfg) =
      (if roles_Has roles RoleWSCD then [TypeSignECDSA, TypeP256Generate, TypeAgreeECDH, TypeHSMListKeys] else [])
      @ (if roles_Has roles RoleWSCA then [TypeEUDIWWKAETSI, TypeEUDIWWIAETSI, TypeEUDIWWIRevoke, TypeEUDIWWISuspend] else [])"
    by (simp add: role_handlers_def ECDSAHandler_def ECKeygenHandler_def ECDHHandler_def
        ListKeysHandler_def WKAHandler_def WIAHandler_def WIRevokeHandler_def WISuspendHandler_def)
  then show ?thesis by (auto simp: wscd_types_def wsca_types_def simp flip: set_map)
qed

lemma main_start_Ok:
  assumes "main_start L md = Ok (srv, ds)"
  shows "\<exists>serverKey h st s.
      md_openStore md (store_settings (md_getenv md)) = Some (st, s) \<and> sv_Store srv = st
    \<and> start_dispatcher L md (sv_Roles srv) serverKey h st s = Ok (sv_Dispatcher srv, ds)
    \<and> (if roles_Has (sv_Roles srv) RoleAdmin \<and> md_getenv md ''R2PS_ADMIN_LISTEN'' \<noteq> []
       then \<exists>opts. admin_settings (md_getenv md) (md_validator md) (md_random md) = Ok opts
              \<and> sv_Admin srv = Some (md_getenv md ''R2PS_ADMIN_LISTEN'', opts)
       else sv_Admin srv = None)"
  using assms
  by (auto simp: main_start_def Let_def res_bind_Ok_iff split: option.splits if_splits) blast+

lemma start_dispatcher_Ok:
  assumes "start_dispatcher L md roles serverKey h st s = Ok (d, ds)"
  shows "(d_handlers d typ \<noteq> None \<longleftrightarrow>
       roles_Has roles RoleWSCD \<and> typ \<in> wscd_types \<or> roles_Has roles RoleWSCA \<and> typ \<in> wsca_types)
     \<and> ds_sessions ds = [] \<and> w_store (ds_world ds) = s \<and> d_fido2 d = None \<and> d_clientKeys d = None"
proof -
  let ?wpCfg = "walletProviderConfig (md_getenv md) (md_loadX5C md) serverKey st"
  have h: "d_handlers d = handler_map (role_handlers (lib_jose L) roles (md_backend md) st ?wpCfg) Map.empty"
    and rest: "ds_sessions ds = []" "w_store (ds_world ds) = s" "d_fido2 d = None" "d_clientKeys d = None"
    using assms
    by (auto simp: start_dispatcher_def NewDispatcher_def Let_def res_bind_Ok_iff res_wrap_Ok_iff NewSessionStore_def
        newFIDO2Handler_def)
  have "d_handlers d typ \<noteq> None \<longleftrightarrow> typ \<in> h_Type ` set (role_handlers (lib_jose L) roles (md_backend md) st ?wpCfg)"
    by (simp add: h handler_map_types)
  also have "\<dots> \<longleftrightarrow> roles_Has roles RoleWSCD \<and> typ \<in> wscd_types \<or> roles_Has roles RoleWSCA \<and> typ \<in> wsca_types"
    unfolding role_handlers_types by (simp split: if_split)
  finally show ?thesis using rest by blast
qed

lemma no_status_list_route:
  assumes "\<not> roles_Has (sv_Roles srv) RoleWSCA" and "path_clean (rq_EscapedPath r)"
    and "path_segments (rq_EscapedPath r) = ''statuslists'' # segs"
  shows "mux_route (server_routes L deflate etext prom srv env) r = Mux_not_found"
  using assms
  by (cases segs) (auto simp: mux_route_def server_routes_def Let_def slash_missing_def unescape_segment_def unescape_plain
      split: option.split)

section \<open>The protocol endpoint\<close>

lemma r2ps_routed:
  assumes "rq_Method r = ''POST''" and "rq_EscapedPath r = ''/r2ps''"
  shows "mux_route (server_routes L deflate etext prom srv env) r = Routed (r2psHandler L etext (sv_Dispatcher srv) env) []"
  using assms
  by (simp add: mux_route_def server_routes_def path_clean_def path_segments_def method_matches_def Let_def)

lemma writeError_answer:
  "answer (main_writeError status code msg new_writer) =
     (status, [''Content-Type'' \<mapsto> ''application/json''],
      Marshal_ErrorResponse \<lparr>er_ErrorCode = code, er_ErrorMessage = msg\<rparr> @ [CHR 0x0A])"
  by (simp add: main_writeError_def)

lemma refused_request:
  assumes "\<forall>req. accept_request L d env body \<noteq> Ok req"
  shows "\<exists>e. Process L d env body st = (Err e, st) \<and> e_Code e = ErrIllegalRequestData \<and> mapErrorStatus (e_Code e) = 400"
proof (cases "accept_request L d env body")
  case (Err e)
  then show ?thesis
    using accept_request_Err [OF Err] by (simp add: Process_def mapErrorStatus_def r2ps_err_defs StatusBadRequest_def)
qed (use assms accept_request_no_panic [of L d env body] in auto)

text \<open>The statuses and the traces of the endpoint, said without the helpers of the code.\<close>

lemma mapErrorStatus_table:
  "mapErrorStatus code =
     (case map_of [(''UNAUTHORIZED'', 401), (''ACCESS_DENIED'', 403), (''UNSUPPORTED_REQUEST_TYPE'', 415),
        (''ILLEGAL_REQUEST_DATA'', 400), (''ILLEGAL_STATE'', 409), (''TRY_LATER'', 503)] code of None \<Rightarrow> 500 | Some n \<Rightarrow> n)"
  by (simp add: mapErrorStatus_def r2ps_err_defs ErrTryLater_def http_status_defs)

lemma Contains_sublist: "Contains s w \<longleftrightarrow> sublist w s"
proof (induction s)
  case (Cons c s)
  then show ?case by (auto simp: sublist_Cons_right HasPrefix_iff prefix_def)
qed simp

lemma isInfrastructurePanic_iff:
  "isInfrastructurePanic stack \<longleftrightarrow>
     (\<exists>w \<in> {''internal/hsm.'', ''internal/pake.'', ''sync.(*Pool)'', ''runtime.fatal''}. sublist w stack)"
  by (simp add: isInfrastructurePanic_def Contains_sublist)

lemma read_body_limit:
  "read_body r = (if rq_BodyFails r \<and> length (rq_Body r) < 1048576 then None else Some (take 1048576 (rq_Body r)))"
  by (simp add: read_body_def body_limit_def)

section \<open>Properties\<close>

text \<open>C11: The roles decide what a server offers. A server that starts registers the service types of its active
  roles and no others; without the WSCA role it answers 404 under /statuslists/; it starts with no session,
  on the store it opened, without client keys and without FIDO2. The admin API listens only with the admin
  role and an address, and whatever the settings are, a request to it without a token that the validator
  accepts, or without the configured or generated development token, is not answered with success and leaves
  the whole state of the server as it was.\<close>

theorem roles_decide_surface:
  assumes "main_start L md = Ok (srv, ds)"
  shows "(\<forall>typ. d_handlers (sv_Dispatcher srv) typ \<noteq> None \<longleftrightarrow>
            roles_Has (sv_Roles srv) RoleWSCD \<and> typ \<in> wscd_types \<or> roles_Has (sv_Roles srv) RoleWSCA \<and> typ \<in> wsca_types)
     \<and> ds_sessions ds = [] \<and> d_fido2 (sv_Dispatcher srv) = None \<and> d_clientKeys (sv_Dispatcher srv) = None
     \<and> md_openStore md (store_settings (md_getenv md)) = Some (sv_Store srv, w_store (ds_world ds))
     \<and> (\<forall>r segs st. \<not> roles_Has (sv_Roles srv) RoleWSCA \<and> path_clean (rq_EscapedPath r)
          \<and> path_segments (rq_EscapedPath r) = ''statuslists'' # segs \<longrightarrow>
          (\<exists>w. server_handle L deflate etext prom srv env stack r st new_writer = (Ok w, st) \<and> answer_code w = StatusNotFound))
     \<and> (case sv_Admin srv of
          None \<Rightarrow> \<not> (roles_Has (sv_Roles srv) RoleAdmin \<and> md_getenv md ''R2PS_ADMIN_LISTEN'' \<noteq> [])
        | Some (listen, opts) \<Rightarrow>
            roles_Has (sv_Roles srv) RoleAdmin \<and> listen = md_getenv md ''R2PS_ADMIN_LISTEN'' \<and> listen \<noteq> []
            \<and> (\<forall>r st. admin_claims (admin_options_of opts) r = None \<longrightarrow>
                 (\<exists>w. admin_handle cl q srv opts r st new_writer = (Ok w, st) \<and> 300 \<le> answer_code w)))"
proof -
  obtain serverKey h st s where m: "md_openStore md (store_settings (md_getenv md)) = Some (st, s)" "sv_Store srv = st"
    "start_dispatcher L md (sv_Roles srv) serverKey h st s = Ok (sv_Dispatcher srv, ds)"
    and adm: "if roles_Has (sv_Roles srv) RoleAdmin \<and> md_getenv md ''R2PS_ADMIN_LISTEN'' \<noteq> []
       then \<exists>opts. admin_settings (md_getenv md) (md_validator md) (md_random md) = Ok opts
              \<and> sv_Admin srv = Some (md_getenv md ''R2PS_ADMIN_LISTEN'', opts)
       else sv_Admin srv = None"
    using main_start_Ok [OF assms] by blast
  have lists: "\<exists>w. server_handle L deflate etext prom srv env stack r st new_writer = (Ok w, st) \<and> answer_code w = StatusNotFound"
    if "\<not> roles_Has (sv_Roles srv) RoleWSCA" "path_clean (rq_EscapedPath r)"
      "path_segments (rq_EscapedPath r) = ''statuslists'' # segs" for r segs st
    using no_status_list_route [OF that] by (simp add: server_handle_def recoverMiddleware_def mux_serve_def)
  have closed: "\<exists>w. admin_handle cl q srv opts r st new_writer = (Ok w, st) \<and> 300 \<le> answer_code w"
    if "admin_settings (md_getenv md) (md_validator md) (md_random md) = Ok opts"
      "admin_claims (admin_options_of opts) r = None" for opts r st
    using admin_without_claims [OF admin_settings_guarded [OF that(1)] that(2), of cl q "sv_Store srv" "w_store (ds_world st)"]
    by (auto simp: admin_handle_def)
  show ?thesis
    using start_dispatcher_Ok [OF m(3)] m(1,2) lists closed adm by (auto split: if_splits option.split)
qed

definition demo_deps :: "(unit, MemoryStore) main_deps" where
  "demo_deps =
     \<lparr>md_getenv = (\<lambda>k. if k = ''R2PS_MODE'' then ''admin'' else if k = ''R2PS_ADMIN_LISTEN'' then '':9000''
        else if k = ''R2PS_ADMIN_DEV_TOKEN'' then ''secret'' else []),
      md_serverKey = Some (d_serverKey demo_dispatcher), md_opaqueSeeds = ([1], [2]), md_openHsm = (\<lambda>_. Ok ()), md_noHsm = (),
      md_backend = toy_backend, md_openStore = (\<lambda>_. Some (memory_ops, NewMemoryStore)), md_loadX5C = (\<lambda>_. None),
      md_validator = (\<lambda>_ _ _ _. None), md_random = None\<rparr>"

lemma demo_server_starts:
  "\<exists>srv ds. main_start demo_libs demo_deps = Ok (srv, ds) \<and> sv_Admin srv = Some ('':9000'', [WithDevToken ''secret''])"
proof -
  have "ParseRoles ''admin'' = Ok (NewRoleSet [RoleAdmin])" by code_simp
  then show ?thesis
    by (simp add: main_start_def demo_deps_def envOr_def open_hsm_def RoleAdmin_def RoleWSCD_def start_dispatcher_def
        NewOPAQUEServer_def demo_libs_def toy_opaque_def NewDispatcher_def admin_settings_def Let_def)
qed

theorem roles_decide_surface_witness:
  "\<exists>srv ds w. main_start demo_libs demo_deps = Ok (srv, ds) \<and> d_handlers (sv_Dispatcher srv) TypeSignECDSA = None
     \<and> admin_handle demo_claims (\<lambda>s. s) srv [WithDevToken ''secret''] (demo_put ''Bearer wrong'' 1) ds new_writer = (Ok w, ds)
     \<and> 300 \<le> answer_code w"
proof -
  obtain srv ds where s: "main_start demo_libs demo_deps = Ok (srv, ds)" "sv_Admin srv = Some ('':9000'', [WithDevToken ''secret''])"
    using demo_server_starts by blast
  have c: "admin_claims (admin_options_of [WithDevToken ''secret'']) (demo_put ''Bearer wrong'' 1) = None"
    by (simp add: admin_options_of_def admin_claims_def dev_claims_def bearer_token_def header_Get_def demo_put_def bearer_def
        HasPrefix_def TrimPrefix_def)
  have "main_start demo_libs demo_deps = Ok (srv, ds) \<Longrightarrow> roles_Has (sv_Roles srv) RoleWSCD = False \<and> roles_Has (sv_Roles srv) RoleWSCA = False"
  proof -
    have "ParseRoles ''admin'' = Ok (NewRoleSet [RoleAdmin])" by code_simp
    then show "main_start demo_libs demo_deps = Ok (srv, ds) \<Longrightarrow>
        roles_Has (sv_Roles srv) RoleWSCD = False \<and> roles_Has (sv_Roles srv) RoleWSCA = False"
      by (auto simp: main_start_def demo_deps_def envOr_def open_hsm_def RoleAdmin_def RoleWSCD_def RoleWSCA_def start_dispatcher_def
          NewOPAQUEServer_def demo_libs_def toy_opaque_def NewDispatcher_def admin_settings_def Let_def)
  qed
  with roles_decide_surface [OF s(1), of undefined undefined undefined undefined undefined demo_claims "\<lambda>s. s"] s c
  show ?thesis by auto
qed

text \<open>C10: The protocol endpoint. A POST to /r2ps whose body breaks off before 1048576 bytes, or whose first
  1048576 bytes are not an acceptable request, is answered with 400 and ILLEGAL_REQUEST_DATA and changes nothing
  but the request counters. An accepted request is processed once; its signed answer is sent with 200 as it is,
  its error with the status of its code (401 UNAUTHORIZED, 403 ACCESS_DENIED, 415 for an unsupported type, 400, 409,
  503, and 500 for every other code) and with code and message as JSON, and a panic is answered with 500, or
  takes the connection down when the stack names the HSM, the login code, a pool or a fatal error.\<close>

theorem r2ps_endpoint_exact:
  fixes st :: "('h, 's, 'm) dstate"
  assumes "rq_Method r = ''POST''" and "rq_EscapedPath r = ''/r2ps''"
    and "server_handle L deflate etext prom srv env stack r st new_writer = (res, st')"
    and "st0 = metric ''r2ps_requests_total'' [''received''] st" and "d = sv_Dispatcher srv"
  shows "if rq_BodyFails r \<and> length (rq_Body r) < 1048576
     then st' = metric ''r2ps_requests_total'' [''error''] st0 \<and> (\<exists>w. res = Ok w
        \<and> answer w = (400, [''Content-Type'' \<mapsto> ''application/json''], Marshal_ErrorResponse
            \<lparr>er_ErrorCode = ''ILLEGAL_REQUEST_DATA'', er_ErrorMessage = ''read body failed''\<rparr> @ [CHR 0x0A]))
     else
       (case accept_request L d env (take 1048576 (rq_Body r)) of
          Ok req \<Rightarrow>
            (case route L d env req st0 of
               (Ok jws, s) \<Rightarrow>
                 \<exists>w. res = Ok w \<and> answer w = (200, [''Content-Type'' \<mapsto> ''application/jose''], jws)
                   \<and> st' = metric ''r2ps_requests_total'' [''success''] s
             | (Err e, s) \<Rightarrow>
                 \<exists>w. res = Ok w \<and> st' = metric ''r2ps_requests_total'' [''error''] s
                   \<and> answer w =
                      ((case map_of [(''UNAUTHORIZED'', 401), (''ACCESS_DENIED'', 403), (''UNSUPPORTED_REQUEST_TYPE'', 415),
                          (''ILLEGAL_REQUEST_DATA'', 400), (''ILLEGAL_STATE'', 409), (''TRY_LATER'', 503)] (e_Code e) of
                          None \<Rightarrow> 500 | Some status \<Rightarrow> status),
                       [''Content-Type'' \<mapsto> ''application/json''],
                       Marshal_ErrorResponse \<lparr>er_ErrorCode = e_Code e, er_ErrorMessage = etext (e_Msg e)\<rparr> @ [CHR 0x0A])
             | (Panic, s) \<Rightarrow>
                 st' = s \<and>
                 (if \<exists>p \<in> {''internal/hsm.'', ''internal/pake.'', ''sync.(*Pool)'', ''runtime.fatal''}. sublist p stack
                  then res = Panic else \<exists>w. res = Ok w \<and> answer_code w = 500))
        | _ \<Rightarrow> st' = metric ''r2ps_requests_total'' [''error''] st0 \<and> (\<exists>w msg. res = Ok w
            \<and> answer w = (400, [''Content-Type'' \<mapsto> ''application/json''], Marshal_ErrorResponse
                \<lparr>er_ErrorCode = ''ILLEGAL_REQUEST_DATA'', er_ErrorMessage = msg\<rparr> @ [CHR 0x0A])))"
proof -
  have h: "recoverMiddleware stack (\<lambda>r. r2psHandler L etext d env (r\<lparr>rq_PathValues := []\<rparr>)) r st new_writer = (res, st')"
    using assms(3) r2ps_routed [OF assms(1,2), of L deflate etext prom srv env]
    by (simp add: server_handle_def recoverMiddleware_def mux_serve_def assms(5))
  show ?thesis
  proof (cases "rq_BodyFails r \<and> length (rq_Body r) < 1048576")
    case True
    with h show ?thesis
      by (auto simp: read_body_limit recoverMiddleware_def r2psHandler_def assms(4) writeError_answer StatusBadRequest_def
          ErrIllegalRequestData_def)
  next
    case False
    define body where "body = take 1048576 (rq_Body r)"
    have rb: "read_body (r\<lparr>rq_PathValues := []\<rparr>) = Some body" using False by (simp add: read_body_limit body_def)
    show ?thesis
    proof (cases "\<exists>req. accept_request L d env body = Ok req")
      case True
      then obtain req where a: "accept_request L d env body = Ok req" by blast
      then have p: "Process L d env body st0 = route L d env req st0" by (simp add: Process_def)
      show ?thesis
        using h rb False
        by (cases "fst (route L d env req st0)"; cases "route L d env req st0")
          (auto simp: a p recoverMiddleware_def r2psHandler_def assms(4) [symmetric] writeError_answer mapErrorStatus_table
            isInfrastructurePanic_iff StatusOK_def StatusInternalServerError_def body_def [symmetric] simp del: map_of.simps
            split: if_splits)
    next
      case refused: False
      with refused_request obtain e where e: "Process L d env body st0 = (Err e, st0)" "e_Code e = ErrIllegalRequestData"
        "mapErrorStatus (e_Code e) = 400" by blast
      then have "st' = metric ''r2ps_requests_total'' [''error''] st0 \<and> (\<exists>w msg. res = Ok w
            \<and> answer w = (400, [''Content-Type'' \<mapsto> ''application/json''], Marshal_ErrorResponse
                \<lparr>er_ErrorCode = ''ILLEGAL_REQUEST_DATA'', er_ErrorMessage = msg\<rparr> @ [CHR 0x0A]))"
        using h rb
        by (auto simp: recoverMiddleware_def r2psHandler_def assms(4) [symmetric] writeError_answer ErrIllegalRequestData_def)
      with refused False show ?thesis by (auto simp: body_def [symmetric] split: res.split)
    qed
  qed
qed

text \<open>A request of the demonstration client fits into the limit.\<close>

lemma length_safe_quote: "list_all safe_char s \<Longrightarrow> length (json_quote s) = length s + 2"
  by (simp add: json_quote_def quote_body_safe)

lemma demo_sign_size: "length (demo_body demo_sign) \<le> 1048576"
proof -
  have b64: "list_all safe_char (b64_encode pad bs)" for pad bs by (rule b64_encode_all) (auto intro: b64_char_safe safe_charI)
  note q = length_safe_quote [OF b64] length_safe_quote safe_charI length_b64_encode_pad
  have d: "length (sign_request ''k1'' (replicate 32 7)) \<le> 1000"
    by (simp add: sign_request_def json_object_def q encodeBase64_def)
  have "encodes 1 (sr_Data demo_sign) (JObj (sign_members ''k1'' (replicate 32 7)))"
    using enc_object [OF sign_members_ok] by (simp add: demo_sign_def demo_req_def sign_request_members utf8_valid_ascii)
  then have r: "json_raw (sr_Data demo_sign) = Some (sign_request ''k1'' (replicate 32 7))"
    using encodes_parse(3) by (fastforce simp: demo_sign_def demo_req_def)
  have p: "length p \<le> 5000" if "Marshal_ServiceRequest demo_sign = Some p" for p
    using that r d by (auto simp: Marshal_ServiceRequest_def json_object_def q demo_sign_def demo_req_def omit_str_def demo_sid_def
      ProtocolVersion_def TypeSignECDSA_def Itoa_def nat_str.simps)
  have hex: "length (hex_encode bs) = 2 * length bs" for bs by (induction bs) auto
  show ?thesis
    using p by (fastforce simp: demo_body_def SignJWS_def demo_dispatcher_def ecAlgorithm_def sign_with_def toy_jose_def Let_def hex split: option.split)
qed

theorem r2ps_endpoint_exact_witness:
  "\<exists>srv ds w w' ds'. main_start demo_libs demo_deps = Ok (srv, ds) \<and> answer_code w = 400
     \<and> server_handle demo_libs Some (\<lambda>_. []) handleHealthz srv demo_env []
         ((demo_put [] 0)\<lparr>rq_Method := ''POST'', rq_EscapedPath := ''/r2ps'', rq_Body := [], rq_BodyFails := True\<rparr>) ds new_writer
       = (Ok w, metric ''r2ps_requests_total'' [''error''] (metric ''r2ps_requests_total'' [''received''] ds))
     \<and> answer_code w' = 401 \<and> ds_sessions ds' = []
     \<and> server_handle demo_libs Some (\<lambda>_. []) handleHealthz (srv\<lparr>sv_Dispatcher := demo_dispatcher\<rparr>) demo_env []
         ((demo_put [] 0)\<lparr>rq_Method := ''POST'', rq_EscapedPath := ''/r2ps'', rq_Body := demo_body demo_sign\<rparr>) demo_state new_writer
       = (Ok w', ds')"
proof -
  let ?r = "(demo_put [] 0)\<lparr>rq_Method := ''POST'', rq_EscapedPath := ''/r2ps'', rq_Body := [], rq_BodyFails := True\<rparr>"
  let ?r' = "(demo_put [] 0)\<lparr>rq_Method := ''POST'', rq_EscapedPath := ''/r2ps'', rq_Body := demo_body demo_sign\<rparr>"
  let ?st = "metric ''r2ps_requests_total'' [''received''] demo_state"
  obtain srv ds where s: "main_start demo_libs demo_deps = Ok (srv, ds)" using demo_server_starts by blast
  obtain res ds1 where h: "server_handle demo_libs Some (\<lambda>_. []) handleHealthz srv demo_env [] ?r ds new_writer = (res, ds1)"
    by (metis surj_pair)
  obtain res' ds' where h': "server_handle demo_libs Some (\<lambda>_. []) handleHealthz (srv\<lparr>sv_Dispatcher := demo_dispatcher\<rparr>) demo_env []
      ?r' demo_state new_writer = (res', ds')" by (metis surj_pair)
  have a: "accept_request demo_libs demo_dispatcher demo_env (take 1048576 (rq_Body ?r')) = Ok demo_sign"
    using demo_sign_accepted demo_sign_size by simp
  have "sr_Type demo_sign = TypeSignECDSA" and "d_handlers demo_dispatcher TypeSignECDSA = Some (ECDSAHandler toy_backend)"
    and none: "session_Get (re_get demo_env) (sr_TFASessionID demo_sign) (ds_sessions ?st) = None" "ds_sessions ?st = []"
    by (simp_all add: demo_sign_def demo_req_def demo_dispatcher_def demo_state_def NewSessionStore_def session_Get_def)
  then have "\<exists>msg. route demo_libs demo_dispatcher demo_env demo_sign ?st = (Err \<lparr>e_Code = ErrUnauthorized, e_Msg = msg\<rparr>, ?st)"
    by (simp add: route_def r2ps_type_defs handleService_def authorize_def ECDSAHandler_def Mode1FA_def Mode2FA_def
        require_session_def r2ps_err_def)
  then obtain msg where "route demo_libs demo_dispatcher demo_env demo_sign ?st = (Err \<lparr>e_Code = ErrUnauthorized, e_Msg = msg\<rparr>, ?st)"
    by blast
  then have "\<exists>w. res' = Ok w \<and> answer_code w = 401 \<and> ds_sessions ds' = []"
    using r2ps_endpoint_exact [OF _ _ h' refl refl] a none(2) by (auto simp: demo_put_def ErrUnauthorized_def)
  moreover have "\<exists>w. res = Ok w \<and> answer_code w = 400
      \<and> ds1 = metric ''r2ps_requests_total'' [''error''] (metric ''r2ps_requests_total'' [''received''] ds)"
    using r2ps_endpoint_exact [OF _ _ h refl refl] by auto
  ultimately show ?thesis using s h h' by auto
qed

end
