(* ===== verification/Mongo_Driver.thy ===== *)
theory Mongo_Driver
  imports Store_Mongo
begin

text \<open>
  What the MongoDB documentation promises of the calls the store makes, as predicates on a driver. A
  collection is seen as the multiset of its documents (\<open>docs\<close>, without the identifiers the driver generates)
  and the set of its unique indexes (\<open>uniq\<close>); nothing is assumed of the order in which documents are stored or
  delivered. \<open>mongo_sound\<close> says what an answer means: a call that reports a failure may or may not have been
  carried out. \<open>mongo_healthy\<close> adds that the database is reachable, answers in time and has room for
  every document.
\<close>

section \<open>Documented behaviour\<close>

text \<open>A filter of equalities, the increment of a field, a unique index.\<close>

definition matches :: "document \<Rightarrow> document \<Rightarrow> bool" where
  "matches f x \<longleftrightarrow> list_all (\<lambda>(k, v). map_of x k = Some v) f"

fun set_fields :: "document \<Rightarrow> document \<Rightarrow> document" where
  "set_fields [] x = x"
| "set_fields ((k, v) # kvs) x = set_fields kvs (AList.update k v x)"

definition inc_field :: "string \<Rightarrow> int \<Rightarrow> document \<Rightarrow> document option" where
  "inc_field k n x =
     (case map_of x k of
        None \<Rightarrow> Some (x @ [(k, B_int n)])
      | Some (B_int m) \<Rightarrow>
          if min_int64 \<le> m + n \<and> m + n \<le> max_int64 then Some (AList.update k (B_int (m + n)) x) else None
      | Some _ \<Rightarrow> None)"

definition clash :: "string list set \<Rightarrow> document \<Rightarrow> document multiset \<Rightarrow> bool" where
  "clash U x X \<longleftrightarrow> (\<exists>ks \<in> U. \<exists>y \<in># X. map (map_of y) ks = map (map_of x) ks)"

definition one_changed ::
  "document \<Rightarrow> (document \<Rightarrow> document option) \<Rightarrow> document multiset \<Rightarrow> document multiset \<Rightarrow> bool"
where
  "one_changed f g X Y \<longleftrightarrow> (\<exists>a \<in># X. matches f a \<and> (\<exists>b. g a = Some b \<and> Y = add_mset b (X - {#a#})))"

definition none_match :: "document \<Rightarrow> document multiset \<Rightarrow> bool" where
  "none_match f X \<longleftrightarrow> (\<forall>a \<in># X. \<not> matches f a)"

text \<open>The outcomes of the writing calls on the documents \<open>X\<close> of their collection.\<close>

definition inserted :: "string list set \<Rightarrow> document \<Rightarrow> mongo_error option \<Rightarrow> document multiset \<Rightarrow> document multiset \<Rightarrow> bool" where
  "inserted U x r X Y \<longleftrightarrow>
     (let done = (Y = add_mset x X \<and> \<not> clash U x X) in
      case r of None \<Rightarrow> done | Some (Duplicate_key m) \<Rightarrow> Y = X \<and> clash U x X | Some _ \<Rightarrow> Y = X \<or> done)"

definition updated :: "document \<Rightarrow> document \<Rightarrow> mongo_error + int \<Rightarrow> document multiset \<Rightarrow> document multiset \<Rightarrow> bool" where
  "updated f kvs r X Y \<longleftrightarrow>
     (let done = one_changed f (\<lambda>a. Some (set_fields kvs a)) X Y in
      case r of Inr n \<Rightarrow> n = 0 \<and> none_match f X \<and> Y = X \<or> n = 1 \<and> done | Inl _ \<Rightarrow> Y = X \<or> done)"

definition replaced :: "document \<Rightarrow> document \<Rightarrow> mongo_error option \<Rightarrow> document multiset \<Rightarrow> document multiset \<Rightarrow> bool" where
  "replaced f x r X Y \<longleftrightarrow>
     (let done = (none_match f X \<and> Y = add_mset x X \<or> one_changed f (\<lambda>_. Some x) X Y) in
      case r of None \<Rightarrow> done | Some _ \<Rightarrow> Y = X \<or> done)"

definition inc_done :: "document \<Rightarrow> string \<Rightarrow> int \<Rightarrow> document \<Rightarrow> document multiset \<Rightarrow> document multiset \<Rightarrow> bool" where
  "inc_done f k n y X Y \<longleftrightarrow>
     none_match f X \<and> y = f @ [(k, B_int n)] \<and> Y = add_mset y X
     \<or> one_changed f (\<lambda>a. if inc_field k n a = Some y then Some y else None) X Y"

definition incremented ::
  "document \<Rightarrow> string \<Rightarrow> int \<Rightarrow> mongo_error + document \<Rightarrow> document multiset \<Rightarrow> document multiset \<Rightarrow> bool"
where
  "incremented f k n r X Y \<longleftrightarrow>
     (case r of Inr y \<Rightarrow> inc_done f k n y X Y | Inl _ \<Rightarrow> Y = X \<or> (\<exists>y. inc_done f k n y X Y))"

text \<open>A call touches only its collection.\<close>

definition writes ::
  "('d \<Rightarrow> collection \<Rightarrow> document multiset) \<Rightarrow> ('d \<Rightarrow> collection \<Rightarrow> string list set) \<Rightarrow> collection
   \<Rightarrow> (document multiset \<Rightarrow> document multiset \<Rightarrow> bool) \<Rightarrow> 'd \<Rightarrow> 'd \<Rightarrow> bool"
where
  "writes docs uniq c P d d' \<longleftrightarrow> uniq d' = uniq d \<and> P (docs d c) (docs d' c) \<and> docs d' = (docs d)(c := docs d' c)"

definition mongo_sound ::
  "'d mongo_lib \<Rightarrow> ('d \<Rightarrow> collection \<Rightarrow> document multiset) \<Rightarrow> ('d \<Rightarrow> collection \<Rightarrow> string list set) \<Rightarrow> bool"
where
  "mongo_sound lib docs uniq \<longleftrightarrow>
     (\<forall>c x d r d'. mg_InsertOne lib c x d = (r, d') \<longrightarrow> writes docs uniq c (inserted (uniq d c) x r) d d')
   \<and> (\<forall>c f kvs d r d'. mg_UpdateOne lib c f [(''$set'', B_doc kvs)] d = (r, d') \<longrightarrow> writes docs uniq c (updated f kvs r) d d')
   \<and> (\<forall>c f x d r d'. mg_ReplaceOne lib c f x d = (r, d') \<longrightarrow> writes docs uniq c (replaced f x r) d d')
   \<and> (\<forall>c f k n d r d'. mg_FindOneAndUpdate lib c f [(''$inc'', B_doc [(k, B_int n)])] d = (r, d') \<longrightarrow>
        writes docs uniq c (incremented f k n r) d d')
   \<and> (\<forall>c f d x. mg_FindOne lib c f d = Inr x \<longrightarrow> x \<in># docs d c \<and> matches f x)
   \<and> (\<forall>c f d. mg_FindOne lib c f d = Inl No_documents \<longrightarrow> none_match f (docs d c))
   \<and> (\<forall>c f d xs. mg_Find lib c f d = Inr (xs, None) \<longrightarrow> mset xs = filter_mset (matches f) (docs d c))
   \<and> (\<forall>c ks u d r d'. mg_CreateIndex lib c ks u d = (r, d') \<longrightarrow>
        docs d' = docs d \<and> (uniq d' = uniq d \<and> (r = None \<longrightarrow> \<not> u)
          \<or> u \<and> uniq d' = (uniq d)(c := insert (map fst ks) (uniq d c))))
   \<and> (\<forall>opts d r d'. mg_Connect lib opts d = (r, d') \<longrightarrow> docs d' = docs d \<and> uniq d' = uniq d)"

definition mongo_healthy ::
  "'d mongo_lib \<Rightarrow> ('d \<Rightarrow> collection \<Rightarrow> document multiset) \<Rightarrow> ('d \<Rightarrow> collection \<Rightarrow> string list set) \<Rightarrow> bool"
where
  "mongo_healthy lib docs uniq \<longleftrightarrow> mongo_sound lib docs uniq
   \<and> (\<forall>c x d. \<not> clash (uniq d c) x (docs d c) \<longrightarrow> fst (mg_InsertOne lib c x d) = None)
   \<and> (\<forall>c x d e. fst (mg_InsertOne lib c x d) = Some e \<longrightarrow> (\<exists>m. e = Duplicate_key m))
   \<and> (\<forall>c f kvs d. (\<forall>ks \<in> uniq d c. set ks \<inter> fst ` set kvs = {}) \<longrightarrow>
        (\<exists>n. fst (mg_UpdateOne lib c f [(''$set'', B_doc kvs)] d) = Inr n))
   \<and> (\<forall>c f x d. (none_match f (docs d c) \<longrightarrow> \<not> clash (uniq d c) x (docs d c))
          \<and> (\<forall>a \<in># docs d c. matches f a \<longrightarrow> \<not> clash (uniq d c) x (docs d c - {#a#})) \<longrightarrow>
        fst (mg_ReplaceOne lib c f x d) = None)
   \<and> (\<forall>c f k n d. uniq d c = {} \<and> (\<forall>a \<in># docs d c. matches f a \<longrightarrow> inc_field k n a \<noteq> None) \<longrightarrow>
        (\<exists>y. fst (mg_FindOneAndUpdate lib c f [(''$inc'', B_doc [(k, B_int n)])] d) = Inr y))
   \<and> (\<forall>c f d e. mg_FindOne lib c f d = Inl e \<longrightarrow> e = No_documents)
   \<and> (\<forall>c f d. \<exists>xs. mg_Find lib c f d = Inr (xs, None))"

lemma sound:
  assumes "mongo_sound lib docs uniq"
  shows sound_insert: "mg_InsertOne lib c x d = (r, d') \<Longrightarrow> writes docs uniq c (inserted (uniq d c) x r) d d'"
    and sound_update: "mg_UpdateOne lib c f [(''$set'', B_doc kvs)] d = (n, d') \<Longrightarrow> writes docs uniq c (updated f kvs n) d d'"
    and sound_replace: "mg_ReplaceOne lib c f x d = (r, d') \<Longrightarrow> writes docs uniq c (replaced f x r) d d'"
    and sound_inc: "mg_FindOneAndUpdate lib c f [(''$inc'', B_doc [(k, B_int i)])] d = (y, d') \<Longrightarrow>
      writes docs uniq c (incremented f k i y) d d'"
    and sound_find_one: "mg_FindOne lib c f d = Inr x \<Longrightarrow> x \<in># docs d c \<and> matches f x"
    and sound_find_none: "mg_FindOne lib c f d = Inl No_documents \<Longrightarrow> none_match f (docs d c)"
    and sound_find: "mg_Find lib c f d = Inr (xs, None) \<Longrightarrow> mset xs = filter_mset (matches f) (docs d c)"
    and sound_index: "mg_CreateIndex lib c ks u d = (r, d') \<Longrightarrow>
      docs d' = docs d \<and> (uniq d' = uniq d \<and> (r = None \<longrightarrow> \<not> u) \<or> u \<and> uniq d' = (uniq d)(c := insert (map fst ks) (uniq d c)))"
    and sound_connect: "mg_Connect lib opts d = (r, d') \<Longrightarrow> docs d' = docs d \<and> uniq d' = uniq d"
  using assms unfolding mongo_sound_def by (elim conjE; metis)+

end
