(* ===== verification/Mongo_Contents.thy ===== *)
theory Mongo_Contents
  imports Mongo_Driver
begin

text \<open>
  The contents of the seven collections as the store leaves them: multisets of the entries its documents
  encode, the invariant that holds of them whatever calls fail, and what each call of the store does to them
  on a driver with the documented behaviour.
\<close>

section \<open>Multisets of encoded entries\<close>

declare filter_mset_eq_mempty_iff [simp del]

lemma filter_single:
  assumes "size (filter_mset P E) \<le> 1" and "e \<in># E" and "P e"
  shows "E = add_mset e {#x \<in># E. \<not> P x#}"
proof -
  have "e \<in># filter_mset P E" using assms(2,3) by simp
  then obtain M where M: "filter_mset P E = add_mset e M" by (meson multi_member_split)
  with assms(1) have "filter_mset P E = {#e#}" by simp
  then show ?thesis using multiset_partition [of E P] by simp
qed

definition put_entry_mset :: "('a \<Rightarrow> bool) \<Rightarrow> 'a \<Rightarrow> 'a multiset \<Rightarrow> 'a multiset" where
  "put_entry_mset P e E = add_mset e {#x \<in># E. \<not> P x#}"

lemma one_changed_image:
  assumes "one_changed f g (image_mset enc E) Y"
  obtains e b where "e \<in># E" "matches f (enc e)" "g (enc e) = Some b" "Y = add_mset b (image_mset enc (E - {#e#}))"
proof -
  from assms obtain e b where e: "e \<in># E" "matches f (enc e)" "g (enc e) = Some b"
    "Y = add_mset b (image_mset enc E - {#enc e#})"
    by (auto simp: one_changed_def)
  moreover have "image_mset enc E - {#enc e#} = image_mset enc (E - {#e#})"
    using e(1) by (simp add: image_mset_Diff)
  ultimately show thesis using that by metis
qed

lemma none_match_image: "none_match f (image_mset enc E) \<longleftrightarrow> (\<forall>e \<in># E. \<not> matches f (enc e))"
  by (auto simp: none_match_def)

lemma replaced_image:
  assumes "none_match f (image_mset enc E) \<and> Y = add_mset (enc e0) (image_mset enc E)
      \<or> one_changed f (\<lambda>_. Some (enc e0)) (image_mset enc E) Y"
    and "\<And>e. matches f (enc e) \<longleftrightarrow> P e" and "size (filter_mset P E) \<le> 1"
  shows "Y = image_mset enc (put_entry_mset P e0 E)"
  using assms(1)
proof
  assume a: "none_match f (image_mset enc E) \<and> Y = add_mset (enc e0) (image_mset enc E)"
  then have "{#x \<in># E. \<not> P x#} = E"
    by (auto simp: none_match_image assms(2) filter_mset_eq_conv)
  with a show ?thesis by (simp add: put_entry_mset_def)
next
  assume "one_changed f (\<lambda>_. Some (enc e0)) (image_mset enc E) Y"
  then obtain e where e: "e \<in># E" "matches f (enc e)" "Y = add_mset (enc e0) (image_mset enc (E - {#e#}))"
    by (elim one_changed_image) auto
  then have "E - {#e#} = {#x \<in># E. \<not> P x#}"
    using filter_single [OF assms(3) e(1)] assms(2) by (metis add_mset_remove_trivial)
  with e show ?thesis by (simp add: put_entry_mset_def)
qed

lemma put_entry_unique:
  assumes "\<And>k. size {#x \<in># E. key x = k#} \<le> 1"
  shows "size {#x \<in># put_entry_mset (\<lambda>x. key x = key e) e E. key x = k#} \<le> 1"
proof (cases "key e = k")
  case True
  have "{#x \<in># {#x \<in># E. key x \<noteq> key e#}. key x = key e#} = {#}" by (simp add: filter_filter_mset filter_mset_eq_mempty_iff)
  with True show ?thesis by (auto simp: put_entry_mset_def)
next
  case False
  have "{#x \<in># {#x \<in># E. key x \<noteq> key e#}. key x = k#} = {#x \<in># E. key x = k#}"
    using False by (auto simp: filter_filter_mset intro!: filter_mset_cong)
  with False assms show ?thesis by (simp add: put_entry_mset_def)
qed

section \<open>Encodings\<close>

lemma decode_field_Cons [simp]:
  "decode_field dec z k ((k', b) # d) = (if k = k' then dec b else decode_field dec z k d)"
  by (auto simp: decode_field_def)

lemma byte_of_uint [simp]: "bson_byte (B_int (uint (v :: byte))) = Some v"
  using uint_bounded [of v] by simp

lemma word32_of_uint [simp]: "bson_uint32 (B_int (uint (v :: 32 word))) = Some v"
  using uint_bounded [of v] by simp

lemma decode_encode [simp]:
  "decode_statusEntry (encode_statusEntry e) = Some e"
  "decode_clientIndexEntry (encode_clientIndexEntry i) = Some i"
  "decode_PublicKeyInfo (encode_PublicKeyInfo k) = Some k"
  "decode_opaqueRecordDoc (encode_opaqueRecordDoc r) = Some r"
  "decode_webauthnCredDoc (encode_webauthnCredDoc w) = Some w"
  by (simp_all add: decode_statusEntry_def encode_statusEntry_def decode_clientIndexEntry_def encode_clientIndexEntry_def
      decode_PublicKeyInfo_def encode_PublicKeyInfo_def decode_opaqueRecordDoc_def encode_opaqueRecordDoc_def
      decode_webauthnCredDoc_def encode_webauthnCredDoc_def del: bson_byte.simps bson_uint32.simps)

lemma decoded_image:
  assumes "\<And>e. dec (enc e) = Some e"
  shows "image_mset (\<lambda>x. the (dec x)) (image_mset enc E) = E"
  using assms by (simp add: image_mset.compositionality comp_def)

named_theorems match_simps \<open>which encoded entries a filter of the store matches\<close>

lemma matches_entry [match_simps]:
  "matches (entry_filter cat i) (encode_statusEntry e) \<longleftrightarrow> ste_Category e = cat \<and> ste_Idx e = i"
  "matches [(''category'', B_str cat)] (encode_statusEntry e) \<longleftrightarrow> ste_Category e = cat"
  "matches (entry_filter cat i) (encode_usageEntry u) \<longleftrightarrow> ue_Category u = cat \<and> ue_Idx u = i"
  "matches [(''client_id'', B_str c), (''category'', B_str cat)] (encode_clientIndexEntry j) \<longleftrightarrow>
     cie_ClientID j = c \<and> cie_Category j = cat"
  "matches [(''kid'', B_str kid)] (encode_PublicKeyInfo k) \<longleftrightarrow> pk_Kid k = kid"
  "matches [(''client_id'', B_str c)] (encode_PublicKeyInfo k) \<longleftrightarrow> pk_ClientID k = c"
  "matches (owner_filter c ctx) (encode_opaqueRecordDoc r) \<longleftrightarrow> ord_ClientID r = c \<and> ord_Context r = ctx"
  "matches (owner_filter c ctx) (encode_webauthnCredDoc w) \<longleftrightarrow> wd_ClientID w = c \<and> wd_Context w = ctx"
  "matches (owner_filter c ctx @ [(''credential_id'', B_bin cid)]) (encode_webauthnCredDoc w) \<longleftrightarrow>
     wd_ClientID w = c \<and> wd_Context w = ctx \<and> wd_CredentialID w = cid"
  "matches [] x"
  by (simp_all add: matches_def entry_filter_def owner_filter_def encode_statusEntry_def encode_usageEntry_def
      encode_clientIndexEntry_def encode_PublicKeyInfo_def encode_opaqueRecordDoc_def encode_webauthnCredDoc_def)

lemma set_status_field: "set_fields [(''status'', B_int (uint v))] (encode_statusEntry e) = encode_statusEntry (e\<lparr>ste_Status := v\<rparr>)"
  by (simp add: encode_statusEntry_def)

lemma set_sign_count_field:
  "set_fields [(''sign_count'', B_int (uint n))] (encode_webauthnCredDoc w) = encode_webauthnCredDoc (w\<lparr>wd_SignCount := n\<rparr>)"
  by (simp add: encode_webauthnCredDoc_def)

section \<open>The counters\<close>

abbreviation (input) "id_filter cat \<equiv> [(''_id'', B_str cat)]"

definition counter_value :: "document \<Rightarrow> int" where
  "counter_value x = (case int_field ''value'' x of Some n \<Rightarrow> n | None \<Rightarrow> 0)"

definition counter :: "document multiset \<Rightarrow> string \<Rightarrow> int" where
  "counter X cat = (\<Sum>x \<in># filter_mset (matches (id_filter cat)) X. counter_value x)"

definition counter_doc :: "string \<Rightarrow> int \<Rightarrow> document \<Rightarrow> bool" where
  "counter_doc cat n x \<longleftrightarrow> map_of x ''_id'' = Some (B_str cat) \<and> map_of x ''value'' = Some (B_int n) \<and> 1 \<le> n \<and> n \<le> max_int64"

definition wf_counters :: "document multiset \<Rightarrow> bool" where
  "wf_counters X \<longleftrightarrow> (\<forall>x \<in># X. \<exists>cat n. counter_doc cat n x)
     \<and> (\<forall>cat. size (filter_mset (matches (id_filter cat)) X) \<le> 1)"

lemma counter_doc_simps:
  assumes "counter_doc cat n x"
  shows "matches (id_filter c) x \<longleftrightarrow> c = cat" "counter_value x = n" "int_field ''value'' x = Some n" "1 \<le> n" "n \<le> max_int64"
  using assms by (auto simp: counter_doc_def matches_def counter_value_def decode_field_def)

text \<open>The step from one counter to the next, and what a driver that fails leaves.\<close>

lemma counter_incremented:
  assumes wf: "wf_counters X"
    and "inc_done (id_filter cat) ''value'' 1 y X Y"
  shows "wf_counters Y \<and> int_field ''value'' y = Some (counter X cat + 1) \<and> 0 \<le> counter X cat \<and> counter X cat < max_int64
     \<and> counter Y = (counter X)(cat := counter X cat + 1)"
proof -
  have "\<exists>Z. Y = add_mset y Z \<and> counter_doc cat (counter X cat + 1) y \<and> 0 \<le> counter X cat \<and> wf_counters Z
      \<and> filter_mset (matches (id_filter cat)) Z = {#}
      \<and> (\<forall>c. c \<noteq> cat \<longrightarrow> filter_mset (matches (id_filter c)) X = filter_mset (matches (id_filter c)) Z)"
    using assms(2) unfolding inc_done_def
  proof
    assume a: "none_match (id_filter cat) X \<and> y = id_filter cat @ [(''value'', B_int 1)] \<and> Y = add_mset y X"
    then have z: "filter_mset (matches (id_filter cat)) X = {#}" by (simp add: none_match_def filter_mset_eq_mempty_iff)
    then have "counter X cat = 0" by (simp add: counter_def)
    with a z wf show ?thesis by (auto simp: counter_doc_def max_int64_def)
  next
    assume "one_changed (id_filter cat) (\<lambda>a. if inc_field ''value'' 1 a = Some y then Some y else None) X Y"
    then obtain a where a: "a \<in># X" "matches (id_filter cat) a" "inc_field ''value'' 1 a = Some y" "Y = add_mset y (X - {#a#})"
      by (auto simp: one_changed_def split: if_splits)
    define Z where "Z = X - {#a#}"
    have X: "X = add_mset a Z" using a(1) by (simp add: Z_def)
    obtain cat' n where "counter_doc cat' n a" using wf a(1) by (auto simp: wf_counters_def)
    with a(2) counter_doc_simps(1) have n: "counter_doc cat n a" by metis
    have "size (filter_mset (matches (id_filter cat)) X) \<le> 1" using wf by (simp add: wf_counters_def)
    then have z: "filter_mset (matches (id_filter cat)) Z = {#}"
      using a(2) by (simp add: X)
    have "counter X cat = n" using n a(2) z by (simp add: counter_def X counter_doc_simps)
    moreover have "counter_doc cat (n + 1) y"
      using a(3) n by (auto simp: inc_field_def counter_doc_def update_conv' split: if_splits)
    moreover have "size (filter_mset (matches (id_filter c)) Z) \<le> 1" for c
    proof -
      have "size (filter_mset (matches (id_filter c)) Z) \<le> size (filter_mset (matches (id_filter c)) X)" by (simp add: X)
      then show ?thesis using wf le_trans unfolding wf_counters_def by blast
    qed
    then have "wf_counters Z" using wf by (auto simp: wf_counters_def X)
    ultimately show ?thesis
      using a(4) z n counter_doc_simps(4) [OF n] by (intro exI [of _ Z]) (auto simp: Z_def [symmetric] X counter_doc_simps(1))
  qed
  then obtain Z where Z: "Y = add_mset y Z" "counter_doc cat (counter X cat + 1) y" "0 \<le> counter X cat" "wf_counters Z"
    "filter_mset (matches (id_filter cat)) Z = {#}"
    "\<forall>c. c \<noteq> cat \<longrightarrow> filter_mset (matches (id_filter c)) X = filter_mset (matches (id_filter c)) Z" by blast
  have "counter Y c = ((counter X)(cat := counter X cat + 1)) c" for c
    using Z(5,6) counter_doc_simps [OF Z(2)] by (auto simp: counter_def Z(1))
  moreover have "wf_counters Y"
    using Z(2,4,5) counter_doc_simps [OF Z(2)] by (auto simp: wf_counters_def Z(1))
  ultimately show ?thesis using Z(3) counter_doc_simps [OF Z(2)] by auto
qed

section \<open>The view of the collections\<close>

type_synonym contents = "collection \<Rightarrow> document multiset"

record store_view =
  vw_counter :: "string \<Rightarrow> int"
  vw_statuses :: "statusEntry multiset"
  vw_indices :: "clientIndexEntry multiset"
  vw_used :: "string \<Rightarrow> int \<Rightarrow> bool"
  vw_keys :: "PublicKeyInfo multiset"
  vw_records :: "opaqueRecordDoc multiset"
  vw_creds :: "webauthnCredDoc multiset"

definition view :: "MongoDBStore \<Rightarrow> contents \<Rightarrow> store_view" where
  "view s X =
     \<lparr>vw_counter = counter (X (ms_counters s)),
      vw_statuses = image_mset (\<lambda>x. the (decode_statusEntry x)) (X (ms_statuses s)),
      vw_indices = image_mset (\<lambda>x. the (decode_clientIndexEntry x)) (X (ms_clientIndices s)),
      vw_used = (\<lambda>cat i. \<not> none_match (entry_filter cat i) (X (ms_usage s))),
      vw_keys = image_mset (\<lambda>x. the (decode_PublicKeyInfo x)) (X (ms_publicKeys s)),
      vw_records = image_mset (\<lambda>x. the (decode_opaqueRecordDoc x)) (X (ms_records s)),
      vw_creds = image_mset (\<lambda>x. the (decode_webauthnCredDoc x)) (X (ms_webauthnCreds s))\<rparr>"

definition encoded :: "MongoDBStore \<Rightarrow> contents \<Rightarrow> bool" where
  "encoded s X \<longleftrightarrow> wf_counters (X (ms_counters s))
     \<and> X (ms_statuses s) = image_mset encode_statusEntry (vw_statuses (view s X))
     \<and> X (ms_clientIndices s) = image_mset encode_clientIndexEntry (vw_indices (view s X))
     \<and> X (ms_publicKeys s) = image_mset encode_PublicKeyInfo (vw_keys (view s X))
     \<and> X (ms_records s) = image_mset encode_opaqueRecordDoc (vw_records (view s X))
     \<and> X (ms_webauthnCreds s) = image_mset encode_webauthnCredDoc (vw_creds (view s X))"

definition unique_by :: "('a \<Rightarrow> 'k) \<Rightarrow> 'a multiset \<Rightarrow> bool" where
  "unique_by key E \<longleftrightarrow> (\<forall>k. size {#x \<in># E. key x = k#} \<le> 1)"

abbreviation (input) "entry_key e \<equiv> (ste_Category e, ste_Idx e)"
abbreviation (input) "record_owner r \<equiv> (ord_ClientID r, ord_Context r)"

text \<open>Every status belongs to an index its counter has passed; no index, key or record is there twice.\<close>

definition view_ok :: "store_view \<Rightarrow> bool" where
  "view_ok v \<longleftrightarrow> (\<forall>e \<in># vw_statuses v. 0 \<le> ste_Idx e \<and> ste_Idx e < vw_counter v (ste_Category e))
     \<and> (\<forall>cat. 0 \<le> vw_counter v cat)
     \<and> unique_by (\<lambda>e. entry_key e) (vw_statuses v) \<and> unique_by pk_Kid (vw_keys v)
     \<and> unique_by (\<lambda>r. record_owner r) (vw_records v)"

definition mongo_inv :: "MongoDBStore \<Rightarrow> contents \<Rightarrow> bool" where
  "mongo_inv s X \<longleftrightarrow> encoded s X \<and> view_ok (view s X)"

text \<open>Replacing the contents of one collection.\<close>

lemma contents_upd:
  fixes X :: contents and db
  defines "s \<equiv> mongo_collections db"
  shows
    "wf_counters Y \<Longrightarrow> encoded s X \<Longrightarrow> encoded s (X(ms_counters s := Y)) \<and> view s (X(ms_counters s := Y)) = (view s X)\<lparr>vw_counter := counter Y\<rparr>"
    "encoded s X \<Longrightarrow> encoded s (X(ms_statuses s := image_mset encode_statusEntry E))
       \<and> view s (X(ms_statuses s := image_mset encode_statusEntry E)) = (view s X)\<lparr>vw_statuses := E\<rparr>"
    "encoded s X \<Longrightarrow> encoded s (X(ms_clientIndices s := image_mset encode_clientIndexEntry I))
       \<and> view s (X(ms_clientIndices s := image_mset encode_clientIndexEntry I)) = (view s X)\<lparr>vw_indices := I\<rparr>"
    "encoded s X \<Longrightarrow> encoded s (X(ms_usage s := Y))
       \<and> view s (X(ms_usage s := Y)) = (view s X)\<lparr>vw_used := \<lambda>cat i. \<not> none_match (entry_filter cat i) Y\<rparr>"
    "encoded s X \<Longrightarrow> encoded s (X(ms_publicKeys s := image_mset encode_PublicKeyInfo K))
       \<and> view s (X(ms_publicKeys s := image_mset encode_PublicKeyInfo K)) = (view s X)\<lparr>vw_keys := K\<rparr>"
    "encoded s X \<Longrightarrow> encoded s (X(ms_records s := image_mset encode_opaqueRecordDoc R))
       \<and> view s (X(ms_records s := image_mset encode_opaqueRecordDoc R)) = (view s X)\<lparr>vw_records := R\<rparr>"
    "encoded s X \<Longrightarrow> encoded s (X(ms_webauthnCreds s := image_mset encode_webauthnCredDoc C))
       \<and> view s (X(ms_webauthnCreds s := image_mset encode_webauthnCredDoc C)) = (view s X)\<lparr>vw_creds := C\<rparr>"
  by (simp_all add: s_def encoded_def view_def mongo_collections_def decoded_image)

lemma unique_by_add:
  assumes "unique_by key E" and "\<forall>x \<in># E. key x \<noteq> key e"
  shows "unique_by key (add_mset e E)"
proof -
  have "{#x \<in># E. key x = key e#} = {#}" using assms(2) by (simp add: filter_mset_eq_mempty_iff)
  with assms(1) show ?thesis by (auto simp: unique_by_def)
qed

lemma unique_by_put: "unique_by key E \<Longrightarrow> unique_by key (put_entry_mset (\<lambda>x. key x = key e) e E)"
  using put_entry_unique [of key E _ e] by (simp add: unique_by_def)

lemma unique_by_change:
  assumes "unique_by key E" and "e \<in># E" and "key e' = key e"
  shows "unique_by key (add_mset e' (E - {#e#}))"
proof -
  obtain F where F: "E = add_mset e F" using assms(2) by (meson multi_member_split)
  with assms(1,3) show ?thesis by (auto simp: unique_by_def split: if_splits)
qed

lemma unique_by_eq: "unique_by key E \<Longrightarrow> x \<in># E \<Longrightarrow> y \<in># E \<Longrightarrow> key x = key y \<Longrightarrow> x = y"
proof -
  assume u: "unique_by key E" and e: "x \<in># E" "y \<in># E" "key x = key y"
  have "size {#z \<in># E. key z = key x#} \<le> 1" using u by (simp add: unique_by_def)
  from filter_single [OF this e(1)] e(2,3) show "x = y" by (auto dest!: arg_cong [of _ _ "\<lambda>M. y \<in># M"])
qed

section \<open>What the calls of the driver leave\<close>

lemma insert_cases:
  assumes "mongo_sound lib docs uniq" and "mg_InsertOne lib c x d = (r, d')"
  obtains (done_with) "docs d' = (docs d)(c := add_mset x (docs d c))" "\<And>m. r \<noteq> Some (Duplicate_key m)" "\<not> clash (uniq d c) x (docs d c)"
  | (undone) "docs d' = docs d" "r \<noteq> None" "\<And>m. r = Some (Duplicate_key m) \<Longrightarrow> clash (uniq d c) x (docs d c)"
proof -
  have w: "inserted (uniq d c) x r (docs d c) (docs d' c)" "docs d' = (docs d)(c := docs d' c)"
    using sound_insert [OF assms] by (simp_all add: writes_def)
  have "docs d' = docs d" if "docs d' c = docs d c" using w(2) that by (metis fun_upd_triv)
  with w that show thesis by (auto simp: inserted_def Let_def split: option.splits mongo_error.splits)
qed

lemma uniq_kept:
  assumes "mongo_sound lib docs uniq"
  shows "mg_InsertOne lib c x d = (r, d') \<Longrightarrow> uniq d' = uniq d"
    "mg_UpdateOne lib c f [(''$set'', B_doc kvs)] d = (n, d') \<Longrightarrow> uniq d' = uniq d"
    "mg_ReplaceOne lib c f x d = (r, d') \<Longrightarrow> uniq d' = uniq d"
    "mg_FindOneAndUpdate lib c f [(''$inc'', B_doc [(k, B_int i)])] d = (y, d') \<Longrightarrow> uniq d' = uniq d"
  using sound_insert [OF assms, of c x d r d'] sound_update [OF assms, of c f kvs d n d'] sound_replace [OF assms, of c f x d r d']
    sound_inc [OF assms, of c f k i d y d'] by (simp_all add: writes_def)

lemma update_cases:
  assumes "mongo_sound lib docs uniq" and "mg_UpdateOne lib c f [(''$set'', B_doc kvs)] d = (n, d')"
    and "docs d c = image_mset enc E" and "\<And>e. set_fields kvs (enc e) = enc (h e)"
  obtains (done_with) e where "e \<in># E" "matches f (enc e)"
      "docs d' = (docs d)(c := image_mset enc (add_mset (h e) (E - {#e#})))" "n \<noteq> Inr 0" "\<And>k. n = Inr k \<Longrightarrow> k = 1"
  | (undone) "docs d' = docs d" "\<And>k. n = Inr k \<Longrightarrow> k = 0 \<and> (\<forall>e \<in># E. \<not> matches f (enc e))"
proof -
  have w: "updated f kvs n (docs d c) (docs d' c)" "docs d' = (docs d)(c := docs d' c)"
    using sound_update [OF assms(1,2)] by (simp_all add: writes_def)
  have same: "docs d' = docs d" if "docs d' c = docs d c" using w(2) that by (metis fun_upd_triv)
  show thesis
  proof (cases "one_changed f (\<lambda>a. Some (set_fields kvs a)) (docs d c) (docs d' c) \<and> n \<noteq> Inr 0")
    case True
    then have "one_changed f (\<lambda>a. Some (set_fields kvs a)) (image_mset enc E) (docs d' c)" by (simp add: assms(3))
    then obtain e where "e \<in># E" "matches f (enc e)" "docs d' c = image_mset enc (add_mset (h e) (E - {#e#}))"
      by (elim one_changed_image) (simp add: assms(4))
    moreover have "k = 1" if "n = Inr k" for k using w(1) that True by (auto simp: updated_def)
    ultimately show thesis using done_with [of e] w(2) True by metis
  next
    case False
    with w(1) have "docs d' c = docs d c" "\<And>k. n = Inr k \<Longrightarrow> k = 0 \<and> none_match f (docs d c)"
      by (cases n; auto simp: updated_def)+
    then show thesis using undone same by (simp add: assms(3) none_match_image)
  qed
qed

lemma replace_cases:
  assumes "mongo_sound lib docs uniq" and "mg_ReplaceOne lib c f (enc e0) d = (r, d')"
    and "docs d c = image_mset enc E" and "\<And>e. matches f (enc e) \<longleftrightarrow> P e" and "size (filter_mset P E) \<le> 1"
  obtains (done_with) "docs d' = (docs d)(c := image_mset enc (put_entry_mset P e0 E))"
  | (undone) "docs d' = docs d" "r \<noteq> None"
proof -
  have w: "replaced f (enc e0) r (docs d c) (docs d' c)" "docs d' = (docs d)(c := docs d' c)"
    using sound_replace [OF assms(1,2)] by (simp_all add: writes_def)
  have same: "docs d' = docs d" if "docs d' c = docs d c" using w(2) that by (metis fun_upd_triv)
  show thesis
  proof (cases "docs d' c = docs d c \<and> r \<noteq> None")
    case True
    then show thesis using undone same by simp
  next
    case False
    with w(1) have "docs d' c = image_mset enc (put_entry_mset P e0 E)"
      by (intro replaced_image [OF _ assms(4,5)]) (auto simp: replaced_def assms(3) Let_def split: option.splits)
    then show thesis using done_with w(2) by metis
  qed
qed

end
