(* ===== verification/Mongo_Effects.thy ===== *)
theory Mongo_Effects
  imports Mongo_Contents
begin

text \<open>
  The operations of the MongoDB store on the view of its collections. On a driver with the documented
  behaviour every operation, failed ones included, keeps the invariant and lets no counter go back, and an
  operation that answers has done exactly what its answer says; this makes the store a \<open>status_store\<close>.
\<close>

section \<open>Writing operations\<close>

text \<open>What holds after any call: the invariant, the indexes, counters that only grow.\<close>

definition kept :: "('d \<Rightarrow> contents) \<Rightarrow> ('d \<Rightarrow> collection \<Rightarrow> string list set) \<Rightarrow> MongoDBStore \<Rightarrow> 'd \<Rightarrow> 'd \<Rightarrow> bool" where
  "kept docs uniq s d d' \<longleftrightarrow> mongo_inv s (docs d') \<and> uniq d' = uniq d
     \<and> (\<forall>cat. vw_counter (view s (docs d)) cat \<le> vw_counter (view s (docs d')) cat)"

lemma view_ok_counter: "view_ok v \<Longrightarrow> \<forall>cat. vw_counter v cat \<le> n cat \<Longrightarrow> view_ok (v\<lparr>vw_counter := n\<rparr>)"
  unfolding view_ok_def by simp (meson order.strict_trans2 order_trans)

lemma view_ok_new_status:
  assumes "view_ok v" and "\<forall>e \<in># vw_statuses v. ste_Category e = cat \<longrightarrow> ste_Idx e < i" and "0 \<le> i" and "i < vw_counter v cat"
  shows "view_ok (v\<lparr>vw_statuses := add_mset \<lparr>ste_Category = cat, ste_Idx = i, ste_Status = b\<rparr> (vw_statuses v)\<rparr>)"
  using assms by (auto simp: view_ok_def intro!: unique_by_add)

lemma view_ok_set_status:
  assumes "view_ok v" and "e \<in># vw_statuses v"
  shows "view_ok (v\<lparr>vw_statuses := add_mset (e\<lparr>ste_Status := b\<rparr>) (vw_statuses v - {#e#})\<rparr>)"
proof -
  have "e' \<in># vw_statuses v" if "e' \<in># vw_statuses v - {#e#}" for e' using that by (rule in_diffD)
  with assms show ?thesis by (auto simp: view_ok_def intro!: unique_by_change)
qed

lemma AllocateIndex_effect:
  fixes db
  defines "s \<equiv> mongo_collections db"
  assumes S: "mongo_sound lib docs uniq" and I: "mongo_inv s (docs d)"
    and op: "mongo_AllocateIndex q lib s cat d = (r, d')"
  shows "kept docs uniq s d d'" and "r \<noteq> Panic"
    and "r = Ok i \<Longrightarrow> i = vw_counter (view s (docs d)) cat \<and> view s (docs d') =
      (view s (docs d))\<lparr>vw_counter := (vw_counter (view s (docs d)))(cat := i + 1),
        vw_statuses := add_mset \<lparr>ste_Category = cat, ste_Idx = i, ste_Status = StatusValid\<rparr> (vw_statuses (view s (docs d)))\<rparr>"
proof -
  let ?v = "view s (docs d)" and ?X = "docs d (ms_counters s)"
  have enc: "encoded s (docs d)" and ok: "view_ok ?v" using I by (simp_all add: mongo_inv_def)
  have wf: "wf_counters ?X" and cnt: "counter ?X = vw_counter ?v" using enc by (simp_all add: encoded_def view_def)
  obtain y d1 where y: "mg_FindOneAndUpdate lib (ms_counters s) [(''_id'', B_str cat)] [(''$inc'', B_doc [(''value'', B_int 1)])] d = (y, d1)"
    by force
  have w: "uniq d1 = uniq d" "incremented (id_filter cat) ''value'' 1 y ?X (docs d1 (ms_counters s))"
    "docs d1 = (docs d)(ms_counters s := docs d1 (ms_counters s))"
    using sound_inc [OF S y] by (simp_all add: writes_def)
  have step: "uniq d1 = uniq d \<and> encoded s (docs d1) \<and> int_field ''value'' z = Some (counter ?X cat + 1) \<and> 0 \<le> counter ?X cat
      \<and> counter ?X cat < max_int64 \<and> view s (docs d1) = ?v\<lparr>vw_counter := (vw_counter ?v)(cat := vw_counter ?v cat + 1)\<rparr>"
    if "inc_done (id_filter cat) ''value'' 1 z ?X (docs d1 (ms_counters s))" for z
    using counter_incremented [OF wf that] contents_upd(1) [of "docs d1 (ms_counters s)" db "docs d"] enc w(1) w(3) [symmetric]
    by (simp add: s_def [symmetric] cnt)
  have grown: "view_ok (?v\<lparr>vw_counter := (vw_counter ?v)(cat := vw_counter ?v cat + 1)\<rparr>)"
    by (intro view_ok_counter [OF ok]) auto
  have "kept docs uniq s d d' \<and> r \<noteq> Panic \<and> (\<forall>i. r = Ok i \<longrightarrow> i = vw_counter ?v cat \<and> view s (docs d') =
      ?v\<lparr>vw_counter := (vw_counter ?v)(cat := i + 1),
        vw_statuses := add_mset \<lparr>ste_Category = cat, ste_Idx = i, ste_Status = StatusValid\<rparr> (vw_statuses ?v)\<rparr>)"
  proof (cases y)
    case (Inl e)
    then have r: "d' = d1" "\<exists>x. r = Err x" using op y by (auto simp: mongo_AllocateIndex_def)
    have "docs d1 = docs d \<or> (\<exists>z. inc_done (id_filter cat) ''value'' 1 z ?X (docs d1 (ms_counters s)))"
      using w(2) w(3) by (auto simp: incremented_def Inl)
    with step grown r w(1) I show ?thesis by (auto simp: kept_def mongo_inv_def)
  next
    case (Inr z)
    have "inc_done (id_filter cat) ''value'' 1 z ?X (docs d1 (ms_counters s))"
      using w(2) by (simp add: Inr incremented_def)
    note st = step [OF this]
    define i where "i = vw_counter ?v cat"
    have i: "wrap64 (counter ?X cat + 1 - 1) = i" "0 \<le> i"
      using st by (auto simp: cnt i_def min_int64_def intro!: wrap64_id)
    define e where "e = \<lparr>ste_Category = cat, ste_Idx = i, ste_Status = StatusValid\<rparr>"
    obtain r2 d2 where r2: "mg_InsertOne lib (ms_statuses s) (encode_statusEntry e) d1 = (r2, d2)" by force
    have r: "d' = d2" "r = (case r2 of None \<Rightarrow> Ok i | Some x \<Rightarrow> Err (failed_to ''insert status entry'' (mongo_text x)))"
      using op y st r2 i by (auto simp: mongo_AllocateIndex_def Inr e_def Let_def split: option.splits)
    have u2: "uniq d2 = uniq d" using uniq_kept(1) [OF S r2] st by simp
    from S r2 show ?thesis
    proof (cases rule: insert_cases)
      case done_with
      have E: "docs d1 (ms_statuses s) = image_mset encode_statusEntry (vw_statuses ?v)"
        using st by (simp add: encoded_def)
      have d2: "encoded s (docs d2) \<and> view s (docs d2) = (view s (docs d1))\<lparr>vw_statuses := add_mset e (vw_statuses ?v)\<rparr>"
        using contents_upd(2) [of db "docs d1" "add_mset e (vw_statuses ?v)"] st
        by (simp add: done_with(1) E s_def [symmetric])
      have "\<forall>x \<in># vw_statuses ?v. ste_Category x = cat \<longrightarrow> ste_Idx x < i"
        using ok by (auto simp: view_ok_def i_def)
      with view_ok_new_status [OF grown, of cat i] i(2) have "view_ok (view s (docs d2))"
        using d2 st by (simp add: i_def e_def)
      with d2 st r u2 show ?thesis by (auto simp: kept_def mongo_inv_def i_def e_def split: option.splits)
    next
      case undone
      with st grown r u2 show ?thesis by (auto simp: kept_def mongo_inv_def split: option.splits)
    qed
  qed
  then show "kept docs uniq s d d'" and "r \<noteq> Panic"
    and "r = Ok i \<Longrightarrow> i = vw_counter (view s (docs d)) cat \<and> view s (docs d') =
      (view s (docs d))\<lparr>vw_counter := (vw_counter (view s (docs d)))(cat := i + 1),
        vw_statuses := add_mset \<lparr>ste_Category = cat, ste_Idx = i, ste_Status = StatusValid\<rparr> (vw_statuses (view s (docs d)))\<rparr>"
    by blast+
qed

lemma kept_same: "mongo_inv s (docs d) \<Longrightarrow> docs d' = docs d \<Longrightarrow> uniq d' = uniq d \<Longrightarrow> kept docs uniq s d d'"
  by (simp add: kept_def)

text \<open>A call that leaves the counters alone is described by the view it leaves.\<close>

lemma keptI:
  assumes "uniq d' = uniq d" and "encoded s (docs d') \<and> view s (docs d') = v" and "view_ok v"
    and "vw_counter v = vw_counter (view s (docs d))"
  shows "kept docs uniq s d d' \<and> view s (docs d') = v"
  using assms by (simp add: kept_def mongo_inv_def)

lemma SetStatus_effect:
  fixes db
  defines "s \<equiv> mongo_collections db"
  assumes S: "mongo_sound lib docs uniq" and I: "mongo_inv s (docs d)"
    and op: "mongo_SetStatus lib s cat i b d = (r, d')"
  shows "kept docs uniq s d d' \<and> r \<noteq> Panic
     \<and> (r = Ok () \<longrightarrow> (\<exists>e \<in># vw_statuses (view s (docs d)). entry_key e = (cat, i) \<and> view s (docs d') =
          (view s (docs d))\<lparr>vw_statuses := add_mset (e\<lparr>ste_Status := b\<rparr>) (vw_statuses (view s (docs d)) - {#e#})\<rparr>))
     \<and> (\<forall>x. r = Err (Index_not_found i x) \<longrightarrow> docs d' = docs d \<and> (\<forall>e \<in># vw_statuses (view s (docs d)). entry_key e \<noteq> (cat, i)))"
proof -
  let ?v = "view s (docs d)"
  have enc: "encoded s (docs d)" and ok: "view_ok ?v" using I by (simp_all add: mongo_inv_def)
  have E: "docs d (ms_statuses s) = image_mset encode_statusEntry (vw_statuses ?v)" using enc by (simp add: encoded_def)
  obtain n where n: "mg_UpdateOne lib (ms_statuses s) (entry_filter cat i) [(''$set'', B_doc [(''status'', B_int (uint b))])] d = (n, d')"
    and r: "r = (case n of Inl e \<Rightarrow> Err (failed_to ''set status'' (mongo_text e))
      | Inr k \<Rightarrow> if k = 0 then Err (Index_not_found i cat) else Ok ())"
    using op by (auto simp: mongo_SetStatus_def split: prod.splits sum.splits)
  have u: "uniq d' = uniq d" by (rule uniq_kept(2) [OF S n])
  from S n E set_status_field show ?thesis
  proof (cases rule: update_cases)
    case (done_with e)
    from done_with(1) have "kept docs uniq s d d' \<and> view s (docs d') =
        ?v\<lparr>vw_statuses := add_mset (e\<lparr>ste_Status := b\<rparr>) (vw_statuses ?v - {#e#})\<rparr>"
      using contents_upd(2) [of db "docs d" "add_mset (e\<lparr>ste_Status := b\<rparr>) (vw_statuses ?v - {#e#})"] enc done_with(3)
      by (intro keptI [OF u _ view_ok_set_status [OF ok]]) (simp_all add: s_def [symmetric])
    moreover have "entry_key e = (cat, i)" using done_with(2) by (simp add: match_simps)
    ultimately show ?thesis using done_with(1,4) r by (auto simp: failed_to_def split: sum.splits)
  next
    case undone
    with kept_same [of s docs d d' uniq, OF I] u r show ?thesis
      by (auto simp: match_simps failed_to_def split: sum.splits)
  qed
qed

lemma RecordWUA_effect:
  fixes db
  defines "s \<equiv> mongo_collections db"
  assumes S: "mongo_sound lib docs uniq" and I: "mongo_inv s (docs d)"
    and op: "mongo_RecordWUA lib s c cat i d = (r, d')"
  shows "kept docs uniq s d d' \<and> r \<noteq> Panic \<and> (r = Ok () \<longrightarrow> view s (docs d') = (view s (docs d))
     \<lparr>vw_indices := add_mset \<lparr>cie_ClientID = c, cie_Category = cat, cie_Idx = i\<rparr> (vw_indices (view s (docs d)))\<rparr>)"
proof -
  let ?v = "view s (docs d)" and ?e = "\<lparr>cie_ClientID = c, cie_Category = cat, cie_Idx = i\<rparr>"
  have enc: "encoded s (docs d)" and ok: "view_ok ?v" using I by (simp_all add: mongo_inv_def)
  have E: "docs d (ms_clientIndices s) = image_mset encode_clientIndexEntry (vw_indices ?v)" using enc by (simp add: encoded_def)
  obtain e where e: "mg_InsertOne lib (ms_clientIndices s) (encode_clientIndexEntry ?e) d = (e, d')" "r = unit_result ''record WUA'' e"
    using op by (auto simp: mongo_RecordWUA_def split: prod.splits)
  have u: "uniq d' = uniq d" by (rule uniq_kept(1) [OF S e(1)])
  from S e(1) show ?thesis
  proof (cases rule: insert_cases)
    case done_with
    have "kept docs uniq s d d' \<and> view s (docs d') = ?v\<lparr>vw_indices := add_mset ?e (vw_indices ?v)\<rparr>"
      using contents_upd(3) [of db "docs d" "add_mset ?e (vw_indices ?v)"] enc done_with(1) ok
      by (intro keptI [OF u]) (simp_all add: s_def [symmetric] E view_ok_def)
    with e(2) show ?thesis by (simp add: unit_result_def split: option.splits)
  next
    case undone
    with kept_same [of s docs d d' uniq, OF I] u e(2) show ?thesis by (auto simp: unit_result_def)
  qed
qed

lemma PutWebAuthnCredential_effect:
  fixes db
  defines "s \<equiv> mongo_collections db"
  assumes S: "mongo_sound lib docs uniq" and I: "mongo_inv s (docs d)"
    and op: "mongo_PutWebAuthnCredential lib s c ctx cred d = (r, d')"
  shows "kept docs uniq s d d' \<and> r \<noteq> Panic \<and> (r = Ok () \<longrightarrow> view s (docs d') = (view s (docs d))
     \<lparr>vw_creds := add_mset (cred_doc c ctx cred) (vw_creds (view s (docs d)))\<rparr>)"
proof -
  let ?v = "view s (docs d)" and ?e = "cred_doc c ctx cred"
  have enc: "encoded s (docs d)" and ok: "view_ok ?v" using I by (simp_all add: mongo_inv_def)
  have E: "docs d (ms_webauthnCreds s) = image_mset encode_webauthnCredDoc (vw_creds ?v)" using enc by (simp add: encoded_def)
  obtain e where e: "mg_InsertOne lib (ms_webauthnCreds s) (encode_webauthnCredDoc ?e) d = (e, d')"
    "r = unit_result ''put WebAuthn credential'' e"
    using op by (auto simp: mongo_PutWebAuthnCredential_def split: prod.splits)
  have u: "uniq d' = uniq d" by (rule uniq_kept(1) [OF S e(1)])
  from S e(1) show ?thesis
  proof (cases rule: insert_cases)
    case done_with
    have "kept docs uniq s d d' \<and> view s (docs d') = ?v\<lparr>vw_creds := add_mset ?e (vw_creds ?v)\<rparr>"
      using contents_upd(7) [of db "docs d" "add_mset ?e (vw_creds ?v)"] enc done_with(1) ok
      by (intro keptI [OF u]) (simp_all add: s_def [symmetric] E view_ok_def)
    with e(2) show ?thesis by (simp add: unit_result_def split: option.splits)
  next
    case undone
    with kept_same [of s docs d d' uniq, OF I] u e(2) show ?thesis by (auto simp: unit_result_def)
  qed
qed

lemma RecordUsage_effect:
  fixes db
  defines "s \<equiv> mongo_collections db"
  assumes S: "mongo_sound lib docs uniq" and I: "mongo_inv s (docs d)" and U: "uniq d (ms_usage s) \<subseteq> {[''category'', ''idx'']}"
    and op: "mongo_RecordUsage lib s cat i d = (r, d')"
  shows "kept docs uniq s d d' \<and> r \<noteq> Panic \<and> (r = Ok () \<longrightarrow> view s (docs d') = (view s (docs d))
     \<lparr>vw_used := \<lambda>c j. (c, j) = (cat, i) \<or> vw_used (view s (docs d)) c j\<rparr>)"
proof -
  let ?v = "view s (docs d)" and ?x = "encode_usageEntry \<lparr>ue_Category = cat, ue_Idx = i, ue_UsedAt = mg_Now lib d\<rparr>"
  let ?v' = "?v\<lparr>vw_used := \<lambda>c j. (c, j) = (cat, i) \<or> vw_used ?v c j\<rparr>"
  have enc: "encoded s (docs d)" and ok: "view_ok ?v" using I by (simp_all add: mongo_inv_def)
  obtain e where e: "mg_InsertOne lib (ms_usage s) ?x d = (e, d')"
    "r = (case e of Some (Duplicate_key m) \<Rightarrow> Ok () | _ \<Rightarrow> unit_result ''record usage'' e)"
    using op by (auto simp: mongo_RecordUsage_def split: prod.splits option.splits mongo_error.splits)
  have u: "uniq d' = uniq d" by (rule uniq_kept(1) [OF S e(1)])
  have m: "matches (entry_filter c j) ?x \<longleftrightarrow> (c, j) = (cat, i)" for c j by (auto simp: match_simps)
  have used: "vw_used ?v c j \<longleftrightarrow> \<not> none_match (entry_filter c j) (docs d (ms_usage s))" for c j by (simp add: view_def)
  from S e(1) show ?thesis
  proof (cases rule: insert_cases)
    case done_with
    have "(\<lambda>c j. \<not> none_match (entry_filter c j) (add_mset ?x (docs d (ms_usage s))))
        = (\<lambda>c j. (c, j) = (cat, i) \<or> vw_used ?v c j)"
      using m by (auto simp: fun_eq_iff none_match_def used)
    then have "kept docs uniq s d d' \<and> view s (docs d') = ?v'"
      using contents_upd(4) [of db "docs d" "add_mset ?x (docs d (ms_usage s))"] enc done_with(1) ok
      by (intro keptI [OF u]) (simp_all add: s_def [symmetric] view_ok_def)
    with e(2) done_with(2) show ?thesis by (auto simp: unit_result_def split: option.splits mongo_error.splits)
  next
    case undone
    have "vw_used ?v cat i" if "clash (uniq d (ms_usage s)) ?x (docs d (ms_usage s))"
    proof -
      from that U obtain y where y: "y \<in># docs d (ms_usage s)" "map (map_of y) [''category'', ''idx''] = map (map_of ?x) [''category'', ''idx'']"
        by (auto simp: clash_def)
      then have "matches (entry_filter cat i) y" by (simp add: matches_def entry_filter_def encode_usageEntry_def)
      with y(1) show ?thesis by (auto simp: used none_match_def)
    qed
    then have "r = Ok () \<Longrightarrow> ?v' = ?v"
      using undone(2,3) e(2) by (cases e; auto simp: unit_result_def fun_eq_iff split: mongo_error.splits intro!: store_view.equality)
    with kept_same [of s docs d d' uniq, OF I] undone(1) u e(2) show ?thesis
      by (auto simp: unit_result_def split: option.splits mongo_error.splits)
  qed
qed

lemma PutPublicKey_effect:
  fixes db
  defines "s \<equiv> mongo_collections db"
  assumes S: "mongo_sound lib docs uniq" and I: "mongo_inv s (docs d)"
    and op: "mongo_PutPublicKey lib s key d = (r, d')"
  shows "kept docs uniq s d d' \<and> r \<noteq> Panic \<and> (r = Ok () \<longrightarrow> view s (docs d') = (view s (docs d))
     \<lparr>vw_keys := put_entry_mset (\<lambda>k. pk_Kid k = pk_Kid key) key (vw_keys (view s (docs d)))\<rparr>)"
proof -
  let ?v = "view s (docs d)" and ?K = "put_entry_mset (\<lambda>k. pk_Kid k = pk_Kid key) key (vw_keys (view s (docs d)))"
  have enc: "encoded s (docs d)" and ok: "view_ok ?v" using I by (simp_all add: mongo_inv_def)
  have E: "docs d (ms_publicKeys s) = image_mset encode_PublicKeyInfo (vw_keys ?v)" using enc by (simp add: encoded_def)
  have one: "size {#k \<in># vw_keys ?v. pk_Kid k = pk_Kid key#} \<le> 1" using ok by (simp add: view_ok_def unique_by_def)
  obtain e where e: "mg_ReplaceOne lib (ms_publicKeys s) [(''kid'', B_str (pk_Kid key))] (encode_PublicKeyInfo key) d = (e, d')"
    "r = unit_result ''put public key'' e"
    using op by (auto simp: mongo_PutPublicKey_def split: prod.splits)
  have u: "uniq d' = uniq d" by (rule uniq_kept(3) [OF S e(1)])
  from S e(1) E matches_entry(5) one show ?thesis
  proof (cases rule: replace_cases)
    case done_with
    have "kept docs uniq s d d' \<and> view s (docs d') = ?v\<lparr>vw_keys := ?K\<rparr>"
      using contents_upd(5) [of db "docs d" ?K] enc done_with ok
      by (intro keptI [OF u]) (simp_all add: s_def [symmetric] view_ok_def unique_by_put)
    with e(2) show ?thesis by (simp add: unit_result_def split: option.splits)
  next
    case undone
    with kept_same [of s docs d d' uniq, OF I] u e(2) show ?thesis by (auto simp: unit_result_def)
  qed
qed

lemma PutRecord_effect:
  fixes db
  defines "s \<equiv> mongo_collections db"
  assumes S: "mongo_sound lib docs uniq" and I: "mongo_inv s (docs d)"
    and op: "mongo_PutRecord lib s c ctx b d = (r, d')"
  shows "kept docs uniq s d d' \<and> r \<noteq> Panic \<and> (r = Ok () \<longrightarrow> view s (docs d') = (view s (docs d))
     \<lparr>vw_records := put_entry_mset (\<lambda>x. record_owner x = (c, ctx)) \<lparr>ord_ClientID = c, ord_Context = ctx, ord_Record = b\<rparr>
        (vw_records (view s (docs d)))\<rparr>)"
proof -
  let ?v = "view s (docs d)" and ?e = "\<lparr>ord_ClientID = c, ord_Context = ctx, ord_Record = b\<rparr>"
  let ?R = "put_entry_mset (\<lambda>x. record_owner x = (c, ctx)) ?e (vw_records ?v)"
  have enc: "encoded s (docs d)" and ok: "view_ok ?v" using I by (simp_all add: mongo_inv_def)
  have E: "docs d (ms_records s) = image_mset encode_opaqueRecordDoc (vw_records ?v)" using enc by (simp add: encoded_def)
  have one: "size {#x \<in># vw_records ?v. record_owner x = (c, ctx)#} \<le> 1" using ok unfolding view_ok_def unique_by_def by blast
  have m: "matches (owner_filter c ctx) (encode_opaqueRecordDoc x) \<longleftrightarrow> record_owner x = (c, ctx)" for x by (simp add: match_simps)
  obtain e where e: "mg_ReplaceOne lib (ms_records s) (owner_filter c ctx) (encode_opaqueRecordDoc ?e) d = (e, d')"
    "r = unit_result ''put record'' e"
    using op by (auto simp: mongo_PutRecord_def split: prod.splits)
  have u: "uniq d' = uniq d" by (rule uniq_kept(3) [OF S e(1)])
  from S e(1) E m one show ?thesis
  proof (cases rule: replace_cases)
    case done_with
    have "unique_by (\<lambda>x. record_owner x) ?R"
      using unique_by_put [of "\<lambda>x. record_owner x" "vw_records ?v" ?e] ok by (simp add: view_ok_def)
    then have "kept docs uniq s d d' \<and> view s (docs d') = ?v\<lparr>vw_records := ?R\<rparr>"
      using contents_upd(6) [of db "docs d" ?R] enc done_with ok
      by (intro keptI [OF u]) (simp_all add: s_def [symmetric] view_ok_def)
    with e(2) show ?thesis by (simp add: unit_result_def split: option.splits)
  next
    case undone
    with kept_same [of s docs d d' uniq, OF I] u e(2) show ?thesis by (auto simp: unit_result_def)
  qed
qed

lemma UpdateSignCount_effect:
  fixes db
  defines "s \<equiv> mongo_collections db"
  assumes S: "mongo_sound lib docs uniq" and I: "mongo_inv s (docs d)"
    and op: "mongo_UpdateWebAuthnSignCount lib s c ctx cid k d = (r, d')"
  shows "kept docs uniq s d d' \<and> r \<noteq> Panic
     \<and> (r = Ok () \<longrightarrow> (\<exists>w \<in># vw_creds (view s (docs d)). wd_ClientID w = c \<and> wd_Context w = ctx \<and> wd_CredentialID w = cid
          \<and> view s (docs d') = (view s (docs d))\<lparr>vw_creds := add_mset (w\<lparr>wd_SignCount := k\<rparr>) (vw_creds (view s (docs d)) - {#w#})\<rparr>))
     \<and> (r = Err Credential_not_found \<longrightarrow> docs d' = docs d
          \<and> (\<forall>w \<in># vw_creds (view s (docs d)). \<not> (wd_ClientID w = c \<and> wd_Context w = ctx \<and> wd_CredentialID w = cid)))"
proof -
  let ?v = "view s (docs d)"
  have enc: "encoded s (docs d)" and ok: "view_ok ?v" using I by (simp_all add: mongo_inv_def)
  have E: "docs d (ms_webauthnCreds s) = image_mset encode_webauthnCredDoc (vw_creds ?v)" using enc by (simp add: encoded_def)
  obtain n where n: "mg_UpdateOne lib (ms_webauthnCreds s) (owner_filter c ctx @ [(''credential_id'', B_bin cid)])
      [(''$set'', B_doc [(''sign_count'', B_int (uint k))])] d = (n, d')"
    and r: "r = (case n of Inl e \<Rightarrow> Err (failed_to ''update WebAuthn sign count'' (mongo_text e))
      | Inr j \<Rightarrow> if j = 0 then Err Credential_not_found else Ok ())"
    using op by (auto simp: mongo_UpdateWebAuthnSignCount_def split: prod.splits sum.splits)
  have u: "uniq d' = uniq d" by (rule uniq_kept(2) [OF S n])
  from S n E set_sign_count_field show ?thesis
  proof (cases rule: update_cases)
    case (done_with w)
    have "kept docs uniq s d d' \<and> view s (docs d') = ?v\<lparr>vw_creds := add_mset (w\<lparr>wd_SignCount := k\<rparr>) (vw_creds ?v - {#w#})\<rparr>"
      using contents_upd(7) [of db "docs d" "add_mset (w\<lparr>wd_SignCount := k\<rparr>) (vw_creds ?v - {#w#})"] enc done_with(3) ok
      by (intro keptI [OF u]) (simp_all add: s_def [symmetric] view_ok_def)
    with done_with(1,2,4) r show ?thesis by (auto simp: match_simps failed_to_def split: sum.splits)
  next
    case undone
    with kept_same [of s docs d d' uniq, OF I] u r show ?thesis
      by (auto simp: match_simps failed_to_def split: sum.splits)
  qed
qed

section \<open>Reading operations\<close>

text \<open>A call is answered when it does not report a failure of the backend.\<close>

definition answered :: "(store_error, 'a) res \<Rightarrow> bool" where
  "answered r \<longleftrightarrow> (\<forall>m. r \<noteq> Err (Backend_error m))"

definition view_entry :: "store_view \<Rightarrow> string \<Rightarrow> int \<Rightarrow> byte option" where
  "view_entry v cat i =
     (if \<exists>e \<in># vw_statuses v. entry_key e = (cat, i)
      then Some (THE b. \<lparr>ste_Category = cat, ste_Idx = i, ste_Status = b\<rparr> \<in># vw_statuses v) else None)"

definition view_owned :: "store_view \<Rightarrow> string \<Rightarrow> string \<Rightarrow> int multiset" where
  "view_owned v c cat = image_mset cie_Idx {#e \<in># vw_indices v. cie_ClientID e = c \<and> cie_Category e = cat#}"

lemma entry_eta: "entry_key e = (cat, i) \<Longrightarrow> \<lparr>ste_Category = cat, ste_Idx = i, ste_Status = ste_Status e\<rparr> = e"
  by (cases e) simp

lemma view_entry_Some:
  assumes "view_ok v" and "e \<in># vw_statuses v" and "entry_key e = (cat, i)"
  shows "view_entry v cat i = Some (ste_Status e)"
proof -
  have u: "unique_by (\<lambda>e. entry_key e) (vw_statuses v)" using assms(1) by (simp add: view_ok_def)
  have "(THE b. \<lparr>ste_Category = cat, ste_Idx = i, ste_Status = b\<rparr> \<in># vw_statuses v) = ste_Status e"
  proof (rule the_equality)
    show "\<lparr>ste_Category = cat, ste_Idx = i, ste_Status = ste_Status e\<rparr> \<in># vw_statuses v"
      using assms(2) by (simp only: entry_eta [OF assms(3)])
  next
    fix b
    assume "\<lparr>ste_Category = cat, ste_Idx = i, ste_Status = b\<rparr> \<in># vw_statuses v"
    from unique_by_eq [OF u this assms(2)] assms(3) show "b = ste_Status e" by auto
  qed
  with assms(2,3) show ?thesis by (auto simp: view_entry_def)
qed

lemma view_entry_iff:
  assumes "view_ok v"
  shows "view_entry v cat i = Some b \<longleftrightarrow> \<lparr>ste_Category = cat, ste_Idx = i, ste_Status = b\<rparr> \<in># vw_statuses v"
proof
  assume e: "view_entry v cat i = Some b"
  then obtain x where x: "x \<in># vw_statuses v" "entry_key x = (cat, i)" by (auto simp: view_entry_def split: if_splits)
  from view_entry_Some [OF assms x] e x(1) entry_eta [OF x(2)] show "\<lparr>ste_Category = cat, ste_Idx = i, ste_Status = b\<rparr> \<in># vw_statuses v" by simp
next
  assume "\<lparr>ste_Category = cat, ste_Idx = i, ste_Status = b\<rparr> \<in># vw_statuses v"
  from view_entry_Some [OF assms this] show "view_entry v cat i = Some b" by simp
qed

lemma view_entry_None: "view_entry v cat i = None \<longleftrightarrow> (\<forall>e \<in># vw_statuses v. entry_key e \<noteq> (cat, i))"
  by (auto simp: view_entry_def)

lemma find_encoded:
  assumes "mongo_sound lib docs uniq" and "mg_Find lib c f d = Inr (xs, None)" and "docs d c = image_mset enc E"
    and "\<And>e. matches f (enc e) \<longleftrightarrow> P e" and "\<And>e. dec (enc e) = Some e"
  obtains es where "xs = map enc es" "mset es = filter_mset P E"
proof -
  have m: "mset xs = image_mset enc (filter_mset P E)"
    using sound_find [OF assms(1,2)] by (simp add: assms(3,4) filter_mset_image_mset)
  have enc: "enc (the (dec x)) = x" if "x \<in> set xs" for x
  proof -
    have "x \<in># image_mset enc (filter_mset P E)" using that m [symmetric] by simp
    then show ?thesis using assms(5) by auto
  qed
  have "mset (map (\<lambda>x. the (dec x)) xs) = filter_mset P E"
    using decoded_image [of dec enc "filter_mset P E"] assms(5) by (simp add: m)
  moreover have "xs = map enc (map (\<lambda>x. the (dec x)) xs)" using enc by (simp add: map_idI)
  ultimately show thesis using that by blast
qed

lemma find_one_encoded:
  assumes "mongo_sound lib docs uniq" and "docs d c = image_mset enc E" and "\<And>e. matches f (enc e) \<longleftrightarrow> P e"
  shows "mg_FindOne lib c f d = Inr x \<Longrightarrow> \<exists>e \<in># E. P e \<and> x = enc e"
    and "mg_FindOne lib c f d = Inl No_documents \<Longrightarrow> \<forall>e \<in># E. \<not> P e"
  using sound_find_one [OF assms(1), of c f d x] sound_find_none [OF assms(1), of c f d]
  by (auto simp: assms(2,3) none_match_image)

lemma find_one_cases:
  assumes "answered r"
    and "r = (case mg_FindOne lib c f d of Inl No_documents \<Rightarrow> a | Inl e \<Rightarrow> Err (failed_to what (mongo_text e)) | Inr x \<Rightarrow> g x)"
  obtains "mg_FindOne lib c f d = Inl No_documents" "r = a" | x where "mg_FindOne lib c f d = Inr x" "r = g x"
  using assms by (auto simp: answered_def failed_to_def split: sum.splits mongo_error.splits)

lemma status_loop_encoded:
  "status_loop lib (map encode_statusEntry es) acc = Ok (fold (\<lambda>e. AList.update (ste_Idx e) (ste_Status e)) es acc)"
  by (induction es arbitrary: acc) auto

lemma fold_update_distinct: "distinct (map fst acc) \<Longrightarrow> distinct (map fst (fold (\<lambda>e. AList.update (k e) (v e)) es acc))"
  by (induction es arbitrary: acc) (auto simp: AList.distinct_update)

lemma map_of_fold_update:
  "map_of (fold (\<lambda>e. AList.update (k e) (v e)) es acc) = map_of acc ++ map_of (map (\<lambda>e. (k e, v e)) (rev es))"
  by (induction es arbitrary: acc) (auto simp: update_conv' map_add_def fun_eq_iff split: option.splits)

lemma index_loop_encoded: "index_loop lib (map encode_clientIndexEntry es) acc = Ok (acc @ map cie_Idx es)"
  by (induction es arbitrary: acc) auto

lemma cursor_end_answered: "answered (cursor_end e r) \<longleftrightarrow> e = None"
  by (auto simp: cursor_end_def answered_def split: option.splits)

lemma cursor_All_encoded:
  assumes "\<And>e. dec (enc e) = Some e"
  shows "cursor_All lib dec (map enc es, None) = Inr es"
proof -
  have "find (\<lambda>x. dec x = None) (map enc es) = None" using assms by (induction es) auto
  then show ?thesis using assms by (simp add: cursor_All_def comp_def)
qed

lemma loops_answered:
  "answered (res_bind (status_loop lib xs acc) (cursor_end e)) \<Longrightarrow> e = None"
  "answered (res_bind (index_loop lib xs acc') (cursor_end e)) \<Longrightarrow> e = None"
  by (induction xs arbitrary: acc acc') (auto simp: cursor_end_answered, auto simp: answered_def failed_to_def split: option.splits)

lemma GetStatus_answer:
  assumes "mongo_sound lib docs uniq" and "mongo_inv s (docs d)" and "answered (mongo_GetStatus lib s cat i d)"
  shows "mongo_GetStatus lib s cat i d =
     (case view_entry (view s (docs d)) cat i of None \<Rightarrow> Err (Index_not_found i cat) | Some b \<Rightarrow> Ok b)"
proof -
  have ok: "view_ok (view s (docs d))"
    and E: "docs d (ms_statuses s) = image_mset encode_statusEntry (vw_statuses (view s (docs d)))"
    using assms(2) by (simp_all add: mongo_inv_def encoded_def)
  have m: "matches (entry_filter cat i) (encode_statusEntry e) \<longleftrightarrow> entry_key e = (cat, i)" for e by (simp add: match_simps)
  note f = find_one_encoded [OF assms(1) E m]
  show ?thesis
  proof (cases rule: find_one_cases [OF assms(3) mongo_GetStatus_def, case_names 1 2])
    case 1
    with f(2) have "view_entry (view s (docs d)) cat i = None" by (simp add: view_entry_None)
    with 1 show ?thesis by simp
  next
    case (2 x)
    with f(1) obtain e where "e \<in># vw_statuses (view s (docs d))" "entry_key e = (cat, i)" "x = encode_statusEntry e" by blast
    with 2 view_entry_Some [OF ok this(1,2)] show ?thesis by simp
  qed
qed

lemma GetAllStatuses_answer:
  assumes "mongo_sound lib docs uniq" and "mongo_inv s (docs d)" and "answered (mongo_GetAllStatuses lib s cat d)"
  shows "\<exists>es. mongo_GetAllStatuses lib s cat d = Ok es \<and> distinct (map fst es) \<and> map_of es = view_entry (view s (docs d)) cat"
proof -
  let ?v = "view s (docs d)"
  have ok: "view_ok ?v" and E: "docs d (ms_statuses s) = image_mset encode_statusEntry (vw_statuses ?v)"
    using assms(2) by (simp_all add: mongo_inv_def encoded_def)
  obtain xs where xs: "mg_Find lib (ms_statuses s) [(''category'', B_str cat)] d = Inr (xs, None)"
    using assms(3) loops_answered(1) [of lib _ "[]"]
    by (auto simp: mongo_GetAllStatuses_def answered_def failed_to_def split: sum.splits)
  obtain es where es: "xs = map encode_statusEntry es" "mset es = {#e \<in># vw_statuses ?v. ste_Category e = cat#}"
    using find_encoded [OF assms(1) xs E matches_entry(2) decode_encode(1)] .
  define al where "al = fold (\<lambda>e. AList.update (ste_Idx e) (ste_Status e)) es []"
  have r: "mongo_GetAllStatuses lib s cat d = Ok al"
    by (simp add: mongo_GetAllStatuses_def xs es(1) status_loop_encoded cursor_end_def al_def)
  have mem: "e \<in> set es \<longleftrightarrow> e \<in># vw_statuses ?v \<and> ste_Category e = cat" for e
    using es(2) by (metis (mono_tags, lifting) mem_Collect_eq set_mset_filter set_mset_mset)
  have "map_of al i = view_entry ?v cat i" for i
  proof (cases "map_of (map (\<lambda>e. (ste_Idx e, ste_Status e)) (rev es)) i")
    case None
    then have "view_entry ?v cat i = None" by (auto simp: view_entry_None map_of_eq_None_iff mem image_iff)
    with None show ?thesis by (simp add: al_def map_of_fold_update)
  next
    case (Some b)
    from map_of_SomeD [OF this] obtain e where "e \<in># vw_statuses ?v" "entry_key e = (cat, i)" "b = ste_Status e"
      by (auto simp: mem)
    with view_entry_Some [OF ok this(1,2)] Some show ?thesis by (simp add: al_def map_of_fold_update)
  qed
  then have "map_of al = view_entry ?v cat" by blast
  moreover have "distinct (map fst al)" by (simp add: al_def fold_update_distinct)
  ultimately show ?thesis using r by blast
qed

lemma GetClientIndices_answer:
  assumes "mongo_sound lib docs uniq" and "mongo_inv s (docs d)" and "answered (mongo_GetClientIndices lib s c cat d)"
  shows "\<exists>is. mongo_GetClientIndices lib s c cat d = Ok is \<and> mset is = view_owned (view s (docs d)) c cat"
proof -
  have E: "docs d (ms_clientIndices s) = image_mset encode_clientIndexEntry (vw_indices (view s (docs d)))"
    using assms(2) by (simp add: mongo_inv_def encoded_def)
  obtain xs where xs: "mg_Find lib (ms_clientIndices s) [(''client_id'', B_str c), (''category'', B_str cat)] d = Inr (xs, None)"
    using assms(3) loops_answered(2) [of lib _ "[]"]
    by (auto simp: mongo_GetClientIndices_def answered_def failed_to_def split: sum.splits)
  obtain es where "xs = map encode_clientIndexEntry es"
    "mset es = {#e \<in># vw_indices (view s (docs d)). cie_ClientID e = c \<and> cie_Category e = cat#}"
    using find_encoded [OF assms(1) xs E matches_entry(4) decode_encode(2)] .
  with xs show ?thesis
    by (intro exI [of _ "map cie_Idx es"]) (simp add: mongo_GetClientIndices_def index_loop_encoded cursor_end_def view_owned_def)
qed

lemma IsUsed_answer:
  assumes "mongo_sound lib docs uniq" and "answered (mongo_IsUsed lib s cat i d)"
  shows "mongo_IsUsed lib s cat i d = Ok (vw_used (view s (docs d)) cat i)"
proof (cases rule: find_one_cases [OF assms(2) mongo_IsUsed_def, case_names 1 2])
  case 1
  with sound_find_none [OF assms(1) 1(1)] show ?thesis by (simp add: view_def)
next
  case (2 x)
  with sound_find_one [OF assms(1) 2(1)] show ?thesis by (auto simp: view_def none_match_def)
qed

lemma GetPublicKey_answer:
  assumes "mongo_sound lib docs uniq" and "mongo_inv s (docs d)" and "answered (mongo_GetPublicKey lib s kid d)"
  shows "(\<exists>k \<in># vw_keys (view s (docs d)). pk_Kid k = kid \<and> mongo_GetPublicKey lib s kid d = Ok k)
     \<or> (\<forall>k \<in># vw_keys (view s (docs d)). pk_Kid k \<noteq> kid) \<and> mongo_GetPublicKey lib s kid d = Err (Key_not_found kid)"
proof -
  have E: "docs d (ms_publicKeys s) = image_mset encode_PublicKeyInfo (vw_keys (view s (docs d)))"
    using assms(2) by (simp add: mongo_inv_def encoded_def)
  note f = find_one_encoded [OF assms(1) E matches_entry(5), of kid]
  show ?thesis
  proof (cases rule: find_one_cases [OF assms(3) mongo_GetPublicKey_def, case_names 1 2])
    case 1
    with f(2) show ?thesis by auto
  next
    case (2 x)
    with f(1) show ?thesis by fastforce
  qed
qed

lemma ListPublicKeys_answer:
  assumes "mongo_sound lib docs uniq" and "mongo_inv s (docs d)" and "answered (mongo_ListPublicKeys lib s c d)"
  shows "\<exists>ks. mongo_ListPublicKeys lib s c d = Ok ks \<and> mset ks = {#k \<in># vw_keys (view s (docs d)). c = [] \<or> pk_ClientID k = c#}"
proof -
  let ?f = "if c \<noteq> [] then [(''client_id'', B_str c)] else []"
  have E: "docs d (ms_publicKeys s) = image_mset encode_PublicKeyInfo (vw_keys (view s (docs d)))"
    using assms(2) by (simp add: mongo_inv_def encoded_def)
  have m: "matches ?f (encode_PublicKeyInfo k) \<longleftrightarrow> c = [] \<or> pk_ClientID k = c" for k by (simp add: match_simps)
  obtain xs where xs: "mg_Find lib (ms_publicKeys s) ?f d = Inr (xs, None)"
    using assms(3) by (fastforce simp: mongo_ListPublicKeys_def answered_def failed_to_def cursor_All_def split: sum.splits option.splits)
  obtain ks where "xs = map encode_PublicKeyInfo ks" "mset ks = {#k \<in># vw_keys (view s (docs d)). c = [] \<or> pk_ClientID k = c#}"
    using find_encoded [OF assms(1) xs E m decode_encode(3)] .
  with xs show ?thesis by (simp add: mongo_ListPublicKeys_def cursor_All_encoded)
qed

lemma GetRecord_answer:
  assumes "mongo_sound lib docs uniq" and "mongo_inv s (docs d)" and "answered (mongo_GetRecord lib s c ctx d)"
  shows "(\<exists>x \<in># vw_records (view s (docs d)). record_owner x = (c, ctx) \<and> mongo_GetRecord lib s c ctx d = Ok (ord_Record x))
     \<or> (\<forall>x \<in># vw_records (view s (docs d)). record_owner x \<noteq> (c, ctx)) \<and> mongo_GetRecord lib s c ctx d = Err (No_record c ctx)"
proof -
  have E: "docs d (ms_records s) = image_mset encode_opaqueRecordDoc (vw_records (view s (docs d)))"
    using assms(2) by (simp add: mongo_inv_def encoded_def)
  have m: "matches (owner_filter c ctx) (encode_opaqueRecordDoc x) \<longleftrightarrow> record_owner x = (c, ctx)" for x by (simp add: match_simps)
  note f = find_one_encoded [OF assms(1) E m]
  show ?thesis
  proof (cases rule: find_one_cases [OF assms(3) mongo_GetRecord_def, case_names 1 2])
    case 1
    with f(2) show ?thesis by auto
  next
    case (2 x)
    with f(1) show ?thesis by fastforce
  qed
qed

lemma GetWebAuthnCredential_answer:
  assumes "mongo_sound lib docs uniq" and "mongo_inv s (docs d)" and "answered (mongo_GetWebAuthnCredential lib s c ctx d)"
  shows "\<exists>ws. mset ws = {#w \<in># vw_creds (view s (docs d)). wd_ClientID w = c \<and> wd_Context w = ctx#}
     \<and> mongo_GetWebAuthnCredential lib s c ctx d = (if ws = [] then Err (No_webauthn_credentials c ctx) else Ok (map doc_cred ws))"
proof -
  have E: "docs d (ms_webauthnCreds s) = image_mset encode_webauthnCredDoc (vw_creds (view s (docs d)))"
    using assms(2) by (simp add: mongo_inv_def encoded_def)
  obtain xs where xs: "mg_Find lib (ms_webauthnCreds s) (owner_filter c ctx) d = Inr (xs, None)"
    using assms(3)
    by (fastforce simp: mongo_GetWebAuthnCredential_def answered_def failed_to_def cursor_All_def split: sum.splits option.splits)
  obtain ws where "xs = map encode_webauthnCredDoc ws"
    "mset ws = {#w \<in># vw_creds (view s (docs d)). wd_ClientID w = c \<and> wd_Context w = ctx#}"
    using find_encoded [OF assms(1) xs E matches_entry(8) decode_encode(5)] .
  with xs show ?thesis by (auto simp: mongo_GetWebAuthnCredential_def cursor_All_encoded)
qed

end
