(* ===== verification/Mongo_Refines.thy ===== *)
theory Mongo_Refines
  imports Mongo_Effects
begin

text \<open>
  The MongoDB store against the contract of a status store and against the in-memory store: with the
  documented driver it is a \<open>status_store\<close>, with a reachable database one whose statuses can always be read and
  set, and then every sequence of calls gets the answers of the in-memory store.
\<close>

section \<open>The contract\<close>

text \<open>The calls of the store with the identities of its database.\<close>

abbreviation (input) "mongo_entry docs s \<equiv> \<lambda>d. view_entry (view s (docs d))"
abbreviation (input) "mongo_owned docs s \<equiv> \<lambda>d c k. sorted_list_of_multiset (view_owned (view s (docs d)) c k)"

lemma option_eqI: "(\<And>b. x = Some b \<longleftrightarrow> y = Some b) \<Longrightarrow> x = y"
  by (cases x; cases y) auto

lemma view_entry_new:
  assumes "view_ok v" and "view_ok v'"
    and "vw_statuses v' = add_mset \<lparr>ste_Category = cat, ste_Idx = i, ste_Status = b\<rparr> (vw_statuses v)"
  shows "view_entry v cat i = None" and "view_entry v' = (view_entry v)(cat := (view_entry v cat)(i \<mapsto> b))"
proof -
  have "\<forall>e \<in># vw_statuses v. entry_key e \<noteq> (cat, i)"
  proof
    fix e assume e: "e \<in># vw_statuses v"
    have u: "size {#x \<in># vw_statuses v'. entry_key x = (cat, i)#} \<le> 1"
      using assms(2) unfolding view_ok_def unique_by_def by blast
    then have "{#x \<in># vw_statuses v. entry_key x = (cat, i)#} = {#}" by (simp add: assms(3))
    with e show "entry_key e \<noteq> (cat, i)" by (auto simp: filter_mset_eq_mempty_iff)
  qed
  then show n: "view_entry v cat i = None" by (simp add: view_entry_None)
  have "view_entry v' c j = ((view_entry v)(cat := (view_entry v cat)(i \<mapsto> b))) c j" for c j
    using n by (intro option_eqI)
      (auto simp: view_entry_iff [OF assms(1)] view_entry_iff [OF assms(2)] view_entry_None assms(3))
  then show "view_entry v' = (view_entry v)(cat := (view_entry v cat)(i \<mapsto> b))" by blast
qed

lemma unique_by_sub: "unique_by key (add_mset e E) \<Longrightarrow> unique_by key E"
  unfolding unique_by_def by (metis (mono_tags, lifting) filter_mset_add_mset le_SucI le_trans order_refl size_add_mset)

lemma view_entry_set:
  assumes "view_ok v" and "view_ok v'" and "e \<in># vw_statuses v" and "entry_key e = (cat, i)"
    and "vw_statuses v' = add_mset (e\<lparr>ste_Status := b\<rparr>) (vw_statuses v - {#e#})"
  shows "view_entry v' = (view_entry v)(cat := (view_entry v cat)(i \<mapsto> b))"
proof -
  obtain E where E: "vw_statuses v = add_mset e E" using assms(3) by (meson multi_member_split)
  define w where "w = v\<lparr>vw_statuses := E\<rparr>"
  have e: "e = \<lparr>ste_Category = cat, ste_Idx = i, ste_Status = ste_Status e\<rparr>" using entry_eta [OF assms(4)] by simp
  have "unique_by (\<lambda>e. entry_key e) E"
    using assms(1) unique_by_sub by (force simp: view_ok_def E)
  then have w: "view_ok w" using assms(1) by (auto simp: view_ok_def w_def E)
  have 1: "view_entry v = (view_entry w)(cat := (view_entry w cat)(i \<mapsto> ste_Status e))"
    using view_entry_new(2) [OF w assms(1)] e by (simp add: w_def E)
  have 2: "view_entry v' = (view_entry w)(cat := (view_entry w cat)(i \<mapsto> b))"
    using view_entry_new(2) [OF w assms(2), of cat i b] assms(4) by (cases e) (simp add: w_def assms(5) E)
  show ?thesis by (simp add: 1 2)
qed

lemma mongo_status_store:
  fixes db
  defines "s \<equiv> mongo_collections db"
  assumes S: "mongo_sound lib docs uniq"
  shows "status_store (mongo_ops q lib s) (\<lambda>d. mongo_inv s (docs d) \<and> P (uniq d)) (mongo_entry docs s) (mongo_owned docs s) cats"
proof (unfold_locales, goal_cases)
  case (1 d cat i d')
  then have op: "mongo_AllocateIndex q lib s cat d = (Ok i, d')" by (simp add: mongo_ops_def)
  note e = AllocateIndex_effect [OF S conjunct1 [OF 1(1), unfolded s_def] op [unfolded s_def], folded s_def]
  let ?v = "view s (docs d)" and ?v' = "view s (docs d')"
  have ok: "view_ok ?v" "view_ok ?v'" and v': "i = vw_counter ?v cat"
    "?v' = ?v\<lparr>vw_counter := (vw_counter ?v)(cat := i + 1),
        vw_statuses := add_mset \<lparr>ste_Category = cat, ste_Idx = i, ste_Status = StatusValid\<rparr> (vw_statuses ?v)\<rparr>"
    using e(1) e(3) [OF refl] conjunct1 [OF 1(1)] by (auto simp: kept_def mongo_inv_def)
  have "vw_statuses ?v' = add_mset \<lparr>ste_Category = cat, ste_Idx = i, ste_Status = StatusValid\<rparr> (vw_statuses ?v)"
    "view_owned ?v' = view_owned ?v" by (subst v'(2), simp add: view_owned_def fun_eq_iff)+
  moreover have "0 \<le> i" using ok(1) v'(1) by (simp add: view_ok_def)
  ultimately show ?case using view_entry_new [OF ok] e(1) 1(1) by (simp add: kept_def)
next
  case (2 d cat i b d')
  then have op: "mongo_SetStatus lib s cat i b d = (Ok (), d')" by (simp add: mongo_ops_def)
  let ?v = "view s (docs d)" and ?v' = "view s (docs d')"
  obtain e where k: "kept docs uniq s d d'" and e: "e \<in># vw_statuses ?v" "entry_key e = (cat, i)"
    and v': "?v' = ?v\<lparr>vw_statuses := add_mset (e\<lparr>ste_Status := b\<rparr>) (vw_statuses ?v - {#e#})\<rparr>"
    using SetStatus_effect [OF S conjunct1 [OF 2(1), unfolded s_def] op [unfolded s_def], folded s_def] by blast
  have ok: "view_ok ?v" "view_ok ?v'" using k 2(1) by (simp_all add: kept_def mongo_inv_def)
  have "vw_statuses ?v' = add_mset (e\<lparr>ste_Status := b\<rparr>) (vw_statuses ?v - {#e#})" "view_owned ?v' = view_owned ?v"
    by (subst v', simp add: view_owned_def fun_eq_iff)+
  then show ?case using view_entry_set [OF ok e] view_entry_Some [OF ok(1) e] k 2(1) by (simp add: kept_def)
next
  case (3 d cat c i d')
  then have op: "mongo_RecordWUA lib s c cat i d = (Ok (), d')" by (simp add: mongo_ops_def)
  let ?v = "view s (docs d)" and ?v' = "view s (docs d')"
  have k: "kept docs uniq s d d'"
    and v': "?v' = ?v\<lparr>vw_indices := add_mset \<lparr>cie_ClientID = c, cie_Category = cat, cie_Idx = i\<rparr> (vw_indices ?v)\<rparr>"
    using RecordWUA_effect [OF S conjunct1 [OF 3(1), unfolded s_def] op [unfolded s_def], folded s_def] by blast+
  have "view_entry ?v' = view_entry ?v" by (subst v', simp add: view_entry_def fun_eq_iff)
  moreover have "view_owned ?v' c' k = (if c' = c \<and> k = cat then add_mset i (view_owned ?v c cat) else view_owned ?v c' k)" for c' k
    by (subst v', simp add: view_owned_def)
  ultimately show ?case using k 3(1) by (simp add: kept_def)
next
  case (4 d c cat "is")
  then show ?case
    using GetClientIndices_answer [OF S, of s d c cat] by (simp add: mongo_ops_def answered_def)
next
  case (5 d cat i b)
  then show ?case
    using GetStatus_answer [OF S, of s d cat i] by (simp add: mongo_ops_def answered_def split: option.splits)
next
  case (6 d cat es)
  then have es: "distinct (map fst es)" "map_of es = view_entry (view s (docs d)) cat"
    using GetAllStatuses_answer [OF S, of s d cat] by (auto simp: mongo_ops_def answered_def)
  have "0 \<le> i" if "(i, b) \<in> set es" for i b
  proof -
    have "view_entry (view s (docs d)) cat i = Some b" using es that by (metis map_of_eq_Some_iff)
    then show ?thesis using 6(1) by (auto simp: view_entry_iff mongo_inv_def view_ok_def)
  qed
  with es show ?case by blast
qed

section \<open>A reachable database\<close>

text \<open>The unique indexes that do not get in the way: none but those the store creates.\<close>

definition indexes_ok :: "MongoDBStore \<Rightarrow> (collection \<Rightarrow> string list set) \<Rightarrow> bool" where
  "indexes_ok s U \<longleftrightarrow> U (ms_counters s) = {} \<and> U (ms_statuses s) \<subseteq> {[''category'', ''idx'']} \<and> U (ms_clientIndices s) = {}
     \<and> U (ms_usage s) \<subseteq> {[''category'', ''idx'']} \<and> U (ms_publicKeys s) \<subseteq> {[''kid'']}
     \<and> U (ms_records s) \<subseteq> {[''client_id'', ''context'']} \<and> U (ms_webauthnCreds s) = {}"

lemma healthy:
  assumes "mongo_healthy lib docs uniq"
  shows healthy_sound: "mongo_sound lib docs uniq"
    and healthy_insert: "\<not> clash (uniq d c) x (docs d c) \<Longrightarrow> fst (mg_InsertOne lib c x d) = None"
    and healthy_insert_error: "fst (mg_InsertOne lib c x d) = Some e \<Longrightarrow> \<exists>m. e = Duplicate_key m"
    and healthy_update: "\<forall>ks \<in> uniq d c. set ks \<inter> fst ` set kvs = {} \<Longrightarrow> \<exists>n. fst (mg_UpdateOne lib c f [(''$set'', B_doc kvs)] d) = Inr n"
    and healthy_replace: "none_match f (docs d c) \<longrightarrow> \<not> clash (uniq d c) x (docs d c) \<Longrightarrow>
      \<forall>a \<in># docs d c. matches f a \<longrightarrow> \<not> clash (uniq d c) x (docs d c - {#a#}) \<Longrightarrow> fst (mg_ReplaceOne lib c f x d) = None"
    and healthy_inc: "uniq d c = {} \<Longrightarrow> \<forall>a \<in># docs d c. matches f a \<longrightarrow> inc_field k n a \<noteq> None \<Longrightarrow>
      \<exists>y. fst (mg_FindOneAndUpdate lib c f [(''$inc'', B_doc [(k, B_int n)])] d) = Inr y"
    and healthy_find_one: "mg_FindOne lib c f d = Inl e \<Longrightarrow> e = No_documents"
    and healthy_find: "\<exists>xs. mg_Find lib c f d = Inr (xs, None)"
  using assms unfolding mongo_healthy_def by (elim conjE; metis)+

lemma healthy_answered:
  assumes "mongo_healthy lib docs uniq" and I: "mongo_inv s (docs d)"
  shows "answered (mongo_GetStatus lib s cat i d)" "answered (mongo_GetAllStatuses lib s cat d)"
    "answered (mongo_GetClientIndices lib s c cat d)" "answered (mongo_IsUsed lib s cat i d)"
    "answered (mongo_GetPublicKey lib s kid d)" "answered (mongo_ListPublicKeys lib s c d)"
    "answered (mongo_GetRecord lib s c ctx d)" "answered (mongo_GetWebAuthnCredential lib s c ctx d)"
proof -
  note S = healthy_sound [OF assms(1)] and F1 = healthy_find_one [OF assms(1)] and F = healthy_find [OF assms(1)]
  let ?v = "view s (docs d)"
  have E: "docs d (ms_statuses s) = image_mset encode_statusEntry (vw_statuses ?v)"
    "docs d (ms_clientIndices s) = image_mset encode_clientIndexEntry (vw_indices ?v)"
    "docs d (ms_publicKeys s) = image_mset encode_PublicKeyInfo (vw_keys ?v)"
    "docs d (ms_records s) = image_mset encode_opaqueRecordDoc (vw_records ?v)"
    "docs d (ms_webauthnCreds s) = image_mset encode_webauthnCredDoc (vw_creds ?v)"
    using I by (simp_all add: mongo_inv_def encoded_def)
  have one: "answered (case mg_FindOne lib c f d of Inl No_documents \<Rightarrow> a | Inl e \<Rightarrow> b e | Inr x \<Rightarrow> g x)"
    if "answered a" and "\<And>x. x \<in># docs d c \<Longrightarrow> answered (g x)" for c f and a :: "(store_error, 'r) res" and b g
    using that F1 [of c f d] sound_find_one [OF S, of c f d] by (auto split: sum.splits mongo_error.splits)
  show "answered (mongo_GetStatus lib s cat i d)" unfolding mongo_GetStatus_def
    by (rule one) (auto simp: answered_def E)
  show "answered (mongo_IsUsed lib s cat i d)" unfolding mongo_IsUsed_def
    by (rule one) (auto simp: answered_def)
  show "answered (mongo_GetPublicKey lib s kid d)" unfolding mongo_GetPublicKey_def
    by (rule one) (auto simp: answered_def E)
  show "answered (mongo_GetRecord lib s c ctx d)" unfolding mongo_GetRecord_def
    by (rule one) (auto simp: answered_def E)
  obtain xs where xs: "mg_Find lib (ms_statuses s) [(''category'', B_str cat)] d = Inr (xs, None)" using F by blast
  from find_encoded [OF S xs E(1) matches_entry(2) decode_encode(1)] obtain es where "xs = map encode_statusEntry es" .
  with xs show "answered (mongo_GetAllStatuses lib s cat d)"
    by (simp add: mongo_GetAllStatuses_def status_loop_encoded cursor_end_answered)
  obtain xs where xs: "mg_Find lib (ms_clientIndices s) [(''client_id'', B_str c), (''category'', B_str cat)] d = Inr (xs, None)"
    using F by blast
  from find_encoded [OF S xs E(2) matches_entry(4) decode_encode(2)] obtain es where "xs = map encode_clientIndexEntry es" .
  with xs show "answered (mongo_GetClientIndices lib s c cat d)"
    by (simp add: mongo_GetClientIndices_def index_loop_encoded cursor_end_answered)
  let ?f = "if c \<noteq> [] then [(''client_id'', B_str c)] else []"
  have m: "matches ?f (encode_PublicKeyInfo k) \<longleftrightarrow> c = [] \<or> pk_ClientID k = c" for k by (simp add: match_simps)
  obtain xs where xs: "mg_Find lib (ms_publicKeys s) ?f d = Inr (xs, None)" using F by blast
  from find_encoded [OF S xs E(3) m decode_encode(3)] obtain ks where "xs = map encode_PublicKeyInfo ks" .
  with xs show "answered (mongo_ListPublicKeys lib s c d)"
    by (simp add: mongo_ListPublicKeys_def cursor_All_encoded answered_def)
  obtain xs where xs: "mg_Find lib (ms_webauthnCreds s) (owner_filter c ctx) d = Inr (xs, None)" using F by blast
  from find_encoded [OF S xs E(5) matches_entry(8) decode_encode(5)] obtain ws where "xs = map encode_webauthnCredDoc ws" .
  with xs show "answered (mongo_GetWebAuthnCredential lib s c ctx d)"
    by (simp add: mongo_GetWebAuthnCredential_def cursor_All_encoded answered_def)
qed

lemma clash_some: "U \<subseteq> {ks} \<Longrightarrow> clash U x X \<Longrightarrow> \<exists>y \<in># X. map (map_of y) ks = map (map_of x) ks"
  by (auto simp: clash_def)

lemma clash_single: "U \<subseteq> {ks} \<Longrightarrow> clash U x {#y#} \<Longrightarrow> map (map_of y) ks = map (map_of x) ks"
  by (auto dest: clash_some)

lemma healthy_replace_one:
  assumes "mongo_healthy lib docs uniq" and "size (filter_mset (matches f) (docs d c)) \<le> 1"
    and "\<And>y. clash (uniq d c) x {#y#} \<Longrightarrow> matches f y"
  shows "fst (mg_ReplaceOne lib c f x d) = None"
proof (rule healthy_replace [OF assms(1)])
  have one: "\<exists>y \<in># X. matches f y" if "clash (uniq d c) x X" for X
    using that assms(3) by (fastforce simp: clash_def)
  then show "none_match f (docs d c) \<longrightarrow> \<not> clash (uniq d c) x (docs d c)" by (auto simp: none_match_def)
  show "\<forall>a \<in># docs d c. matches f a \<longrightarrow> \<not> clash (uniq d c) x (docs d c - {#a#})"
  proof (intro ballI impI notI)
    fix a
    assume a: "a \<in># docs d c" "matches f a" "clash (uniq d c) x (docs d c - {#a#})"
    obtain Z where Z: "docs d c = add_mset a Z" using a(1) by (meson multi_member_split)
    with one [OF a(3)] obtain y where "y \<in># Z" "matches f y" by auto
    then have "filter_mset (matches f) Z \<noteq> {#}" by (auto simp: filter_mset_eq_mempty_iff)
    with assms(2) a(2) Z show False by simp
  qed
qed

lemma size_filter_image: "(\<And>e. matches f (enc e) \<longleftrightarrow> key e = k) \<Longrightarrow> unique_by key E \<Longrightarrow>
    size (filter_mset (matches f) (image_mset enc E)) \<le> 1"
  by (simp add: filter_mset_image_mset unique_by_def)

lemma healthy_writes:
  fixes db
  defines "s \<equiv> mongo_collections db"
  assumes "mongo_healthy lib docs uniq" and I: "mongo_inv s (docs d)" and U: "indexes_ok s (uniq d)"
  shows "vw_counter (view s (docs d)) cat < max_int64 \<Longrightarrow> \<exists>i. fst (mongo_AllocateIndex q lib s cat d) = Ok i"
    and "fst (mongo_SetStatus lib s cat i b d) \<in> {Ok (), Err (Index_not_found i cat)}"
    and "fst (mongo_RecordWUA lib s c cat i d) = Ok ()"
    and "fst (mongo_RecordUsage lib s cat i d) = Ok ()"
    and "fst (mongo_PutPublicKey lib s key d) = Ok ()"
    and "fst (mongo_PutRecord lib s c ctx r d) = Ok ()"
    and "fst (mongo_PutWebAuthnCredential lib s c ctx cred d) = Ok ()"
    and "fst (mongo_UpdateWebAuthnSignCount lib s c ctx cid n d) \<in> {Ok (), Err Credential_not_found}"
proof -
  note S = healthy_sound [OF assms(2)] and H = healthy [OF assms(2)]
  let ?v = "view s (docs d)"
  have enc: "encoded s (docs d)" and ok: "view_ok ?v" using I by (simp_all add: mongo_inv_def)
  have "\<exists>n. fst (mg_UpdateOne lib (ms_statuses s) (entry_filter cat i) [(''$set'', B_doc [(''status'', B_int (uint b))])] d) = Inr n"
    using U by (intro H(4)) (auto simp: indexes_ok_def)
  then show "fst (mongo_SetStatus lib s cat i b d) \<in> {Ok (), Err (Index_not_found i cat)}"
    by (auto simp: mongo_SetStatus_def split: prod.splits)
  have "\<exists>k. fst (mg_UpdateOne lib (ms_webauthnCreds s) (owner_filter c ctx @ [(''credential_id'', B_bin cid)])
      [(''$set'', B_doc [(''sign_count'', B_int (uint n))])] d) = Inr k"
    using U by (intro H(4)) (auto simp: indexes_ok_def)
  then show "fst (mongo_UpdateWebAuthnSignCount lib s c ctx cid n d) \<in> {Ok (), Err Credential_not_found}"
    by (auto simp: mongo_UpdateWebAuthnSignCount_def split: prod.splits)
  have free: "fst (mg_InsertOne lib (ms_clientIndices s) x d) = None" "fst (mg_InsertOne lib (ms_webauthnCreds s) x d) = None" for x
    using U by (auto intro!: H(2) simp: indexes_ok_def clash_def)
  show "fst (mongo_RecordWUA lib s c cat i d) = Ok ()" "fst (mongo_PutWebAuthnCredential lib s c ctx cred d) = Ok ()"
    using free by (simp_all add: mongo_RecordWUA_def mongo_PutWebAuthnCredential_def unit_result_def case_prod_beta)
  show "fst (mongo_RecordUsage lib s cat i d) = Ok ()"
  proof -
    obtain e d1 where e: "mg_InsertOne lib (ms_usage s)
        (encode_usageEntry \<lparr>ue_Category = cat, ue_Idx = i, ue_UsedAt = mg_Now lib d\<rparr>) d = (e, d1)" by force
    then have "fst (mg_InsertOne lib (ms_usage s)
        (encode_usageEntry \<lparr>ue_Category = cat, ue_Idx = i, ue_UsedAt = mg_Now lib d\<rparr>) d) = e" by simp
    then have "e = None \<or> (\<exists>m. e = Some (Duplicate_key m))" using H(3) by (cases e) auto
    with e show ?thesis by (auto simp: mongo_RecordUsage_def unit_result_def)
  qed
  have "fst (mg_ReplaceOne lib (ms_publicKeys s) [(''kid'', B_str (pk_Kid key))] (encode_PublicKeyInfo key) d) = None"
  proof (rule healthy_replace_one [OF assms(2)])
    have "unique_by pk_Kid (vw_keys ?v)" using ok by (simp add: view_ok_def)
    with size_filter_image [of "[(''kid'', B_str (pk_Kid key))]" encode_PublicKeyInfo pk_Kid "pk_Kid key"] enc
    show "size (filter_mset (matches [(''kid'', B_str (pk_Kid key))]) (docs d (ms_publicKeys s))) \<le> 1"
      by (simp add: encoded_def match_simps)
    have "uniq d (ms_publicKeys s) \<subseteq> {[''kid'']}" using U by (simp add: indexes_ok_def)
    from clash_single [OF this] show "matches [(''kid'', B_str (pk_Kid key))] y"
      if "clash (uniq d (ms_publicKeys s)) (encode_PublicKeyInfo key) {#y#}" for y
      using that by (fastforce simp: matches_def encode_PublicKeyInfo_def)
  qed
  then show "fst (mongo_PutPublicKey lib s key d) = Ok ()" by (simp add: mongo_PutPublicKey_def unit_result_def case_prod_beta)
  have "fst (mg_ReplaceOne lib (ms_records s) (owner_filter c ctx)
      (encode_opaqueRecordDoc \<lparr>ord_ClientID = c, ord_Context = ctx, ord_Record = r\<rparr>) d) = None"
  proof (rule healthy_replace_one [OF assms(2)])
    have "unique_by (\<lambda>r. record_owner r) (vw_records ?v)" using ok by (simp add: view_ok_def)
    with size_filter_image [of "owner_filter c ctx" encode_opaqueRecordDoc "\<lambda>r. record_owner r" "(c, ctx)"] enc
    show "size (filter_mset (matches (owner_filter c ctx)) (docs d (ms_records s))) \<le> 1"
      by (simp add: encoded_def match_simps)
    have "uniq d (ms_records s) \<subseteq> {[''client_id'', ''context'']}" using U by (simp add: indexes_ok_def)
    from clash_single [OF this] show "matches (owner_filter c ctx) y"
      if "clash (uniq d (ms_records s)) (encode_opaqueRecordDoc \<lparr>ord_ClientID = c, ord_Context = ctx, ord_Record = r\<rparr>) {#y#}" for y
      using that by (fastforce simp: matches_def encode_opaqueRecordDoc_def owner_filter_def)
  qed
  then show "fst (mongo_PutRecord lib s c ctx r d) = Ok ()" by (simp add: mongo_PutRecord_def unit_result_def case_prod_beta)
  show "\<exists>i. fst (mongo_AllocateIndex q lib s cat d) = Ok i" if less: "vw_counter ?v cat < max_int64"
  proof -
    let ?X = "docs d (ms_counters s)"
    have wf: "wf_counters ?X" and cnt: "counter ?X = vw_counter ?v" using enc by (simp_all add: encoded_def view_def)
    have "inc_field ''value'' 1 a \<noteq> None" if a: "a \<in># ?X" "matches (id_filter cat) a" for a
    proof -
      obtain c n where n: "counter_doc c n a" using wf a(1) by (auto simp: wf_counters_def)
      with a(2) counter_doc_simps(1) [OF n] have c: "c = cat" by metis
      have "size (filter_mset (matches (id_filter cat)) ?X) \<le> 1" using wf by (simp add: wf_counters_def)
      from filter_single [OF this a] have X: "?X = add_mset a {#x \<in># ?X. \<not> matches (id_filter cat) x#}" .
      have "filter_mset (matches (id_filter cat)) {#x \<in># ?X. \<not> matches (id_filter cat) x#} = {#}"
        by (simp add: filter_filter_mset)
      then have "filter_mset (matches (id_filter cat)) ?X = {#a#}" by (subst X) (simp add: a(2))
      then have "counter ?X cat = n" using counter_doc_simps(2) [OF n] by (simp add: counter_def)
      with n less cnt show ?thesis by (auto simp: inc_field_def counter_doc_def min_int64_def)
    qed
    then obtain y d1 where y: "mg_FindOneAndUpdate lib (ms_counters s) (id_filter cat) [(''$inc'', B_doc [(''value'', B_int 1)])] d = (Inr y, d1)"
      using H(6) [of d "ms_counters s" "id_filter cat" "''value''" 1] U unfolding indexes_ok_def by (metis prod.collapse)
    have w: "uniq d1 = uniq d" "inc_done (id_filter cat) ''value'' 1 y ?X (docs d1 (ms_counters s))"
      "docs d1 = (docs d)(ms_counters s := docs d1 (ms_counters s))"
      using sound_inc [OF S y] by (simp_all add: writes_def incremented_def)
    have st: "int_field ''value'' y = Some (vw_counter ?v cat + 1)" "0 \<le> vw_counter ?v cat"
      using counter_incremented [OF wf w(2)] by (simp_all add: cnt)
    have i: "wrap64 (vw_counter ?v cat + 1 - 1) = vw_counter ?v cat" using st(2) less by (simp add: wrap64_id min_int64_def)
    define x where "x = encode_statusEntry \<lparr>ste_Category = cat, ste_Idx = vw_counter ?v cat, ste_Status = StatusValid\<rparr>"
    have "docs d1 (ms_statuses s) = docs d (ms_statuses s)" by (subst w(3)) (simp add: s_def mongo_collections_def)
    then have "docs d1 (ms_statuses s) = image_mset encode_statusEntry (vw_statuses ?v)" using enc by (simp add: encoded_def)
    moreover have "ste_Category e = cat \<longrightarrow> ste_Idx e \<noteq> vw_counter ?v cat" if "e \<in># vw_statuses ?v" for e
      using ok that by (auto simp: view_ok_def)
    ultimately have new: "map (map_of y) [''category'', ''idx''] \<noteq> map (map_of x) [''category'', ''idx'']"
      if "y \<in># docs d1 (ms_statuses s)" for y
      using that by (auto simp: x_def encode_statusEntry_def)
    have "uniq d1 (ms_statuses s) \<subseteq> {[''category'', ''idx'']}" using U w(1) by (simp add: indexes_ok_def)
    from clash_some [OF this] new have "\<not> clash (uniq d1 (ms_statuses s)) x (docs d1 (ms_statuses s))" by metis
    from H(2) [OF this] obtain d2 where "mg_InsertOne lib (ms_statuses s) x d1 = (None, d2)" by (metis prod.collapse)
    with y st i show ?thesis by (simp add: mongo_AllocateIndex_def x_def Let_def)
  qed
qed

lemma mongo_revocable_store:
  fixes db
  defines "s \<equiv> mongo_collections db"
  assumes H: "mongo_healthy lib docs uniq"
  shows "revocable_status_store (mongo_ops q lib s) (\<lambda>d. mongo_inv s (docs d) \<and> indexes_ok s (uniq d))
     (mongo_entry docs s) (mongo_owned docs s) cats"
proof (rule revocable_status_store.intro, goal_cases)
  case 1
  show ?case unfolding s_def by (rule mongo_status_store [OF healthy_sound [OF H]])
next
  case 2
  note S = healthy_sound [OF H]
  have set: "(view_entry (view s (docs d)) cat i = None \<longrightarrow> r = Err (Index_not_found i cat) \<and> docs d' = docs d)
      \<and> (view_entry (view s (docs d)) cat i \<noteq> None \<longrightarrow> r = Ok ()) \<and> kept docs uniq s d d'"
    if I: "mongo_inv s (docs d)" "indexes_ok s (uniq d)" and op: "mongo_SetStatus lib s cat i b d = (r, d')" for d cat i b r d'
  proof -
    note e = SetStatus_effect [OF S I(1) [unfolded s_def] op [unfolded s_def], folded s_def]
    have r: "r = Ok () \<or> r = Err (Index_not_found i cat)"
      using healthy_writes(2) [OF H I [unfolded s_def], folded s_def, of cat i b] op by auto
    with e show ?thesis by (auto simp: view_entry_None)
  qed
  show ?case
  proof (unfold_locales, goal_cases)
    case (1 d cat i b)
    obtain r d' where "mongo_SetStatus lib s cat i b d = (r, d')" by force
    with set [OF _ _ this] 1 show ?case by (simp add: mongo_ops_def)
  next
    case (2 d c cat)
    then show ?case
      using GetClientIndices_answer [OF S, of s d c cat] healthy_answered(3) [OF H, of s d c cat] by (auto simp: mongo_ops_def)
  next
    case (3 d cat i b)
    obtain r d' where op: "mongo_SetStatus lib s cat i b d = (r, d')" by force
    with set [OF _ _ op] 3 show ?case by (auto simp: mongo_ops_def kept_def)
  qed
qed

text \<open>Opening the store on a database whose collections are still empty.\<close>

definition fresh_database :: "('d \<Rightarrow> contents) \<Rightarrow> ('d \<Rightarrow> collection \<Rightarrow> string list set) \<Rightarrow> MongoDBStore \<Rightarrow> 'd \<Rightarrow> bool" where
  "fresh_database docs uniq s d \<longleftrightarrow>
     (\<forall>c \<in> {ms_counters s, ms_statuses s, ms_clientIndices s, ms_usage s, ms_publicKeys s, ms_records s, ms_webauthnCreds s}.
        docs d c = {#} \<and> uniq d c = {})"

lemma create_indexes_docs:
  "mongo_sound lib docs uniq \<Longrightarrow> create_indexes lib ms d = (r, d') \<Longrightarrow>
     docs d' = docs d \<and> (\<forall>c. uniq d' c \<subseteq> uniq d c \<union> {ks. (c, ks, True) \<in> (\<lambda>(c, ks, u, n). (c, ks, u)) ` set ms})"
proof (induction lib ms d rule: create_indexes.induct)
  case (2 lib c ks u n ms d)
  obtain e d1 where e: "mg_CreateIndex lib c (map (\<lambda>k. (k, B_int 1)) ks) u d = (e, d1)" by force
  have d1: "docs d1 = docs d" "\<forall>c'. uniq d1 c' \<subseteq> uniq d c' \<union> {ks'. c' = c \<and> ks' = ks \<and> u}"
    using sound_index [OF 2(2) e] by (auto simp: comp_def split: if_splits)
  show ?case
  proof (cases e)
    case None
    have "create_indexes lib ms d1 = (r, d')" using 2(3) e by (simp add: None)
    from 2(1) [OF e [symmetric] None 2(2) this] have ih: "docs d' = docs d1"
      "\<forall>c'. uniq d' c' \<subseteq> uniq d1 c' \<union> {ks'. (c', ks', True) \<in> (\<lambda>(c, ks, u, n). (c, ks, u)) ` set ms}" by simp_all
    have "uniq d' c' \<subseteq> uniq d c' \<union> {ks'. (c', ks', True) \<in> (\<lambda>(c, ks, u, n). (c, ks, u)) ` set ((c, ks, u, n) # ms)}" for c'
      using spec [OF ih(2), of c'] spec [OF d1(2), of c'] by auto
    with ih(1) d1(1) show ?thesis by simp
  next
    case (Some x)
    have d': "d' = d1" using 2(3) e by (simp add: Some)
    have "uniq d1 c' \<subseteq> uniq d c' \<union> {ks'. (c', ks', True) \<in> (\<lambda>(c, ks, u, n). (c, ks, u)) ` set ((c, ks, u, n) # ms)}" for c'
      using spec [OF d1(2), of c'] by auto
    with d1(1) show ?thesis by (simp add: d')
  qed
qed simp

lemma new_store_view:
  assumes S: "mongo_sound lib docs uniq" and new: "NewMongoDBStore lib fs cfg d0 = (Ok s, d)"
    and fresh: "fresh_database docs uniq s d0"
  shows "\<exists>db. s = mongo_collections db" and "docs d = docs d0" and "indexes_ok s (uniq d)"
    and "mongo_inv s (docs d)"
    and "view s (docs d) = \<lparr>vw_counter = \<lambda>_. 0, vw_statuses = {#}, vw_indices = {#}, vw_used = \<lambda>_ _. False, vw_keys = {#},
      vw_records = {#}, vw_creds = {#}\<rparr>"
proof -
  obtain opts d1 db where d1: "mg_Connect lib opts d0 = (None, d1)" "s = mongo_collections db"
    "create_indexes lib (index_models s) d1 = (Ok (), d)"
    using new
    by (auto simp: NewMongoDBStore_def createIndexes_def Let_def split: res.splits prod.splits option.splits)
  have c: "docs d1 = docs d0" "uniq d1 = uniq d0" using sound_connect [OF S d1(1)] by simp_all
  have i: "docs d = docs d0" "\<forall>c. uniq d c \<subseteq> uniq d0 c \<union> {ks. (c, ks, True) \<in> (\<lambda>(c, ks, u, n). (c, ks, u)) ` set (index_models s)}"
    using create_indexes_docs [OF S d1(3)] c by simp_all
  then show "\<exists>db. s = mongo_collections db" "docs d = docs d0" using d1(2) by auto
  have u: "uniq d0 (ms_counters s) = {}" "uniq d0 (ms_statuses s) = {}" "uniq d0 (ms_clientIndices s) = {}" "uniq d0 (ms_usage s) = {}"
    "uniq d0 (ms_publicKeys s) = {}" "uniq d0 (ms_records s) = {}" "uniq d0 (ms_webauthnCreds s) = {}"
    using fresh by (simp_all add: fresh_database_def)
  have "uniq d (ms_counters s) \<subseteq> {}" "uniq d (ms_statuses s) \<subseteq> {[''category'', ''idx'']}" "uniq d (ms_clientIndices s) \<subseteq> {}"
    "uniq d (ms_usage s) \<subseteq> {[''category'', ''idx'']}" "uniq d (ms_publicKeys s) \<subseteq> {[''kid'']}"
    "uniq d (ms_records s) \<subseteq> {[''client_id'', ''context'']}" "uniq d (ms_webauthnCreds s) \<subseteq> {}"
    by (rule order_trans [OF spec [OF i(2)]], simp only: u, force simp: index_models_def d1(2) mongo_collections_def)+
  then show "indexes_ok s (uniq d)" by (simp add: indexes_ok_def)
  have e: "docs d (ms_counters s) = {#}" "docs d (ms_statuses s) = {#}" "docs d (ms_clientIndices s) = {#}" "docs d (ms_usage s) = {#}"
    "docs d (ms_publicKeys s) = {#}" "docs d (ms_records s) = {#}" "docs d (ms_webauthnCreds s) = {#}"
    using fresh by (simp_all add: fresh_database_def i(1))
  show v: "view s (docs d) = \<lparr>vw_counter = \<lambda>_. 0, vw_statuses = {#}, vw_indices = {#}, vw_used = \<lambda>_ _. False, vw_keys = {#},
      vw_records = {#}, vw_creds = {#}\<rparr>"
    by (simp add: view_def e counter_def none_match_def fun_eq_iff)
  show "mongo_inv s (docs d)"
    unfolding mongo_inv_def encoded_def v by (simp add: e wf_counters_def view_ok_def unique_by_def)
qed

end
