(* ===== verification/Mongo_Simulation.thy ===== *)
theory Mongo_Simulation
  imports Mongo_Refines Json_Roundtrip
begin

text \<open>
  The calls of the Store interface as data, their answers without what a caller must not rely on (the text
  of an error, the order of a list), and the simulation between the MongoDB store and the in-memory store.
\<close>

section \<open>Calls and answers\<close>

datatype store_call =
    C_Allocate string
  | C_GetStatus string int
  | C_SetStatus string int byte
  | C_GetAll string
  | C_RecordWUA string string int
  | C_GetIndices string string
  | C_RecordUsage string int
  | C_IsUsed string int
  | C_PutKey PublicKeyInfo
  | C_GetKey string
  | C_ListKeys string
  | C_PutRecord string string bytes
  | C_GetRecord string string
  | C_PutCred string string WebAuthnCredential
  | C_GetCreds string string
  | C_SignCount string string bytes "32 word"

datatype store_answer =
    A_Error | A_Panic | A_Unit | A_Int int | A_Byte byte | A_Statuses "int \<rightharpoonup> byte" | A_Ints "int multiset" | A_Bool bool
  | A_Key PublicKeyInfo | A_Keys "PublicKeyInfo multiset" | A_Bytes bytes | A_Creds "WebAuthnCredential multiset"

definition answer_of :: "('a \<Rightarrow> store_answer) \<Rightarrow> (store_error, 'a) res \<Rightarrow> store_answer" where
  "answer_of f r = (case r of Ok a \<Rightarrow> f a | Err _ \<Rightarrow> A_Error | Panic \<Rightarrow> A_Panic)"

primrec run_call :: "'s store_ops \<Rightarrow> store_call \<Rightarrow> 's \<Rightarrow> store_answer \<times> 's" where
  "run_call ops (C_Allocate cat) s = map_prod (answer_of A_Int) (\<lambda>s. s) (AllocateIndex ops cat s)"
| "run_call ops (C_GetStatus cat i) s = (answer_of A_Byte (GetStatus ops cat i s), s)"
| "run_call ops (C_SetStatus cat i v) s = map_prod (answer_of (\<lambda>_. A_Unit)) (\<lambda>s. s) (SetStatus ops cat i v s)"
| "run_call ops (C_GetAll cat) s = (answer_of (\<lambda>es. A_Statuses (map_of es)) (GetAllStatuses ops cat s), s)"
| "run_call ops (C_RecordWUA c cat i) s = map_prod (answer_of (\<lambda>_. A_Unit)) (\<lambda>s. s) (RecordWUA ops c cat i s)"
| "run_call ops (C_GetIndices c cat) s = (answer_of (\<lambda>is. A_Ints (mset is)) (GetClientIndices ops c cat s), s)"
| "run_call ops (C_RecordUsage cat i) s = map_prod (answer_of (\<lambda>_. A_Unit)) (\<lambda>s. s) (RecordUsage ops cat i s)"
| "run_call ops (C_IsUsed cat i) s = (answer_of A_Bool (IsUsed ops cat i s), s)"
| "run_call ops (C_PutKey k) s = map_prod (answer_of (\<lambda>_. A_Unit)) (\<lambda>s. s) (PutPublicKey ops k s)"
| "run_call ops (C_GetKey kid) s = (answer_of A_Key (GetPublicKey ops kid s), s)"
| "run_call ops (C_ListKeys c) s = (answer_of (\<lambda>ks. A_Keys (mset ks)) (ListPublicKeys ops c s), s)"
| "run_call ops (C_PutRecord c x r) s = map_prod (answer_of (\<lambda>_. A_Unit)) (\<lambda>s. s) (PutRecord ops c x r s)"
| "run_call ops (C_GetRecord c x) s = (answer_of A_Bytes (GetRecord ops c x s), s)"
| "run_call ops (C_PutCred c x cr) s = map_prod (answer_of (\<lambda>_. A_Unit)) (\<lambda>s. s) (PutWebAuthnCredential ops c x cr s)"
| "run_call ops (C_GetCreds c x) s = (answer_of (\<lambda>cs. A_Creds (mset cs)) (GetWebAuthnCredential ops c x s), s)"
| "run_call ops (C_SignCount c x cid n) s = map_prod (answer_of (\<lambda>_. A_Unit)) (\<lambda>s. s) (UpdateWebAuthnSignCount ops c x cid n s)"

primrec run_calls :: "'s store_ops \<Rightarrow> store_call list \<Rightarrow> 's \<Rightarrow> store_answer list" where
  "run_calls ops [] s = []"
| "run_calls ops (c # cs) s = (let (a, s) = run_call ops c s in a # run_calls ops cs s)"

text \<open>The calls on which the stores are compared: names without the separator the in-memory store joins its
  keys with, credentials that are not registered twice, counters within 64 bits.\<close>

abbreviation "no_sep x \<equiv> CHR ''|'' \<notin> set x"

fun call_ok :: "MemoryStore \<Rightarrow> store_call \<Rightarrow> bool" where
  "call_ok m (C_Allocate cat) = (map_get 0 (m_counters m) cat < max_int64)"
| "call_ok m (C_RecordWUA c cat i) = no_sep cat"
| "call_ok m (C_GetIndices c cat) = no_sep cat"
| "call_ok m (C_PutRecord c x r) = no_sep x"
| "call_ok m (C_GetRecord c x) = no_sep x"
| "call_ok m (C_PutCred c x cr) = (no_sep x \<and> wc_CredentialID cr \<notin> wc_CredentialID ` set (map_get [] (m_webauthn m) (pair_key c x)))"
| "call_ok m (C_GetCreds c x) = no_sep x"
| "call_ok m (C_SignCount c x cid n) = no_sep x"
| "call_ok m _ = True"

primrec calls_ok :: "MemoryStore \<Rightarrow> store_call list \<Rightarrow> bool" where
  "calls_ok m [] = True"
| "calls_ok m (c # cs) = (call_ok m c \<and> calls_ok (snd (run_call memory_ops c m)) cs)"

section \<open>The simulation\<close>

definition key_list_ok :: "(string \<times> PublicKeyInfo) list \<Rightarrow> bool" where
  "key_list_ok ks \<longleftrightarrow> distinct (map fst ks) \<and> (\<forall>(kid, k) \<in> set ks. pk_Kid k = kid)"

definition owned_creds :: "store_view \<Rightarrow> string \<Rightarrow> string \<Rightarrow> WebAuthnCredential multiset" where
  "owned_creds v c x = image_mset doc_cred {#w \<in># vw_creds v. wd_ClientID w = c \<and> wd_Context w = x#}"

definition simulates :: "store_view \<Rightarrow> MemoryStore \<Rightarrow> bool" where
  "simulates v m \<longleftrightarrow>
     (\<forall>cat. vw_counter v cat = map_get 0 (m_counters m) cat)
   \<and> view_entry v = mem_entry m
   \<and> (\<forall>c cat. no_sep cat \<longrightarrow> view_owned v c cat = mset (mem_owned m c cat))
   \<and> (\<forall>cat i. vw_used v cat i \<longleftrightarrow> map_get False (m_usage m) (usage_key cat i))
   \<and> key_list_ok (m_publicKeys m) \<and> vw_keys v = mset (map snd (m_publicKeys m))
   \<and> (\<forall>c x r. no_sep x \<longrightarrow>
        (\<lparr>ord_ClientID = c, ord_Context = x, ord_Record = r\<rparr> \<in># vw_records v \<longleftrightarrow> m_records m (pair_key c x) = Some r))
   \<and> (\<forall>c x. no_sep x \<longrightarrow> owned_creds v c x = mset (map_get [] (m_webauthn m) (pair_key c x))
        \<and> distinct (map wc_CredentialID (map_get [] (m_webauthn m) (pair_key c x))))"

lemma simulates_empty:
  "simulates \<lparr>vw_counter = \<lambda>_. 0, vw_statuses = {#}, vw_indices = {#}, vw_used = \<lambda>_ _. False, vw_keys = {#},
      vw_records = {#}, vw_creds = {#}\<rparr> NewMemoryStore"
  by (simp add: simulates_def NewMemoryStore_def map_get_def view_entry_def mem_entry_def view_owned_def mem_owned_def
      key_list_ok_def owned_creds_def fun_eq_iff)

lemma Itoa_plain: "no_sep (Itoa i)"
proof -
  have "no_sep (nat_str n)" for n
    using nat_str_digits [of n] by (force simp: list_all_iff is_digit_def)
  then show ?thesis by (simp add: Itoa_def)
qed

lemma Itoa_inject: "Itoa i = Itoa j \<longleftrightarrow> i = j"
proof
  have v: "nat_str m = nat_str n \<Longrightarrow> m = n" for m n by (metis nat_str_val)
  have d: "nat_str n \<noteq> CHR ''-'' # cs" for n cs
    using nat_str_digits [of n] by (auto simp: is_digit_def)
  assume "Itoa i = Itoa j"
  then show "i = j" using d d [symmetric] by (auto simp: Itoa_def split: if_splits dest!: v)
qed simp

lemma usage_key_inject: "usage_key c i = usage_key c' i' \<longleftrightarrow> c = c' \<and> i = i'"
  using sep_key_inject [of c "CHR ''|''" "Itoa i" c' "Itoa i'"] Itoa_plain by (auto simp: usage_key_def Itoa_inject)

lemma view_parts [simp]:
  "view_entry (v\<lparr>vw_indices := a\<rparr>) = view_entry v" "view_entry (v\<lparr>vw_used := u\<rparr>) = view_entry v"
  "view_entry (v\<lparr>vw_keys := k\<rparr>) = view_entry v" "view_entry (v\<lparr>vw_records := r\<rparr>) = view_entry v"
  "view_entry (v\<lparr>vw_creds := c\<rparr>) = view_entry v"
  "view_owned (v\<lparr>vw_used := u\<rparr>) = view_owned v" "view_owned (v\<lparr>vw_keys := k\<rparr>) = view_owned v"
  "view_owned (v\<lparr>vw_records := r\<rparr>) = view_owned v" "view_owned (v\<lparr>vw_creds := c\<rparr>) = view_owned v"
  "owned_creds (v\<lparr>vw_indices := a\<rparr>) = owned_creds v" "owned_creds (v\<lparr>vw_used := u\<rparr>) = owned_creds v"
  "owned_creds (v\<lparr>vw_keys := k\<rparr>) = owned_creds v" "owned_creds (v\<lparr>vw_records := r\<rparr>) = owned_creds v"
  by (simp_all add: view_entry_def view_owned_def owned_creds_def fun_eq_iff)

lemma memory_parts [simp]:
  "mem_entry (m\<lparr>m_clientIndices := a\<rparr>) = mem_entry m" "mem_entry (m\<lparr>m_usage := u\<rparr>) = mem_entry m"
  "mem_entry (m\<lparr>m_publicKeys := k\<rparr>) = mem_entry m" "mem_entry (m\<lparr>m_records := r\<rparr>) = mem_entry m"
  "mem_entry (m\<lparr>m_webauthn := c\<rparr>) = mem_entry m"
  "mem_owned (m\<lparr>m_usage := u\<rparr>) = mem_owned m" "mem_owned (m\<lparr>m_publicKeys := k\<rparr>) = mem_owned m"
  "mem_owned (m\<lparr>m_records := r\<rparr>) = mem_owned m" "mem_owned (m\<lparr>m_webauthn := c\<rparr>) = mem_owned m"
  by (simp_all add: mem_entry_def mem_owned_def fun_eq_iff)

lemma simulates_counters:
  assumes "simulates v m" and "\<And>c. vw_counter v' c = map_get 0 (m_counters m') c" and "view_entry v' = mem_entry m'"
    and "vw_indices v' = vw_indices v" "vw_used v' = vw_used v" "vw_keys v' = vw_keys v" "vw_records v' = vw_records v" "vw_creds v' = vw_creds v"
    and "m_clientIndices m' = m_clientIndices m" "m_usage m' = m_usage m" "m_publicKeys m' = m_publicKeys m"
    "m_records m' = m_records m" "m_webauthn m' = m_webauthn m"
  shows "simulates v' m'"
  using assms by (simp add: simulates_def view_owned_def mem_owned_def owned_creds_def)

lemma sim_allocate:
  assumes "simulates v m" and "wf_mem m" and "view_ok v" and "view_ok v'"
    and "v' = v\<lparr>vw_counter := (vw_counter v)(cat := vw_counter v cat + 1),
      vw_statuses := add_mset \<lparr>ste_Category = cat, ste_Idx = vw_counter v cat, ste_Status = StatusValid\<rparr> (vw_statuses v)\<rparr>"
  shows "fst (mem_AllocateIndex cat m) = Ok (vw_counter v cat)" and "simulates v' (snd (mem_AllocateIndex cat m))"
proof -
  have c: "vw_counter v cat = map_get 0 (m_counters m) cat" for cat using assms(1) by (simp add: simulates_def)
  show "fst (mem_AllocateIndex cat m) = Ok (vw_counter v cat)" by (simp add: mem_AllocateIndex_def Let_def c)
  obtain r m' where m': "mem_AllocateIndex cat m = (r, m')" by force
  have "vw_statuses v' = add_mset \<lparr>ste_Category = cat, ste_Idx = vw_counter v cat, ste_Status = StatusValid\<rparr> (vw_statuses v)"
    by (simp add: assms(5))
  from view_entry_new(2) [OF assms(3,4) this] have "view_entry v' = mem_entry m'"
    using assms(1) mem_Allocate_eq(2) [OF m'] by (auto simp: simulates_def fun_eq_iff c)
  moreover have "vw_counter v' k = map_get 0 (m_counters m') k" for k
    using m' by (auto simp: assms(5) c mem_AllocateIndex_def Let_def)
  ultimately show "simulates v' (snd (mem_AllocateIndex cat m))"
    unfolding m' snd_conv using m'
    by (intro simulates_counters [OF assms(1)]) (auto simp: assms(5) mem_AllocateIndex_def Let_def)
qed

lemma sim_set_status:
  assumes "simulates v m" and "view_ok v" and "view_ok v'" and "e \<in># vw_statuses v" and "entry_key e = (cat, i)"
    and "v' = v\<lparr>vw_statuses := add_mset (e\<lparr>ste_Status := b\<rparr>) (vw_statuses v - {#e#})\<rparr>"
  shows "fst (mem_SetStatus cat i b m) = Ok ()" and "simulates v' (snd (mem_SetStatus cat i b m))"
proof -
  obtain r m' where m': "mem_SetStatus cat i b m = (r, m')" by force
  have "mem_entry m cat i \<noteq> None"
    using view_entry_Some [OF assms(2,4,5)] assms(1) by (simp add: simulates_def)
  with mem_SetStatus_eq(1) [OF m'] have r: "r = Ok ()" by blast
  then show "fst (mem_SetStatus cat i b m) = Ok ()" by (simp add: m')
  have "vw_statuses v' = add_mset (e\<lparr>ste_Status := b\<rparr>) (vw_statuses v - {#e#})" by (simp add: assms(6))
  from view_entry_set [OF assms(2-5) this] have "view_entry v' = mem_entry m'"
    using assms(1) mem_SetStatus_eq(3) [OF m' r] by (auto simp: simulates_def fun_eq_iff)
  then show "simulates v' (snd (mem_SetStatus cat i b m))"
    unfolding m' snd_conv using m' assms(1)
    by (intro simulates_counters [OF assms(1)])
      (auto simp: assms(6) simulates_def mem_SetStatus_def split: option.splits)
qed

lemma sim_wua:
  assumes "simulates v m" and "no_sep cat"
    and "v' = v\<lparr>vw_indices := add_mset \<lparr>cie_ClientID = c, cie_Category = cat, cie_Idx = i\<rparr> (vw_indices v)\<rparr>"
  shows "simulates v' (snd (mem_RecordWUA c cat i m))"
proof -
  have "view_owned v' c' k = mset (mem_owned (snd (mem_RecordWUA c cat i m)) c' k)" if "no_sep k" for c' k
    using assms(1,2) that
    by (auto simp: assms(3) simulates_def view_owned_def mem_owned_def mem_RecordWUA_def Let_def pair_key_inject)
  with assms(1) show ?thesis
    by (simp add: simulates_def assms(3) mem_RecordWUA_def Let_def)
qed

lemma sim_usage:
  assumes "simulates v m" and "v' = v\<lparr>vw_used := \<lambda>c j. (c, j) = (cat, i) \<or> vw_used v c j\<rparr>"
  shows "simulates v' (snd (mem_RecordUsage cat i m))"
  using assms(1)
  by (auto simp: simulates_def assms(2) mem_RecordUsage_def Let_def usage_key_inject)

lemma update_key_mset:
  "key_list_ok ks \<Longrightarrow> mset (map snd (AList.update (pk_Kid key) key ks)) =
     put_entry_mset (\<lambda>k. pk_Kid k = pk_Kid key) key (mset (map snd ks))"
proof (induction ks)
  case Nil
  then show ?case by (simp add: put_entry_mset_def)
next
  case (Cons p ks)
  obtain kid k where p: "p = (kid, k)" by force
  have k: "pk_Kid k = kid" "key_list_ok ks" "kid \<notin> fst ` set ks" using Cons.prems by (auto simp: key_list_ok_def p)
  show ?case
  proof (cases "kid = pk_Kid key")
    case True
    have "\<forall>x \<in># mset (map snd ks). pk_Kid x \<noteq> pk_Kid key" using k(2,3) True by (force simp: key_list_ok_def)
    then have "{#x \<in># mset (map snd ks). pk_Kid x \<noteq> pk_Kid key#} = mset (map snd ks)" by (simp add: filter_mset_eq_conv)
    with True k(1) show ?thesis by (simp add: p put_entry_mset_def)
  next
    case False
    with Cons.IH [OF k(2)] k(1) show ?thesis by (simp add: p put_entry_mset_def)
  qed
qed

lemma set_update_sub: "set (AList.update k v al) \<subseteq> insert (k, v) (set al)"
  by (induction al) auto

lemma sim_key:
  assumes "simulates v m" and "v' = v\<lparr>vw_keys := put_entry_mset (\<lambda>k. pk_Kid k = pk_Kid key) key (vw_keys v)\<rparr>"
  shows "simulates v' (snd (mem_PutPublicKey key m))"
proof -
  have k: "key_list_ok (m_publicKeys m)" "vw_keys v = mset (map snd (m_publicKeys m))" using assms(1) by (simp_all add: simulates_def)
  have "key_list_ok (AList.update (pk_Kid key) key (m_publicKeys m))"
    using k(1) set_update_sub [of "pk_Kid key" key "m_publicKeys m"] by (auto simp: key_list_ok_def AList.distinct_update)
  with assms(1) update_key_mset [OF k(1), of key] show ?thesis
    by (simp add: simulates_def assms(2) mem_PutPublicKey_def)
qed

lemma sim_record:
  assumes "simulates v m" and "no_sep x"
    and "v' = v\<lparr>vw_records := put_entry_mset (\<lambda>y. record_owner y = (c, x)) \<lparr>ord_ClientID = c, ord_Context = x, ord_Record = b\<rparr> (vw_records v)\<rparr>"
  shows "simulates v' (snd (mem_PutRecord c x b m))"
proof -
  have "\<lparr>ord_ClientID = c', ord_Context = x', ord_Record = r\<rparr> \<in># vw_records v' \<longleftrightarrow>
      m_records (snd (mem_PutRecord c x b m)) (pair_key c' x') = Some r" if "no_sep x'" for c' x' r
    using assms(1,2) that by (auto simp: simulates_def assms(3) put_entry_mset_def mem_PutRecord_def pair_key_inject)
  with assms(1) show ?thesis
    by (simp add: simulates_def assms(3) mem_PutRecord_def)
qed

lemma doc_cred_doc [simp]: "doc_cred (cred_doc c x cr) = cr" "wd_ClientID (cred_doc c x cr) = c" "wd_Context (cred_doc c x cr) = x"
  by (simp_all add: doc_cred_def cred_doc_def)

lemma sim_cred:
  assumes "simulates v m" and "call_ok m (C_PutCred c x cr)"
    and "v' = v\<lparr>vw_creds := add_mset (cred_doc c x cr) (vw_creds v)\<rparr>"
  shows "simulates v' (snd (mem_PutWebAuthnCredential c x cr m))"
proof -
  let ?m' = "snd (mem_PutWebAuthnCredential c x cr m)"
  have "owned_creds v' c' x' = mset (map_get [] (m_webauthn ?m') (pair_key c' x'))
      \<and> distinct (map wc_CredentialID (map_get [] (m_webauthn ?m') (pair_key c' x')))" if "no_sep x'" for c' x'
    using assms(1,2) that
    by (auto simp: simulates_def assms(3) owned_creds_def mem_PutWebAuthnCredential_def Let_def pair_key_inject)
  with assms(1) show ?thesis
    by (simp add: simulates_def assms(3) mem_PutWebAuthnCredential_def Let_def)
qed

text \<open>With identifiers that are there once, the first credential with an identifier is the only one.\<close>

lemma set_sign_count_mset:
  assumes "distinct (map wc_CredentialID cs)" and "cr \<in> set cs"
  shows "\<exists>cs'. set_sign_count (wc_CredentialID cr) n cs = Some cs' \<and> mset cs' = add_mset (cr\<lparr>wc_SignCount := n\<rparr>) (mset cs - {#cr#})"
  using assms
proof (induction cs)
  case (Cons c cs)
  show ?case
  proof (cases "wc_CredentialID c = wc_CredentialID cr")
    case True
    with Cons.prems have "cr = c" by (auto simp: image_iff)
    then show ?thesis by simp
  next
    case False
    then have "cr \<in> set cs" "c \<noteq> cr" using Cons.prems by auto
    with Cons.IH Cons.prems False show ?thesis by auto
  qed
qed simp

lemma set_sign_count_None: "set_sign_count cid n cs = None \<longleftrightarrow> cid \<notin> wc_CredentialID ` set cs"
  by (induction cs) auto

lemma owned_creds_change:
  assumes "w \<in># vw_creds v" and "wd_ClientID w = c" and "wd_Context w = x"
    and "v' = v\<lparr>vw_creds := add_mset (w\<lparr>wd_SignCount := k\<rparr>) (vw_creds v - {#w#})\<rparr>"
  shows "owned_creds v' c' x' = (if c' = c \<and> x' = x
     then add_mset ((doc_cred w)\<lparr>wc_SignCount := k\<rparr>) (owned_creds v c x - {#doc_cred w#}) else owned_creds v c' x')"
proof -
  obtain F where F: "vw_creds v = add_mset w F" using assms(1) by (meson multi_member_split)
  have "doc_cred (w\<lparr>wd_SignCount := k\<rparr>) = (doc_cred w)\<lparr>wc_SignCount := k\<rparr>" by (simp add: doc_cred_def)
  with assms(2,3) show ?thesis by (auto simp: owned_creds_def assms(4) F)
qed

lemma sim_sign:
  assumes "simulates v m" and "no_sep x"
    and w: "w \<in># vw_creds v" "wd_ClientID w = c" "wd_Context w = x" "wd_CredentialID w = cid"
    and "v' = v\<lparr>vw_creds := add_mset (w\<lparr>wd_SignCount := k\<rparr>) (vw_creds v - {#w#})\<rparr>"
  shows "fst (mem_UpdateWebAuthnSignCount c x cid k m) = Ok ()"
    and "simulates v' (snd (mem_UpdateWebAuthnSignCount c x cid k m))"
proof -
  let ?cs = "map_get [] (m_webauthn m) (pair_key c x)"
  have cs: "owned_creds v c x = mset ?cs" "distinct (map wc_CredentialID ?cs)" using assms(1,2) by (simp_all add: simulates_def)
  have "doc_cred w \<in># owned_creds v c x" using w by (auto simp: owned_creds_def)
  then have "doc_cred w \<in> set ?cs" by (simp add: cs(1))
  from set_sign_count_mset [OF cs(2) this, of k] w(4)
  obtain cs' where cs': "set_sign_count cid k ?cs = Some cs'"
    "mset cs' = add_mset ((doc_cred w)\<lparr>wc_SignCount := k\<rparr>) (mset ?cs - {#doc_cred w#})"
    by (auto simp: doc_cred_def)
  then show "fst (mem_UpdateWebAuthnSignCount c x cid k m) = Ok ()" by (simp add: mem_UpdateWebAuthnSignCount_def Let_def)
  have m': "snd (mem_UpdateWebAuthnSignCount c x cid k m) = m\<lparr>m_webauthn := (m_webauthn m)(pair_key c x \<mapsto> cs')\<rparr>"
    using cs'(1) by (simp add: mem_UpdateWebAuthnSignCount_def Let_def)
  have d: "distinct (map wc_CredentialID cs')" using set_sign_count_ids [OF cs'(1)] cs(2) by simp
  have "owned_creds v' c' x' = mset (map_get [] ((m_webauthn m)(pair_key c x \<mapsto> cs')) (pair_key c' x'))
      \<and> distinct (map wc_CredentialID (map_get [] ((m_webauthn m)(pair_key c x \<mapsto> cs')) (pair_key c' x')))" if "no_sep x'" for c' x'
    using that assms(1,2) d cs'(2) cs(1)
    by (auto simp: owned_creds_change [OF w(1-3) assms(7)] pair_key_inject simulates_def)
  with assms(1) show "simulates v' (snd (mem_UpdateWebAuthnSignCount c x cid k m))"
    by (simp add: simulates_def m' assms(7))
qed

lemma sim_sign_absent:
  assumes "simulates v m" and "no_sep x"
    and "\<forall>w \<in># vw_creds v. \<not> (wd_ClientID w = c \<and> wd_Context w = x \<and> wd_CredentialID w = cid)"
  shows "mem_UpdateWebAuthnSignCount c x cid k m = (Err Credential_not_found, m)"
proof -
  have "owned_creds v c x = mset (map_get [] (m_webauthn m) (pair_key c x))" using assms(1,2) by (simp add: simulates_def)
  then have "set (map_get [] (m_webauthn m) (pair_key c x)) = set_mset (owned_creds v c x)" by simp
  with assms(3) have "set_sign_count cid k (map_get [] (m_webauthn m) (pair_key c x)) = None"
    by (auto simp: set_sign_count_None owned_creds_def doc_cred_def)
  then show ?thesis by (simp add: mem_UpdateWebAuthnSignCount_def Let_def)
qed

section \<open>Every call keeps the stores together\<close>

definition related ::
  "('d \<Rightarrow> contents) \<Rightarrow> ('d \<Rightarrow> collection \<Rightarrow> string list set) \<Rightarrow> MongoDBStore \<Rightarrow> 'd \<Rightarrow> MemoryStore \<Rightarrow> bool"
where
  "related docs uniq s d m \<longleftrightarrow> mongo_inv s (docs d) \<and> indexes_ok s (uniq d) \<and> wf_mem m \<and> simulates (view s (docs d)) m"

lemma wf_run_call: "wf_mem m \<Longrightarrow> wf_mem (snd (run_call memory_ops c m))"
  using wf_mem_Allocate wf_mem_SetStatus
  by (cases c) (simp_all add: memory_ops_def, simp_all add: mem_defs wf_mem_def Let_def split: option.splits)

lemma relatedI:
  assumes "related docs uniq s d m" and "kept docs uniq s d d'" and "wf_mem m'" and "simulates (view s (docs d')) m'"
  shows "related docs uniq s d' m'"
  using assms by (simp add: related_def kept_def)

lemma step_reads:
  assumes H: "mongo_healthy lib docs uniq" and R: "related docs uniq s d m"
  shows "answer_of A_Byte (mongo_GetStatus lib s cat i d) = answer_of A_Byte (mem_GetStatus cat i m)"
    and "answer_of (\<lambda>es. A_Statuses (map_of es)) (mongo_GetAllStatuses lib s cat d) =
      answer_of (\<lambda>es. A_Statuses (map_of es)) (mem_GetAllStatuses cat m)"
    and "no_sep cat \<Longrightarrow> answer_of (\<lambda>is. A_Ints (mset is)) (mongo_GetClientIndices lib s c cat d) =
      answer_of (\<lambda>is. A_Ints (mset is)) (mem_GetClientIndices c cat m)"
    and "answer_of A_Bool (mongo_IsUsed lib s cat i d) = answer_of A_Bool (mem_IsUsed cat i m)"
    and "answer_of A_Key (mongo_GetPublicKey lib s kid d) = answer_of A_Key (mem_GetPublicKey kid m)"
    and "answer_of (\<lambda>ks. A_Keys (mset ks)) (mongo_ListPublicKeys lib s c d) =
      answer_of (\<lambda>ks. A_Keys (mset ks)) (mem_ListPublicKeys c m)"
    and "no_sep x \<Longrightarrow> answer_of A_Bytes (mongo_GetRecord lib s c x d) = answer_of A_Bytes (mem_GetRecord c x m)"
    and "no_sep x \<Longrightarrow> answer_of (\<lambda>cs. A_Creds (mset cs)) (mongo_GetWebAuthnCredential lib s c x d) =
      answer_of (\<lambda>cs. A_Creds (mset cs)) (mem_GetWebAuthnCredential c x m)"
proof -
  let ?v = "view s (docs d)"
  note S = healthy_sound [OF H]
  have I: "mongo_inv s (docs d)" and sim: "simulates ?v m" using R by (simp_all add: related_def)
  note A = healthy_answered [OF H I]
  have e: "view_entry ?v = mem_entry m" using sim by (simp add: simulates_def)
  show "answer_of A_Byte (mongo_GetStatus lib s cat i d) = answer_of A_Byte (mem_GetStatus cat i m)"
    using GetStatus_answer [OF S I A(1), of cat i]
    by (auto simp: e answer_of_def mem_GetStatus_def mem_entry_def map_get_def split: option.splits)
  show "answer_of (\<lambda>es. A_Statuses (map_of es)) (mongo_GetAllStatuses lib s cat d) =
      answer_of (\<lambda>es. A_Statuses (map_of es)) (mem_GetAllStatuses cat m)"
    using GetAllStatuses_answer [OF S I A(2), of cat]
    by (auto simp: e answer_of_def mem_GetAllStatuses_def mem_entry_def map_get_def fun_eq_iff split: option.splits)
  show "answer_of (\<lambda>is. A_Ints (mset is)) (mongo_GetClientIndices lib s c cat d) =
      answer_of (\<lambda>is. A_Ints (mset is)) (mem_GetClientIndices c cat m)" if "no_sep cat"
    using GetClientIndices_answer [OF S I A(3), of c cat] sim that
    by (auto simp: answer_of_def mem_GetClientIndices_def simulates_def mem_owned_def)
  show "answer_of A_Bool (mongo_IsUsed lib s cat i d) = answer_of A_Bool (mem_IsUsed cat i m)"
    using IsUsed_answer [OF S A(4), of cat i] sim by (simp add: answer_of_def mem_IsUsed_def simulates_def)
  have k: "key_list_ok (m_publicKeys m)" "vw_keys ?v = mset (map snd (m_publicKeys m))" using sim by (simp_all add: simulates_def)
  show "answer_of A_Key (mongo_GetPublicKey lib s kid d) = answer_of A_Key (mem_GetPublicKey kid m)"
    using GetPublicKey_answer [OF S I A(5), of kid]
  proof
    assume "\<exists>k \<in># vw_keys ?v. pk_Kid k = kid \<and> mongo_GetPublicKey lib s kid d = Ok k"
    then obtain p where p: "p \<in> set (m_publicKeys m)" "pk_Kid (snd p) = kid" "mongo_GetPublicKey lib s kid d = Ok (snd p)"
      by (auto simp: k(2))
    with k(1) have "map_of (m_publicKeys m) kid = Some (snd p)" by (auto simp: key_list_ok_def intro!: map_of_is_SomeI)
    with p(3) show ?thesis by (simp add: mem_GetPublicKey_def answer_of_def)
  next
    assume a: "(\<forall>k \<in># vw_keys ?v. pk_Kid k \<noteq> kid) \<and> mongo_GetPublicKey lib s kid d = Err (Key_not_found kid)"
    with k have "map_of (m_publicKeys m) kid = None" by (force simp: map_of_eq_None_iff key_list_ok_def)
    with a show ?thesis by (simp add: mem_GetPublicKey_def answer_of_def)
  qed
  show "answer_of (\<lambda>ks. A_Keys (mset ks)) (mongo_ListPublicKeys lib s c d) =
      answer_of (\<lambda>ks. A_Keys (mset ks)) (mem_ListPublicKeys c m)"
    using ListPublicKeys_answer [OF S I A(6), of c] by (auto simp: k(2) answer_of_def mem_ListPublicKeys_def)
  show "answer_of A_Bytes (mongo_GetRecord lib s c x d) = answer_of A_Bytes (mem_GetRecord c x m)" if x: "no_sep x"
  proof -
    have r: "\<lparr>ord_ClientID = c, ord_Context = x, ord_Record = b\<rparr> \<in># vw_records ?v \<longleftrightarrow> m_records m (pair_key c x) = Some b" for b
      using sim x by (simp add: simulates_def)
    have eta: "record_owner y = (c, x) \<Longrightarrow> y = \<lparr>ord_ClientID = c, ord_Context = x, ord_Record = ord_Record y\<rparr>" for y :: opaqueRecordDoc
      by auto
    show ?thesis
      using GetRecord_answer [OF S I A(7), of c x]
    proof
      assume "\<exists>y \<in># vw_records ?v. record_owner y = (c, x) \<and> mongo_GetRecord lib s c x d = Ok (ord_Record y)"
      then obtain y where y: "y \<in># vw_records ?v" "record_owner y = (c, x)" "mongo_GetRecord lib s c x d = Ok (ord_Record y)"
        by blast
      then have "m_records m (pair_key c x) = Some (ord_Record y)" using r [of "ord_Record y"] eta [of y] by simp
      with y(3) show ?thesis by (simp add: mem_GetRecord_def answer_of_def)
    next
      assume a: "(\<forall>y \<in># vw_records ?v. record_owner y \<noteq> (c, x)) \<and> mongo_GetRecord lib s c x d = Err (No_record c x)"
      have "m_records m (pair_key c x) \<noteq> Some b" for b
        using a r [of b] by (metis opaqueRecordDoc.select_convs(1,2))
      then have "m_records m (pair_key c x) = None" by (metis not_None_eq)
      with a show ?thesis by (simp add: mem_GetRecord_def answer_of_def)
    qed
  qed
  show "answer_of (\<lambda>cs. A_Creds (mset cs)) (mongo_GetWebAuthnCredential lib s c x d) =
      answer_of (\<lambda>cs. A_Creds (mset cs)) (mem_GetWebAuthnCredential c x m)" if x: "no_sep x"
  proof -
    obtain ws where ws: "mset ws = {#w \<in># vw_creds ?v. wd_ClientID w = c \<and> wd_Context w = x#}"
      "mongo_GetWebAuthnCredential lib s c x d = (if ws = [] then Err (No_webauthn_credentials c x) else Ok (map doc_cred ws))"
      using GetWebAuthnCredential_answer [OF S I A(8), of c x] by auto
    have "mset (map doc_cred ws) = mset (map_get [] (m_webauthn m) (pair_key c x))"
      using sim x ws(1) by (simp add: simulates_def owned_creds_def)
    moreover from this have "ws = [] \<longleftrightarrow> map_get [] (m_webauthn m) (pair_key c x) = []" by (auto simp del: mset_map)
    ultimately show ?thesis by (auto simp: ws(2) mem_GetWebAuthnCredential_def answer_of_def)
  qed
qed

lemma step_writes:
  fixes db
  defines "s \<equiv> mongo_collections db"
  assumes H: "mongo_healthy lib docs uniq" and R: "related docs uniq s d m" and C: "call_ok m c"
    and w: "c = C_Allocate cat \<or> c = C_SetStatus cat i b \<or> c = C_RecordWUA cl cat i \<or> c = C_RecordUsage cat i
      \<or> c = C_PutKey key \<or> c = C_PutRecord cl x r \<or> c = C_PutCred cl x cr \<or> c = C_SignCount cl x cid n"
  shows "fst (run_call (mongo_ops q lib s) c d) = fst (run_call memory_ops c m)
     \<and> related docs uniq s (snd (run_call (mongo_ops q lib s) c d)) (snd (run_call memory_ops c m))"
proof -
  let ?v = "view s (docs d)"
  note S = healthy_sound [OF H]
  have I: "mongo_inv s (docs d)" and U: "indexes_ok s (uniq d)" and wf: "wf_mem m" and sim: "simulates ?v m"
    using R by (simp_all add: related_def)
  have ok: "view_ok ?v" using I by (simp add: mongo_inv_def)
  note W = healthy_writes [OF H I [unfolded s_def] U [unfolded s_def], folded s_def]
  have goal: "fst (run_call (mongo_ops q lib s) c d) = fst (run_call memory_ops c m)
     \<and> related docs uniq s (snd (run_call (mongo_ops q lib s) c d)) (snd (run_call memory_ops c m))"
    if "run_call (mongo_ops q lib s) c d = (a, d')" "kept docs uniq s d d'" "fst (run_call memory_ops c m) = a"
      "simulates (view s (docs d')) (snd (run_call memory_ops c m))" for a d'
    using that relatedI [OF R that(2) wf_run_call [OF wf] that(4)] by simp
  have okk: "view_ok (view s (docs d'))" if "kept docs uniq s d d'" for d' using that by (simp add: kept_def mongo_inv_def)
  from w show ?thesis
  proof (elim disjE)
    assume c: "c = C_Allocate cat"
    obtain r d' where op: "mongo_AllocateIndex q lib s cat d = (r, d')" by force
    note e = AllocateIndex_effect [OF S I [unfolded s_def] op [unfolded s_def], folded s_def]
    have "vw_counter ?v cat < max_int64" using C sim by (simp add: c simulates_def)
    with W(1) op obtain j where r: "r = Ok j" by (metis fst_conv)
    note v = e(3) [OF r]
    have v': "view s (docs d') = ?v\<lparr>vw_counter := (vw_counter ?v)(cat := vw_counter ?v cat + 1),
        vw_statuses := add_mset \<lparr>ste_Category = cat, ste_Idx = vw_counter ?v cat, ste_Status = StatusValid\<rparr> (vw_statuses ?v)\<rparr>"
      using v by simp
    note st = sim_allocate [OF sim wf ok okk [OF e(1)] v']
    show ?thesis
      by (rule goal [OF _ e(1)]) (use op r v st in \<open>simp_all add: c mongo_ops_def memory_ops_def answer_of_def\<close>)
  next
    assume c: "c = C_SetStatus cat i b"
    obtain r d' where op: "mongo_SetStatus lib s cat i b d = (r, d')" by force
    note e = SetStatus_effect [OF S I [unfolded s_def] op [unfolded s_def], folded s_def]
    have k: "kept docs uniq s d d'" using e by blast
    have "r = Ok () \<or> r = Err (Index_not_found i cat)" using W(2) [of cat i b] op by auto
    then show ?thesis
    proof
      assume r: "r = Ok ()"
      then obtain en where en: "en \<in># vw_statuses ?v" "entry_key en = (cat, i)"
        "view s (docs d') = ?v\<lparr>vw_statuses := add_mset (en\<lparr>ste_Status := b\<rparr>) (vw_statuses ?v - {#en#})\<rparr>"
        using e by blast
      note st = sim_set_status [OF sim ok okk [OF k] en]
      show ?thesis
        by (rule goal [OF _ k]) (use op r st in \<open>simp_all add: c mongo_ops_def memory_ops_def answer_of_def\<close>)
    next
      assume r: "r = Err (Index_not_found i cat)"
      then have n: "docs d' = docs d" "view_entry ?v cat i = None" using e by (simp_all add: view_entry_None)
      obtain r2 m2 where m2: "mem_SetStatus cat i b m = (r2, m2)" by force
      have "mem_entry m cat i = None" using n(2) sim by (simp add: simulates_def)
      with mem_SetStatus_eq(1,2) [OF m2] have "r2 \<noteq> Ok ()" "m2 = m" by blast+
      moreover have "r2 \<noteq> Panic" using m2 by (auto simp: mem_SetStatus_def split: option.splits)
      ultimately show ?thesis
        by (intro goal [OF _ k]) (use op r m2 n sim in \<open>auto simp: c mongo_ops_def memory_ops_def answer_of_def split: res.splits\<close>)
    qed
  next
    assume c: "c = C_RecordWUA cl cat i"
    obtain r d' where op: "mongo_RecordWUA lib s cl cat i d = (r, d')" by force
    note e = RecordWUA_effect [OF S I [unfolded s_def] op [unfolded s_def], folded s_def]
    have r: "r = Ok ()" using W(3) [of cl cat i] op by simp
    have k: "kept docs uniq s d d'" and v: "view s (docs d') = ?v\<lparr>vw_indices := add_mset \<lparr>cie_ClientID = cl, cie_Category = cat, cie_Idx = i\<rparr> (vw_indices ?v)\<rparr>"
      using e r by blast+
    have "no_sep cat" using C by (simp add: c)
    note st = sim_wua [OF sim this v]
    show ?thesis
      by (rule goal [OF _ k]) (use op r st in \<open>simp_all add: c mongo_ops_def memory_ops_def answer_of_def mem_RecordWUA_def Let_def\<close>)
  next
    assume c: "c = C_RecordUsage cat i"
    obtain r d' where op: "mongo_RecordUsage lib s cat i d = (r, d')" by force
    have "uniq d (ms_usage s) \<subseteq> {[''category'', ''idx'']}" using U by (simp add: indexes_ok_def)
    note e = RecordUsage_effect [OF S I [unfolded s_def] this [unfolded s_def] op [unfolded s_def], folded s_def]
    have r: "r = Ok ()" using W(4) [of cat i] op by simp
    have k: "kept docs uniq s d d'" and v: "view s (docs d') = ?v\<lparr>vw_used := \<lambda>c j. (c, j) = (cat, i) \<or> vw_used ?v c j\<rparr>"
      using e r by blast+
    note st = sim_usage [OF sim v]
    show ?thesis
      by (rule goal [OF _ k]) (use op r st in \<open>simp_all add: c mongo_ops_def memory_ops_def answer_of_def mem_RecordUsage_def\<close>)
  next
    assume c: "c = C_PutKey key"
    obtain r d' where op: "mongo_PutPublicKey lib s key d = (r, d')" by force
    note e = PutPublicKey_effect [OF S I [unfolded s_def] op [unfolded s_def], folded s_def]
    have r: "r = Ok ()" using W(5) [of key] op by simp
    have k: "kept docs uniq s d d'" and v: "view s (docs d') = ?v\<lparr>vw_keys := put_entry_mset (\<lambda>k. pk_Kid k = pk_Kid key) key (vw_keys ?v)\<rparr>"
      using e r by blast+
    note st = sim_key [OF sim v]
    show ?thesis
      by (rule goal [OF _ k]) (use op r st in \<open>simp_all add: c mongo_ops_def memory_ops_def answer_of_def mem_PutPublicKey_def\<close>)
  next
    assume c: "c = C_PutRecord cl x r"
    obtain rr d' where op: "mongo_PutRecord lib s cl x r d = (rr, d')" by force
    note e = PutRecord_effect [OF S I [unfolded s_def] op [unfolded s_def], folded s_def]
    have rr: "rr = Ok ()" using W(6) [of cl x r] op by simp
    have k: "kept docs uniq s d d'" and v: "view s (docs d') = ?v\<lparr>vw_records := put_entry_mset (\<lambda>y. record_owner y = (cl, x))
        \<lparr>ord_ClientID = cl, ord_Context = x, ord_Record = r\<rparr> (vw_records ?v)\<rparr>"
      using e rr by blast+
    have "no_sep x" using C by (simp add: c)
    note st = sim_record [OF sim this v]
    show ?thesis
      by (rule goal [OF _ k]) (use op rr st in \<open>simp_all add: c mongo_ops_def memory_ops_def answer_of_def mem_PutRecord_def\<close>)
  next
    assume c: "c = C_PutCred cl x cr"
    obtain r d' where op: "mongo_PutWebAuthnCredential lib s cl x cr d = (r, d')" by force
    note e = PutWebAuthnCredential_effect [OF S I [unfolded s_def] op [unfolded s_def], folded s_def]
    have r: "r = Ok ()" using W(7) [of cl x cr] op by simp
    have k: "kept docs uniq s d d'" and v: "view s (docs d') = ?v\<lparr>vw_creds := add_mset (cred_doc cl x cr) (vw_creds ?v)\<rparr>"
      using e r by blast+
    note st = sim_cred [OF sim C [unfolded c] v]
    show ?thesis
      by (rule goal [OF _ k]) (use op r st in \<open>simp_all add: c mongo_ops_def memory_ops_def answer_of_def mem_PutWebAuthnCredential_def Let_def\<close>)
  next
    assume c: "c = C_SignCount cl x cid n"
    obtain r d' where op: "mongo_UpdateWebAuthnSignCount lib s cl x cid n d = (r, d')" by force
    note e = UpdateSignCount_effect [OF S I [unfolded s_def] op [unfolded s_def], folded s_def]
    have k: "kept docs uniq s d d'" using e by blast
    have x: "no_sep x" using C by (simp add: c)
    have "r = Ok () \<or> r = Err Credential_not_found" using W(8) [of cl x cid n] op by auto
    then show ?thesis
    proof
      assume r: "r = Ok ()"
      then obtain w where w: "w \<in># vw_creds ?v" "wd_ClientID w = cl" "wd_Context w = x" "wd_CredentialID w = cid"
        "view s (docs d') = ?v\<lparr>vw_creds := add_mset (w\<lparr>wd_SignCount := n\<rparr>) (vw_creds ?v - {#w#})\<rparr>"
        using e by blast
      note st = sim_sign [OF sim x w]
      show ?thesis
        by (rule goal [OF _ k]) (use op r st in \<open>simp_all add: c mongo_ops_def memory_ops_def answer_of_def\<close>)
    next
      assume r: "r = Err Credential_not_found"
      then have n: "docs d' = docs d" "\<forall>w \<in># vw_creds ?v. \<not> (wd_ClientID w = cl \<and> wd_Context w = x \<and> wd_CredentialID w = cid)"
        using e by simp_all
      note st = sim_sign_absent [OF sim x n(2)]
      show ?thesis
        by (rule goal [OF _ k]) (use op r st n sim in \<open>simp_all add: c mongo_ops_def memory_ops_def answer_of_def\<close>)
    qed
  qed
qed

lemma step_related:
  fixes db
  defines "s \<equiv> mongo_collections db"
  assumes H: "mongo_healthy lib docs uniq" and R: "related docs uniq s d m" and C: "call_ok m c"
  shows "fst (run_call (mongo_ops q lib s) c d) = fst (run_call memory_ops c m)
     \<and> related docs uniq s (snd (run_call (mongo_ops q lib s) c d)) (snd (run_call memory_ops c m))"
proof -
  note reads = step_reads [OF H R]
  note writes = step_writes [OF H R [unfolded s_def] C, folded s_def]
  show ?thesis
  proof (cases c)
    case C_GetStatus with reads R show ?thesis by (simp add: mongo_ops_def memory_ops_def)
  next case C_GetAll with reads R show ?thesis by (simp add: mongo_ops_def memory_ops_def)
  next case C_GetIndices with reads R C show ?thesis by (simp add: mongo_ops_def memory_ops_def)
  next case C_IsUsed with reads R show ?thesis by (simp add: mongo_ops_def memory_ops_def)
  next case C_GetKey with reads R show ?thesis by (simp add: mongo_ops_def memory_ops_def)
  next case C_ListKeys with reads R show ?thesis by (simp add: mongo_ops_def memory_ops_def)
  next case C_GetRecord with reads R C show ?thesis by (simp add: mongo_ops_def memory_ops_def)
  next case C_GetCreds with reads R C show ?thesis by (simp add: mongo_ops_def memory_ops_def)
  qed (rule writes; simp)+
qed

lemma calls_related:
  fixes db
  defines "s \<equiv> mongo_collections db"
  assumes H: "mongo_healthy lib docs uniq"
  shows "related docs uniq s d m \<Longrightarrow> calls_ok m cs \<Longrightarrow> run_calls (mongo_ops q lib s) cs d = run_calls memory_ops cs m"
proof (induction cs arbitrary: d m)
  case (Cons c cs)
  then have "call_ok m c" "calls_ok (snd (run_call memory_ops c m)) cs" by simp_all
  with step_related [OF H Cons.prems(1) [unfolded s_def] this(1), folded s_def, of q] Cons.IH
  show ?case by (simp add: case_prod_beta Let_def)
qed simp

end
