(* ===== verification/Mongo_Example.thy ===== *)
theory Mongo_Example
  imports Mongo_Driver
begin

text \<open>
  A small database that behaves as \<open>mongo_healthy\<close> asks: every collection is the list of its documents, in the
  order they were stored, with the list of its unique indexes. It shows that the hypotheses on the driver can
  hold; nothing is proved of the store for this database alone.
\<close>

record small_db =
  sd_docs :: "collection \<Rightarrow> document list"
  sd_uniq :: "collection \<Rightarrow> string list list"

definition empty_db :: small_db where "empty_db = \<lparr>sd_docs = \<lambda>_. [], sd_uniq = \<lambda>_. []\<rparr>"

definition small_docs :: "small_db \<Rightarrow> collection \<Rightarrow> document multiset" where
  "small_docs d c = mset (sd_docs d c)"

definition small_uniq :: "small_db \<Rightarrow> collection \<Rightarrow> string list set" where
  "small_uniq d c = set (sd_uniq d c)"

definition small_put :: "small_db \<Rightarrow> collection \<Rightarrow> document list \<Rightarrow> small_db" where
  "small_put d c xs = d\<lparr>sd_docs := (sd_docs d)(c := xs)\<rparr>"

definition small_clash :: "small_db \<Rightarrow> collection \<Rightarrow> document \<Rightarrow> document list \<Rightarrow> bool" where
  "small_clash d c x xs \<longleftrightarrow> list_ex (\<lambda>ks. list_ex (\<lambda>y. map (map_of y) ks = map (map_of x) ks) xs) (sd_uniq d c)"

definition small_insert :: "collection \<Rightarrow> document \<Rightarrow> small_db \<Rightarrow> mongo_error option \<times> small_db" where
  "small_insert c x d =
     (if small_clash d c x (sd_docs d c) then (Some (Duplicate_key ''E11000 duplicate key error''), d)
      else (None, small_put d c (sd_docs d c @ [x])))"

text \<open>An update that would change a field of a unique index is refused altogether.\<close>

definition small_update :: "collection \<Rightarrow> document \<Rightarrow> document \<Rightarrow> small_db \<Rightarrow> (mongo_error + int) \<times> small_db" where
  "small_update c f u d =
     (case map_of u ''$set'' of
        Some (B_doc kvs) \<Rightarrow>
          if list_ex (list_ex (\<lambda>k. k \<in> fst ` set kvs)) (sd_uniq d c) then (Inl (Mongo_failure ''unique field''), d)
          else (case List.extract (matches f) (sd_docs d c) of
                  None \<Rightarrow> (Inr 0, d)
                | Some (ys, a, zs) \<Rightarrow> (Inr 1, small_put d c (ys @ set_fields kvs a # zs)))
      | _ \<Rightarrow> (Inl (Mongo_failure ''unknown update''), d))"

definition small_replace :: "collection \<Rightarrow> document \<Rightarrow> document \<Rightarrow> small_db \<Rightarrow> mongo_error option \<times> small_db" where
  "small_replace c f x d =
     (case List.extract (matches f) (sd_docs d c) of
        None \<Rightarrow> small_insert c x d
      | Some (ys, a, zs) \<Rightarrow>
          if small_clash d c x (ys @ zs) then (Some (Duplicate_key ''E11000 duplicate key error''), d)
          else (None, small_put d c (ys @ x # zs)))"

definition small_inc :: "collection \<Rightarrow> document \<Rightarrow> document \<Rightarrow> small_db \<Rightarrow> (mongo_error + document) \<times> small_db" where
  "small_inc c f u d =
     (case map_of u ''$inc'' of
        Some (B_doc [(k, B_int n)]) \<Rightarrow>
          (case List.extract (matches f) (sd_docs d c) of
             None \<Rightarrow> let y = f @ [(k, B_int n)] in (Inr y, small_put d c (sd_docs d c @ [y]))
           | Some (ys, a, zs) \<Rightarrow>
               (case inc_field k n a of
                  None \<Rightarrow> (Inl (Mongo_failure ''cannot increment''), d)
                | Some y \<Rightarrow> (Inr y, small_put d c (ys @ y # zs))))
      | _ \<Rightarrow> (Inl (Mongo_failure ''unknown update''), d))"

definition small_mongo :: "small_db mongo_lib" where
  "small_mongo =
     \<lparr>mg_Connect = \<lambda>_ d. (None, d), mg_Ping = \<lambda>_. None, mg_Disconnect = \<lambda>d. (None, d),
      mg_CreateIndex = (\<lambda>c ks u d.
        (None, if u then d\<lparr>sd_uniq := (sd_uniq d)(c := map fst ks # sd_uniq d c)\<rparr> else d)),
      mg_FindOneAndUpdate = small_inc, mg_InsertOne = small_insert,
      mg_FindOne = (\<lambda>c f d. case find (matches f) (sd_docs d c) of None \<Rightarrow> Inl No_documents | Some x \<Rightarrow> Inr x),
      mg_UpdateOne = small_update, mg_ReplaceOne = small_replace,
      mg_Find = (\<lambda>c f d. Inr (filter (matches f) (sd_docs d c), None)),
      mg_Now = \<lambda>_. 0, mg_DecodeError = \<lambda>_. ''error decoding key''\<rparr>"

lemma small_calls:
  "mg_Connect small_mongo opts d = (None, d)" "mg_Ping small_mongo d = None" "mg_InsertOne small_mongo = small_insert"
  "mg_UpdateOne small_mongo = small_update" "mg_ReplaceOne small_mongo = small_replace" "mg_FindOneAndUpdate small_mongo = small_inc"
  "mg_FindOne small_mongo c f d = (case find (matches f) (sd_docs d c) of None \<Rightarrow> Inl No_documents | Some x \<Rightarrow> Inr x)"
  "mg_Find small_mongo c f d = Inr (filter (matches f) (sd_docs d c), None)"
  "mg_CreateIndex small_mongo c ks u d = (None, if u then d\<lparr>sd_uniq := (sd_uniq d)(c := map fst ks # sd_uniq d c)\<rparr> else d)"
  "mg_Now small_mongo d = 0"
  by (simp_all add: small_mongo_def)

section \<open>It behaves as documented\<close>

lemma small_clash_iff: "small_clash d c x xs \<longleftrightarrow> clash (small_uniq d c) x (mset xs)"
  by (simp add: small_clash_def clash_def small_uniq_def list_ex_iff)

lemma small_put_docs [simp]:
  "small_docs (small_put d c xs) = (small_docs d)(c := mset xs)" "small_uniq (small_put d c xs) = small_uniq d"
  by (simp_all add: small_docs_def small_uniq_def small_put_def fun_eq_iff)

lemma writes_put: "P (small_docs d c) (mset xs) \<Longrightarrow> writes small_docs small_uniq c P d (small_put d c xs)"
  by (simp add: writes_def)

lemma writes_same: "P (small_docs d c) (small_docs d c) \<Longrightarrow> writes small_docs small_uniq c P d d"
  by (simp add: writes_def)

lemma extract_none: "List.extract (matches f) (sd_docs d c) = None \<Longrightarrow> none_match f (small_docs d c)"
  by (simp add: none_match_def small_docs_def extract_None_iff)

lemma extract_one:
  assumes "List.extract (matches f) (sd_docs d c) = Some (ys, a, zs)"
  shows "matches f a" "small_docs d c = add_mset a (mset ys + mset zs)"
    and "g a = Some b \<Longrightarrow> one_changed f g (small_docs d c) (mset (ys @ b # zs))"
  using assms by (auto simp: extract_Some_iff small_docs_def one_changed_def intro!: bexI [of _ a])

lemma small_insert_sound: "small_insert c x d = (r, d') \<Longrightarrow> writes small_docs small_uniq c (inserted (small_uniq d c) x r) d d'"
  by (auto simp: small_insert_def small_clash_iff inserted_def small_docs_def [symmetric] split: if_splits
      intro!: writes_put writes_same)

lemma small_update_sound:
  assumes "small_update c f [(''$set'', B_doc kvs)] d = (r, d')"
  shows "writes small_docs small_uniq c (updated f kvs r) d d'"
proof (cases "List.extract (matches f) (sd_docs d c)")
  case None
  with assms extract_none [OF None] show ?thesis
    by (auto simp: small_update_def updated_def split: if_splits intro!: writes_same)
next
  case (Some p)
  obtain ys a zs where p: "p = (ys, a, zs)" by (cases p) auto
  with assms Some extract_one(3) [of f d c ys a zs "\<lambda>a. Some (set_fields kvs a)"] show ?thesis
    by (auto simp: small_update_def updated_def split: if_splits intro!: writes_put writes_same)
qed

lemma small_replace_sound:
  assumes "small_replace c f x d = (r, d')"
  shows "writes small_docs small_uniq c (replaced f x r) d d'"
proof (cases "List.extract (matches f) (sd_docs d c)")
  case None
  with assms extract_none [OF None] show ?thesis
    by (auto simp: small_replace_def small_insert_def replaced_def small_docs_def [symmetric] split: if_splits
        intro!: writes_put writes_same)
next
  case (Some p)
  obtain ys a zs where p: "p = (ys, a, zs)" by (cases p) auto
  with assms Some extract_one(3) [of f d c ys a zs "\<lambda>_. Some x"] show ?thesis
    by (auto simp: small_replace_def replaced_def Let_def split: if_splits intro!: writes_put writes_same)
qed

lemma small_inc_sound:
  assumes "small_inc c f [(''$inc'', B_doc [(k, B_int n)])] d = (r, d')"
  shows "writes small_docs small_uniq c (incremented f k n r) d d'"
proof (cases "List.extract (matches f) (sd_docs d c)")
  case None
  with assms extract_none [OF None] show ?thesis
    by (auto simp: small_inc_def incremented_def inc_done_def Let_def small_docs_def [symmetric] intro!: writes_put)
next
  case (Some p)
  obtain ys a zs where p: "p = (ys, a, zs)" by (cases p) auto
  with assms Some extract_one(3) [of f d c ys a zs "\<lambda>a. if inc_field k n a = Some y then Some y else None" for y] show ?thesis
    by (auto simp: small_inc_def incremented_def inc_done_def split: option.splits intro!: writes_put writes_same)
qed

lemma small_find:
  "mg_FindOne small_mongo c f d = Inr x \<Longrightarrow> x \<in># small_docs d c \<and> matches f x"
  "mg_FindOne small_mongo c f d = Inl e \<Longrightarrow> e = No_documents \<and> none_match f (small_docs d c)"
  by (auto simp: small_calls small_docs_def none_match_def find_Some_iff find_None_iff split: option.splits)

lemma small_sound: "mongo_sound small_mongo small_docs small_uniq"
  unfolding mongo_sound_def
proof (intro conjI allI impI)
  fix c x d r d'
  assume "mg_InsertOne small_mongo c x d = (r, d')"
  then show "writes small_docs small_uniq c (inserted (small_uniq d c) x r) d d'"
    by (intro small_insert_sound) (simp add: small_calls)
next
  fix c f kvs d r d'
  assume "mg_UpdateOne small_mongo c f [(''$set'', B_doc kvs)] d = (r, d')"
  then show "writes small_docs small_uniq c (updated f kvs r) d d'"
    by (intro small_update_sound) (simp add: small_calls)
next
  fix c f x d r d'
  assume "mg_ReplaceOne small_mongo c f x d = (r, d')"
  then show "writes small_docs small_uniq c (replaced f x r) d d'"
    by (intro small_replace_sound) (simp add: small_calls)
next
  fix c f k n d r d'
  assume "mg_FindOneAndUpdate small_mongo c f [(''$inc'', B_doc [(k, B_int n)])] d = (r, d')"
  then show "writes small_docs small_uniq c (incremented f k n r) d d'"
    by (intro small_inc_sound) (simp add: small_calls)
next
  fix c f d x
  assume "mg_FindOne small_mongo c f d = Inr x"
  then show "x \<in># small_docs d c" "matches f x" using small_find(1) by blast+
next
  fix c f d
  assume "mg_FindOne small_mongo c f d = Inl No_documents"
  then show "none_match f (small_docs d c)" using small_find(2) by blast
next
  fix c f d xs
  assume "mg_Find small_mongo c f d = Inr (xs, None)"
  then show "mset xs = filter_mset (matches f) (small_docs d c)" by (auto simp: small_calls small_docs_def)
next
  fix c u and ks :: document and d r d'
  assume i: "mg_CreateIndex small_mongo c ks u d = (r, d')"
  then show "small_docs d' = small_docs d" by (auto simp: small_calls small_docs_def fun_eq_iff)
  have "small_uniq (d\<lparr>sd_uniq := (sd_uniq d)(c := map fst ks # sd_uniq d c)\<rparr>) = (small_uniq d)(c := insert (map fst ks) (small_uniq d c))"
    by (simp add: small_uniq_def fun_eq_iff)
  with i show "small_uniq d' = small_uniq d \<and> (r = None \<longrightarrow> \<not> u) \<or> u \<and> small_uniq d' = (small_uniq d)(c := insert (map fst ks) (small_uniq d c))"
    by (cases u) (simp_all add: small_calls)
next
  fix opts d r d'
  assume "mg_Connect small_mongo opts d = (r, d')"
  then show "small_docs d' = small_docs d" "small_uniq d' = small_uniq d" by (simp_all add: small_calls)
qed

lemma small_healthy: "mongo_healthy small_mongo small_docs small_uniq"
  unfolding mongo_healthy_def
proof (intro conjI allI impI)
  show "mongo_sound small_mongo small_docs small_uniq" by (rule small_sound)
next
  fix c x d
  assume "\<not> clash (small_uniq d c) x (small_docs d c)"
  then show "fst (mg_InsertOne small_mongo c x d) = None"
    by (simp add: small_calls small_insert_def small_clash_iff small_docs_def)
next
  fix c x d e
  assume "fst (mg_InsertOne small_mongo c x d) = Some e"
  then show "\<exists>m. e = Duplicate_key m" by (auto simp: small_calls small_insert_def split: if_splits)
next
  fix c f and kvs :: document and d
  assume "\<forall>ks \<in> small_uniq d c. set ks \<inter> fst ` set kvs = {}"
  then have "\<not> list_ex (list_ex (\<lambda>k. k \<in> fst ` set kvs)) (sd_uniq d c)" by (auto simp: small_uniq_def list_ex_iff)
  then show "\<exists>n. fst (mg_UpdateOne small_mongo c f [(''$set'', B_doc kvs)] d) = Inr n"
    by (auto simp: small_calls small_update_def split: option.split)
next
  fix c f x d
  assume r: "(none_match f (small_docs d c) \<longrightarrow> \<not> clash (small_uniq d c) x (small_docs d c))
      \<and> (\<forall>a \<in># small_docs d c. matches f a \<longrightarrow> \<not> clash (small_uniq d c) x (small_docs d c - {#a#}))"
  show "fst (mg_ReplaceOne small_mongo c f x d) = None"
  proof (cases "List.extract (matches f) (sd_docs d c)")
    case None
    with r extract_none [OF None] show ?thesis
      by (simp add: small_calls small_replace_def small_insert_def small_clash_iff small_docs_def)
  next
    case (Some p)
    obtain ys a zs where p: "p = (ys, a, zs)" by (cases p) auto
    with r Some extract_one(1,2) [of f d c ys a zs] show ?thesis
      by (simp add: small_calls small_replace_def small_clash_iff)
  qed
next
  fix c f k n d
  assume a: "small_uniq d c = {} \<and> (\<forall>a \<in># small_docs d c. matches f a \<longrightarrow> inc_field k n a \<noteq> None)"
  show "\<exists>y. fst (mg_FindOneAndUpdate small_mongo c f [(''$inc'', B_doc [(k, B_int n)])] d) = Inr y"
  proof (cases "List.extract (matches f) (sd_docs d c)")
    case None
    then show ?thesis by (simp add: small_calls small_inc_def Let_def)
  next
    case (Some p)
    obtain ys b zs where p: "p = (ys, b, zs)" by (cases p) auto
    with a Some extract_one(1,2) [of f d c ys b zs] show ?thesis
      by (auto simp: small_calls small_inc_def)
  qed
next
  fix c f d e
  assume "mg_FindOne small_mongo c f d = Inl e"
  then show "e = No_documents" using small_find(2) by blast
next
  fix c f d
  show "\<exists>xs. mg_Find small_mongo c f d = Inr (xs, None)" by (simp add: small_calls)
qed

end
