(* ===== verification/Mongo_Properties.thy ===== *)
theory Mongo_Properties
  imports Mongo_Simulation Mongo_Example
begin

text \<open>
  What the MongoDB store promises as a whole: on a reachable database it gives the answers of the in-memory
  store; on one whose calls may fail at any time it never hands out an index twice.
\<close>

section \<open>Runs on a database that may fail\<close>

text \<open>The indices the successful allocations of a category answer, and the state after a run.\<close>

primrec allocated_by :: "'s store_ops \<Rightarrow> string \<Rightarrow> store_call list \<Rightarrow> 's \<Rightarrow> int list" where
  "allocated_by ops cat [] s = []"
| "allocated_by ops cat (c # cs) s =
     (let (a, s') = run_call ops c s in
      (if c = C_Allocate cat then (case a of A_Int i \<Rightarrow> [i] | _ \<Rightarrow> []) else []) @ allocated_by ops cat cs s')"

primrec after_calls :: "'s store_ops \<Rightarrow> store_call list \<Rightarrow> 's \<Rightarrow> 's" where
  "after_calls ops [] s = s"
| "after_calls ops (c # cs) s = after_calls ops cs (snd (run_call ops c s))"

text \<open>A database as the store leaves it, and as an empty one is.\<close>

definition intact_database :: "('d \<Rightarrow> contents) \<Rightarrow> ('d \<Rightarrow> collection \<Rightarrow> string list set) \<Rightarrow> MongoDBStore \<Rightarrow> 'd \<Rightarrow> bool" where
  "intact_database docs uniq s d \<longleftrightarrow> mongo_inv s (docs d) \<and> uniq d (ms_usage s) \<subseteq> {[''category'', ''idx'']}"

abbreviation (input) "next_index docs s d cat \<equiv> counter (docs d (ms_counters s)) cat"

lemma fresh_intact: "fresh_database docs uniq s d \<Longrightarrow> intact_database docs uniq s d"
  by (simp add: fresh_database_def intact_database_def mongo_inv_def encoded_def view_def wf_counters_def view_ok_def unique_by_def
      counter_def)

lemma new_store_shape: "NewMongoDBStore lib fs cfg d0 = (Ok s, d) \<Longrightarrow> \<exists>db. s = mongo_collections db"
  by (auto simp: NewMongoDBStore_def createIndexes_def Let_def split: res.splits prod.splits option.splits)

lemma new_store_intact:
  assumes S: "mongo_sound lib docs uniq" and new: "NewMongoDBStore lib fs cfg d0 = (Ok s, d)" and I: "intact_database docs uniq s d0"
  shows "\<exists>db. s = mongo_collections db" and "intact_database docs uniq s d" and "docs d = docs d0"
proof -
  obtain opts d1 db where d1: "mg_Connect lib opts d0 = (None, d1)" "s = mongo_collections db"
    "create_indexes lib (index_models s) d1 = (Ok (), d)"
    using new
    by (auto simp: NewMongoDBStore_def createIndexes_def Let_def split: res.splits prod.splits option.splits)
  have c: "docs d1 = docs d0" "uniq d1 = uniq d0" using sound_connect [OF S d1(1)] by simp_all
  note i = create_indexes_docs [OF S d1(3)]
  show "\<exists>db. s = mongo_collections db" using d1(2) by blast
  show d: "docs d = docs d0" using i c by simp
  have "uniq d (ms_usage s) \<subseteq> uniq d0 (ms_usage s) \<union> {ks. (ms_usage s, ks, True) \<in> (\<lambda>(c, ks, u, n). (c, ks, u)) ` set (index_models s)}"
    using spec [OF conjunct2 [OF i], of "ms_usage s"] c(2) by simp
  also have "\<dots> \<subseteq> {[''category'', ''idx'']}"
    using I by (auto simp: intact_database_def index_models_def d1(2) mongo_collections_def)
  finally show "intact_database docs uniq s d" using I by (simp add: intact_database_def d)
qed

lemma call_kept:
  fixes db
  defines "s \<equiv> mongo_collections db"
  assumes S: "mongo_sound lib docs uniq" and I: "intact_database docs uniq s d" and c: "run_call (mongo_ops q lib s) c d = (a, d')"
  shows "kept docs uniq s d d'"
    and "c = C_Allocate cat \<Longrightarrow> a = A_Int i \<Longrightarrow> i = next_index docs s d cat \<and> next_index docs s d' cat = i + 1"
proof -
  have inv: "mongo_inv s (docs d)" and U: "uniq d (ms_usage s) \<subseteq> {[''category'', ''idx'']}" using I by (simp_all add: intact_database_def)
  have same: "kept docs uniq s d d" using kept_same [of s docs d d uniq, OF inv] by simp
  note inv' = inv [unfolded s_def]
  show "kept docs uniq s d d'"
  proof (cases c)
    case (C_Allocate cat)
    with c AllocateIndex_effect(1) [OF S inv', of q cat] show ?thesis
      by (cases "mongo_AllocateIndex q lib s cat d") (auto simp: mongo_ops_def s_def)
  next
    case (C_SetStatus cat i b)
    with c SetStatus_effect [OF S inv', of cat i b] show ?thesis
      by (cases "mongo_SetStatus lib s cat i b d") (auto simp: mongo_ops_def s_def)
  next
    case (C_RecordWUA cl cat i)
    with c RecordWUA_effect [OF S inv', of cl cat i] show ?thesis
      by (cases "mongo_RecordWUA lib s cl cat i d") (auto simp: mongo_ops_def s_def)
  next
    case (C_RecordUsage cat i)
    with c RecordUsage_effect [OF S inv' U [unfolded s_def], of cat i] show ?thesis
      by (cases "mongo_RecordUsage lib s cat i d") (auto simp: mongo_ops_def s_def)
  next
    case (C_PutKey key)
    with c PutPublicKey_effect [OF S inv', of key] show ?thesis
      by (cases "mongo_PutPublicKey lib s key d") (auto simp: mongo_ops_def s_def)
  next
    case (C_PutRecord cl x r)
    with c PutRecord_effect [OF S inv', of cl x r] show ?thesis
      by (cases "mongo_PutRecord lib s cl x r d") (auto simp: mongo_ops_def s_def)
  next
    case (C_PutCred cl x cr)
    with c PutWebAuthnCredential_effect [OF S inv', of cl x cr] show ?thesis
      by (cases "mongo_PutWebAuthnCredential lib s cl x cr d") (auto simp: mongo_ops_def s_def)
  next
    case (C_SignCount cl x cid n)
    with c UpdateSignCount_effect [OF S inv', of cl x cid n] show ?thesis
      by (cases "mongo_UpdateWebAuthnSignCount lib s cl x cid n d") (auto simp: mongo_ops_def s_def)
  qed (use c same in auto)
  show "i = next_index docs s d cat \<and> next_index docs s d' cat = i + 1" if "c = C_Allocate cat" "a = A_Int i"
  proof -
    have "mongo_AllocateIndex q lib s cat d = (Ok i, d')"
      using c that by (cases "mongo_AllocateIndex q lib s cat d") (auto simp: mongo_ops_def answer_of_def split: res.splits)
    from AllocateIndex_effect(3) [OF S inv' this [unfolded s_def] refl, folded s_def]
    show ?thesis by (auto simp: view_def dest: arg_cong [of _ _ "\<lambda>v. vw_counter v cat"])
  qed
qed

lemma kept_intact: "kept docs uniq s d d' \<Longrightarrow> intact_database docs uniq s d \<Longrightarrow> intact_database docs uniq s d'"
  by (simp add: kept_def intact_database_def)

lemma run_allocations:
  fixes db
  defines "s \<equiv> mongo_collections db"
  assumes S: "mongo_sound lib docs uniq"
  shows "intact_database docs uniq s d \<Longrightarrow>
     (let is = allocated_by (mongo_ops q lib s) cat calls d; d' = after_calls (mongo_ops q lib s) calls d in
      sorted_wrt (<) is \<and> (\<forall>i \<in> set is. next_index docs s d cat \<le> i \<and> i < next_index docs s d' cat)
      \<and> next_index docs s d cat \<le> next_index docs s d' cat \<and> intact_database docs uniq s d')"
proof (induction calls arbitrary: d)
  case (Cons c cs)
  obtain a d1 where c: "run_call (mongo_ops q lib s) c d = (a, d1)" by force
  note k = call_kept(1) [OF S Cons.prems [unfolded s_def] c [unfolded s_def], folded s_def]
  note new = call_kept(2) [OF S Cons.prems [unfolded s_def] c [unfolded s_def], folded s_def]
  have le: "next_index docs s d cat \<le> next_index docs s d1 cat" using k by (simp add: kept_def view_def)
  note ih = Cons.IH [OF kept_intact [OF k Cons.prems]]
  show ?case
  proof (cases "\<exists>i. c = C_Allocate cat \<and> a = A_Int i")
    case True
    then obtain i where i: "c = C_Allocate cat" "a = A_Int i" by blast
    with new [OF i] ih c show ?thesis by (fastforce simp: Let_def)
  next
    case False
    then have "allocated_by (mongo_ops q lib s) cat (c # cs) d = allocated_by (mongo_ops q lib s) cat cs d1"
      by (auto simp: c split: store_answer.splits)
    with ih c le show ?thesis by (fastforce simp: Let_def)
  qed
qed simp

section \<open>Properties\<close>

text \<open>C13: The MongoDB store is interchangeable with the in-memory store. On a database that behaves as documented
  and is reachable, a store opened on empty collections answers every sequence of calls of the Store interface
  exactly as the in-memory store does, errors included (their texts and the order of returned lists apart).
  The sequence keeps the separator of the in-memory keys out of contexts and categories, registers no credential
  twice and stays below 2^63 indices per category.\<close>

theorem mongo_refines_memory:
  assumes "mongo_healthy lib docs uniq" and "NewMongoDBStore lib fs cfg d0 = (Ok s, d)"
    and "fresh_database docs uniq s d0" and "calls_ok NewMemoryStore calls"
  shows "run_calls (mongo_ops q lib s) calls d = run_calls memory_ops calls NewMemoryStore"
proof -
  note new = new_store_view [OF healthy_sound [OF assms(1)] assms(2,3)]
  obtain db where s: "s = mongo_collections db" using new(1) by blast
  have "related docs uniq s d NewMemoryStore"
    using new(3-5) simulates_empty by (simp add: related_def)
  then show ?thesis using calls_related [OF assms(1), of db] assms(4) unfolding s by blast
qed

definition demo_files :: os_files where
  "demo_files = \<lparr>of_read = \<lambda>_. None, of_pem_ok = \<lambda>_. False, of_load_pair = \<lambda>_ _. None\<rparr>"

definition demo_mongo :: MongoDBConfig where
  "demo_mongo = \<lparr>mc_URI = ''mongodb://localhost'', mc_Database = [], mc_Timeout = 0, mc_PasswordPath = [], mc_TLSEnabled = False,
     mc_CAPath = [], mc_CertPath = [], mc_KeyPath = []\<rparr>"

lemma demo_mongo_opens:
  assumes "\<And>opts d. mg_Connect lib opts d = (None, d)" and "\<And>d. mg_Ping lib d = None"
    and "mg_CreateIndex lib = mg_CreateIndex small_mongo"
  shows "\<exists>d. NewMongoDBStore lib demo_files demo_mongo empty_db = (Ok (mongo_collections ''r2ps''), d) \<and> sd_docs d = sd_docs empty_db"
  by (simp add: NewMongoDBStore_def demo_mongo_def mongo_uri_def mongo_tls_def assms createIndexes_def index_models_def small_calls Let_def)

lemma demo_mongo_fresh: "fresh_database small_docs small_uniq s empty_db"
  by (simp add: fresh_database_def small_docs_def small_uniq_def empty_db_def)

theorem mongo_refines_memory_witness:
  "\<exists>d. NewMongoDBStore small_mongo demo_files demo_mongo empty_db = (Ok (mongo_collections ''r2ps''), d)
     \<and> run_calls (mongo_ops (\<lambda>s. s) small_mongo (mongo_collections ''r2ps''))
         [C_Allocate ''ka'', C_RecordWUA ''c'' ''ka'' 0, C_SetStatus ''ka'' 0 StatusInvalid, C_SetStatus ''ka'' 7 StatusInvalid,
          C_GetStatus ''ka'' 0, C_GetRecord ''c'' ''x'', C_PutRecord ''c'' ''x'' [1], C_GetRecord ''c'' ''x''] d =
       [A_Int 0, A_Unit, A_Unit, A_Error, A_Byte StatusInvalid, A_Error, A_Unit, A_Bytes [1]]"
proof -
  let ?calls = "[C_Allocate ''ka'', C_RecordWUA ''c'' ''ka'' 0, C_SetStatus ''ka'' 0 StatusInvalid, C_SetStatus ''ka'' 7 StatusInvalid,
    C_GetStatus ''ka'' 0, C_GetRecord ''c'' ''x'', C_PutRecord ''c'' ''x'' [1], C_GetRecord ''c'' ''x'']"
  obtain d where d: "NewMongoDBStore small_mongo demo_files demo_mongo empty_db = (Ok (mongo_collections ''r2ps''), d)"
    using demo_mongo_opens [of small_mongo] by (auto simp: small_calls)
  have "calls_ok NewMemoryStore ?calls" by (simp add: NewMemoryStore_def map_get_def max_int64_def)
  note run = mongo_refines_memory [OF small_healthy d demo_mongo_fresh this, of "\<lambda>s. s"]
  have "run_calls memory_ops ?calls NewMemoryStore =
      [A_Int 0, A_Unit, A_Unit, A_Error, A_Byte StatusInvalid, A_Error, A_Unit, A_Bytes [1]]"
    by (simp add: memory_ops_def NewMemoryStore_def mem_AllocateIndex_def mem_RecordWUA_def mem_SetStatus_def mem_GetStatus_def
        mem_GetRecord_def mem_PutRecord_def map_get_def answer_of_def Let_def pair_key_def)
  with d run show ?thesis by auto
qed

text \<open>C14: No index is handed out twice, whatever fails. On a database whose calls may fail at any time, carried out
  or not, the successful allocations of a category answer strictly increasing indices, all between the counter
  the database had when the store was opened and the one it has at the end; and every sequence of calls leaves the
  database as intact as it found it, so that the same holds of the next run of the server.\<close>

theorem mongo_allocations_unique:
  assumes "mongo_sound lib docs uniq" and "NewMongoDBStore lib fs cfg d0 = (Ok s, d)" and "intact_database docs uniq s d0"
  shows "let is = allocated_by (mongo_ops q lib s) cat calls d; d' = after_calls (mongo_ops q lib s) calls d in
     sorted_wrt (<) is \<and> (\<forall>i \<in> set is. next_index docs s d0 cat \<le> i \<and> i < next_index docs s d' cat)
     \<and> intact_database docs uniq s d'"
proof -
  note new = new_store_intact [OF assms]
  obtain db where s: "s = mongo_collections db" using new(1) by blast
  show ?thesis
    using run_allocations [OF assms(1) new(2) [unfolded s], of q cat calls] new(3) unfolding s by (simp add: Let_def)
qed

text \<open>A driver that loses the first status entry: the index 0 is spent without being answered.\<close>

definition losing_insert :: "collection \<Rightarrow> document \<Rightarrow> small_db \<Rightarrow> mongo_error option \<times> small_db" where
  "losing_insert c x d =
     (if snd c = ''statuses'' \<and> map_of x ''idx'' = Some (B_int 0) then (Some (Mongo_failure ''timeout''), d) else small_insert c x d)"

abbreviation "losing_mongo \<equiv> small_mongo\<lparr>mg_InsertOne := losing_insert\<rparr>"

lemma losing_sound: "mongo_sound losing_mongo small_docs small_uniq"
proof -
  have "writes small_docs small_uniq c (inserted (small_uniq d c) x r) d d'" if "losing_insert c x d = (r, d')" for c x d r d'
    using that by (auto simp: losing_insert_def inserted_def split: if_splits intro!: writes_same dest: small_insert_sound)
  with small_sound show ?thesis by (simp add: mongo_sound_def)
qed

theorem mongo_allocations_unique_witness:
  "\<exists>d. NewMongoDBStore losing_mongo demo_files demo_mongo empty_db = (Ok (mongo_collections ''r2ps''), d)
     \<and> allocated_by (mongo_ops (\<lambda>s. s) losing_mongo (mongo_collections ''r2ps'')) ''ka''
         [C_Allocate ''ka'', C_Allocate ''ka'', C_Allocate ''wia'', C_Allocate ''ka''] d = [1, 2]
     \<and> sorted_wrt (<) [1, 2 :: int]"
proof -
  let ?calls = "[C_Allocate ''ka'', C_Allocate ''ka'', C_Allocate ''wia'', C_Allocate ''ka'']" and ?s = "mongo_collections ''r2ps''"
  obtain d where d: "NewMongoDBStore losing_mongo demo_files demo_mongo empty_db = (Ok ?s, d)" "sd_docs d = sd_docs empty_db"
    "sd_uniq d (''r2ps'', ''statuses'') = [[''category'', ''idx'']]"
    by (simp add: NewMongoDBStore_def demo_mongo_def mongo_uri_def mongo_tls_def createIndexes_def index_models_def small_calls Let_def
        empty_db_def mongo_collections_def)
  have run: "allocated_by (mongo_ops (\<lambda>s. s) losing_mongo ?s) ''ka'' ?calls d = [1, 2]"
    by (simp add: mongo_ops_def mongo_AllocateIndex_def small_calls small_inc_def losing_insert_def small_insert_def small_clash_def
        small_put_def d(2,3) empty_db_def mongo_collections_def encode_statusEntry_def matches_def inc_field_def answer_of_def
        extract_Nil_code extract_Cons_code wrap64_def max_int64_def min_int64_def Let_def)
  from mongo_allocations_unique [OF losing_sound d(1) fresh_intact [OF demo_mongo_fresh], of "\<lambda>s. s" "''ka''" ?calls] run
  have "sorted_wrt (<) [1, 2 :: int]" by (simp add: Let_def)
  with d(1) run show ?thesis by blast
qed

end
