(* ===== verification/Dispatcher_Answers.thy ===== *)
theory Dispatcher_Answers
  imports Dispatcher_Flows
begin

text \<open>
  What \<^verbatim>\<open>Process\<close> can answer at all, on every path through the dispatcher: a signed response to the request it
  read, or an error with one of the six codes below.
\<close>

definition error_codes :: "string list" where
  "error_codes =
     [ErrIllegalRequestData, ErrUnauthorized, ErrAccessDenied, ErrIllegalState, ErrUnsupportedType, ErrServerError]"

definition typed_answer ::
  "'m libs \<Rightarrow> ('h, 's, 'm) Dispatcher \<Rightarrow> req_env \<Rightarrow> ServiceRequest \<Rightarrow> (R2PSError, string) res \<Rightarrow> bool"
where
  "typed_answer L d env req r =
     (case r of
        Ok jws \<Rightarrow> \<exists>data. respond L d (re_resp env) req data = Ok jws
      | Err e \<Rightarrow> e_Code e \<in> set error_codes
      | Panic \<Rightarrow> True)"

definition coded :: "(R2PSError, 'a) res \<Rightarrow> bool" where
  "coded r \<longleftrightarrow> (\<forall>e. r = Err e \<longrightarrow> e_Code e \<in> set error_codes)"

lemma code_members [simp]:
  "ErrIllegalRequestData \<in> set error_codes" "ErrUnauthorized \<in> set error_codes" "ErrAccessDenied \<in> set error_codes"
  "ErrIllegalState \<in> set error_codes" "ErrUnsupportedType \<in> set error_codes" "ErrServerError \<in> set error_codes"
  by (simp_all add: error_codes_def)

lemma coded_simps [simp]: "coded (Ok x)" "coded Panic" "coded (Err e) \<longleftrightarrow> e_Code e \<in> set error_codes"
  by (simp_all add: coded_def)

lemma coded_bind: "coded r \<Longrightarrow> (\<And>x. r = Ok x \<Longrightarrow> coded (f x)) \<Longrightarrow> coded (res_bind r f)"
  by (cases r) (simp_all add: coded_def)

lemma coded_wrap: "(\<And>e. e_Code (g e) \<in> set error_codes) \<Longrightarrow> coded (res_wrap g r)"
  by (cases r) (simp_all add: coded_def)

lemma typed_fail [simp]: "e_Code (r2ps_err c m) = c" "fst (fail c m st) = Err (r2ps_err c m)"
  by (simp_all add: fail_def r2ps_err_def)

lemma res_wrap_Err: "res_wrap g r = Err x \<Longrightarrow> \<exists>e. x = g e"
  by (cases r) auto

lemma typed_simps [simp]:
  "typed_answer L d env req Panic" "typed_answer L d env req (Err e) \<longleftrightarrow> e_Code e \<in> set error_codes"
  "typed_answer L d env req (respond L d (re_resp env) req data)"
  by (auto simp: typed_answer_def respond_def Let_def split: res.splits option.splits)

lemmas flow_defs = signResponse_def Let_def

section \<open>The flows\<close>

lemma typed_reg:
  "typed_answer L d env req (fst (regEvaluate L d env req b st))" "typed_answer L d env req (fst (regFinalize L d env req b st))"
  by (auto simp: regEvaluate_def regFinalize_def flow_defs split: res.split prod.split)

lemma typed_auth:
  "typed_answer L d env req (fst (authEvaluate L d env req t b st))" "typed_answer L d env req (fst (authFinalize L d env req b st))"
  by (auto simp: authEvaluate_def authFinalize_def flow_defs split: res.split prod.split option.split)

lemma coded_decode: "coded (Service_Fido2.decode_field m s)" "coded (parse_pdata fs z i m p)"
  by (auto simp: Service_Fido2.decode_field_def parse_pdata_def split: option.split)

lemma typed_challenge: "typed_answer L d env req (fst (fido2_challenge L d f env req st))"
  by (auto simp: fido2_challenge_def flow_defs split: res.split)

lemma typed_auth_challenge: "typed_answer L d env req (fst (fido2AuthChallenge L d f env req st))"
  by (auto simp: fido2AuthChallenge_def typed_challenge split: prod.split option.split)

lemma coded_expected: "coded (expected_challenge L f env req t)"
  unfolding expected_challenge_def
  by (auto intro!: coded_bind coded_decode split: res.split)

lemma coded_change: "coded (change_authorized env req t ss)"
  by (auto simp: change_authorized_def split: option.split)

lemma coded_registration: "coded (verified_registration L f env req t ss)"
  unfolding verified_registration_def Let_def
  by (intro coded_bind coded_decode coded_expected coded_change) (auto intro!: coded_wrap split: res.split dest!: res_wrap_Err)

lemma typed_reg_register: "typed_answer L d env req (fst (fido2RegRegister L d f env req t st))"
  using coded_registration [of L f env req t "ds_sessions st"]
  by (auto simp: fido2RegRegister_def flow_defs split: res.split prod.split option.split)

lemma coded_finalize: "coded (finalize_request L f env req t)"
  unfolding finalize_request_def Let_def
  by (intro coded_bind coded_decode) (auto intro!: coded_bind coded_decode split: res.split)

lemma coded_verify: "coded (fst (fido2_verify L f env req fi st))"
  by (auto simp: fido2_verify_def Let_def split: res.split prod.split option.split)

lemma coded_session_key: "coded (fido2_session_key L env req fr)"
  unfolding fido2_session_key_def
  by (intro coded_bind coded_decode coded_wrap) (auto intro!: coded_bind coded_wrap simp: Let_def split: res.split option.split)

lemma typed_open: "typed_answer L d env req (fst (fido2_open_session L d env req fr st))"
  using coded_session_key [of L env req fr]
  by (auto simp: fido2_open_session_def flow_defs split: res.split prod.split option.split)

lemma typed_auth_finalize: "typed_answer L d env req (fst (fido2AuthFinalize L d f env req t st))"
  using coded_finalize [of L f env req t] coded_verify [of L f env req _ st]
  by (auto simp: fido2AuthFinalize_def typed_open split: res.split prod.split) (metis coded_simps(3) fst_conv)

lemma typed_fido2: "typed_answer L d env req (fst (handleFIDO2 L d env req t st))"
  by (auto simp: handleFIDO2_def fido2RegChallenge_def typed_challenge typed_auth_challenge typed_reg_register typed_auth_finalize
      split: option.split)

lemma typed_2fa: "typed_answer L d env req (fst (handle2FA L d env req st))"
  by (auto simp: handle2FA_def Let_def typed_fido2 typed_reg typed_auth split: option.split)

lemma coded_session: "coded (require_session env req ss)"
  by (auto simp: require_session_def split: option.split)

lemma coded_sad: "coded (sad_check h req s)"
  by (auto simp: sad_check_def intro!: coded_wrap split: option.split)

lemma coded_authorize: "coded (authorize L env h req ss)"
  unfolding authorize_def by (auto intro!: coded_bind coded_session coded_sad)

lemma typed_service: "typed_answer L d env req (fst (handleService L d env req st))"
proof (cases "d_handlers d (sr_Type req)")
  case (Some h)
  with coded_authorize [of L env h req "ds_sessions st"] show ?thesis
    by (auto simp: handleService_def flow_defs split: res.split prod.split)
qed (simp add: handleService_def)

lemma typed_route: "typed_answer L d env req (fst (route L d env req st))"
  using coded_session [of env req "ds_sessions st"]
  by (auto simp: route_def handle2FAChange_def typed_2fa typed_service split: res.split)

section \<open>Properties\<close>

text \<open>C15: Every answer of the service has one of two types. An answered request was read from a body that verifies, and
  its answer is a JWS that verifies with the server's key to the text of a response of protocol version 1.0 which
  echoes the request's nonce, says success and holds JSON data; the client reads it back as that response. A refused
  request has one of six error codes, which the HTTP endpoint tells apart; the seventh code of the protocol,
  TRY_LATER, is never answered.\<close>

theorem answers_typed:
  assumes "jose_signs (lib_jose L)" and "min_int64 \<le> to_unix (re_resp env)" and "to_unix (re_resp env) \<le> max_int64"
  shows "case fst (Process L d env body st) of
       Ok jws \<Rightarrow> \<exists>req data payload. accept_request L d env body = Ok req \<and> sr_Ver req = ProtocolVersion
          \<and> VerifyJWS (lib_jose L) jws (priv_PublicKey (d_serverKey d)) = Ok (str_bytes payload)
          \<and> Marshal_ServiceResponse \<lparr>sp_Ver = ProtocolVersion, sp_Nonce = sr_Nonce req, sp_Iat = to_unix (re_resp env),
              sp_Data = data, sp_Success = Some True\<rparr> = Some payload
          \<and> (data = [] \<or> json_Valid data)
          \<and> (\<forall>k j. encodes k data j \<and> k < 9999 \<longrightarrow>
               Unmarshal_ServiceResponse payload = Some \<lparr>sp_Ver = ProtocolVersion, sp_Nonce = sr_Nonce req,
                 sp_Iat = to_unix (re_resp env), sp_Data = data, sp_Success = Some True\<rparr>)
     | Err e \<Rightarrow> e_Code e \<in> set error_codes \<and> e_Code e \<noteq> ErrTryLater
     | Panic \<Rightarrow> True"
proof (cases "accept_request L d env body")
  case (Err e)
  then show ?thesis using accept_request_Err [OF Err] by (simp add: Process_def error_codes_def ErrTryLater_def r2ps_err_defs)
next
  case Panic
  then show ?thesis using accept_request_no_panic by metis
next
  case (Ok req)
  have wf: "sr_Ver req = ProtocolVersion" "utf8_valid (sr_Nonce req)"
    using Ok accepted_nonce_utf8 by (auto simp: accept_request_iff well_formed_request_def)
  have p: "fst (Process L d env body st) = fst (route L d env req st)" by (simp add: Process_def Ok)
  have t: "typed_answer L d env req (fst (route L d env req st))" by (rule typed_route)
  show ?thesis
  proof (cases "fst (route L d env req st)")
    case jws: (Ok jws)
    with t obtain data where data: "respond L d (re_resp env) req data = Ok jws" by (auto simp: typed_answer_def)
    let ?r = "\<lparr>sp_Ver = ProtocolVersion, sp_Nonce = sr_Nonce req, sp_Iat = to_unix (re_resp env), sp_Data = data, sp_Success = Some True\<rparr>"
    obtain payload where m: "Marshal_ServiceResponse ?r = Some payload"
      "SignJWS (lib_jose L) (str_bytes payload) (d_serverKey d) [] [TypResponse] = Ok jws"
      using data by (auto simp: respond_def Let_def split: option.splits res.splits)
    have v: "VerifyJWS (lib_jose L) jws (priv_PublicKey (d_serverKey d)) = Ok (str_bytes payload)"
      by (rule SignJWS_verifies [OF assms(1) m(2)])
    have j: "data = [] \<or> json_Valid data"
      using m(1) by (auto simp: Marshal_ServiceResponse_def json_raw_def split: if_splits)
    have "response_ok ?r" using assms(2,3) wf(2) by (simp add: response_ok_def ProtocolVersion_def utf8_valid_ascii)
    then have "encodes k data j \<Longrightarrow> k < 9999 \<Longrightarrow> Unmarshal_ServiceResponse payload = Some ?r" for k j
      using response_roundtrip [of ?r k j] m(1) by auto
    with v j m(1) wf(1) Ok show ?thesis by (auto simp: p jws)
  next
    case (Err e)
    with t show ?thesis by (auto simp: p error_codes_def ErrTryLater_def r2ps_err_defs)
  qed (simp add: p)
qed

lemma evaluate_answers:
  assumes "fst (counter_Check (re_check env) (sr_ClientID req) (sr_Context req) (sr_Context req) (ds_counter st)) = None"
    and "lookup_record L d env req st = Ok rec"
    and "AuthEvaluate (lib_opaque L) (re_ke2 env) (d_opaque d) b rec = Ok (ke2, mac, secret)"
    and "re_session_id env = Some rnd"
    and "map_of (ds_sessions st) (URLEncoding_Encode (map rnd [0..<32])) = None"
  shows "\<exists>r. ta_ok r \<and> fst (authEvaluate L d env req tfa b st) = respond L d (re_resp env) req (Marshal_TFAAuthResponseData r)"
proof -
  obtain c where c: "counter_Check (re_check env) (sr_ClientID req) (sr_Context req) (sr_Context req) (ds_counter st) = (None, c)"
    using assms(1) by (metis surj_pair fst_conv)
  moreover have "lookup_record L d env req (st\<lparr>ds_counter := c\<rparr>) = Ok rec"
    using assms(2) by (simp add: lookup_record_def rec_view_def)
  moreover have "ta_ok (zero_TFAAuthResponseData\<lparr>ta_SessionID := URLEncoding_Encode (map rnd [0..<32]),
      ta_TFASessionID := URLEncoding_Encode (map rnd [0..<32]), ta_PData := URLEncoding_Encode ke2, ta_Response := URLEncoding_Encode ke2\<rparr>)"
    by (simp add: ta_ok_def zero_TFAAuthResponseData_def min_int64_def max_int64_def del: upt.simps)
  ultimately show ?thesis
    using assms(3-5)
    by (simp add: authEvaluate_def RandomBytes_def Let_def session_Create_def signResponse_def del: upt.simps) blast
qed

theorem answers_typed_witness:
  "\<exists>jws payload. fst (Process demo_libs demo_dispatcher demo_env (demo_body (demo_login StateEvaluate [] [1])) demo_state) = Ok jws
     \<and> VerifyJWS toy_jose jws (priv_PublicKey (d_serverKey demo_dispatcher)) = Ok (str_bytes payload)
     \<and> e_Code (r2ps_err ErrServerError []) \<in> set error_codes"
proof -
  let ?req = "demo_login StateEvaluate [] [1]"
  have a: "accept_request demo_libs demo_dispatcher demo_env (demo_body ?req) = Ok ?req"
    by (rule demo_login_accepted) simp_all
  have "re_session_id demo_env = Some (\<lambda>_. 7)" by (simp add: demo_env_def)
  from evaluate_answers [OF demo_unlocked demo_lookup demo_evaluate this, of "demo_tfa StateEvaluate [1]"]
  obtain r where r: "ta_ok r" "fst (authEvaluate demo_libs demo_dispatcher demo_env ?req (demo_tfa StateEvaluate [1]) [1] demo_state)
      = respond demo_libs demo_dispatcher (re_resp demo_env) ?req (Marshal_TFAAuthResponseData r)"
    by (auto simp: demo_state_def NewSessionStore_def)
  have i: "min_int64 \<le> to_unix (re_resp demo_env)" "to_unix (re_resp demo_env) \<le> max_int64"
    by (simp_all add: demo_env_def to_unix_def min_int64_def max_int64_def)
  let ?sp = "\<lparr>sp_Ver = ProtocolVersion, sp_Nonce = sr_Nonce ?req, sp_Iat = to_unix (re_resp demo_env),
    sp_Data = Marshal_TFAAuthResponseData r, sp_Success = Some True\<rparr>"
  have "utf8_valid (sr_Nonce ?req)" using a accepted_nonce_utf8 by (auto simp: accept_request_iff well_formed_request_def)
  then have "response_ok ?sp" using i by (simp add: response_ok_def ProtocolVersion_def utf8_valid_ascii)
  from response_roundtrip [OF this, of 1] enc_ta [OF r(1)] obtain p where p: "Marshal_ServiceResponse ?sp = Some p" by auto
  obtain jws where "SignJWS toy_jose (str_bytes p) (d_serverKey demo_dispatcher) [] [TypResponse] = Ok jws" using toy_SignJWS by blast
  then have "respond demo_libs demo_dispatcher (re_resp demo_env) ?req (Marshal_TFAAuthResponseData r) = Ok jws"
    using p by (simp add: respond_def demo_libs_def)
  then have jws: "fst (Process demo_libs demo_dispatcher demo_env (demo_body ?req) demo_state) = Ok jws"
    using route_evaluate [OF demo_is_auth demo_login_parses demo_phases(1), of demo_libs demo_dispatcher demo_env "[]" demo_state] r(2)
    by (simp add: Process_def a)
  from answers_typed [OF demo_jose i, of demo_dispatcher "demo_body ?req" demo_state] jws
  show ?thesis by (auto simp: demo_libs_def)
qed

end
