(* ===== verification/WebAuthn_Limits.thy ===== *)
theory WebAuthn_Limits
  imports WebAuthn
begin

text \<open>
  The parsing of attestation objects ends: the recursion of \<^verbatim>\<open>skipCBORValue\<close> is bounded by the bytes that are left,
  on every input. The number of rounds of its loops is not: it is what the input claims.
\<close>

lemma skip_times_cong:
  assumes "\<And>p. p0 \<le> p \<Longrightarrow> f p = g p" and "\<And>p q. f p = Ok q \<Longrightarrow> p \<le> q" and "p0 \<le> pos"
  shows "skip_times f n pos = skip_times g n pos"
  using assms(3)
proof (induction n arbitrary: pos)
  case (Suc n)
  show ?case
  proof (cases "f pos")
    case (Ok q)
    then have "p0 \<le> q" using assms(2) Suc.prems order_trans by blast
    with Suc Ok assms(1) show ?thesis by auto
  qed (use Suc.prems assms(1) [of pos] in auto)
qed simp

lemma skip_value_past: "length data \<le> pos \<Longrightarrow> skip_value n data spare pos = Ok pos"
  by (cases n) simp_all

lemma skip_fuel_same:
  "length data - pos \<le> n \<Longrightarrow> length data - pos \<le> m \<Longrightarrow> skip_value n data spare pos = skip_value m data spare pos"
proof (induction n arbitrary: pos m)
  case 0
  then show ?case by (simp add: skip_value_past)
next
  case (Suc n)
  show ?case
  proof (cases "length data \<le> pos")
    case False
    then obtain m' where m: "m = Suc m'" using Suc.prems by (cases m) auto
    have f: "skip_value n data spare p = skip_value m' data spare p" if "Suc pos \<le> p" for p
      using Suc.IH [of p m'] Suc.prems that m by simp
    have f2: "res_bind (skip_value n data spare p) (skip_value n data spare)
        = res_bind (skip_value m' data spare p) (skip_value m' data spare)" if "Suc pos \<le> p" for p
      using f [OF that] f that skip_value_ge [of m' data spare p]
      by (cases "skip_value m' data spare p") (auto dest: order_trans)
    have t: "skip_times (skip_value n data spare) k p = skip_times (skip_value m' data spare) k p" if "Suc pos \<le> p" for k p
      by (rule skip_times_cong [OF f skip_value_ge that])
    have t2: "skip_times (\<lambda>p. res_bind (skip_value n data spare p) (skip_value n data spare)) k p
        = skip_times (\<lambda>p. res_bind (skip_value m' data spare p) (skip_value m' data spare)) k p" if "Suc pos \<le> p" for k p
      by (rule skip_times_cong [OF f2 _ that]) (auto simp: res_bind_Ok_iff dest!: skip_value_ge)
    show ?thesis using t t2 by (simp add: m at_def at_be_def Let_def split: option.split)
  qed (simp add: skip_value_past)
qed

lemma skipCBORValue_ends: "skipCBORValue data spare pos \<noteq> Err Fuel_exhausted"
  unfolding skipCBORValue_def by (rule skip_fuel_enough) simp

lemma extract_value_ends: "extract_value data spare pos \<noteq> Err Fuel_exhausted"
  by (auto simp: extract_value_def at_def at_be_def Let_def split: option.split)

lemma extract_pairs_ends: "extract_pairs data spare k pos \<noteq> Err Fuel_exhausted"
proof (induction k arbitrary: pos)
  case (Suc k)
  then show ?case
    using skipCBORValue_ends [of data spare] extract_value_ends [of data spare]
    by (auto simp: at_def Let_def res_bind_Err_iff split: option.split)
qed simp

lemma extractAuthData_ends: "extractAuthDataFromAttestation data spare \<noteq> Err Fuel_exhausted"
  by (auto simp: extractAuthDataFromAttestation_def at_def Let_def extract_pairs_ends split: option.split)

lemma decodeCBORInt_ends: "decodeCBORInt data \<noteq> Err Fuel_exhausted"
  by (auto simp: decodeCBORInt_def at_def at_be_def Let_def split: option.split)

lemma cbor_pairs_ends: "cbor_pairs data k pos m \<noteq> Err Fuel_exhausted"
proof (induction k arbitrary: pos m)
  case (Suc k)
  show ?case
  proof (cases "decodeCBORInt (drop pos data)")
    case (Ok p)
    obtain key n where p: "p = (key, n)" by force
    show ?thesis
      using Suc by (simp add: Ok p at_def at_be_def Let_def split: option.split)
  qed (use decodeCBORInt_ends [of "drop pos data"] in auto)
qed simp

lemma parseCOSEKey_ends: "parseCOSEKey data \<noteq> Err Fuel_exhausted"
  by (auto simp: parseCOSEKey_def decodeCBORMap_def at_def Let_def res_bind_Err_iff cbor_pairs_ends split: option.split)

lemma ParseAuthenticatorData_ends: "ParseAuthenticatorData data \<noteq> Err Fuel_exhausted"
  by (auto simp: ParseAuthenticatorData_eq Let_def res_bind_Err_iff parseCOSEKey_ends)

lemma VerifyRegistration_ends: "VerifyRegistration pr att spare cd ch rp origins \<noteq> Err Fuel_exhausted"
  unfolding VerifyRegistration_def
  by (auto simp: res_bind_Err_iff ParseAuthenticatorData_ends extractAuthData_ends ParseClientDataJSON_def VerifyRPIDHash_def guard_that_def
      split: option.splits)

text \<open>An array may claim more items than there are bytes; each costs a round of the loop.\<close>

lemma skip_times_past: "length data \<le> pos \<Longrightarrow> skip_times (skip_value n data spare) k pos = Ok pos"
  by (induction k) (simp_all add: skip_value_past)

lemma claimed_items_not_checked: "skipCBORValue [0x9a, 0xff, 0xff, 0xff, 0xff] [] 0 = Ok 5"
proof -
  define d :: bytes where "d = [0x9a, 0xff, 0xff, 0xff, 0xff]"
  have d: "length d = 5" "d ! 0 = 0x9a" by (simp_all add: d_def)
  have c: "cbor_major 0x9a = 4" "cbor_additional 0x9a = 26" by code_simp+
  have "skip_times (skip_value 4 d []) n 5 = Ok 5" for n by (rule skip_times_past) (simp add: d)
  moreover have "skipCBORValue d [] 0 = skip_value (Suc 4) d [] 0" by (simp add: skipCBORValue_def d)
  ultimately show ?thesis
    unfolding d_def [symmetric] by (simp only: skip_value.simps(2)) (simp add: at_in at_be_in d c Let_def)
qed

section \<open>Properties\<close>

text \<open>C18: Parsing what an authenticator sends always ends. On every input the recursion over nested CBOR values goes no
  deeper than there are bytes left, so that more room for it changes no result and it is never exhausted; a
  registration is therefore always accepted, refused with an error of its own, or stopped by a panic.\<close>

theorem attestation_parsing_ends:
  "skip_value (length data - pos + n) data spare pos = skipCBORValue data spare pos
   \<and> skipCBORValue data spare pos \<noteq> Err Fuel_exhausted
   \<and> VerifyRegistration pr attestation spare clientData challenge rpID origins \<noteq> Err Fuel_exhausted"
  using skip_fuel_same [of data pos "length data - pos + n" "length data - pos" spare] skipCBORValue_ends [of data spare pos]
    VerifyRegistration_ends [of pr attestation spare clientData challenge rpID origins]
  by (simp add: skipCBORValue_def)

end
