(* ===== verification/Go_Concurrency.thy ===== *)
theory Go_Concurrency
  imports Main
begin

text \<open>
  Goroutines over shared memory. A goroutine is a program of atomic steps, each one call that holds a
  lock; the scheduler runs any step of any goroutine next, new goroutines start at any time, and a
  background task may act between two steps. The locale \<open>rely_guarantee\<close> reasons about one goroutine at
  a time: it relies on what any step may do, and every step of its own guarantees what the others rely
  on. Its lemmas lift that to all interleavings.
\<close>

section \<open>Programs of atomic steps\<close>

datatype ('s, 'r) prog = Done 'r | Atomic "'s \<Rightarrow> 's \<times> ('s, 'r) prog"

definition act :: "('s \<Rightarrow> 'a \<times> 's) \<Rightarrow> ('a \<Rightarrow> ('s, 'r) prog) \<Rightarrow> ('s, 'r) prog" where
  "act f k = Atomic (\<lambda>s. let (a, s') = f s in (s', k a))"

primrec run_alone :: "('s, 'r) prog \<Rightarrow> 's \<Rightarrow> 'r \<times> 's" where
  "run_alone (Done r) = (\<lambda>s. (r, s))"
| "run_alone (Atomic f) = (\<lambda>s. let (s', continue) = map_prod id run_alone (f s) in continue s')"

lemma run_act [simp]: "run_alone (act f k) s = run_alone (k (fst (f s))) (snd (f s))"
  by (simp add: act_def Let_def case_prod_unfold)

section \<open>Interleavings\<close>

text \<open>A goroutine is labelled with what started it.\<close>

type_synonym ('s, 'l, 'r) config = "'s \<times> ('l \<times> ('s, 'r) prog) list"

inductive scheduled ::
  "('l \<Rightarrow> ('s, 'r) prog) \<Rightarrow> ('s \<Rightarrow> 's \<Rightarrow> bool) \<Rightarrow> ('s, 'l, 'r) config \<Rightarrow> ('s, 'l, 'r) config \<Rightarrow> bool"
  for code background
where
  spawn: "scheduled code background (s, js) (s, js @ [(l, code l)])"
| work: "i < length js \<Longrightarrow> js ! i = (l, Atomic f) \<Longrightarrow> f s = (s', p) \<Longrightarrow>
     scheduled code background (s, js) (s', js[i := (l, p)])"
| tick: "background s s' \<Longrightarrow> scheduled code background (s, js) (s', js)"

text \<open>A run with the states it has left behind.\<close>

inductive interleaved ::
  "('l \<Rightarrow> ('s, 'r) prog) \<Rightarrow> ('s \<Rightarrow> 's \<Rightarrow> bool) \<Rightarrow> 's \<Rightarrow> 's set \<Rightarrow> ('s, 'l, 'r) config \<Rightarrow> bool"
  for code background s0
where
  start: "interleaved code background s0 {} (s0, [])"
| next_step: "interleaved code background s0 H (s, js) \<Longrightarrow> scheduled code background (s, js) cfg \<Longrightarrow>
     interleaved code background s0 (insert s H) cfg"

text \<open>The scheduler may let a goroutine run to its end, which it always reaches.\<close>

lemma runs_to_end:
  assumes "interleaved code background s0 H (s, js)" and "i < length js" and "js ! i = (l, p)"
    and "run_alone p s = (r, s')"
  shows "\<exists>H'. H \<subseteq> H' \<and> interleaved code background s0 H' (s', js[i := (l, Done r)])"
  using assms
proof (induction p arbitrary: H s js)
  case (Done r0)
  then show ?case by (metis Pair_inject list_update_id order_refl run_alone.simps(1))
next
  case (Atomic f)
  obtain s1 p1 where f: "f s = (s1, p1)" by force
  have "interleaved code background s0 (insert s H) (s1, js[i := (l, p1)])"
    using interleaved.next_step [OF Atomic.prems(1) scheduled.work [OF Atomic.prems(2,3) f]] .
  moreover have "run_alone p1 s1 = (r, s')" using Atomic.prems(4) f by simp
  moreover have "(s1, p1) \<in> range f" using f rangeI by metis
  ultimately obtain H' where "insert s H \<subseteq> H'"
    "interleaved code background s0 H' (s', js[i := (l, p1), i := (l, Done r)])"
    using Atomic.IH [of "f s" p1 "insert s H" s1 "js[i := (l, p1)]"] Atomic.prems(2) f
    by (auto simp: snds.simps)
  then show ?case by auto
qed

lemma spawn_to_end:
  assumes "interleaved code background s0 H (s, js)" and "run_alone (code l) s = (r, s')"
  shows "\<exists>H'. H \<subseteq> H' \<and> interleaved code background s0 H' (s', js @ [(l, Done r)])"
proof -
  have "interleaved code background s0 (insert s H) (s, js @ [(l, code l)])"
    using interleaved.next_step [OF assms(1) scheduled.spawn] .
  from runs_to_end [OF this, of "length js" l "code l" r s'] assms(2) show ?thesis by auto
qed

section \<open>Obligations of one goroutine\<close>

text \<open>An assertion speaks of the states seen so far and of the current one.\<close>

type_synonym 's assertion = "'s set \<Rightarrow> 's \<Rightarrow> bool"

definition stable :: "('s \<Rightarrow> 's \<Rightarrow> bool) \<Rightarrow> 's assertion \<Rightarrow> bool" where
  "stable rely P \<longleftrightarrow> (\<forall>H H' s s'. P H s \<longrightarrow> H \<subseteq> H' \<longrightarrow> rely s s' \<longrightarrow> P H' s')"

lemma stableD: "stable rely P \<Longrightarrow> P H s \<Longrightarrow> H \<subseteq> H' \<Longrightarrow> rely s s' \<Longrightarrow> P H' s'"
  by (simp add: stable_def)

lemma stableI: "(\<And>H H' s s'. P H s \<Longrightarrow> H \<subseteq> H' \<Longrightarrow> rely s s' \<Longrightarrow> P H' s') \<Longrightarrow> stable rely P"
  by (simp add: stable_def)

text \<open>Started under \<open>P\<close>, every step keeps the guarantee and the answer has the postcondition, whatever
  happens between the steps.\<close>

inductive obeys ::
  "('s \<Rightarrow> 's \<Rightarrow> bool) \<Rightarrow> ('s set \<Rightarrow> 's \<Rightarrow> 's \<Rightarrow> bool) \<Rightarrow> ('r \<Rightarrow> 's \<Rightarrow> bool) \<Rightarrow> 's assertion \<Rightarrow> ('s, 'r) prog \<Rightarrow> bool"
  for rely guar post
where
  finish: "(\<And>H s. P H s \<Longrightarrow> post r s) \<Longrightarrow> obeys rely guar post P (Done r)"
| atomic: "(\<And>H s. P H s \<Longrightarrow> guar (insert s H) s (fst (f s))
       \<and> (\<exists>Q. stable rely Q \<and> Q (insert s H) (fst (f s)) \<and> obeys rely guar post Q (snd (f s))))
     \<Longrightarrow> obeys rely guar post P (Atomic f)"

inductive_cases obeys_DoneE: "obeys rely guar post P (Done r)"
inductive_cases obeys_AtomicE: "obeys rely guar post P (Atomic f)"

lemma obeys_Done: "obeys rely guar post P (Done r) \<Longrightarrow> P H s \<Longrightarrow> post r s"
  by (erule obeys_DoneE)

lemma obeys_Atomic:
  "obeys rely guar post P (Atomic f) \<Longrightarrow> P H s \<Longrightarrow> guar (insert s H) s (fst (f s))
     \<and> (\<exists>Q. stable rely Q \<and> Q (insert s H) (fst (f s)) \<and> obeys rely guar post Q (snd (f s)))"
  by (erule obeys_AtomicE)

lemma obeys_weaken: "obeys rely guar post P p \<Longrightarrow> (\<And>H s. P' H s \<Longrightarrow> P H s) \<Longrightarrow> obeys rely guar post P' p"
  by (cases p) (auto elim!: obeys_DoneE obeys_AtomicE intro!: obeys.intros)

lemma obeys_mono:
  assumes "obeys rely guar post P p" and "\<And>H s s'. guar H s s' \<Longrightarrow> guar' H s s'" and "\<And>r s. post r s \<Longrightarrow> post' r s"
  shows "obeys rely guar' post' P p"
  using assms(1)
proof (induction rule: obeys.induct)
  case (finish P r)
  show ?case by (rule obeys.finish) (use finish assms(3) in blast)
next
  case (atomic P f)
  show ?case by (rule obeys.atomic) (use atomic.IH assms(2) in blast)
qed

lemma obeys_act:
  assumes "\<And>H s. P H s \<Longrightarrow> guar (insert s H) s (snd (f s)) \<and> Q (fst (f s)) (insert s H) (snd (f s))"
    and "\<And>a. stable rely (Q a)" and "\<And>a. obeys rely guar post (Q a) (k a)"
  shows "obeys rely guar post P (act f k)"
  unfolding act_def
proof (rule obeys.atomic)
  fix H s
  assume "P H s"
  from assms(1) [OF this] assms(2,3)
  show "guar (insert s H) s (fst (let (a, s') = f s in (s', k a)))
     \<and> (\<exists>Q. stable rely Q \<and> Q (insert s H) (fst (let (a, s') = f s in (s', k a)))
          \<and> obeys rely guar post Q (snd (let (a, s') = f s in (s', k a))))"
    by (auto simp: Let_def case_prod_unfold)
qed

section \<open>All interleavings\<close>

locale rely_guarantee =
  fixes code :: "'l \<Rightarrow> ('s, 'r) prog"
    and background :: "'s \<Rightarrow> 's \<Rightarrow> bool"
    and good :: "'s \<Rightarrow> bool"
    and rely :: "'s \<Rightarrow> 's \<Rightarrow> bool"
    and guar :: "'l \<Rightarrow> 's set \<Rightarrow> 's \<Rightarrow> 's \<Rightarrow> bool"
    and post :: "'l \<Rightarrow> 'r \<Rightarrow> 's \<Rightarrow> bool"
  assumes guar_rely: "guar l H s s' \<Longrightarrow> rely s s'"
    and background_rely: "good s \<Longrightarrow> background s s' \<Longrightarrow> rely s s'"
    and rely_refl: "rely s s"
    and rely_good: "good s \<Longrightarrow> rely s s' \<Longrightarrow> good s'"
    and code_obeys: "obeys rely (guar l) (post l) (\<lambda>H s. good s) (code l)"
begin

definition obliged :: "'s set \<Rightarrow> 's \<Rightarrow> 'l \<times> ('s, 'r) prog \<Rightarrow> bool" where
  "obliged H s j \<longleftrightarrow> (\<exists>P. stable rely P \<and> P H s \<and> obeys rely (guar (fst j)) (post (fst j)) P (snd j))"

lemma obliged_rely: "obliged H s j \<Longrightarrow> H \<subseteq> H' \<Longrightarrow> rely s s' \<Longrightarrow> obliged H' s' j"
  unfolding obliged_def using stableD by metis

lemma obliged_spawn: "good s \<Longrightarrow> obliged H s (l, code l)"
  unfolding obliged_def using code_obeys [of l] rely_good
  by (intro exI [of _ "\<lambda>H s. good s"]) (auto intro: stableI)

lemma obliged_step:
  assumes "obliged H s (l, Atomic f)" and "f s = (s', p)"
  shows "guar l (insert s H) s s'" and "obliged (insert s H) s' (l, p)"
  using assms obeys_Atomic [of rely "guar l" "post l" _ f H s] by (fastforce simp: obliged_def)+

lemma obliged_run:
  assumes "interleaved code background s0 H cfg" and "good s0"
  shows "good (fst cfg) \<and> (\<forall>j \<in> set (snd cfg). obliged H (fst cfg) j)"
  using assms
proof (induction rule: interleaved.induct)
  case (next_step H s js cfg)
  then have g: "good s" and o: "\<And>j. j \<in> set js \<Longrightarrow> obliged H s j" by auto
  note keep = obliged_rely [OF o subset_insertI [of H s]]
  from next_step.hyps(2) show ?case
  proof cases
    case (spawn l)
    then show ?thesis using g keep [OF _ rely_refl] obliged_spawn [OF g, of "insert s H" l] by auto
  next
    case (work i l f s' p)
    have "obliged H s (l, Atomic f)" using o work nth_mem by metis
    note st = obliged_step [OF this work(4)]
    have r: "rely s s'" using guar_rely [OF st(1)] .
    have "set (js[i := (l, p)]) \<subseteq> insert (l, p) (set js)" by (rule set_update_subset_insert)
    then have "obliged (insert s H) s' j" if "j \<in> set (js[i := (l, p)])" for j
      using that st(2) keep [OF _ r, of j] by blast
    then show ?thesis using work(1) rely_good [OF g r] by simp
  next
    case (tick s')
    have r: "rely s s'" using background_rely [OF g] tick by simp
    then show ?thesis using tick keep [OF _ r] rely_good [OF g r] by simp
  qed
qed simp

text \<open>What a finished goroutine answered, and what the next step of a running one does.\<close>

lemma finished:
  "interleaved code background s0 H (s, js) \<Longrightarrow> good s0 \<Longrightarrow> (l, Done r) \<in> set js \<Longrightarrow> post l r s"
  using obliged_run [of s0 H "(s, js)"] obeys_Done by (fastforce simp: obliged_def)

lemma running:
  "interleaved code background s0 H (s, js) \<Longrightarrow> good s0 \<Longrightarrow> (l, Atomic f) \<in> set js \<Longrightarrow>
   guar l (insert s H) s (fst (f s))"
  using obliged_run [of s0 H "(s, js)"] obliged_step(1) [of H s l f "fst (f s)" "snd (f s)"] by auto

text \<open>What every guaranteed step keeps holds in every interleaving.\<close>

lemma invariant:
  assumes "interleaved code background s0 H cfg" and "good s0" and "J {} {} s0"
    and mono: "\<And>H H' K K' s. J H K s \<Longrightarrow> H \<subseteq> H' \<Longrightarrow> K \<subseteq> K' \<Longrightarrow> J H' K' s"
    and job: "\<And>H K l s s'. J H K s \<Longrightarrow> good s \<Longrightarrow> l \<in> K \<Longrightarrow> guar l H s s' \<Longrightarrow> J H K s'"
    and bg: "\<And>H K s s'. J H K s \<Longrightarrow> good s \<Longrightarrow> background s s' \<Longrightarrow> J H K s'"
  shows "J H (fst ` set (snd cfg)) (fst cfg)"
  using assms(1)
proof (induction rule: interleaved.induct)
  case (next_step H s js cfg)
  have run: "good s" "\<And>j. j \<in> set js \<Longrightarrow> obliged H s j"
    using obliged_run [OF next_step.hyps(1) assms(2)] by auto
  have "J H (fst ` set js) s" using next_step.IH by simp
  then have J: "J (insert s H) (fst ` set js) s" by (rule mono) auto
  from next_step.hyps(2) show ?case
  proof cases
    case (spawn l)
    have "J (insert s H) (insert l (fst ` set js)) s" by (rule mono [OF J]) auto
    with spawn show ?thesis by simp
  next
    case (work i l f s' p)
    have m: "(l, Atomic f) \<in> set js" using work nth_mem by metis
    have "fst ` set (js[i := (l, p)]) = fst ` set js"
      using work(2,3) by (metis fst_conv list.set_map list_update_id map_update)
    moreover have "l \<in> fst ` set js" using m by force
    ultimately show ?thesis
      using work(1) job [OF J run(1) _ obliged_step(1) [OF run(2) [OF m] work(4)]] by simp
  next
    case (tick s')
    then show ?thesis using bg [OF J run(1)] by simp
  qed
qed (use assms(3) in simp)

end

end
