(* ===== verification/Pake_Objects.thy ===== *)
theory Pake_Objects
  imports Pake_Session
begin

text \<open>
  The session store of \<^verbatim>\<open>internal/pake/session.go\<close> with its pointers. \<^verbatim>\<open>Get\<close> returns a pointer into
  the map's objects, and a request goes on reading the object after the lock is released, even after
  the entry was deleted. Here the objects ever created are a list, a pointer is a position of it, and
  the map files pointers. \<open>heap_view\<close> reads such a store as the one of \<^verbatim>\<open>Pake_Session\<close>; every
  operation is shown to implement its counterpart there. \<open>evolves\<close> is what any sequence of operations
  may do to the objects: new ones appear, and \<^verbatim>\<open>Verified\<close> is the only field that ever changes.
\<close>

section \<open>State and operations\<close>

record session_heap =
  sh_objs :: "Session list"
  sh_index :: "(string \<times> nat) list"

definition new_heap :: session_heap where
  "new_heap = \<lparr>sh_objs = [], sh_index = []\<rparr>"

definition heap_Create :: "Session \<Rightarrow> session_heap \<Rightarrow> session_error option \<times> session_heap" where
  "heap_Create session h =
     (case map_of (sh_index h) (s_ID session) of
        Some _ \<Rightarrow> (Some (Session_already_exists (s_ID session)), h)
      | None \<Rightarrow>
          (None, \<lparr>sh_objs = sh_objs h @ [session],
                  sh_index = AList.update (s_ID session) (length (sh_objs h)) (sh_index h)\<rparr>))"

definition heap_Get :: "instant \<Rightarrow> string \<Rightarrow> session_heap \<Rightarrow> nat option" where
  "heap_Get now sid h =
     (case map_of (sh_index h) sid of
        None \<Rightarrow> None
      | Some p \<Rightarrow> if session_expired now (sh_objs h ! p) then None else Some p)"

definition heap_MarkVerified :: "string \<Rightarrow> session_heap \<Rightarrow> session_error option \<times> session_heap" where
  "heap_MarkVerified sid h =
     (case map_of (sh_index h) sid of
        None \<Rightarrow> (Some (Session_not_found sid), h)
      | Some p \<Rightarrow> (None, h\<lparr>sh_objs := (sh_objs h)[p := (sh_objs h ! p)\<lparr>s_Verified := True\<rparr>]\<rparr>))"

definition heap_Delete :: "string \<Rightarrow> session_heap \<Rightarrow> session_heap" where
  "heap_Delete sid h = h\<lparr>sh_index := AList.delete sid (sh_index h)\<rparr>"

fun heap_clean_loop ::
  "instant \<Rightarrow> Session list \<Rightarrow> (string \<times> nat) list \<Rightarrow> nat \<Rightarrow> (string \<times> nat) list \<Rightarrow> nat \<times> (string \<times> nat) list"
where
  "heap_clean_loop now objs [] cnt ix = (cnt, ix)"
| "heap_clean_loop now objs ((sid, p) # es) cnt ix =
     (if session_expired now (objs ! p) then heap_clean_loop now objs es (cnt + 1) (AList.delete sid ix)
      else heap_clean_loop now objs es cnt ix)"

definition heap_CleanExpired :: "instant \<Rightarrow> session_heap \<Rightarrow> nat \<times> session_heap" where
  "heap_CleanExpired now h =
     (let (cnt, ix) = heap_clean_loop now (sh_objs h) (sh_index h) 0 (sh_index h) in (cnt, h\<lparr>sh_index := ix\<rparr>))"

section \<open>Well-formed stores and what they stand for\<close>

definition deref :: "Session list \<Rightarrow> string \<times> nat \<Rightarrow> string \<times> Session" where
  "deref objs = (\<lambda>(sid, p). (sid, objs ! p))"

definition heap_view :: "session_heap \<Rightarrow> SessionStore" where
  "heap_view h = map (deref (sh_objs h)) (sh_index h)"

text \<open>Entries are filed under their own identifier, point to objects, and no two share one.\<close>

definition wf_heap :: "session_heap \<Rightarrow> bool" where
  "wf_heap h \<longleftrightarrow> distinct (map fst (sh_index h)) \<and> distinct (map snd (sh_index h))
     \<and> (\<forall>(sid, p) \<in> set (sh_index h). p < length (sh_objs h) \<and> s_ID (sh_objs h ! p) = sid)"

lemma wf_new_heap [simp]: "wf_heap new_heap" and view_new_heap [simp]: "heap_view new_heap = NewSessionStore"
  by (simp_all add: wf_heap_def new_heap_def heap_view_def NewSessionStore_def)

lemma wf_heap_entry:
  "wf_heap h \<Longrightarrow> map_of (sh_index h) sid = Some p \<Longrightarrow> p < length (sh_objs h) \<and> s_ID (sh_objs h ! p) = sid"
  by (auto simp: wf_heap_def dest: map_of_SomeD)

lemma map_of_deref: "map_of (map (deref objs) ix) sid = map_option ((!) objs) (map_of ix sid)"
  by (induction ix) (auto simp: deref_def)

lemma map_of_view: "map_of (heap_view h) sid = map_option ((!) (sh_objs h)) (map_of (sh_index h) sid)"
  by (simp add: heap_view_def map_of_deref)

lemma map_fst_deref [simp]: "map (fst \<circ> deref objs) ix = map fst ix"
  by (simp add: deref_def case_prod_unfold)

lemma nth_update_if: "xs[i := v] ! j = (if i = j \<and> i < length xs then v else xs ! j)"
  by (cases "i < length xs") (auto simp: nth_list_update list_update_beyond)

lemma wf_heap_view: "wf_heap h \<Longrightarrow> wf_sessions (heap_view h)"
  by (auto simp: wf_heap_def wf_sessions_def heap_view_def) (auto simp: deref_def)

lemma update_fresh: "map_of ix k = None \<Longrightarrow> AList.update k v ix = ix @ [(k, v)]"
  by (induction ix) (auto split: if_splits)

lemma delete_deref: "map (deref objs) (AList.delete sid ix) = AList.delete sid (map (deref objs) ix)"
  by (induction ix) (auto simp: AList.delete_eq deref_def)

lemma clean_loop_deref:
  "heap_clean_loop now objs es n ix = (m, ix') \<Longrightarrow>
   clean_loop now (map (deref objs) es) n (map (deref objs) ix) = (m, map (deref objs) ix')"
  by (induction now objs es n ix rule: heap_clean_loop.induct)
    (auto simp: deref_def session_Delete_def delete_deref [unfolded deref_def] split: if_splits)

lemma update_deref:
  assumes "distinct (map snd ix)" and "map_of ix sid = Some p" and "\<forall>e \<in> set ix. snd e < length objs"
    and "distinct (map fst ix)"
  shows "map (deref (objs[p := v])) ix = AList.update sid v (map (deref objs) ix)"
  using assms
proof (induction ix)
  case (Cons e ix)
  obtain k q where e: "e = (k, q)" by force
  show ?case
  proof (cases "k = sid")
    case True
    then have "q = p" using Cons.prems(2) e by simp
    moreover have "map (deref (objs[p := v])) ix = map (deref objs) ix"
      using Cons.prems(1) \<open>q = p\<close> e by (auto simp: deref_def nth_update_if image_iff)
    ultimately show ?thesis using True Cons.prems(3) e by (simp add: deref_def)
  next
    case False
    then have m: "map_of ix sid = Some p" using Cons.prems(2) e by simp
    then have "p \<in> snd ` set ix" by (force dest: map_of_SomeD)
    then have "q \<noteq> p" using Cons.prems(1) e by auto
    then show ?thesis using False Cons e m by (simp add: deref_def)
  qed
qed simp

section \<open>Every operation implements its counterpart\<close>

lemma heap_Create_refines:
  assumes "wf_heap h" and "heap_Create sess h = (e, h')"
  shows "session_Create sess (heap_view h) = (e, heap_view h')" and "wf_heap h'"
proof -
  have "session_Create sess (heap_view h) = (e, heap_view h') \<and> wf_heap h'"
  proof (cases "map_of (sh_index h) (s_ID sess)")
    case None
    have lt: "\<forall>x \<in> set (sh_index h). snd x < length (sh_objs h)" using assms(1) by (auto simp: wf_heap_def)
    then have old: "map (deref (sh_objs h @ [sess])) (sh_index h) = map (deref (sh_objs h)) (sh_index h)"
      by (auto simp: deref_def nth_append)
    have v: "map_of (heap_view h) (s_ID sess) = None" using None by (simp add: map_of_view)
    have h': "e = None" "h' = \<lparr>sh_objs = sh_objs h @ [sess], sh_index = sh_index h @ [(s_ID sess, length (sh_objs h))]\<rparr>"
      using assms(2) None by (auto simp: heap_Create_def update_fresh)
    have "length (sh_objs h) \<notin> snd ` set (sh_index h)" using lt by auto
    moreover have "s_ID sess \<notin> fst ` set (sh_index h)" using None by (simp add: map_of_eq_None_iff)
    ultimately have "wf_heap h'" using assms(1) lt
      by (auto simp: wf_heap_def h' nth_append split: prod.splits)
    moreover have "heap_view h' = heap_view h @ [(s_ID sess, sess)]"
      using old by (simp add: heap_view_def h' deref_def)
    ultimately show ?thesis using v h'(1) by (simp add: session_Create_def update_fresh)
  next
    case (Some p)
    then show ?thesis using assms by (auto simp: heap_Create_def session_Create_def map_of_view)
  qed
  then show "session_Create sess (heap_view h) = (e, heap_view h')" and "wf_heap h'" by auto
qed

lemma heap_Get_refines: "session_Get now sid (heap_view h) = map_option ((!) (sh_objs h)) (heap_Get now sid h)"
  by (simp add: heap_Get_def session_Get_def map_of_view split: option.split)

lemma heap_Get_Some:
  "wf_heap h \<Longrightarrow> heap_Get now sid h = Some p \<Longrightarrow>
   p < length (sh_objs h) \<and> s_ID (sh_objs h ! p) = sid \<and> \<not> session_expired now (sh_objs h ! p)"
  by (auto simp: heap_Get_def wf_heap_entry split: option.splits if_splits)

lemma heap_MarkVerified_refines:
  assumes "wf_heap h" and "heap_MarkVerified sid h = (e, h')"
  shows "session_MarkVerified sid (heap_view h) = (e, heap_view h')" and "wf_heap h'"
proof -
  have "session_MarkVerified sid (heap_view h) = (e, heap_view h') \<and> wf_heap h'"
  proof (cases "map_of (sh_index h) sid")
    case (Some p)
    have "e = None" "h' = h\<lparr>sh_objs := (sh_objs h)[p := (sh_objs h ! p)\<lparr>s_Verified := True\<rparr>]\<rparr>"
      using assms(2) Some by (auto simp: heap_MarkVerified_def)
    moreover have "map (deref ((sh_objs h)[p := (sh_objs h ! p)\<lparr>s_Verified := True\<rparr>])) (sh_index h)
        = AList.update sid ((sh_objs h ! p)\<lparr>s_Verified := True\<rparr>) (map (deref (sh_objs h)) (sh_index h))"
      using assms(1) Some by (intro update_deref) (auto simp: wf_heap_def)
    moreover have "wf_heap (h\<lparr>sh_objs := (sh_objs h)[p := (sh_objs h ! p)\<lparr>s_Verified := True\<rparr>]\<rparr>)"
      using assms(1) by (auto simp: wf_heap_def nth_update_if)
    ultimately show ?thesis using Some
      by (simp add: session_MarkVerified_def map_of_view) (simp add: heap_view_def)
  qed (use assms in \<open>auto simp: heap_MarkVerified_def session_MarkVerified_def map_of_view\<close>)
  then show "session_MarkVerified sid (heap_view h) = (e, heap_view h')" and "wf_heap h'" by auto
qed

lemma wf_heap_filter: "wf_heap h \<Longrightarrow> wf_heap (h\<lparr>sh_index := filter Q (sh_index h)\<rparr>)"
  by (auto simp: wf_heap_def distinct_map_filter)

lemma heap_Delete_refines:
  shows "heap_view (heap_Delete sid h) = session_Delete sid (heap_view h)"
    and "wf_heap h \<Longrightarrow> wf_heap (heap_Delete sid h)"
  by (simp_all add: heap_Delete_def heap_view_def session_Delete_def delete_deref)
    (simp add: AList.delete_eq wf_heap_filter)

lemma heap_clean_loop_filter: "\<exists>Q. snd (heap_clean_loop now objs es n ix) = filter Q ix"
proof (induction now objs es n ix rule: heap_clean_loop.induct)
  case (1 now objs cnt ix)
  show ?case by (auto intro: exI [of _ "\<lambda>_. True"])
next
  case (2 now objs sid p es cnt ix)
  show ?case
  proof (cases "session_expired now (objs ! p)")
    case True
    with 2(1) obtain Q where "snd (heap_clean_loop now objs es (cnt + 1) (AList.delete sid ix)) = filter Q (AList.delete sid ix)"
      by auto
    with True show ?thesis by (auto simp: AList.delete_eq)
  qed (use 2(2) in auto)
qed

lemma heap_CleanExpired_refines:
  assumes "wf_heap h" and "heap_CleanExpired now h = (n, h')"
  shows "session_CleanExpired now (heap_view h) = (n, heap_view h')" and "wf_heap h'"
proof -
  obtain ix where l: "heap_clean_loop now (sh_objs h) (sh_index h) 0 (sh_index h) = (n, ix)" "h' = h\<lparr>sh_index := ix\<rparr>"
    using assms(2) by (auto simp: heap_CleanExpired_def split: prod.splits)
  show "session_CleanExpired now (heap_view h) = (n, heap_view h')"
    using clean_loop_deref [OF l(1)] by (simp add: session_CleanExpired_def heap_view_def l(2))
  show "wf_heap h'"
    using heap_clean_loop_filter [of now "sh_objs h" "sh_index h" 0 "sh_index h"] l assms(1) wf_heap_filter by auto
qed

section \<open>How objects evolve\<close>

definition evolves :: "session_heap \<Rightarrow> session_heap \<Rightarrow> bool" where
  "evolves h h' \<longleftrightarrow> length (sh_objs h) \<le> length (sh_objs h')
     \<and> (\<forall>p < length (sh_objs h). sh_objs h' ! p = sh_objs h ! p
          \<or> sh_objs h' ! p = (sh_objs h ! p)\<lparr>s_Verified := True\<rparr>)"

lemma evolves_refl [simp]: "evolves h h"
  by (simp add: evolves_def)

lemma evolves_at:
  "evolves h h' \<Longrightarrow> p < length (sh_objs h) \<Longrightarrow>
     p < length (sh_objs h') \<and> (sh_objs h' ! p = sh_objs h ! p \<or> sh_objs h' ! p = (sh_objs h ! p)\<lparr>s_Verified := True\<rparr>)"
  by (auto simp: evolves_def)

lemma evolves_trans:
  assumes "evolves h h'" and "evolves h' h''"
  shows "evolves h h''"
proof -
  have "sh_objs h'' ! p = sh_objs h ! p \<or> sh_objs h'' ! p = (sh_objs h ! p)\<lparr>s_Verified := True\<rparr>"
    if "p < length (sh_objs h)" for p
    using evolves_at [OF assms(1) that] evolves_at [OF assms(2), of p] by auto
  moreover have "length (sh_objs h) \<le> length (sh_objs h'')" using assms by (simp add: evolves_def)
  ultimately show ?thesis by (simp add: evolves_def)
qed

lemma evolves_Create: "evolves h (snd (heap_Create sess h))"
  by (auto simp: evolves_def heap_Create_def nth_append split: option.split)

lemma evolves_MarkVerified: "evolves h (snd (heap_MarkVerified sid h))"
  by (auto simp: evolves_def heap_MarkVerified_def nth_update_if split: option.split)

lemma evolves_objs: "sh_objs h' = sh_objs h \<Longrightarrow> evolves h h'"
  by (simp add: evolves_def)

lemma objs_Delete [simp]: "sh_objs (heap_Delete sid h) = sh_objs h"
  by (simp add: heap_Delete_def)

lemma objs_CleanExpired [simp]: "sh_objs (snd (heap_CleanExpired now h)) = sh_objs h"
  by (simp add: heap_CleanExpired_def Let_def case_prod_unfold)

end
