(* ===== verification/Dispatcher_Concurrent.thy ===== *)
theory Dispatcher_Concurrent
  imports Go_Concurrency Pake_Objects Dispatcher_Safety
begin

text \<open>
  The dispatcher as the goroutines of \<^verbatim>\<open>net/http\<close> run it. Each request is a program whose atomic
  steps are the calls that lock: one operation of the session store, the attempt counter, the record or
  credential store, a metric, a read of \<^verbatim>\<open>sess.Verified\<close> through the pointer, or one call of a service
  handler. Between two steps other requests run. The handlers of \<^verbatim>\<open>dispatcher.go\<close> and \<^verbatim>\<open>fido2.go\<close> are
  translated once more in this form, and a request that runs alone is shown to do what the sequential
  model of \<^verbatim>\<open>Service_Dispatcher\<close> does.
\<close>

section \<open>The state of the running server\<close>

record ('h, 's, 'm) cstate =
  cs_heap :: session_heap
  cs_counter :: AttemptCounter
  cs_records :: "string \<rightharpoonup> 'm ClientRecord"
  cs_world :: "('h, 's) world"

type_synonym ('h, 's, 'm) cprog = "(('h, 's, 'm) cstate, (R2PSError, string) res) prog"

definition cs_view :: "('h, 's, 'm) cstate \<Rightarrow> ('h, 's, 'm) dstate" where
  "cs_view c = \<lparr>ds_sessions = heap_view (cs_heap c), ds_counter = cs_counter c, ds_records = cs_records c,
                ds_world = cs_world c\<rparr>"

text \<open>An operation on everything but the sessions, and one on the sessions.\<close>

definition shared ::
  "(('h, 's, 'm) dstate \<Rightarrow> 'a \<times> ('h, 's, 'm) dstate) \<Rightarrow> ('h, 's, 'm) cstate \<Rightarrow> 'a \<times> ('h, 's, 'm) cstate"
where
  "shared f c =
     (let (a, st) = f (cs_view c)
      in (a, c\<lparr>cs_counter := ds_counter st, cs_records := ds_records st, cs_world := ds_world st\<rparr>))"

definition on_sessions ::
  "(session_heap \<Rightarrow> 'a \<times> session_heap) \<Rightarrow> ('h, 's, 'm) cstate \<Rightarrow> 'a \<times> ('h, 's, 'm) cstate"
where
  "on_sessions f c = (let (a, h) = f (cs_heap c) in (a, c\<lparr>cs_heap := h\<rparr>))"

text \<open>\<^verbatim>\<open>Get\<close> answers a pointer; every field but \<^verbatim>\<open>Verified\<close> is fixed, so it is read along with it.\<close>

definition get_session :: "instant \<Rightarrow> string \<Rightarrow> session_heap \<Rightarrow> (nat \<times> Session) option \<times> session_heap" where
  "get_session now sid h = (map_option (\<lambda>p. (p, sh_objs h ! p)) (heap_Get now sid h), h)"

definition read_Verified :: "nat \<Rightarrow> session_heap \<Rightarrow> bool \<times> session_heap" where
  "read_Verified p h = (s_Verified (sh_objs h ! p), h)"

definition do_metric :: "string \<Rightarrow> string list \<Rightarrow> ('h, 's, 'm) cprog \<Rightarrow> ('h, 's, 'm) cprog" where
  "do_metric name labels k = act (shared (\<lambda>st. ((), metric name labels st))) (\<lambda>_. k)"

definition check_lockout ::
  "req_env \<Rightarrow> ServiceRequest \<Rightarrow> ('h, 's, 'm) dstate \<Rightarrow> counter_error option \<times> ('h, 's, 'm) dstate"
where
  "check_lockout env req st =
     (let (e, c) = counter_Check (re_check env) (sr_ClientID req) (sr_Context req) (sr_Context req) (ds_counter st)
      in (e, st\<lparr>ds_counter := c\<rparr>))"

section \<open>OPAQUE\<close>

definition refuse :: "string \<Rightarrow> string \<Rightarrow> ('h, 's, 'm) cprog" where
  "refuse code msg = Done (Err (r2ps_err code msg))"

definition answer :: "'m libs \<Rightarrow> ('h, 's, 'm) Dispatcher \<Rightarrow> req_env \<Rightarrow> ServiceRequest \<Rightarrow> string \<Rightarrow> ('h, 's, 'm) cprog" where
  "answer L d env req dataJSON = Done (respond L d (re_resp env) req dataJSON)"

definition regEvaluate_prog ::
  "'m libs \<Rightarrow> ('h, 's, 'm) Dispatcher \<Rightarrow> req_env \<Rightarrow> ServiceRequest \<Rightarrow> bytes \<Rightarrow> ('h, 's, 'm) cprog"
where
  "regEvaluate_prog L d env req reqData =
     (case opaque_RegistrationResponse (lib_opaque L) (d_opaque d) reqData (cred_id (sr_Context req) (sr_ClientID req)) of
        Err e \<Rightarrow> refuse ErrServerError ''registration evaluate failed''
      | Panic \<Rightarrow> Done Panic
      | Ok respBytes \<Rightarrow>
          (let encoded = URLEncoding_Encode respBytes in
           answer L d env req (Marshal_TFAResponseData \<lparr>tr_PData = encoded, tr_Response = encoded, tr_Message = []\<rparr>)))"

definition regFinalize_prog ::
  "'m libs \<Rightarrow> ('h, 's, 'm) Dispatcher \<Rightarrow> req_env \<Rightarrow> ServiceRequest \<Rightarrow> bytes \<Rightarrow> ('h, 's, 'm) cprog"
where
  "regFinalize_prog L d env req reqData =
     (case DeserializeRegistrationRecord (lib_opaque L) reqData of
        Err e \<Rightarrow> refuse ErrIllegalRequestData ''invalid registration record''
      | Panic \<Rightarrow> Done Panic
      | Ok r \<Rightarrow>
          (let clientRecord = \<lparr>rec_RegistrationRecord = r,
                 rec_CredentialIdentifier = cred_id (sr_Context req) (sr_ClientID req), rec_ClientIdentity = []\<rparr>
           in act (shared (\<lambda>st.
                let (r, v) = rs_PutRecord (d_records d) (sr_ClientID req) (sr_Context req) clientRecord (rec_view st)
                in (r, set_rec_view v st)))
              (\<lambda>r. case r of
                 Err e \<Rightarrow> refuse ErrServerError ''store record failed''
               | Panic \<Rightarrow> Done Panic
               | Ok _ \<Rightarrow>
                   answer L d env req (Marshal_TFAResponseData (zero_TFAResponseData\<lparr>tr_Message := ''success''\<rparr>)))))"

definition authEvaluate_prog ::
  "'m libs \<Rightarrow> ('h, 's, 'm) Dispatcher \<Rightarrow> req_env \<Rightarrow> ServiceRequest \<Rightarrow> TFARequestData \<Rightarrow> bytes \<Rightarrow> ('h, 's, 'm) cprog"
where
  "authEvaluate_prog L d env req tfaReq reqData =
     act (shared (check_lockout env req)) (\<lambda>locked. case locked of
        Some e \<Rightarrow> Done (Err \<lparr>e_Code = ErrAccessDenied, e_Msg = Msg_counter e\<rparr>)
      | None \<Rightarrow>
          act (shared (\<lambda>st. (lookup_record L d env req st, st))) (\<lambda>found. case found of
             Ok rec \<Rightarrow>
               (case AuthEvaluate (lib_opaque L) (re_ke2 env) (d_opaque d) reqData rec of
                  Err e \<Rightarrow> refuse ErrServerError ''auth evaluate failed''
                | Panic \<Rightarrow> Done Panic
                | Ok (ke2Bytes, clientMAC, sessionSecret) \<Rightarrow>
                    (case RandomBytes (re_session_id env) 32 of
                       Ok rnd \<Rightarrow>
                         (let ttl = session_ttl (d_sessionTTL d) (tfa_SessionDuration tfaReq);
                              sessionID = URLEncoding_Encode rnd;
                              sess = \<lparr>s_ID = sessionID, s_ClientID = sr_ClientID req, s_Context = sr_Context req,
                                      s_SessionKey = sessionSecret, s_ClientMAC = clientMAC,
                                      s_ExpiresAt = re_new env + ttl, s_Verified = False, s_Task = []\<rparr>
                          in act (on_sessions (heap_Create sess)) (\<lambda>created. case created of
                               Some e \<Rightarrow> refuse ErrServerError ''session creation failed''
                             | None \<Rightarrow>
                                 (let ke2Encoded = URLEncoding_Encode ke2Bytes in
                                  answer L d env req
                                    (Marshal_TFAAuthResponseData (zero_TFAAuthResponseData\<lparr>ta_SessionID := sessionID,
                                       ta_TFASessionID := sessionID, ta_PData := ke2Encoded, ta_Response := ke2Encoded\<rparr>)))))
                     | _ \<Rightarrow> Done Panic))
           | _ \<Rightarrow> Done Panic))"

definition authFinalize_prog ::
  "'m libs \<Rightarrow> ('h, 's, 'm) Dispatcher \<Rightarrow> req_env \<Rightarrow> ServiceRequest \<Rightarrow> bytes \<Rightarrow> ('h, 's, 'm) cprog"
where
  "authFinalize_prog L d env req reqData =
     act (on_sessions (get_session (re_get env) (sr_TFASessionID req))) (\<lambda>found. case found of
        None \<Rightarrow> refuse ErrIllegalState ''session not found or expired''
      | Some (p, sess) \<Rightarrow>
          (case AuthFinalize (lib_opaque L) (d_opaque d) reqData (s_ClientMAC sess) of
             Err e \<Rightarrow>
               act (shared (\<lambda>st. ((), RecordFailure (re_check env) req st))) (\<lambda>_.
               act (on_sessions (\<lambda>h. ((), heap_Delete (sr_TFASessionID req) h))) (\<lambda>_.
               do_metric ''pake_auth_total'' [''failure''] (refuse ErrUnauthorized ''authentication failed'')))
           | Panic \<Rightarrow> Done Panic
           | Ok _ \<Rightarrow>
               act (shared (\<lambda>st. ((), RecordSuccess req st))) (\<lambda>_.
               act (on_sessions (heap_MarkVerified (sr_TFASessionID req))) (\<lambda>marked. case marked of
                  Some e \<Rightarrow> refuse ErrServerError ''session update failed''
                | None \<Rightarrow>
                    do_metric ''pake_auth_total'' [''success''] (do_metric ''active_sessions'' []
                      (answer L d env req
                        (Marshal_TFAAuthResponseData (zero_TFAAuthResponseData\<lparr>ta_SessionID := sr_TFASessionID req,
                           ta_TFASessionID := sr_TFASessionID req, ta_Message := ''authenticated'',
                           ta_SessionExpirationTime := to_unix (s_ExpiresAt sess)\<rparr>))))))))"

section \<open>WebAuthn\<close>

definition fido2_challenge_prog ::
  "'m libs \<Rightarrow> ('h, 's, 'm) Dispatcher \<Rightarrow> 's FIDO2Config \<Rightarrow> req_env \<Rightarrow> ServiceRequest \<Rightarrow> ('h, 's, 'm) cprog"
where
  "fido2_challenge_prog L d f env req =
     (case RandomBytes (re_challenge env) 16 of
        Ok challenge \<Rightarrow>
          (let challengeB64 = encodeBase64 challenge;
               token = \<lparr>ct_Iat = to_unix (re_new env), ct_ClientID = sr_ClientID req, ct_Context = sr_Context req,
                        ct_Challenge = challengeB64\<rparr>
           in case token_Encrypt (lib_gcm L) (re_token_nonce env) (fc_TokenEncryptor f) token of
                Err e \<Rightarrow> refuse ErrServerError ''token encryption failed''
              | Panic \<Rightarrow> Done Panic
              | Ok tokenBytes \<Rightarrow>
                  answer L d env req (Marshal_fido2ChallengeResponse challengeB64 (encodeBase64 tokenBytes)))
      | _ \<Rightarrow> Done Panic)"

definition fido2AuthChallenge_prog ::
  "'m libs \<Rightarrow> ('h, 's, 'm) Dispatcher \<Rightarrow> 's FIDO2Config \<Rightarrow> req_env \<Rightarrow> ServiceRequest \<Rightarrow> ('h, 's, 'm) cprog"
where
  "fido2AuthChallenge_prog L d f env req =
     act (shared (check_lockout env req)) (\<lambda>locked. case locked of
        Some e \<Rightarrow> Done (Err \<lparr>e_Code = ErrAccessDenied, e_Msg = Msg_counter e\<rparr>)
      | None \<Rightarrow> fido2_challenge_prog L d f env req)"

text \<open>Only requests of type \<^verbatim>\<open>2fa_registration\<close> are routed here, so the check of an authorizing session,
  made for a change only, reads no session.\<close>

definition fido2RegRegister_prog ::
  "'m libs \<Rightarrow> ('h, 's, 'm) Dispatcher \<Rightarrow> 's FIDO2Config \<Rightarrow> req_env \<Rightarrow> ServiceRequest \<Rightarrow> TFARequestData
   \<Rightarrow> ('h, 's, 'm) cprog"
where
  "fido2RegRegister_prog L d f env req tfaReq =
     act (shared (\<lambda>st. (verified_registration L f env req tfaReq (ds_sessions st), st))) (\<lambda>verified. case verified of
        Err e \<Rightarrow> Done (Err e)
      | Panic \<Rightarrow> Done Panic
      | Ok authData \<Rightarrow>
          (case (case ad_PublicKey authData of None \<Rightarrow> Panic | Some pk \<Rightarrow> MarshalUncompressedPublicKey pk) of
             Ok pubKeyBytes \<Rightarrow>
               (let cred = \<lparr>wc_CredentialID = ad_CredentialID authData, wc_PublicKey = pubKeyBytes,
                            wc_SignCount = ad_SignCount authData, wc_AAGUID = ad_AAGUID authData,
                            wc_CreatedAt = to_unix (re_new env)\<rparr>
                in act (shared (\<lambda>st.
                     let (r, s) = PutWebAuthnCredential (fc_Store f) (sr_ClientID req) (sr_Context req) cred
                                    (w_store (ds_world st))
                     in (r, st\<lparr>ds_world := (ds_world st)\<lparr>w_store := s\<rparr>\<rparr>)))
                   (\<lambda>r. case r of
                      Err e \<Rightarrow> refuse ErrServerError ''store credential failed''
                    | Panic \<Rightarrow> Done Panic
                    | Ok _ \<Rightarrow>
                        do_metric ''fido2_auth_total'' [''registration'']
                          (answer L d env req
                            (Marshal_TFAResponseData (zero_TFAResponseData\<lparr>tr_Message := ''success''\<rparr>)))))
           | _ \<Rightarrow> Done Panic))"

definition open_session_prog ::
  "'m libs \<Rightarrow> ('h, 's, 'm) Dispatcher \<Rightarrow> req_env \<Rightarrow> ServiceRequest \<Rightarrow> fido2AuthFinalizeRequest \<Rightarrow> ('h, 's, 'm) cprog"
where
  "open_session_prog L d env req finalReq =
     (case fido2_session_key L env req finalReq of
        Err e \<Rightarrow> Done (Err e)
      | Panic \<Rightarrow> Done Panic
      | Ok (serverEpubBytes, sessionKey) \<Rightarrow>
          (case RandomBytes (re_session_id env) 32 of
             Ok rnd \<Rightarrow>
               (let sessionID = encodeBase64 rnd; expiresAt = re_new env + d_sessionTTL d;
                    sess = \<lparr>s_ID = sessionID, s_ClientID = sr_ClientID req, s_Context = sr_Context req,
                            s_SessionKey = sessionKey, s_ClientMAC = [], s_ExpiresAt = expiresAt,
                            s_Verified = True, s_Task = fr_Task finalReq\<rparr>
                in act (on_sessions (heap_Create sess)) (\<lambda>created. case created of
                     Some e \<Rightarrow> refuse ErrServerError ''session creation failed''
                   | None \<Rightarrow>
                       act (shared (\<lambda>st. ((), RecordSuccess req st))) (\<lambda>_.
                       do_metric ''fido2_auth_total'' [''success''] (do_metric ''active_sessions'' []
                         (answer L d env req
                           (Marshal_fido2AuthFinalizeResponse (encodeBase64 serverEpubBytes) sessionID
                              (fr_Task finalReq) (to_unix expiresAt)))))))
           | _ \<Rightarrow> Done Panic))"

text \<open>The credentials are read in one step and the counter of the authenticator is stored in another.\<close>

definition record_failure_prog :: "req_env \<Rightarrow> ServiceRequest \<Rightarrow> ('h, 's, 'm) cprog \<Rightarrow> ('h, 's, 'm) cprog" where
  "record_failure_prog env req k = act (shared (\<lambda>st. ((), RecordFailure (re_check env) req st))) (\<lambda>_. k)"

definition after_credentials ::
  "'m libs \<Rightarrow> ('h, 's, 'm) Dispatcher \<Rightarrow> 's FIDO2Config \<Rightarrow> req_env \<Rightarrow> ServiceRequest \<Rightarrow> finalize_input
   \<Rightarrow> (store_error, WebAuthnCredential list) res \<Rightarrow> ('h, 's, 'm) cprog"
where
  "after_credentials L d f env req fi found =
     (let credID = as_CredentialID (fi_Assertion fi);
          failed = (\<lambda>msg. record_failure_prog env req (refuse ErrUnauthorized msg))
      in case found of
           Panic \<Rightarrow> Done Panic
         | Err e \<Rightarrow> failed ''no credentials registered''
         | Ok creds \<Rightarrow>
             if creds = [] then failed ''no credentials registered''
             else
               (case find (\<lambda>c. bytesEqual (wc_CredentialID c) credID) creds of
                  None \<Rightarrow> failed ''credential not found''
                | Some matchedCred \<Rightarrow>
                    (case UnmarshalPublicKey P256 (wc_PublicKey matchedCred) of
                       Err e \<Rightarrow> refuse ErrServerError ''invalid stored public key''
                     | Panic \<Rightarrow> Done Panic
                     | Ok pubKey \<Rightarrow>
                         (case VerifyAssertion (lib_wa L) (fi_Assertion fi) (cred_of matchedCred pubKey)
                                 (ct_Challenge (fi_Token fi)) (fc_RPID f) (fc_AllowedOrigins f) of
                            Panic \<Rightarrow> Done Panic
                          | Err e \<Rightarrow>
                              record_failure_prog env req (do_metric ''fido2_auth_total'' [''failure'']
                                (Done (Err \<lparr>e_Code = ErrUnauthorized, e_Msg = Msg_webauthn e\<rparr>)))
                          | Ok authData \<Rightarrow>
                              act (shared (\<lambda>st.
                                let (r, s) = UpdateWebAuthnSignCount (fc_Store f) (sr_ClientID req) (sr_Context req)
                                               credID (ad_SignCount authData) (w_store (ds_world st))
                                in (r, st\<lparr>ds_world := (ds_world st)\<lparr>w_store := s\<rparr>\<rparr>)))
                              (\<lambda>r. case r of Panic \<Rightarrow> Done Panic | _ \<Rightarrow> open_session_prog L d env req (fi_Req fi))))))"

definition fido2AuthFinalize_prog ::
  "'m libs \<Rightarrow> ('h, 's, 'm) Dispatcher \<Rightarrow> 's FIDO2Config \<Rightarrow> req_env \<Rightarrow> ServiceRequest \<Rightarrow> TFARequestData
   \<Rightarrow> ('h, 's, 'm) cprog"
where
  "fido2AuthFinalize_prog L d f env req tfaReq =
     (case finalize_request L f env req tfaReq of
        Err e \<Rightarrow> Done (Err e)
      | Panic \<Rightarrow> Done Panic
      | Ok fi \<Rightarrow>
          act (shared (\<lambda>st. (GetWebAuthnCredential (fc_Store f) (sr_ClientID req) (sr_Context req) (w_store (ds_world st)), st)))
            (after_credentials L d f env req fi))"

definition handleFIDO2_prog ::
  "'m libs \<Rightarrow> ('h, 's, 'm) Dispatcher \<Rightarrow> req_env \<Rightarrow> ServiceRequest \<Rightarrow> TFARequestData \<Rightarrow> ('h, 's, 'm) cprog"
where
  "handleFIDO2_prog L d env req tfaReq =
     (case d_fido2 d of
        None \<Rightarrow> refuse ErrIllegalRequestData ''fido2 not configured''
      | Some f \<Rightarrow>
          if sr_Type req = Type2FARegistration \<and> tfa_State tfaReq = StateChallenge then fido2_challenge_prog L d f env req
          else if sr_Type req = Type2FARegistration \<and> tfa_State tfaReq = StateRegister
          then fido2RegRegister_prog L d f env req tfaReq
          else if is_auth req \<and> tfa_State tfaReq = StateChallenge then fido2AuthChallenge_prog L d f env req
          else if is_auth req \<and> tfa_State tfaReq = StateFinalize then fido2AuthFinalize_prog L d f env req tfaReq
          else refuse ErrIllegalState ''invalid fido2 type/state combination'')"

section \<open>Requests\<close>

definition handle2FA_prog ::
  "'m libs \<Rightarrow> ('h, 's, 'm) Dispatcher \<Rightarrow> req_env \<Rightarrow> ServiceRequest \<Rightarrow> ('h, 's, 'm) cprog"
where
  "handle2FA_prog L d env req =
     (case Unmarshal_TFARequestData (sr_Data req) of
        None \<Rightarrow> refuse ErrIllegalRequestData ''malformed 2FA data''
      | Some tfaReq \<Rightarrow>
          (let protocol = tfa_GetProtocol tfaReq in
           if protocol = TFAModeFIDO2 then handleFIDO2_prog L d env req tfaReq
           else if protocol \<noteq> TFAModeOPAQUE
           then refuse ErrIllegalRequestData (''unsupported protocol: '' @ protocol)
           else
             (case URLEncoding_Decode (tfa_GetPData tfaReq) of
                None \<Rightarrow> refuse ErrIllegalRequestData ''invalid request encoding''
              | Some reqData \<Rightarrow>
                  if sr_Type req = Type2FARegistration \<and> tfa_State tfaReq = StateEvaluate
                  then regEvaluate_prog L d env req reqData
                  else if sr_Type req = Type2FARegistration \<and> tfa_State tfaReq = StateFinalize
                  then regFinalize_prog L d env req reqData
                  else if is_change req \<and> tfa_State tfaReq = StateEvaluate
                  then regEvaluate_prog L d env req reqData
                  else if is_change req \<and> tfa_State tfaReq = StateFinalize
                  then regFinalize_prog L d env req reqData
                  else if is_auth req \<and> tfa_State tfaReq = StateEvaluate
                  then authEvaluate_prog L d env req tfaReq reqData
                  else if is_auth req \<and> tfa_State tfaReq = StateFinalize
                  then authFinalize_prog L d env req reqData
                  else refuse ErrIllegalState ''invalid type/state combination'')))"

text \<open>The check of an authenticated session: \<^verbatim>\<open>Get\<close>, then a read of \<^verbatim>\<open>Verified\<close> through the pointer.\<close>

definition with_session ::
  "req_env \<Rightarrow> ServiceRequest \<Rightarrow> (Session \<Rightarrow> ('h, 's, 'm) cprog) \<Rightarrow> ('h, 's, 'm) cprog"
where
  "with_session env req k =
     act (on_sessions (get_session (re_get env) (sr_TFASessionID req))) (\<lambda>found. case found of
        None \<Rightarrow> refuse ErrUnauthorized ''session not found or expired''
      | Some (p, sess) \<Rightarrow>
          act (on_sessions (read_Verified p)) (\<lambda>verified.
            if \<not> verified then refuse ErrUnauthorized ''session not verified''
            else if s_Context sess \<noteq> sr_Context req then refuse ErrAccessDenied ''session context mismatch''
            else k sess))"

definition handle2FAChange_prog ::
  "'m libs \<Rightarrow> ('h, 's, 'm) Dispatcher \<Rightarrow> req_env \<Rightarrow> ServiceRequest \<Rightarrow> ('h, 's, 'm) cprog"
where
  "handle2FAChange_prog L d env req = with_session env req (\<lambda>_. handle2FA_prog L d env req)"

definition call_handler ::
  "'m libs \<Rightarrow> ('h, 's, 'm) Dispatcher \<Rightarrow> req_env \<Rightarrow> ServiceRequest \<Rightarrow> ('h, 's) world Handler \<Rightarrow> ('h, 's, 'm) cprog"
where
  "call_handler L d env req handler =
     act (shared (\<lambda>st.
       let (r, w) = h_Handle handler (re_handler env) (sr_ClientID req) (sr_Data req) (ds_world st)
       in (r, st\<lparr>ds_world := w\<rparr>)))
     (\<lambda>r. case r of
        Err e \<Rightarrow> refuse ErrServerError (sr_Type req @ '' failed'')
      | Panic \<Rightarrow> Done Panic
      | Ok respData \<Rightarrow> answer L d env req (wrap_data respData))"

definition handleService_prog ::
  "'m libs \<Rightarrow> ('h, 's, 'm) Dispatcher \<Rightarrow> req_env \<Rightarrow> ServiceRequest \<Rightarrow> ('h, 's, 'm) cprog"
where
  "handleService_prog L d env req =
     (case d_handlers d (sr_Type req) of
        None \<Rightarrow> refuse ErrUnsupportedType ''unknown service type''
      | Some handler \<Rightarrow>
          if h_Mode handler \<noteq> Mode1FA
          then with_session env req (\<lambda>sess.
                 case sad_check (wp_sha256 (lib_wa L)) req sess of
                   Err e \<Rightarrow> Done (Err e)
                 | Panic \<Rightarrow> Done Panic
                 | Ok _ \<Rightarrow> call_handler L d env req handler)
          else call_handler L d env req handler)"

definition route_prog ::
  "'m libs \<Rightarrow> ('h, 's, 'm) Dispatcher \<Rightarrow> req_env \<Rightarrow> ServiceRequest \<Rightarrow> ('h, 's, 'm) cprog"
where
  "route_prog L d env req =
     (if sr_Type req = Type2FARegistration then handle2FA_prog L d env req
      else if sr_Type req = Type2FAAuthenticate \<or> sr_Type req = TypeCreateSession then handle2FA_prog L d env req
      else if sr_Type req = Type2FAChange \<or> sr_Type req = Type2FAUpdate then handle2FAChange_prog L d env req
      else handleService_prog L d env req)"

definition Process_prog :: "'m libs \<Rightarrow> ('h, 's, 'm) Dispatcher \<Rightarrow> req_env \<Rightarrow> string \<Rightarrow> ('h, 's, 'm) cprog" where
  "Process_prog L d env body =
     (case accept_request L d env body of
        Err e \<Rightarrow> Done (Err e)
      | Panic \<Rightarrow> Done Panic
      | Ok req \<Rightarrow> route_prog L d env req)"

section \<open>A request that runs alone\<close>

text \<open>From \<open>c\<close>, the program ends in a well-formed state and with the outcome \<open>x\<close> of the sequential model.\<close>

definition agrees :: "('h, 's, 'm) cprog \<Rightarrow> ('h, 's, 'm) cstate \<Rightarrow> ('h, 's, 'm) handled \<Rightarrow> bool" where
  "agrees p c x \<longleftrightarrow> wf_heap (cs_heap (snd (run_alone p c)))
     \<and> x = (fst (run_alone p c), cs_view (snd (run_alone p c)))"

named_theorems alone

lemma agrees_Done [alone]: "agrees (Done r) c x \<longleftrightarrow> wf_heap (cs_heap c) \<and> x = (r, cs_view c)"
  by (simp add: agrees_def)

lemma agrees_refuse [alone]: "agrees (refuse code msg) c x \<longleftrightarrow> wf_heap (cs_heap c) \<and> x = fail code msg (cs_view c)"
  by (simp add: refuse_def fail_def agrees_Done)

lemma agrees_answer [alone]:
  "agrees (answer L d env req j) c x \<longleftrightarrow> wf_heap (cs_heap c) \<and> x = signResponse L d (re_resp env) req j (cs_view c)"
  by (simp add: answer_def signResponse_def agrees_Done)

lemma agrees_act [alone]: "agrees (act f k) c x = agrees (k (fst (f c))) (snd (f c)) x"
  by (simp add: agrees_def)

lemma shared_parts [alone]:
  "fst (shared f c) = fst (f (cs_view c))"
  "cs_heap (snd (shared f c)) = cs_heap c"
  "ds_sessions (snd (f (cs_view c))) = ds_sessions (cs_view c) \<Longrightarrow> cs_view (snd (shared f c)) = snd (f (cs_view c))"
  by (simp_all add: shared_def cs_view_def Let_def case_prod_unfold)

lemma on_sessions_parts [alone]:
  "fst (on_sessions f c) = fst (f (cs_heap c))"
  "cs_heap (snd (on_sessions f c)) = snd (f (cs_heap c))"
  "cs_view (snd (on_sessions f c)) = (cs_view c)\<lparr>ds_sessions := heap_view (snd (f (cs_heap c)))\<rparr>"
  by (simp_all add: on_sessions_def cs_view_def Let_def case_prod_unfold)

lemma view_sessions [alone]: "ds_sessions (cs_view c) = heap_view (cs_heap c)"
  by (simp add: cs_view_def)

lemma heap_ops_alone [alone]:
  "wf_heap h \<Longrightarrow> session_Create sess (heap_view h) = (fst (heap_Create sess h), heap_view (snd (heap_Create sess h)))"
  "wf_heap h \<Longrightarrow> wf_heap (snd (heap_Create sess h))"
  "wf_heap h \<Longrightarrow> session_MarkVerified sid (heap_view h) =
     (fst (heap_MarkVerified sid h), heap_view (snd (heap_MarkVerified sid h)))"
  "wf_heap h \<Longrightarrow> wf_heap (snd (heap_MarkVerified sid h))"
  "session_Delete sid (heap_view h) = heap_view (heap_Delete sid h)"
  "wf_heap h \<Longrightarrow> wf_heap (heap_Delete sid h)"
  "session_Get now sid (heap_view h) = map_option ((!) (sh_objs h)) (heap_Get now sid h)"
  using heap_Create_refines [of h sess "fst (heap_Create sess h)" "snd (heap_Create sess h)"]
    heap_MarkVerified_refines [of h sid "fst (heap_MarkVerified sid h)" "snd (heap_MarkVerified sid h)"]
  by (simp_all add: heap_Delete_refines heap_Get_refines)

lemma get_session_alone [alone]:
  "fst (get_session now sid h) = map_option (\<lambda>p. (p, sh_objs h ! p)) (heap_Get now sid h)"
  "snd (get_session now sid h) = h"
  "fst (read_Verified p h) = s_Verified (sh_objs h ! p)" "snd (read_Verified p h) = h"
  "(cs_view c)\<lparr>ds_sessions := heap_view (cs_heap c)\<rparr> = cs_view c"
  by (simp_all add: get_session_def read_Verified_def cs_view_def)

lemma agrees_metric [alone]: "agrees (do_metric n l k) c x = agrees k (snd (shared (\<lambda>st. ((), metric n l st)) c)) x"
  by (simp add: do_metric_def agrees_act)

lemma agrees_failure [alone]:
  "agrees (record_failure_prog env req k) c x = agrees k (snd (shared (\<lambda>st. ((), RecordFailure (re_check env) req st)) c)) x"
  by (simp add: record_failure_prog_def agrees_act)

section \<open>Every program refines its handler\<close>

lemma alone_regEvaluate [alone]:
  "wf_heap (cs_heap c) \<Longrightarrow> agrees (regEvaluate_prog L d env req b) c (regEvaluate L d env req b (cs_view c))"
  by (simp add: regEvaluate_prog_def regEvaluate_def Let_def alone split: res.split)

lemma alone_regFinalize [alone]:
  "wf_heap (cs_heap c) \<Longrightarrow> agrees (regFinalize_prog L d env req b) c (regFinalize L d env req b (cs_view c))"
  by (simp add: regFinalize_prog_def regFinalize_def Let_def alone case_prod_unfold split: res.split)

lemma alone_authEvaluate [alone]:
  "wf_heap (cs_heap c) \<Longrightarrow> agrees (authEvaluate_prog L d env req tfaReq b) c (authEvaluate L d env req tfaReq b (cs_view c))"
  by (simp add: authEvaluate_prog_def authEvaluate_def check_lockout_def Let_def alone case_prod_unfold
      split: res.split option.split)

lemma alone_authFinalize [alone]:
  "wf_heap (cs_heap c) \<Longrightarrow> agrees (authFinalize_prog L d env req b) c (authFinalize L d env req b (cs_view c))"
  by (simp add: authFinalize_prog_def authFinalize_def Let_def alone case_prod_unfold split: res.split option.split)

lemma agrees_refuseI: "wf_heap (cs_heap c) \<Longrightarrow> agrees (refuse code msg) c (fail code msg (cs_view c))"
  by (simp add: agrees_refuse)

lemma agrees_if:
  "(b \<Longrightarrow> agrees p c x) \<Longrightarrow> (\<not> b \<Longrightarrow> agrees q c y) \<Longrightarrow> agrees (if b then p else q) c (if b then x else y)"
  by simp

lemma agrees_option:
  "agrees p c x \<Longrightarrow> (\<And>a. agrees (q a) c (y a)) \<Longrightarrow> agrees (case_option p q v) c (case_option x y v)"
  by (cases v) simp_all

lemma agrees_res:
  "(\<And>a. agrees (p a) c (x a)) \<Longrightarrow> (\<And>e. agrees (q e) c (y e)) \<Longrightarrow> agrees r c z \<Longrightarrow>
   agrees (case_res p q r v) c (case_res x y z v)"
  by (cases v) simp_all

lemma alone_challenge [alone]:
  "wf_heap (cs_heap c) \<Longrightarrow> agrees (fido2_challenge_prog L d f env req) c (fido2_challenge L d f env req (cs_view c))"
  by (simp add: fido2_challenge_prog_def fido2_challenge_def Let_def alone RandomBytes_def split: res.split option.split)

lemma alone_AuthChallenge [alone]:
  "wf_heap (cs_heap c) \<Longrightarrow> agrees (fido2AuthChallenge_prog L d f env req) c (fido2AuthChallenge L d f env req (cs_view c))"
  using alone_challenge [of "snd (shared (check_lockout env req) c)" L d f env req]
  by (simp add: fido2AuthChallenge_prog_def fido2AuthChallenge_def check_lockout_def Let_def alone case_prod_unfold
      split: option.split)

lemma alone_RegRegister [alone]:
  "wf_heap (cs_heap c) \<Longrightarrow>
   agrees (fido2RegRegister_prog L d f env req tfaReq) c (fido2RegRegister L d f env req tfaReq (cs_view c))"
  by (simp add: fido2RegRegister_prog_def fido2RegRegister_def Let_def alone case_prod_unfold split: res.split option.split)

lemma alone_open_session [alone]:
  "wf_heap (cs_heap c) \<Longrightarrow> cs_view c = st \<Longrightarrow>
   agrees (open_session_prog L d env req fr) c (fido2_open_session L d env req fr st)"
  by (erule subst) (simp add: open_session_prog_def fido2_open_session_def Let_def alone case_prod_unfold split: res.split option.split)

lemma alone_AuthFinalize [alone]:
  "wf_heap (cs_heap c) \<Longrightarrow>
   agrees (fido2AuthFinalize_prog L d f env req tfaReq) c (fido2AuthFinalize L d f env req tfaReq (cs_view c))"
  by (simp add: fido2AuthFinalize_prog_def fido2AuthFinalize_def after_credentials_def fido2_verify_def Let_def alone
      fail_def case_prod_unfold split: res.split option.split)

lemma alone_handleFIDO2 [alone]:
  "wf_heap (cs_heap c) \<Longrightarrow> agrees (handleFIDO2_prog L d env req tfaReq) c (handleFIDO2 L d env req tfaReq (cs_view c))"
  unfolding handleFIDO2_prog_def handleFIDO2_def fido2RegChallenge_def
  by (intro agrees_if agrees_option agrees_refuseI alone_challenge alone_RegRegister alone_AuthChallenge alone_AuthFinalize)

lemma alone_handle2FA [alone]:
  "wf_heap (cs_heap c) \<Longrightarrow> agrees (handle2FA_prog L d env req) c (handle2FA L d env req (cs_view c))"
  unfolding handle2FA_prog_def handle2FA_def Let_def
  by (intro agrees_if agrees_option agrees_refuseI alone_handleFIDO2 alone_regEvaluate alone_regFinalize
      alone_authEvaluate alone_authFinalize)

lemma alone_with_session:
  assumes "wf_heap (cs_heap c)" and "\<And>sess. agrees (k sess) c (g sess (cs_view c))"
  shows "agrees (with_session env req k) c
    (case require_session env req (ds_sessions (cs_view c)) of
       Err e \<Rightarrow> (Err e, cs_view c) | Panic \<Rightarrow> (Panic, cs_view c) | Ok sess \<Rightarrow> g sess (cs_view c))"
proof -
  have "snd (on_sessions (get_session now sid) c) = c" "snd (on_sessions (read_Verified p) c) = c" for now sid p
    by (simp_all add: on_sessions_def get_session_def read_Verified_def)
  then show ?thesis
    using assms
    by (simp add: with_session_def require_session_def alone fail_def split: option.split)
qed

lemma alone_handle2FAChange [alone]:
  "wf_heap (cs_heap c) \<Longrightarrow> agrees (handle2FAChange_prog L d env req) c (handle2FAChange L d env req (cs_view c))"
  unfolding handle2FAChange_prog_def handle2FAChange_def
  using alone_with_session [of c "\<lambda>_. handle2FA_prog L d env req" "\<lambda>_. handle2FA L d env req" env req]
  by (simp add: alone_handle2FA)

definition handler_call ::
  "'m libs \<Rightarrow> ('h, 's, 'm) Dispatcher \<Rightarrow> req_env \<Rightarrow> ServiceRequest \<Rightarrow> ('h, 's) world Handler \<Rightarrow> ('h, 's, 'm) dstate
   \<Rightarrow> ('h, 's, 'm) handled"
where
  "handler_call L d env req handler st =
     (let (r, w) = h_Handle handler (re_handler env) (sr_ClientID req) (sr_Data req) (ds_world st);
          st = st\<lparr>ds_world := w\<rparr>
      in case r of
           Err e \<Rightarrow> fail ErrServerError (sr_Type req @ '' failed'') st
         | Panic \<Rightarrow> (Panic, st)
         | Ok respData \<Rightarrow> (respond L d (re_resp env) req (wrap_data respData), st))"

lemma alone_call_handler [alone]:
  "wf_heap (cs_heap c) \<Longrightarrow> agrees (call_handler L d env req h) c (handler_call L d env req h (cs_view c))"
  by (simp add: call_handler_def handler_call_def Let_def signResponse_def alone case_prod_unfold split: res.split)

lemma alone_handleService [alone]:
  assumes "wf_heap (cs_heap c)"
  shows "agrees (handleService_prog L d env req) c (handleService L d env req (cs_view c))"
proof (cases "d_handlers d (sr_Type req)")
  case (Some h)
  let ?sad = "\<lambda>sess. sad_check (wp_sha256 (lib_wa L)) req sess"
  let ?g = "\<lambda>sess st. case ?sad sess of Err e \<Rightarrow> (Err e, st) | Panic \<Rightarrow> (Panic, st) | Ok _ \<Rightarrow> handler_call L d env req h st"
  let ?k = "\<lambda>sess. case ?sad sess of Err e \<Rightarrow> Done (Err e) | Panic \<Rightarrow> Done Panic | Ok _ \<Rightarrow> call_handler L d env req h"
  have "agrees (?k sess) c (?g sess (cs_view c))" for sess
    using assms by (simp add: alone split: res.split)
  note gated = alone_with_session [of c ?k ?g, OF assms this]
  show ?thesis
  proof (cases "h_Mode h = Mode1FA")
    case False
    with Some gated [of env req] show ?thesis
      unfolding handleService_prog_def handleService_def authorize_def handler_call_def
      by (cases "require_session env req (ds_sessions (cs_view c))") (simp_all split: res.splits)
  next
    case True
    with Some assms show ?thesis
      using alone_call_handler [of c L d env req h]
      by (simp add: handleService_prog_def handleService_def authorize_def handler_call_def)
  qed
qed (use assms in \<open>simp add: handleService_prog_def handleService_def alone\<close>)

lemma alone_Process:
  "wf_heap (cs_heap c) \<Longrightarrow> agrees (Process_prog L d env body) c (Process L d env body (cs_view c))"
  unfolding Process_prog_def Process_def route_prog_def route_def
  by (intro agrees_res agrees_if) (simp_all add: alone)

end
