(* ===== verification/Dispatcher_Interleaved.thy ===== *)
theory Dispatcher_Interleaved
  imports Dispatcher_Concurrent
begin

text \<open>
  Any number of requests at once. The programs of \<^verbatim>\<open>Dispatcher_Concurrent\<close> run under the scheduler of
  \<^verbatim>\<open>Go_Concurrency\<close>, with the clean-up of sessions in between; each is proved to keep the guarantee
  that it marks a session verified only with a proof of the second factor, and serves a request behind
  the second factor only under a verified session. The locale \<open>rely_guarantee\<close> carries this over to
  every interleaving.
\<close>

section \<open>Rely and guarantee\<close>

text \<open>What any step may do: the store stays well-formed and objects change in \<^verbatim>\<open>Verified\<close> only.\<close>

definition server_rely :: "('h, 's, 'm) cstate \<Rightarrow> ('h, 's, 'm) cstate \<Rightarrow> bool" where
  "server_rely c c' \<longleftrightarrow> (wf_heap (cs_heap c) \<longrightarrow> wf_heap (cs_heap c')) \<and> evolves (cs_heap c) (cs_heap c')"

definition server_tick :: "('h, 's, 'm) cstate \<Rightarrow> ('h, 's, 'm) cstate \<Rightarrow> bool" where
  "server_tick c c' \<longleftrightarrow> (\<exists>now. c' =
     (let (cnt, h) = heap_CleanExpired now (cs_heap c); c = c\<lparr>cs_heap := h\<rparr>
      in if 0 < cnt then snd (shared (\<lambda>st. ((), metric ''active_sessions_sub'' [Itoa (int cnt)] st)) c) else c))"

text \<open>The request proves the second factor behind the object: its KE3 message is accepted for an object
  of the same identifier, or its assertion for the client, context and task of the object by the
  credentials of a state the server was in.\<close>

definition proves_object ::
  "'m libs \<Rightarrow> ('h, 's, 'm) Dispatcher \<Rightarrow> ('h, 's, 'm) cstate set \<Rightarrow> req_env \<Rightarrow> ServiceRequest \<Rightarrow> session_heap
   \<Rightarrow> Session \<Rightarrow> bool"
where
  "proves_object L d H env req h sess \<longleftrightarrow>
     (sr_TFASessionID req = s_ID sess
        \<and> (\<exists>q < length (sh_objs h). s_ID (sh_objs h ! q) = s_ID sess \<and> opaque_proof L d req (sh_objs h ! q)))
     \<or> (sr_ClientID req = s_ClientID sess \<and> sr_Context req = s_Context sess
        \<and> (\<exists>c \<in> H. fido2_proof L d env req (w_store (cs_world c)) (s_Task sess)))"

text \<open>What a service request behind the second factor needs: an object the store handed out unexpired,
  verified, of the same context, whose task authorises the request.\<close>

definition guarded :: "'m libs \<Rightarrow> req_env \<Rightarrow> ServiceRequest \<Rightarrow> session_heap \<Rightarrow> nat \<Rightarrow> bool" where
  "guarded L env req h p \<longleftrightarrow> p < length (sh_objs h)
     \<and> (let sess = sh_objs h ! p in authorized L env req [(s_ID sess, sess)] sess)"

definition second_factor_service :: "('h, 's, 'm) Dispatcher \<Rightarrow> ServiceRequest \<Rightarrow> bool" where
  "second_factor_service d req \<longleftrightarrow>
     sr_Type req \<notin> {Type2FARegistration, Type2FAAuthenticate, TypeCreateSession, Type2FAChange, Type2FAUpdate}
     \<and> (\<exists>h. d_handlers d (sr_Type req) = Some h \<and> h_Mode h \<noteq> Mode1FA)"

definition request_guar ::
  "'m libs \<Rightarrow> ('h, 's, 'm) Dispatcher \<Rightarrow> req_env \<Rightarrow> ServiceRequest \<Rightarrow> ('h, 's, 'm) cstate set
   \<Rightarrow> ('h, 's, 'm) cstate \<Rightarrow> ('h, 's, 'm) cstate \<Rightarrow> bool"
where
  "request_guar L d env req H c c' \<longleftrightarrow> server_rely c c'
     \<and> (\<forall>p < length (sh_objs (cs_heap c')). s_Verified (sh_objs (cs_heap c') ! p) \<longrightarrow>
          (p < length (sh_objs (cs_heap c)) \<and> s_Verified (sh_objs (cs_heap c) ! p))
          \<or> proves_object L d H env req (cs_heap c') (sh_objs (cs_heap c') ! p))
     \<and> (second_factor_service d req \<longrightarrow> c' \<noteq> c \<longrightarrow> (\<exists>p. guarded L env req (cs_heap c) p))"

definition request_post ::
  "'m libs \<Rightarrow> ('h, 's, 'm) Dispatcher \<Rightarrow> req_env \<Rightarrow> ServiceRequest \<Rightarrow> (R2PSError, string) res
   \<Rightarrow> ('h, 's, 'm) cstate \<Rightarrow> bool"
where
  "request_post L d env req r c \<longleftrightarrow>
     (second_factor_service d req \<longrightarrow> (\<exists>resp. r = Ok resp) \<longrightarrow> (\<exists>p. guarded L env req (cs_heap c) p))"

text \<open>The same of a goroutine that starts from a body.\<close>

definition body_guar where
  "body_guar L d = (\<lambda>(env, body) H c c'. \<exists>req. accept_request L d env body = Ok req \<and> request_guar L d env req H c c')"

definition body_post where
  "body_post L d = (\<lambda>(env, body) r c. \<forall>req. accept_request L d env body = Ok req \<longrightarrow> request_post L d env req r c)"

section \<open>Stable facts\<close>

lemma server_rely_refl [simp]: "server_rely c c"
  by (simp add: server_rely_def)

text \<open>The object is known to the store, with these fixed fields.\<close>

definition known :: "Session \<Rightarrow> nat \<Rightarrow> session_heap \<Rightarrow> bool" where
  "known sess p h \<longleftrightarrow> p < length (sh_objs h)
     \<and> (sh_objs h ! p = sess \<or> sh_objs h ! p = sess\<lparr>s_Verified := True\<rparr>)"

lemma known_evolves: "known sess p h \<Longrightarrow> evolves h h' \<Longrightarrow> known sess p h'"
  unfolding known_def using evolves_at [of h h' p] by auto

lemma authorized_verified:
  "authorized L env req [(s_ID sess, sess)] sess \<Longrightarrow>
   authorized L env req [(s_ID (sess\<lparr>s_Verified := True\<rparr>), sess\<lparr>s_Verified := True\<rparr>)] (sess\<lparr>s_Verified := True\<rparr>)"
  by (auto simp: authorized_def session_Get_def session_expired_def split: if_splits)

lemma guarded_evolves: "guarded L env req h p \<Longrightarrow> evolves h h' \<Longrightarrow> guarded L env req h' p"
  unfolding guarded_def Let_def using evolves_at [of h h' p] authorized_verified by metis

lemma opaque_proof_verified: "opaque_proof L d req (sess\<lparr>s_Verified := True\<rparr>) = opaque_proof L d req sess"
  by (simp add: opaque_proof_def)

lemma proves_object_mono:
  assumes "proves_object L d H env req h sess" and "H \<subseteq> H'" and "evolves h h'"
  shows "proves_object L d H' env req h' sess"
proof -
  have "s_ID (sh_objs h' ! q) = s_ID (sh_objs h ! q) \<and> opaque_proof L d req (sh_objs h' ! q) = opaque_proof L d req (sh_objs h ! q)
      \<and> q < length (sh_objs h')" if "q < length (sh_objs h)" for q
    using evolves_at [OF assms(3) that] by (auto simp: opaque_proof_verified)
  then show ?thesis using assms(1,2) unfolding proves_object_def by (metis subsetD)
qed

lemma proves_object_verified: "proves_object L d H env req h (sess\<lparr>s_Verified := True\<rparr>) = proves_object L d H env req h sess"
  by (simp add: proves_object_def)

named_theorems stable_facts

lemma stable_conj [stable_facts]:
  "stable rely P \<Longrightarrow> stable rely Q \<Longrightarrow> stable rely (\<lambda>H s. P H s \<and> Q H s)"
  by (fastforce simp: stable_def)

lemma stable_const [stable_facts]: "stable rely (\<lambda>H s. b)"
  by (simp add: stable_def)

lemma stable_imp [stable_facts]: "stable rely P \<Longrightarrow> stable rely (\<lambda>H s. b \<longrightarrow> P H s)"
  by (auto simp: stable_def)

lemma stable_seen [stable_facts]: "stable rely (\<lambda>H s. \<exists>c \<in> H. P c)"
  by (auto simp: stable_def)

definition well_formed :: "('h, 's, 'm) cstate assertion" where
  "well_formed = (\<lambda>H c. wf_heap (cs_heap c))"

lemma stable_well_formed [stable_facts]: "stable server_rely well_formed"
  by (auto simp: stable_def server_rely_def well_formed_def)

lemma stable_known [stable_facts]: "stable server_rely (\<lambda>H c. known sess p (cs_heap c))"
  by (auto simp: stable_def server_rely_def intro: known_evolves)

lemma stable_guarded [stable_facts]: "stable server_rely (\<lambda>H c. guarded L env req (cs_heap c) p)"
  by (auto simp: stable_def server_rely_def intro: guarded_evolves)

section \<open>Steps of a request\<close>

abbreviation keeps where
  "keeps L d env req \<equiv> obeys server_rely (request_guar L d env req) (request_post L d env req)"

lemma guar_same_heap:
  assumes "cs_heap c' = cs_heap c" and "second_factor_service d req \<Longrightarrow> c' \<noteq> c \<Longrightarrow> \<exists>p. guarded L env req (cs_heap c) p"
  shows "request_guar L d env req H c c'"
  using assms by (simp add: request_guar_def server_rely_def)

lemma guar_refl [simp]: "request_guar L d env req H c c"
  by (rule guar_same_heap) simp_all

lemma shared_heap [simp]: "cs_heap (snd (shared f c)) = cs_heap c"
  by (simp add: shared_def Let_def case_prod_unfold)

lemma shared_read [simp]: "shared (\<lambda>st. (g st, st)) c = (g (cs_view c), c)"
  by (simp add: shared_def cs_view_def)

lemma keeps_Done:
  "\<not> second_factor_service d req \<or> (\<forall>resp. r \<noteq> Ok resp) \<Longrightarrow> keeps L d env req P (Done r)"
  by (rule obeys.finish) (auto simp: request_post_def)

lemma keeps_refuse: "keeps L d env req P (refuse code msg)"
  unfolding refuse_def by (rule keeps_Done) simp

lemma keeps_shared:
  assumes "stable server_rely P" and "\<not> second_factor_service d req" and "\<And>a. keeps L d env req P (k a)"
  shows "keeps L d env req P (act (shared f) k)"
proof (rule obeys_act [where Q = "\<lambda>_. P"])
  show "request_guar L d env req (insert c H) c (snd (shared f c)) \<and> P (insert c H) (snd (shared f c))" if "P H c" for H c
    using assms(2) stableD [OF assms(1) that, of "insert c H" "snd (shared f c)"]
    by (auto simp: server_rely_def intro: guar_same_heap)
qed (use assms in auto)

lemma keeps_read:
  assumes "stable server_rely P" and "\<And>a. keeps L d env req (\<lambda>H c. P H c \<and> (\<exists>c0 \<in> H. g (cs_view c0) = a)) (k a)"
  shows "keeps L d env req P (act (shared (\<lambda>st. (g st, st))) k)"
proof (rule obeys_act [where Q = "\<lambda>a H c. P H c \<and> (\<exists>c0 \<in> H. g (cs_view c0) = a)"])
  show "request_guar L d env req (insert c H) c (snd (shared (\<lambda>st. (g st, st)) c))
      \<and> P (insert c H) (snd (shared (\<lambda>st. (g st, st)) c))
      \<and> (\<exists>c0 \<in> insert c H. g (cs_view c0) = fst (shared (\<lambda>st. (g st, st)) c))" if "P H c" for H c
    using stableD [OF assms(1) that subset_insertI server_rely_refl] by (auto intro: guar_same_heap)
  show "stable server_rely (\<lambda>H c. P H c \<and> (\<exists>c0 \<in> H. g (cs_view c0) = a))" for a
    using assms(1) by (intro stable_facts)
qed (use assms in auto)

lemma on_sessions_heap [simp]:
  "cs_heap (snd (on_sessions f c)) = snd (f (cs_heap c))" "fst (on_sessions f c) = fst (f (cs_heap c))"
  by (simp_all add: on_sessions_def Let_def case_prod_unfold)

lemma keeps_on_sessions:
  assumes "stable server_rely P" and "\<not> second_factor_service d req" and "\<And>a. keeps L d env req P (k a)"
    and step: "\<And>H c. P H c \<Longrightarrow> (wf_heap (cs_heap c) \<longrightarrow> wf_heap (snd (f (cs_heap c)))) \<and> evolves (cs_heap c) (snd (f (cs_heap c)))
      \<and> (\<forall>p < length (sh_objs (snd (f (cs_heap c)))). s_Verified (sh_objs (snd (f (cs_heap c))) ! p) \<longrightarrow>
          (p < length (sh_objs (cs_heap c)) \<and> s_Verified (sh_objs (cs_heap c) ! p))
          \<or> proves_object L d H env req (snd (f (cs_heap c))) (sh_objs (snd (f (cs_heap c))) ! p))"
  shows "keeps L d env req P (act (on_sessions f) k)"
proof (rule obeys_act [where Q = "\<lambda>_. P"])
  fix H and c :: "('a, 'b, 'c) cstate"
  assume P: "P H c"
  have r: "server_rely c (snd (on_sessions f c))" using step [OF P] by (simp add: server_rely_def)
  have "P (insert c H) c" using stableD [OF assms(1) P subset_insertI server_rely_refl] .
  from step [OF this] r assms(2) stableD [OF assms(1) P subset_insertI r]
  show "request_guar L d env req (insert c H) c (snd (on_sessions f c)) \<and> P (insert c H) (snd (on_sessions f c))"
    by (simp add: request_guar_def)
qed (use assms in auto)

lemma keeps_Delete:
  assumes "stable server_rely P" and "\<not> second_factor_service d req" and "keeps L d env req P k"
  shows "keeps L d env req P (act (on_sessions (\<lambda>h. ((), heap_Delete sid h))) (\<lambda>_. k))"
  using assms by (intro keeps_on_sessions) (auto simp: heap_Delete_refines intro: evolves_objs)

lemma heap_Create_objs:
  "sh_objs (snd (heap_Create sess h)) = sh_objs h \<or> sh_objs (snd (heap_Create sess h)) = sh_objs h @ [sess]"
  by (simp add: heap_Create_def split: option.split)

lemma keeps_Create:
  assumes "stable server_rely P" and "\<not> second_factor_service d req" and "\<And>a. keeps L d env req P (k a)"
    and "s_Verified sess \<Longrightarrow> s_ClientID sess = sr_ClientID req \<and> s_Context sess = sr_Context req"
    and "\<And>H c. P H c \<Longrightarrow> s_Verified sess \<Longrightarrow> \<exists>c0 \<in> H. fido2_proof L d env req (w_store (cs_world c0)) (s_Task sess)"
  shows "keeps L d env req P (act (on_sessions (heap_Create sess)) k)"
proof (rule keeps_on_sessions [OF assms(1-3)], intro conjI impI allI)
  fix H and c :: "('a, 'b, 'c) cstate"
  assume P: "P H c"
  show "wf_heap (snd (heap_Create sess (cs_heap c)))" if "wf_heap (cs_heap c)"
    using heap_Create_refines(2) [OF that prod.collapse [symmetric]] .
  show "evolves (cs_heap c) (snd (heap_Create sess (cs_heap c)))" by (rule evolves_Create)
  fix p
  assume "p < length (sh_objs (snd (heap_Create sess (cs_heap c))))"
    and "s_Verified (sh_objs (snd (heap_Create sess (cs_heap c))) ! p)"
  then show "(p < length (sh_objs (cs_heap c)) \<and> s_Verified (sh_objs (cs_heap c) ! p))
      \<or> proves_object L d H env req (snd (heap_Create sess (cs_heap c))) (sh_objs (snd (heap_Create sess (cs_heap c))) ! p)"
    using heap_Create_objs [of sess "cs_heap c"] assms(4) assms(5) [OF P]
    by (auto simp: proves_object_def nth_append less_Suc_eq split: if_splits)
qed

lemma keeps_MarkVerified:
  assumes "stable server_rely P" and "\<not> second_factor_service d req" and "\<And>a. keeps L d env req P (k a)"
    and "\<And>H c. P H c \<Longrightarrow> well_formed H c"
    and "\<And>H c. P H c \<Longrightarrow> \<exists>q sess. known sess q (cs_heap c) \<and> s_ID sess = sr_TFASessionID req \<and> opaque_proof L d req sess"
  shows "keeps L d env req P (act (on_sessions (heap_MarkVerified (sr_TFASessionID req))) k)"
proof (rule keeps_on_sessions [OF assms(1-3)], intro conjI impI allI)
  fix H and c :: "('a, 'b, 'c) cstate"
  assume P: "P H c"
  let ?h = "cs_heap c"
  let ?h' = "snd (heap_MarkVerified (sr_TFASessionID req) ?h)"
  have wf: "wf_heap ?h" using assms(4) [OF P] by (simp add: well_formed_def)
  show "wf_heap ?h'" using heap_MarkVerified_refines(2) [OF wf prod.collapse [symmetric]] .
  show ev: "evolves ?h ?h'" by (rule evolves_MarkVerified)
  fix p
  assume p: "p < length (sh_objs ?h')" "s_Verified (sh_objs ?h' ! p)"
  obtain q sess where "known sess q ?h" and s: "s_ID sess = sr_TFASessionID req" "opaque_proof L d req sess"
    using assms(5) [OF P] by blast
  then have "known sess q ?h'" using known_evolves [OF _ ev] by blast
  then have q: "q < length (sh_objs ?h')" "s_ID (sh_objs ?h' ! q) = sr_TFASessionID req" "opaque_proof L d req (sh_objs ?h' ! q)"
    using s by (auto simp: known_def opaque_proof_verified)
  show "(p < length (sh_objs ?h) \<and> s_Verified (sh_objs ?h ! p)) \<or> proves_object L d H env req ?h' (sh_objs ?h' ! p)"
  proof (cases "map_of (sh_index ?h) (sr_TFASessionID req)")
    case None
    with p show ?thesis by (simp add: heap_MarkVerified_def)
  next
    case (Some r)
    note w = wf_heap_entry [OF wf Some]
    show ?thesis
    proof (cases "p = r")
      case True
      then have "s_ID (sh_objs ?h' ! p) = sr_TFASessionID req" using w Some by (simp add: heap_MarkVerified_def)
      with q show ?thesis by (auto simp: proves_object_def)
    next
      case False
      with p Some show ?thesis by (simp add: heap_MarkVerified_def)
    qed
  qed
qed

text \<open>A session found in the store.\<close>

definition found_session :: "req_env \<Rightarrow> ServiceRequest \<Rightarrow> nat \<times> Session \<Rightarrow> ('h, 's, 'm) cstate assertion" where
  "found_session env req = (\<lambda>(p, sess) H c. well_formed H c \<and> known sess p (cs_heap c)
     \<and> s_ID sess = sr_TFASessionID req \<and> \<not> session_expired (re_get env) sess)"

lemma stable_found [stable_facts]: "stable server_rely (found_session env req ps)"
  unfolding found_session_def case_prod_unfold by (intro stable_facts)

lemma keeps_get:
  assumes "keeps L d env req well_formed (k None)" and "\<And>ps. keeps L d env req (found_session env req ps) (k (Some ps))"
  shows "keeps L d env req well_formed (act (on_sessions (get_session (re_get env) (sr_TFASessionID req))) k)"
proof (rule obeys_act [where Q = "\<lambda>a. case a of None \<Rightarrow> well_formed | Some ps \<Rightarrow> found_session env req ps"])
  fix H and c :: "('a, 'b, 'c) cstate"
  assume wf: "well_formed H c"
  have same: "snd (on_sessions (get_session (re_get env) (sr_TFASessionID req)) c) = c"
    by (simp add: on_sessions_def get_session_def)
  show "request_guar L d env req (insert c H) c (snd (on_sessions (get_session (re_get env) (sr_TFASessionID req)) c))
      \<and> (case fst (on_sessions (get_session (re_get env) (sr_TFASessionID req)) c) of
           None \<Rightarrow> well_formed | Some ps \<Rightarrow> found_session env req ps)
         (insert c H) (snd (on_sessions (get_session (re_get env) (sr_TFASessionID req)) c))"
    unfolding same using wf heap_Get_Some [of "cs_heap c" "re_get env" "sr_TFASessionID req"]
    by (auto simp: get_session_def found_session_def well_formed_def known_def split: option.split)
next
  show "stable (server_rely :: ('a, 'b, 'c) cstate \<Rightarrow> _) (case a of None \<Rightarrow> well_formed | Some ps \<Rightarrow> found_session env req ps)" for a
    by (cases a) (simp_all add: stable_facts)
  show "keeps L d env req (case a of None \<Rightarrow> well_formed | Some ps \<Rightarrow> found_session env req ps) (k a)" for a
    using assms by (cases a) simp_all
qed

lemma keeps_found:
  assumes "keeps L d env req well_formed n" and "\<And>p sess. keeps L d env req (found_session env req (p, sess)) (k p sess)"
  shows "keeps L d env req well_formed (act (on_sessions (get_session (re_get env) (sr_TFASessionID req)))
    (\<lambda>found. case found of None \<Rightarrow> n | Some (p, sess) \<Rightarrow> k p sess))"
  by (rule keeps_get) (use assms in \<open>auto split: prod.split\<close>)

text \<open>A session found and read as verified, of the context of the request.\<close>

definition held_session :: "req_env \<Rightarrow> ServiceRequest \<Rightarrow> Session \<Rightarrow> ('h, 's, 'm) cstate assertion" where
  "held_session env req sess = (\<lambda>H c. well_formed H c \<and> s_Context sess = sr_Context req
     \<and> s_ID sess = sr_TFASessionID req \<and> \<not> session_expired (re_get env) sess
     \<and> (\<exists>p. known (sess\<lparr>s_Verified := True\<rparr>) p (cs_heap c)))"

lemma stable_held [stable_facts]: "stable server_rely (held_session env req sess)"
proof -
  have "stable server_rely (\<lambda>H c. \<exists>p. known (sess\<lparr>s_Verified := True\<rparr>) p (cs_heap c))"
    by (auto simp: stable_def server_rely_def intro: known_evolves)
  then show ?thesis unfolding held_session_def by (intro stable_facts)
qed

lemma keeps_with_session:
  assumes "\<And>sess. keeps L d env req (held_session env req sess) (k sess)"
  shows "keeps L d env req well_formed (with_session env req k)"
  unfolding with_session_def
proof (rule keeps_found)
  fix p sess
  let ?Q = "\<lambda>v H (c :: ('a, 'b, 'c) cstate). well_formed H c \<and> (v \<and> s_Context sess = sr_Context req \<longrightarrow> held_session env req sess H c)"
  let ?k = "\<lambda>v. if \<not> v then refuse ErrUnauthorized ''session not verified''
    else if s_Context sess \<noteq> sr_Context req then refuse ErrAccessDenied ''session context mismatch'' else k sess"
  show "keeps L d env req (found_session env req (p, sess)) (act (on_sessions (read_Verified p)) ?k)"
  proof (rule obeys_act [where Q = ?Q])
    fix H and c :: "('a, 'b, 'c) cstate"
    assume f: "found_session env req (p, sess) H c"
    have same: "snd (on_sessions (read_Verified p) c) = c" by (simp add: on_sessions_def read_Verified_def)
    have "known (sess\<lparr>s_Verified := True\<rparr>) p (cs_heap c)" if "s_Verified (sh_objs (cs_heap c) ! p)"
      using f that by (cases sess) (auto simp: found_session_def known_def)
    then show "request_guar L d env req (insert c H) c (snd (on_sessions (read_Verified p) c))
        \<and> ?Q (fst (on_sessions (read_Verified p) c)) (insert c H) (snd (on_sessions (read_Verified p) c))"
      unfolding same using f by (auto simp: read_Verified_def found_session_def held_session_def well_formed_def)
  next
    show "stable (server_rely :: ('a, 'b, 'c) cstate \<Rightarrow> _) (?Q v)" for v by (intro stable_facts)
    show "keeps L d env req (?Q v) (?k v)" for v
      using assms [of sess] by (auto intro: keeps_refuse elim!: obeys_weaken)
  qed
qed (rule keeps_refuse)

section \<open>Every program keeps its guarantee\<close>

named_theorems keeps

declare keeps_refuse [keeps]

lemma keeps_Err [keeps]: "keeps L d env req P (Done (Err e))"
  by (rule keeps_Done) simp

lemma keeps_Panic [keeps]: "keeps L d env req P (Done Panic)"
  by (rule keeps_Done) simp

lemma keeps_answer [keeps]: "\<not> second_factor_service d req \<Longrightarrow> keeps L d env req P (answer L d env req j)"
  unfolding answer_def by (rule keeps_Done) simp

lemma keeps_metric [keeps]:
  "stable server_rely P \<Longrightarrow> \<not> second_factor_service d req \<Longrightarrow> keeps L d env req P k \<Longrightarrow>
   keeps L d env req P (do_metric n l k)"
  unfolding do_metric_def by (rule keeps_shared)

lemma keeps_failure [keeps]:
  "stable server_rely P \<Longrightarrow> \<not> second_factor_service d req \<Longrightarrow> keeps L d env req P k \<Longrightarrow>
   keeps L d env req P (record_failure_prog env req k)"
  unfolding record_failure_prog_def by (rule keeps_shared)

lemma keeps_if: "(b \<Longrightarrow> obeys r g q P p1) \<Longrightarrow> (\<not> b \<Longrightarrow> obeys r g q P p2) \<Longrightarrow> obeys r g q P (if b then p1 else p2)"
  by simp

lemma keeps_option:
  "(v = None \<Longrightarrow> obeys r g q P p1) \<Longrightarrow> (\<And>a. v = Some a \<Longrightarrow> obeys r g q P (p2 a)) \<Longrightarrow> obeys r g q P (case_option p1 p2 v)"
  by (cases v) simp_all

lemma keeps_res:
  "(\<And>a. v = Ok a \<Longrightarrow> obeys r g q P (p1 a)) \<Longrightarrow> (\<And>e. v = Err e \<Longrightarrow> obeys r g q P (p2 e)) \<Longrightarrow>
   (v = Panic \<Longrightarrow> obeys r g q P p3) \<Longrightarrow> obeys r g q P (case_res p1 p2 p3 v)"
  by (cases v) simp_all

lemmas keeps_cases = keeps_if keeps_option keeps_res

lemmas step_rules = keeps_cases keeps_shared keeps_metric keeps_failure keeps_Delete keeps_answer keeps_refuse
  keeps_Err keeps_Panic

lemma keeps_regEvaluate:
  assumes "\<not> second_factor_service d req" and "stable server_rely P"
  shows "keeps L d env req P (regEvaluate_prog L d env req b)"
  unfolding regEvaluate_prog_def Let_def by (intro step_rules assms)

lemma keeps_regFinalize:
  assumes "\<not> second_factor_service d req" and "stable server_rely P"
  shows "keeps L d env req P (regFinalize_prog L d env req b)"
  unfolding regFinalize_prog_def Let_def by (intro step_rules assms)

lemma keeps_authEvaluate:
  assumes "\<not> second_factor_service d req" and "stable server_rely P"
  shows "keeps L d env req P (authEvaluate_prog L d env req tfaReq b)"
proof -
  have split: "keeps L d env req P (case v of (x, y, z) \<Rightarrow> g x y z)" if "\<And>x y z. keeps L d env req P (g x y z)"
    for v :: "'x \<times> 'y \<times> 'z" and g
    using that by (cases v) simp
  show ?thesis
    unfolding authEvaluate_prog_def Let_def by (intro step_rules split keeps_Create assms) simp_all
qed

lemma keeps_authFinalize:
  assumes "\<not> second_factor_service d req"
    and proof_of: "\<And>sess u. AuthFinalize (lib_opaque L) (d_opaque d) b (s_ClientMAC sess) = Ok u \<Longrightarrow> opaque_proof L d req sess"
  shows "keeps L d env req well_formed (authFinalize_prog L d env req b)"
  unfolding authFinalize_prog_def
  by (rule keeps_found, rule keeps_refuse, intro step_rules keeps_MarkVerified assms(1) stable_found)
    (use proof_of in \<open>auto simp: found_session_def\<close>)

lemma keeps_challenge:
  assumes "\<not> second_factor_service d req"
  shows "keeps L d env req P (fido2_challenge_prog L d f env req)"
  unfolding fido2_challenge_prog_def Let_def by (intro step_rules assms)

lemma keeps_AuthChallenge:
  assumes "\<not> second_factor_service d req" and "stable server_rely P"
  shows "keeps L d env req P (fido2AuthChallenge_prog L d f env req)"
  unfolding fido2AuthChallenge_prog_def by (intro step_rules keeps_challenge assms)

lemma keeps_RegRegister:
  assumes "\<not> second_factor_service d req" and "stable server_rely P"
  shows "keeps L d env req P (fido2RegRegister_prog L d f env req tfaReq)"
  unfolding fido2RegRegister_prog_def Let_def by (intro step_rules assms)

lemma keeps_open_session:
  assumes "\<not> second_factor_service d req" and "stable server_rely P"
    and "\<And>H c. P H c \<Longrightarrow> \<exists>c0 \<in> H. fido2_proof L d env req (w_store (cs_world c0)) (fr_Task fr)"
  shows "keeps L d env req P (open_session_prog L d env req fr)"
proof -
  have split: "keeps L d env req P (case v of (x, y) \<Rightarrow> g x y)" if "\<And>x y. keeps L d env req P (g x y)"
    for v :: "'x \<times> 'y" and g
    using that by (cases v) simp
  show ?thesis
    unfolding open_session_prog_def Let_def
    by (intro step_rules split keeps_Create assms(1,2)) (simp_all add: assms(3))
qed

lemma keeps_AuthFinalize:
  assumes "\<not> second_factor_service d req" and "is_auth req" and "Unmarshal_TFARequestData (sr_Data req) = Some tfaReq"
    and "tfa_GetProtocol tfaReq = TFAModeFIDO2" and "tfa_State tfaReq = StateFinalize" and "d_fido2 d = Some f"
  shows "keeps L d env req well_formed (fido2AuthFinalize_prog L d f env req tfaReq)"
proof (cases "finalize_request L f env req tfaReq")
  case (Ok fi)
  let ?creds = "\<lambda>st. GetWebAuthnCredential (fc_Store f) (sr_ClientID req) (sr_Context req) (w_store (ds_world st))"
  have "keeps L d env req (\<lambda>H c. well_formed H c \<and> (\<exists>c0 \<in> H. ?creds (cs_view c0) = found))
      (after_credentials L d f env req fi found)" for found
  proof -
    let ?P = "\<lambda>H c. well_formed H c \<and> (\<exists>c0 \<in> H. ?creds (cs_view c0) = found)"
    have st: "stable server_rely ?P" by (intro stable_facts)
    have proof_at: "\<exists>c0 \<in> H. fido2_proof L d env req (w_store (cs_world c0)) (fr_Task (fi_Req fi))"
      if found: "found = Ok creds" and m: "find (\<lambda>c. bytesEqual (wc_CredentialID c) (as_CredentialID (fi_Assertion fi))) creds = Some m"
        and pk: "UnmarshalPublicKey P256 (wc_PublicKey m) = Ok pk"
        and ok: "VerifyAssertion (lib_wa L) (fi_Assertion fi) (cred_of m pk) (ct_Challenge (fi_Token fi)) (fc_RPID f)
              (fc_AllowedOrigins f) = Ok ad"
        and P: "?P H c" for creds m pk ad H c
    proof -
      obtain c0 where c0: "c0 \<in> H" "?creds (cs_view c0) = Ok creds" using found P by auto
      have "m \<in> set creds" "wc_CredentialID m = as_CredentialID (fi_Assertion fi)"
        using m by (auto simp: find_Some_iff)
      then have "assertion_accepted L f req fi (w_store (cs_world c0))"
        unfolding assertion_accepted_def using c0(2) pk ok by (auto simp: cs_view_def)
      then show ?thesis
        using c0(1) assms Ok finalize_request_binds [OF Ok] by (auto simp: fido2_proof_def)
    qed
    show ?thesis
      unfolding after_credentials_def Let_def
      by (intro step_rules keeps_open_session assms(1) st) (use proof_at in blast)+
  qed
  then show ?thesis
    unfolding fido2AuthFinalize_prog_def Ok res.case by (intro keeps_read stable_well_formed)
qed (simp_all add: fido2AuthFinalize_prog_def keeps_Err keeps_Panic)

lemma keeps_handleFIDO2:
  assumes "\<not> second_factor_service d req" and "Unmarshal_TFARequestData (sr_Data req) = Some tfaReq"
    and "tfa_GetProtocol tfaReq = TFAModeFIDO2"
  shows "keeps L d env req well_formed (handleFIDO2_prog L d env req tfaReq)"
  unfolding handleFIDO2_prog_def
  by (intro step_rules keeps_challenge keeps_AuthChallenge keeps_RegRegister keeps_AuthFinalize assms stable_well_formed) auto

lemma keeps_handle2FA:
  assumes "\<not> second_factor_service d req"
  shows "keeps L d env req well_formed (handle2FA_prog L d env req)"
  unfolding handle2FA_prog_def Let_def
  by (intro step_rules keeps_handleFIDO2 keeps_regEvaluate keeps_regFinalize keeps_authEvaluate keeps_authFinalize
      assms stable_well_formed) (auto simp: opaque_proof_def)

lemma keeps_handle2FAChange:
  assumes "\<not> second_factor_service d req"
  shows "keeps L d env req well_formed (handle2FAChange_prog L d env req)"
  unfolding handle2FAChange_prog_def
  by (intro keeps_with_session, rule obeys_weaken [OF keeps_handle2FA [OF assms]]) (simp add: held_session_def)

text \<open>A handler is called when there is no second factor to check, or under a guarded session.\<close>

lemma keeps_call_handler:
  assumes "stable server_rely P" and guard: "\<And>H c. P H c \<Longrightarrow> second_factor_service d req \<Longrightarrow> \<exists>p. guarded L env req (cs_heap c) p"
  shows "keeps L d env req P (call_handler L d env req h)"
  unfolding call_handler_def
proof (rule obeys_act [where Q = "\<lambda>_. P"])
  fix H c f
  assume "P H c"
  then show "request_guar L d env req (insert c H) c (snd (shared f c)) \<and> P (insert c H) (snd (shared f c))"
    using guard stableD [OF assms(1), of H c "insert c H" "snd (shared f c)"]
    by (auto simp: server_rely_def intro: guar_same_heap)
next
  show "keeps L d env req P (case r of
        Err e \<Rightarrow> refuse ErrServerError (sr_Type req @ '' failed'')
      | Panic \<Rightarrow> Done Panic
      | Ok respData \<Rightarrow> answer L d env req (wrap_data respData))" for r
    unfolding answer_def
    by (intro keeps_cases keeps_refuse keeps_Panic obeys.finish) (use guard in \<open>auto simp: request_post_def\<close>)
qed (rule assms(1))

lemma held_guarded:
  assumes "held_session env req sess H c" and "sad_check (wp_sha256 (lib_wa L)) req sess = Ok u"
  shows "\<exists>p. guarded L env req (cs_heap c) p"
proof -
  from assms(1) obtain p where "p < length (sh_objs (cs_heap c))" "sh_objs (cs_heap c) ! p = sess\<lparr>s_Verified := True\<rparr>"
    and s: "s_Context sess = sr_Context req" "s_ID sess = sr_TFASessionID req" "\<not> session_expired (re_get env) sess"
    by (auto simp: held_session_def known_def)
  moreover have "authorized L env req [(s_ID sess, sess\<lparr>s_Verified := True\<rparr>)] (sess\<lparr>s_Verified := True\<rparr>)"
    using s assms(2) sad_check_Ok_iff [of "wp_sha256 (lib_wa L)" req sess]
    by (simp add: authorized_def session_Get_def session_expired_def)
  ultimately have "guarded L env req (cs_heap c) p" by (simp add: guarded_def)
  then show ?thesis by blast
qed

lemma keeps_handleService: "keeps L d env req well_formed (handleService_prog L d env req)"
proof (cases "d_handlers d (sr_Type req)")
  case (Some h)
  show ?thesis
  proof (cases "h_Mode h = Mode1FA")
    case True
    with Some have "\<not> second_factor_service d req" by (simp add: second_factor_service_def)
    then have "keeps L d env req well_formed (call_handler L d env req h)"
      by (intro keeps_call_handler stable_well_formed) simp
    with Some True show ?thesis by (simp add: handleService_prog_def)
  next
    case False
    then show ?thesis
      unfolding handleService_prog_def Some option.case
      by (intro keeps_if keeps_with_session keeps_res keeps_Err keeps_Panic keeps_call_handler stable_held held_guarded)
        simp_all
  qed
qed (simp add: handleService_prog_def keeps_refuse)

lemma keeps_route: "keeps L d env req well_formed (route_prog L d env req)"
  unfolding route_prog_def
  by (intro keeps_if keeps_handle2FA keeps_handle2FAChange keeps_handleService) (auto simp: second_factor_service_def)

section \<open>The running server\<close>

abbreviation serve :: "'m libs \<Rightarrow> ('h, 's, 'm) Dispatcher \<Rightarrow> req_env \<times> string \<Rightarrow> ('h, 's, 'm) cprog" where
  "serve L d \<equiv> \<lambda>(env, body). Process_prog L d env body"

lemma tick_rely:
  assumes "wf_heap (cs_heap c)" and "server_tick c c'"
  shows "server_rely c c' \<and> sh_objs (cs_heap c') = sh_objs (cs_heap c)"
proof -
  obtain now where "cs_heap c' = snd (heap_CleanExpired now (cs_heap c))"
    using assms(2) by (auto simp: server_tick_def Let_def case_prod_unfold split: if_splits)
  moreover note heap_CleanExpired_refines(2) [OF assms(1) prod.collapse [symmetric], of now]
  ultimately show ?thesis by (simp add: server_rely_def evolves_objs)
qed

lemma serve_obeys: "obeys server_rely (body_guar L d b) (body_post L d b) (\<lambda>H c. wf_heap (cs_heap c)) (serve L d b)"
proof -
  obtain env body where b: "b = (env, body)" by force
  show ?thesis
  proof (cases "accept_request L d env body")
    case (Ok req)
    have "obeys server_rely (body_guar L d b) (body_post L d b) well_formed (route_prog L d env req)"
      by (rule obeys_mono [OF keeps_route [of L d env req]]) (simp_all add: b body_guar_def body_post_def Ok)
    with Ok show ?thesis by (simp add: b Process_prog_def well_formed_def)
  qed (auto simp: b Process_prog_def body_post_def intro!: obeys.finish)
qed

interpretation server: rely_guarantee "serve L d" server_tick "\<lambda>c. wf_heap (cs_heap c)" server_rely "body_guar L d" "body_post L d"
  for L d
proof unfold_locales
  show "server_rely s s'" if "body_guar L d l H s s'" for l H s s'
    using that by (cases l) (auto simp: body_guar_def request_guar_def)
  show "obeys server_rely (body_guar L d l) (body_post L d l) (\<lambda>H c. wf_heap (cs_heap c)) (serve L d l)" for l
    by (rule serve_obeys)
qed (use tick_rely in \<open>auto simp: server_rely_def\<close>)

text \<open>Every verified object was proven by one of the requests.\<close>

definition verified_proven ::
  "'m libs \<Rightarrow> ('h, 's, 'm) Dispatcher \<Rightarrow> ('h, 's, 'm) cstate set \<Rightarrow> (req_env \<times> string) set \<Rightarrow> ('h, 's, 'm) cstate \<Rightarrow> bool"
where
  "verified_proven L d H K c \<longleftrightarrow>
     (\<forall>p < length (sh_objs (cs_heap c)). s_Verified (sh_objs (cs_heap c) ! p) \<longrightarrow>
        (\<exists>(env, body) \<in> K. \<exists>req. accept_request L d env body = Ok req
           \<and> proves_object L d H env req (cs_heap c) (sh_objs (cs_heap c) ! p)))"

lemma proves_object_at:
  assumes "proves_object L d H env req h (sh_objs h ! p)" and "p < length (sh_objs h)" and "H \<subseteq> H'" and "evolves h h'"
  shows "proves_object L d H' env req h' (sh_objs h' ! p)"
  using proves_object_mono [OF assms(1,3,4)] evolves_at [OF assms(4,2)] by (auto simp: proves_object_verified)

lemma verified_proven_guar:
  assumes "verified_proven L d H K c" and "l \<in> K" and "body_guar L d l H c c'"
  shows "verified_proven L d H K c'"
  unfolding verified_proven_def
proof (intro allI impI)
  fix p
  assume p: "p < length (sh_objs (cs_heap c'))" "s_Verified (sh_objs (cs_heap c') ! p)"
  obtain env body where l: "l = (env, body)" by force
  obtain req where a: "accept_request L d env body = Ok req" and g: "request_guar L d env req H c c'"
    using assms(3) by (auto simp: l body_guar_def)
  have ev: "evolves (cs_heap c) (cs_heap c')" using g by (simp add: request_guar_def server_rely_def)
  from g p consider "p < length (sh_objs (cs_heap c))" "s_Verified (sh_objs (cs_heap c) ! p)"
    | "proves_object L d H env req (cs_heap c') (sh_objs (cs_heap c') ! p)"
    unfolding request_guar_def by blast
  then show "\<exists>(env, body) \<in> K. \<exists>req. accept_request L d env body = Ok req
      \<and> proves_object L d H env req (cs_heap c') (sh_objs (cs_heap c') ! p)"
  proof cases
    case 1
    with assms(1) obtain e b r where "(e, b) \<in> K" "accept_request L d e b = Ok r"
      "proves_object L d H e r (cs_heap c) (sh_objs (cs_heap c) ! p)"
      unfolding verified_proven_def by blast
    with proves_object_at [OF _ 1(1) order_refl ev] show ?thesis by blast
  next
    case 2
    with a l assms(2) show ?thesis by blast
  qed
qed

lemma verified_proven_mono:
  assumes "verified_proven L d H K c" and "H \<subseteq> H'" and "K \<subseteq> K'"
  shows "verified_proven L d H' K' c"
  unfolding verified_proven_def
proof (intro allI impI)
  fix p
  assume p: "p < length (sh_objs (cs_heap c))" "s_Verified (sh_objs (cs_heap c) ! p)"
  with assms(1) obtain e b r where "(e, b) \<in> K" "accept_request L d e b = Ok r"
    "proves_object L d H e r (cs_heap c) (sh_objs (cs_heap c) ! p)"
    unfolding verified_proven_def by blast
  with proves_object_at [OF _ p(1) assms(2) evolves_refl] assms(3)
  show "\<exists>(env, body) \<in> K'. \<exists>req. accept_request L d env body = Ok req
      \<and> proves_object L d H' env req (cs_heap c) (sh_objs (cs_heap c) ! p)" by blast
qed

lemma verified_proven_tick:
  assumes "verified_proven L d H K c" and "wf_heap (cs_heap c)" and "server_tick c c'"
  shows "verified_proven L d H K c'"
  using assms(1) tick_rely [OF assms(2,3)]
  by (simp add: verified_proven_def proves_object_def)

lemma interleaved_proven:
  assumes "interleaved (serve L d) server_tick c0 H (c, js)" and "cs_heap c0 = new_heap"
  shows "verified_proven L d H (fst ` set js) c"
proof -
  have start: "verified_proven L d {} {} c0" using assms(2) by (simp add: verified_proven_def new_heap_def)
  have "verified_proven L d H (fst ` set (snd (c, js))) (fst (c, js))"
    by (rule server.invariant [where J = "verified_proven L d", OF assms(1) _ start])
      (use assms(2) verified_proven_mono verified_proven_guar verified_proven_tick in auto)
  then show ?thesis by simp
qed

end
