(* ===== verification/Interleaved_Properties.thy ===== *)
theory Interleaved_Properties
  imports Dispatcher_Interleaved
begin

text \<open>
  What holds in every interleaving of requests: the second factor guards the services, and a request
  that is not disturbed is answered as the sequential model says. The last section shows what does
  not carry over: the credentials and the counter of an authenticator are not used in one step, so one
  assertion can be accepted twice.
\<close>

section \<open>Single steps of a goroutine\<close>

lemma scheduled_act:
  assumes "i < length js" and "js ! i = (l, act f k)"
  shows "scheduled code background (s, js) (snd (f s), js[i := (l, k (fst (f s)))])"
  using scheduled.work [OF assms(1), of l _ s "snd (f s)" "k (fst (f s))"] assms(2)
  by (simp add: act_def Let_def case_prod_unfold)

text \<open>What an undisturbed login does to the objects.\<close>

lemma evaluate_heap:
  assumes "fst (counter_Check (re_check env) (sr_ClientID req) (sr_Context req) (sr_Context req) (cs_counter c)) = None"
    and "lookup_record L d env req (cs_view c) = Ok rec"
    and "AuthEvaluate (lib_opaque L) (re_ke2 env) (d_opaque d) b rec = Ok (ke2, mac, secret)"
    and "re_session_id env = Some rnd"
  shows "cs_heap (snd (run_alone (authEvaluate_prog L d env req tfa b) c)) =
    snd (heap_Create (new_session (d_sessionTTL d) env req tfa (URLEncoding_Encode (map rnd [0..<32])) mac secret) (cs_heap c))"
proof -
  have l: "lookup_record L d env req (cs_view (snd (shared (check_lockout env req) c))) = Ok rec"
    using assms(2)
    by (simp add: lookup_record_def rec_view_def cs_view_def shared_def check_lockout_def Let_def case_prod_unfold)
  have k: "fst (shared (check_lockout env req) c) = None"
    using assms(1) by (simp add: shared_def check_lockout_def cs_view_def Let_def case_prod_unfold)
  show ?thesis
    using assms(3,4)
    by (simp add: authEvaluate_prog_def k l RandomBytes_def new_session_def answer_def refuse_def Let_def
        split: option.split)
qed

lemma finalize_heap:
  assumes "heap_Get (re_get env) (sr_TFASessionID req) (cs_heap c) = Some p"
    and "AuthFinalize (lib_opaque L) (d_opaque d) b (s_ClientMAC (sh_objs (cs_heap c) ! p)) = Ok ()"
  shows "cs_heap (snd (run_alone (authFinalize_prog L d env req b) c)) =
    snd (heap_MarkVerified (sr_TFASessionID req) (cs_heap c))"
proof -
  have "fst (on_sessions (get_session (re_get env) (sr_TFASessionID req)) c) = Some (p, sh_objs (cs_heap c) ! p)"
    "snd (on_sessions (get_session (re_get env) (sr_TFASessionID req)) c) = c"
    using assms(1) by (simp_all add: on_sessions_def get_session_def)
  with assms(2) show ?thesis
    by (simp add: authFinalize_prog_def do_metric_def answer_def refuse_def split: option.split)
qed

section \<open>Properties\<close>

text \<open>C2: The second factor guards the services under every interleaving. Whatever requests run at the
  same time and however their steps and the clean-up of sessions interleave, when a request for a
  service behind the second factor has been answered with success, or its next step changes anything,
  then the server holds a session object that this request named, that was unexpired when it was looked
  up, verified, of the same context and with a task that authorises the request; and, as session
  identifiers do not repeat, one of the requests proved the second factor of this very session with a
  KE3 message, or of its client, context and task with an assertion the credentials of a passed state
  verify.\<close>

theorem second_factor_interleaved:
  assumes "interleaved (serve L d) server_tick c0 H (c, js)" and "cs_heap c0 = new_heap"
    and "distinct (map s_ID (sh_objs (cs_heap c)))"
    and "((env, body), p) \<in> set js" and "accept_request L d env body = Ok req" and "second_factor_service d req"
    and "(\<exists>resp. p = Done (Ok resp)) \<or> (\<exists>f. p = Atomic f \<and> fst (f c) \<noteq> c)"
  shows "\<exists>sess \<in> set (sh_objs (cs_heap c)). authorized L env req [(s_ID sess, sess)] sess
     \<and> (\<exists>env' body' q req'. ((env', body'), q) \<in> set js \<and> accept_request L d env' body' = Ok req'
        \<and> ((sr_TFASessionID req' = s_ID sess \<and> opaque_proof L d req' sess)
           \<or> (sr_ClientID req' = s_ClientID sess \<and> sr_Context req' = s_Context sess
              \<and> (\<exists>c1 \<in> H. fido2_proof L d env' req' (w_store (cs_world c1)) (s_Task sess)))))"
proof -
  let ?h = "cs_heap c"
  have wf: "wf_heap (cs_heap c0)" using assms(2) by simp
  have "\<exists>n. guarded L env req ?h n"
    using assms(7)
  proof (elim disjE exE conjE)
    fix resp assume "p = Done (Ok resp)"
    with server.finished [OF assms(1) wf, of "(env, body)" "Ok resp"] assms(4-6)
    show ?thesis by (auto simp: body_post_def request_post_def)
  next
    fix f assume "p = Atomic f" and "fst (f c) \<noteq> c"
    with server.running [OF assms(1) wf, of "(env, body)" f] assms(4-6)
    show ?thesis by (auto simp: body_guar_def request_guar_def)
  qed
  then obtain n where n: "n < length (sh_objs ?h)"
    and a: "authorized L env req [(s_ID (sh_objs ?h ! n), sh_objs ?h ! n)] (sh_objs ?h ! n)"
    by (auto simp: guarded_def Let_def)
  then have "s_Verified (sh_objs ?h ! n)" by (simp add: authorized_def)
  with interleaved_proven [OF assms(1,2)] n obtain env' body' q req' where
    j: "((env', body'), q) \<in> set js" "accept_request L d env' body' = Ok req'"
    and pr: "proves_object L d H env' req' ?h (sh_objs ?h ! n)"
    unfolding verified_proven_def by fastforce
  have "m = n" if "m < length (sh_objs ?h)" "s_ID (sh_objs ?h ! m) = s_ID (sh_objs ?h ! n)" for m
    using that n assms(3) by (simp add: distinct_conv_nth) metis
  with pr have "(sr_TFASessionID req' = s_ID (sh_objs ?h ! n) \<and> opaque_proof L d req' (sh_objs ?h ! n))
     \<or> (sr_ClientID req' = s_ClientID (sh_objs ?h ! n) \<and> sr_Context req' = s_Context (sh_objs ?h ! n)
        \<and> (\<exists>c1 \<in> H. fido2_proof L d env' req' (w_store (cs_world c1)) (s_Task (sh_objs ?h ! n))))"
    unfolding proves_object_def by metis
  with a j show ?thesis using nth_mem [OF n] by blast
qed

section \<open>A login with a signing request in between\<close>

definition demo_c0 :: "(unit, MemoryStore, bytes) cstate" where
  "demo_c0 = \<lparr>cs_heap = new_heap, cs_counter = ds_counter demo_state, cs_records = ds_records demo_state,
     cs_world = ds_world demo_state\<rparr>"

definition demo_job :: "ServiceRequest \<Rightarrow> req_env \<times> string" where
  "demo_job req = (demo_env, demo_body req)"

definition demo_after :: "ServiceRequest \<Rightarrow> (unit, MemoryStore, bytes) cstate \<Rightarrow> (unit, MemoryStore, bytes) cstate" where
  "demo_after req c = snd (run_alone (serve demo_libs demo_dispatcher (demo_job req)) c)"

definition demo_c1 :: "(unit, MemoryStore, bytes) cstate" where
  "demo_c1 = demo_after (demo_login StateEvaluate [] [1]) demo_c0"

definition demo_c2 :: "(unit, MemoryStore, bytes) cstate" where
  "demo_c2 = demo_after (demo_login StateFinalize demo_sid [9]) demo_c1"

lemma demo_c0_view: "cs_view demo_c0 = demo_state"
  by (simp add: cs_view_def demo_c0_def) (simp add: demo_state_def)

lemma route_prog_evaluate:
  assumes "is_auth req" and "Unmarshal_TFARequestData (sr_Data req) = Some tfa" and "tfa_phase tfa state b"
  shows "state = StateEvaluate \<Longrightarrow> route_prog L d env req = authEvaluate_prog L d env req tfa b"
    and "state = StateFinalize \<Longrightarrow> route_prog L d env req = authFinalize_prog L d env req b"
  using assms auth_types [OF assms(1)]
  by (simp_all add: route_prog_def handle2FA_prog_def tfa_phase_def is_auth_def [of req] r2ps_state_defs TFAModeOPAQUE_def
      TFAModeFIDO2_def)

lemma demo_serve:
  "serve demo_libs demo_dispatcher (demo_job (demo_login StateEvaluate [] [1])) =
     authEvaluate_prog demo_libs demo_dispatcher demo_env (demo_login StateEvaluate [] [1]) (demo_tfa StateEvaluate [1]) [1]"
  "serve demo_libs demo_dispatcher (demo_job (demo_login StateFinalize demo_sid [9])) =
     authFinalize_prog demo_libs demo_dispatcher demo_env (demo_login StateFinalize demo_sid [9]) [9]"
  using route_prog_evaluate(1) [OF demo_is_auth demo_login_parses demo_phases(1), of demo_libs demo_dispatcher demo_env "[]"]
    route_prog_evaluate(2) [OF demo_is_auth demo_login_parses demo_phases(2), of demo_libs demo_dispatcher demo_env demo_sid]
    demo_login_accepted [of StateEvaluate "[]" "[1]"] demo_login_accepted [of StateFinalize demo_sid "[9]"] demo_sid_utf8
  by (simp_all add: demo_job_def Process_prog_def)

lemma demo_c1_heap: "cs_heap demo_c1 = \<lparr>sh_objs = [demo_session], sh_index = [(demo_sid, 0)]\<rparr>"
proof -
  have "re_session_id demo_env = Some (\<lambda>_. 7)" by (simp add: demo_env_def)
  from evaluate_heap [OF _ _ demo_evaluate this, of "demo_login StateEvaluate [] [1]" demo_c0 "cred_id ''hsm'' ''alice''" "demo_tfa StateEvaluate [1]"]
  show ?thesis
    using demo_unlocked demo_lookup [of StateEvaluate "[]" "[1]"]
    by (simp add: demo_c1_def demo_after_def demo_serve demo_c0_view)
      (simp add: demo_c0_def demo_sid_random demo_session_def new_heap_def heap_Create_def demo_dispatcher_def new_session_def)
qed

lemma demo_c2_heap: "cs_heap demo_c2 = \<lparr>sh_objs = [demo_session\<lparr>s_Verified := True\<rparr>], sh_index = [(demo_sid, 0)]\<rparr>"
proof -
  have sid: "sr_TFASessionID (demo_login StateFinalize demo_sid [9]) = demo_sid" by (simp add: demo_login_def demo_req_def)
  have g: "heap_Get (re_get demo_env) (sr_TFASessionID (demo_login StateFinalize demo_sid [9])) (cs_heap demo_c1) = Some 0"
    by (simp add: sid demo_c1_heap heap_Get_def session_expired_def demo_session_def new_session_def demo_env_def
        demo_tfa_def zero_TFARequestData_def session_ttl_def Second_def)
  have "AuthFinalize (lib_opaque demo_libs) (d_opaque demo_dispatcher) [9] (s_ClientMAC (sh_objs (cs_heap demo_c1) ! 0)) = Ok ()"
    by (simp add: demo_c1_heap AuthFinalize_def demo_libs_def toy_opaque_def demo_session_def new_session_def)
  from finalize_heap [OF g this] show ?thesis
    by (simp add: demo_c2_def demo_after_def demo_serve sid) (simp add: demo_c1_heap heap_MarkVerified_def)
qed

text \<open>The signing request starts before the login is finished and looks its session up afterwards.\<close>

definition demo_k :: "Session \<Rightarrow> (unit, MemoryStore, bytes) cprog" where
  "demo_k sess = (case sad_check (wp_sha256 (lib_wa demo_libs)) demo_sign sess of
       Err e \<Rightarrow> Done (Err e) | Panic \<Rightarrow> Done Panic
     | Ok _ \<Rightarrow> call_handler demo_libs demo_dispatcher demo_env demo_sign (ECDSAHandler toy_backend))"

lemma demo_sign_service: "second_factor_service demo_dispatcher demo_sign"
  by (simp add: second_factor_service_def demo_dispatcher_def demo_sign_def demo_req_def ECDSAHandler_def Mode1FA_def Mode2FA_def
      r2ps_type_defs)

lemma demo_serve_sign: "serve demo_libs demo_dispatcher (demo_job demo_sign) = with_session demo_env demo_sign demo_k"
proof -
  have "route_prog demo_libs demo_dispatcher demo_env demo_sign = handleService_prog demo_libs demo_dispatcher demo_env demo_sign"
    using demo_sign_service by (simp add: second_factor_service_def route_prog_def)
  moreover have "d_handlers demo_dispatcher (sr_Type demo_sign) = Some (ECDSAHandler toy_backend)"
    by (simp add: demo_dispatcher_def demo_sign_def demo_req_def)
  moreover have "h_Mode (ECDSAHandler toy_backend :: (unit, MemoryStore) world Handler) \<noteq> Mode1FA"
    by (simp add: ECDSAHandler_def Mode1FA_def Mode2FA_def)
  ultimately show ?thesis using demo_sign_accepted
    by (simp add: demo_job_def Process_prog_def handleService_prog_def demo_k_def [abs_def])
qed

lemma demo_interleaving:
  "\<exists>H r1 r2. interleaved (serve demo_libs demo_dispatcher) server_tick demo_c0 H
     (demo_c2, [(demo_job (demo_login StateEvaluate [] [1]), Done r1),
        (demo_job demo_sign, call_handler demo_libs demo_dispatcher demo_env demo_sign (ECDSAHandler toy_backend)),
        (demo_job (demo_login StateFinalize demo_sid [9]), Done r2)])"
proof -
  let ?serve = "serve demo_libs demo_dispatcher" and ?sess = "demo_session\<lparr>s_Verified := True\<rparr>"
  let ?e = "demo_job (demo_login StateEvaluate [] [1])" and ?s = "demo_job demo_sign"
    and ?f = "demo_job (demo_login StateFinalize demo_sid [9])"
  obtain r1 r2 where r1: "run_alone (?serve ?e) demo_c0 = (r1, demo_c1)" and r2: "run_alone (?serve ?f) demo_c1 = (r2, demo_c2)"
    unfolding demo_c2_def demo_after_def demo_c1_def by (metis prod.collapse)
  obtain H1 where "interleaved ?serve server_tick demo_c0 H1 (demo_c1, [(?e, Done r1)])"
    using spawn_to_end [where code = ?serve and l = ?e, OF interleaved.start r1] by auto
  from interleaved.next_step [OF this scheduled.spawn [of _ _ _ _ ?s]]
  have "interleaved ?serve server_tick demo_c0 (insert demo_c1 H1) (demo_c1, [(?e, Done r1), (?s, ?serve ?s)])" by simp
  from spawn_to_end [where code = ?serve and l = ?f, OF this r2] obtain H2 where
    run: "interleaved ?serve server_tick demo_c0 H2 (demo_c2, [(?e, Done r1), (?s, ?serve ?s), (?f, Done r2)])" by auto
  let ?js = "\<lambda>p. [(?e, Done r1), (?s, p), (?f, Done r2)]"
  have step: "interleaved ?serve server_tick demo_c0 (insert demo_c2 H) (demo_c2, ?js (k (fst (g demo_c2))))"
    if "interleaved ?serve server_tick demo_c0 H (demo_c2, ?js (act g k))" and "snd (g demo_c2) = demo_c2" for H g k
    using interleaved.next_step [OF that(1) scheduled_act [of 1 _ ?s g k]] that(2) by simp
  have sid: "sr_TFASessionID demo_sign = demo_sid" "sr_Context demo_sign = ''hsm''" by (simp_all add: demo_sign_def demo_req_def)
  have "heap_Get (re_get demo_env) demo_sid (cs_heap demo_c2) = Some 0"
    by (simp add: demo_c2_heap heap_Get_def session_expired_def demo_session_def new_session_def demo_env_def
        demo_tfa_def zero_TFARequestData_def session_ttl_def Second_def)
  then have get: "on_sessions (get_session (re_get demo_env) (sr_TFASessionID demo_sign)) demo_c2 = (Some (0, ?sess), demo_c2)"
    by (simp add: on_sessions_def get_session_def sid demo_c2_heap)
  have read: "on_sessions (read_Verified 0) demo_c2 = (True, demo_c2)"
    by (simp add: on_sessions_def read_Verified_def demo_c2_heap)
  have ctx: "s_Context ?sess = sr_Context demo_sign" by (simp add: sid demo_session_def new_session_def demo_login_def demo_req_def)
  have "s_Task ?sess = []" by (simp add: demo_session_def new_session_def)
  then have k: "demo_k ?sess = call_handler demo_libs demo_dispatcher demo_env demo_sign (ECDSAHandler toy_backend)"
    by (simp add: demo_k_def sad_check_def)
  note found = step [OF run [unfolded demo_serve_sign with_session_def], unfolded get fst_conv snd_conv option.case prod.case, OF refl]
  note checked = step [OF found, unfolded read fst_conv snd_conv, OF refl]
  from checked k ctx show ?thesis by auto
qed

lemma demo_effect:
  "\<exists>f. call_handler demo_libs demo_dispatcher demo_env demo_sign (ECDSAHandler toy_backend) = Atomic f \<and> fst (f c) \<noteq> c"
proof -
  have "ecdsa_check (sr_Data demo_sign) = Ok (''k1'', replicate 32 7)"
    unfolding demo_sign_def demo_req_def using ecdsa_check_sign_request [of "''k1''" "replicate 32 7"]
    by (simp add: validKid_def kid_char_def)
  then have "h_Handle (ECDSAHandler toy_backend) (re_handler demo_env) (sr_ClientID demo_sign) (sr_Data demo_sign) w =
      (Ok (bytes_str (replicate 32 7)), inc_metric ''hsm_operations_total'' [''sign'', ''success''] (w\<lparr>w_hsm := ()\<rparr>))"
    for w :: "(unit, MemoryStore) world"
    by (simp add: ECDSAHandler_def ECDSAHandler_Handle_def toy_backend_def)
  moreover have "c\<lparr>cs_world := inc_metric n l ((cs_world c)\<lparr>w_hsm := ()\<rparr>)\<rparr> \<noteq> c" for n l
  proof
    assume "c\<lparr>cs_world := inc_metric n l ((cs_world c)\<lparr>w_hsm := ()\<rparr>)\<rparr> = c"
    from arg_cong [OF this, of "\<lambda>c. w_metrics (cs_world c)"] show False by (simp add: inc_metric_def)
  qed
  ultimately show ?thesis
    by (simp add: call_handler_def act_def shared_def cs_view_def Let_def case_prod_unfold)
qed

theorem second_factor_interleaved_witness:
  "\<exists>sess \<in> set (sh_objs (cs_heap demo_c2)). authorized demo_libs demo_env demo_sign [(s_ID sess, sess)] sess
     \<and> (\<exists>req'. sr_TFASessionID req' = s_ID sess \<and> opaque_proof demo_libs demo_dispatcher req' sess)"
proof -
  have start: "cs_heap demo_c0 = new_heap" by (simp add: demo_c0_def)
  have ids: "distinct (map s_ID (sh_objs (cs_heap demo_c2)))" by (simp add: demo_c2_heap)
  have acc: "accept_request demo_libs demo_dispatcher demo_env (demo_body demo_sign) = Ok demo_sign" by (rule demo_sign_accepted)
  have no_fido2: "\<not> fido2_proof demo_libs demo_dispatcher env req s task" for env req s task
    by (simp add: fido2_proof_def demo_dispatcher_def)
  obtain H js where run: "interleaved (serve demo_libs demo_dispatcher) server_tick demo_c0 H (demo_c2, js)"
    and j: "((demo_env, demo_body demo_sign), call_handler demo_libs demo_dispatcher demo_env demo_sign (ECDSAHandler toy_backend))
      \<in> set js"
    using demo_interleaving by (auto simp: demo_job_def)
  show ?thesis
    using second_factor_interleaved [OF run start ids j acc demo_sign_service] demo_effect [of demo_c2] no_fido2 by blast
qed

text \<open>An undisturbed request is served as the sequential model says, which ties the two models of the dispatcher
  together: in any state that any interleaving of requests reaches, a new request can run to its end, and when no
  other step comes in between, its answer and the state it leaves are those of \<^verbatim>\<open>Process\<close> on the sessions,
  counters, records and services of that state; the store keeps one object per identifier it files.\<close>

lemma request_alone_is_process:
  assumes "interleaved (serve L d) server_tick c0 H (c, js)" and "cs_heap c0 = new_heap"
  shows "\<exists>r c' H'. interleaved (serve L d) server_tick c0 H' (c', js @ [((env, body), Done r)])
     \<and> Process L d env body (cs_view c) = (r, cs_view c') \<and> wf_heap (cs_heap c')"
proof -
  obtain r c' where run: "run_alone (Process_prog L d env body) c = (r, c')" by force
  have "wf_heap (cs_heap c)" using server.obliged_run [OF assms(1)] assms(2) by simp
  from alone_Process [OF this, of L d env body] run
  have "Process L d env body (cs_view c) = (r, cs_view c') \<and> wf_heap (cs_heap c')" by (simp add: agrees_def)
  then show ?thesis using spawn_to_end [OF assms(1), of "(env, body)" r c'] run by auto
qed

section \<open>An assertion accepted twice\<close>

text \<open>The assertion is good for the credentials \<open>creds\<close>, and nothing fails after it is verified.\<close>

definition assertion_good ::
  "'m libs \<Rightarrow> 's FIDO2Config \<Rightarrow> req_env \<Rightarrow> ServiceRequest \<Rightarrow> TFARequestData \<Rightarrow> finalize_input \<Rightarrow> WebAuthnCredential list
   \<Rightarrow> bytes \<Rightarrow> bool"
where
  "assertion_good L f env req tfaReq fi creds rnd \<longleftrightarrow> finalize_request L f env req tfaReq = Ok fi
     \<and> (\<exists>m pk ad. find (\<lambda>x. bytesEqual (wc_CredentialID x) (as_CredentialID (fi_Assertion fi))) creds = Some m
          \<and> UnmarshalPublicKey P256 (wc_PublicKey m) = Ok pk
          \<and> VerifyAssertion (lib_wa L) (fi_Assertion fi) (cred_of m pk) (ct_Challenge (fi_Token fi)) (fc_RPID f)
              (fc_AllowedOrigins f) = Ok ad)
     \<and> (\<exists>p. fido2_session_key L env req (fi_Req fi) = Ok p) \<and> RandomBytes (re_session_id env) 32 = Ok rnd"

text \<open>Once the credentials are read, the counter that other requests store meanwhile is not looked at: from
  whatever state the request goes on, it opens a verified session.\<close>

lemma counter_not_read_again:
  assumes "assertion_good L f env req tfaReq fi creds rnd"
    and "\<forall>cid n s. fst (UpdateWebAuthnSignCount (fc_Store f) (sr_ClientID req) (sr_Context req) cid n s) \<noteq> Panic"
    and "map_of (sh_index (cs_heap c)) (encodeBase64 rnd) = None"
  shows "\<exists>sess. s_ID sess = encodeBase64 rnd \<and> s_ClientID sess = sr_ClientID req \<and> s_Context sess = sr_Context req
     \<and> s_Verified sess
     \<and> cs_heap (snd (run_alone (after_credentials L d f env req fi (Ok creds)) c)) = snd (heap_Create sess (cs_heap c))"
proof -
  from assms(1) obtain m pk ad p where
    m: "find (\<lambda>x. bytesEqual (wc_CredentialID x) (as_CredentialID (fi_Assertion fi))) creds = Some m"
    and pk: "UnmarshalPublicKey P256 (wc_PublicKey m) = Ok pk"
    and ad: "VerifyAssertion (lib_wa L) (fi_Assertion fi) (cred_of m pk) (ct_Challenge (fi_Token fi)) (fc_RPID f)
              (fc_AllowedOrigins f) = Ok ad"
    and p: "fido2_session_key L env req (fi_Req fi) = Ok p" and rnd: "RandomBytes (re_session_id env) 32 = Ok rnd"
    unfolding assertion_good_def by blast
  let ?sess = "\<lparr>s_ID = encodeBase64 rnd, s_ClientID = sr_ClientID req, s_Context = sr_Context req,
      s_SessionKey = snd p, s_ClientMAC = [], s_ExpiresAt = re_new env + d_sessionTTL d, s_Verified = True,
      s_Task = fr_Task (fi_Req fi)\<rparr>"
  have opened: "cs_heap (snd (run_alone (open_session_prog L d env req (fi_Req fi)) c')) = snd (heap_Create ?sess (cs_heap c'))"
    if "cs_heap c' = cs_heap c" for c'
    using assms(3) that
    by (simp add: open_session_prog_def p rnd Let_def case_prod_unfold do_metric_def answer_def heap_Create_def)
  have "creds \<noteq> []" using m by auto
  have "cs_heap (snd (run_alone (after_credentials L d f env req fi (Ok creds)) c)) = snd (heap_Create ?sess (cs_heap c))"
    using \<open>creds \<noteq> []\<close> m pk ad assms(2) opened
    by (auto simp: after_credentials_def Let_def case_prod_unfold shared_def cs_view_def split: res.split)
  then show ?thesis by (intro exI [of _ ?sess]) simp
qed

text \<open>So two requests with one assertion, both of which read the credentials before either stores the new
  counter, both open a verified session.\<close>

lemma assertion_accepted_twice:
  assumes "interleaved (serve L d) server_tick c0 H (c, js)"
    and serve1: "serve L d (env1, body1) = fido2AuthFinalize_prog L d f env1 req tfaReq"
    and serve2: "serve L d (env2, body2) = fido2AuthFinalize_prog L d f env2 req tfaReq"
    and creds: "GetWebAuthnCredential (fc_Store f) (sr_ClientID req) (sr_Context req) (w_store (cs_world c)) = Ok creds"
    and good: "assertion_good L f env1 req tfaReq fi creds rnd1" "assertion_good L f env2 req tfaReq fi creds rnd2"
    and upd: "\<forall>cid n s. fst (UpdateWebAuthnSignCount (fc_Store f) (sr_ClientID req) (sr_Context req) cid n s) \<noteq> Panic"
    and fresh: "map_of (sh_index (cs_heap c)) (encodeBase64 rnd1) = None"
      "map_of (sh_index (cs_heap c)) (encodeBase64 rnd2) = None" "encodeBase64 rnd1 \<noteq> encodeBase64 rnd2"
  shows "\<exists>H' c' js' s1 s2. interleaved (serve L d) server_tick c0 H' (c', js')
     \<and> sh_objs (cs_heap c') = sh_objs (cs_heap c) @ [s1, s2]
     \<and> (\<forall>s \<in> {s1, s2}. s_Verified s \<and> s_ClientID s = sr_ClientID req \<and> s_Context s = sr_Context req)
     \<and> s_ID s1 \<noteq> s_ID s2"
proof -
  let ?k = "\<lambda>env. after_credentials L d f env req fi"
  let ?get = "shared (\<lambda>st. (GetWebAuthnCredential (fc_Store f) (sr_ClientID req) (sr_Context req) (w_store (ds_world st)), st))"
  have prog: "serve L d (env1, body1) = act ?get (?k env1)" "serve L d (env2, body2) = act ?get (?k env2)"
    using good serve1 serve2 by (simp_all add: assertion_good_def fido2AuthFinalize_prog_def)
  have get: "?get c = (Ok creds, c)" using creds by (simp add: cs_view_def)
  let ?n = "length js"
  from interleaved.next_step [OF interleaved.next_step [OF assms(1) scheduled.spawn [of _ _ _ _ "(env1, body1)"]]
      scheduled.spawn [of _ _ _ _ "(env2, body2)"]]
  have "interleaved (serve L d) server_tick c0 (insert c (insert c H))
      (c, js @ [((env1, body1), act ?get (?k env1)), ((env2, body2), act ?get (?k env2))])"
    by (simp only: prog append_assoc append.simps)
  from interleaved.next_step [OF this scheduled_act [of ?n _ "(env1, body1)" ?get "?k env1"]]
  have "interleaved (serve L d) server_tick c0 (insert c (insert c (insert c H)))
      (c, js @ [((env1, body1), ?k env1 (Ok creds)), ((env2, body2), act ?get (?k env2))])"
    unfolding get by (simp add: nth_append list_update_append)
  from interleaved.next_step [OF this scheduled_act [of "Suc ?n" _ "(env2, body2)" ?get "?k env2"]]
  have both: "interleaved (serve L d) server_tick c0 (insert c (insert c (insert c (insert c H))))
      (c, js @ [((env1, body1), ?k env1 (Ok creds)), ((env2, body2), ?k env2 (Ok creds))])"
    unfolding get by (simp add: nth_append list_update_append)
  obtain r1 c1 where run1: "run_alone (?k env1 (Ok creds)) c = (r1, c1)" by force
  from runs_to_end [OF both, of ?n "(env1, body1)", OF _ _ run1] obtain H1 where
    first: "interleaved (serve L d) server_tick c0 H1
      (c1, js @ [((env1, body1), Done r1), ((env2, body2), ?k env2 (Ok creds))])"
    by (auto simp: nth_append list_update_append)
  obtain r2 c2 where run2: "run_alone (?k env2 (Ok creds)) c1 = (r2, c2)" by force
  from runs_to_end [OF first, of "Suc ?n" "(env2, body2)", OF _ _ run2] obtain H2 where
    last: "interleaved (serve L d) server_tick c0 H2 (c2, js @ [((env1, body1), Done r1), ((env2, body2), Done r2)])"
    by (auto simp: nth_append list_update_append)
  from counter_not_read_again [OF good(1) upd fresh(1), of d] obtain s1 where
    s1: "s_ID s1 = encodeBase64 rnd1" "s_ClientID s1 = sr_ClientID req" "s_Context s1 = sr_Context req" "s_Verified s1"
    "cs_heap c1 = snd (heap_Create s1 (cs_heap c))" by (auto simp: run1)
  have h1: "sh_objs (cs_heap c1) = sh_objs (cs_heap c) @ [s1]"
    "map_of (sh_index (cs_heap c1)) (encodeBase64 rnd2) = None"
    using fresh s1 by (simp_all add: heap_Create_def update_conv')
  from counter_not_read_again [OF good(2) upd h1(2), of d] obtain s2 where
    s2: "s_ID s2 = encodeBase64 rnd2" "s_ClientID s2 = sr_ClientID req" "s_Context s2 = sr_Context req" "s_Verified s2"
    "cs_heap c2 = snd (heap_Create s2 (cs_heap c1))" by (auto simp: run2)
  have "sh_objs (cs_heap c2) = sh_objs (cs_heap c) @ [s1, s2]"
    using h1 s2 by (simp add: heap_Create_def)
  moreover have "s_ID s1 \<noteq> s_ID s2" using s1(1) s2(1) fresh(3) by simp
  moreover have "\<forall>s \<in> {s1, s2}. s_Verified s \<and> s_ClientID s = sr_ClientID req \<and> s_Context s = sr_Context req"
    using s1 s2 by simp
  ultimately show ?thesis using last by blast
qed

end
