(* ===== verification/Mongo_Records.thy ===== *)
theory Mongo_Records
  imports Dispatcher_Policies Mongo_Properties
begin

text \<open>
  The record store of the server over MongoDB: the adapter of the OPAQUE records on the MongoDB store keeps the
  contract \<open>record_store\<close>, on a reachable database that only the store writes. It files records under two
  separate fields, so that the records of any two pairs of client and context are apart.
\<close>

section \<open>The contract\<close>

definition mongo_ready ::
  "'d mongo_lib \<Rightarrow> ('d \<Rightarrow> contents) \<Rightarrow> ('d \<Rightarrow> collection \<Rightarrow> string list set) \<Rightarrow> string \<Rightarrow> ('d, 'm) rec_state \<Rightarrow> bool"
where
  "mongo_ready lib docs uniq db v \<longleftrightarrow> mongo_healthy lib docs uniq
     \<and> mongo_inv (mongo_collections db) (docs (fst v)) \<and> indexes_ok (mongo_collections db) (uniq (fst v))"

text \<open>What a lookup answers, by the documents of the collection.\<close>

lemma mongo_GetRecord_view:
  fixes db
  defines "s \<equiv> mongo_collections db"
  assumes H: "mongo_healthy lib docs uniq" and I: "mongo_inv s (docs d)"
  shows "x \<in># vw_records (view s (docs d)) \<Longrightarrow> record_owner x = (c, ctx) \<Longrightarrow> mongo_GetRecord lib s c ctx d = Ok (ord_Record x)"
    and "\<forall>x \<in># vw_records (view s (docs d)). record_owner x \<noteq> (c, ctx) \<Longrightarrow> mongo_GetRecord lib s c ctx d = Err (No_record c ctx)"
proof -
  have u: "unique_by (\<lambda>r. record_owner r) (vw_records (view s (docs d)))" using I by (simp add: mongo_inv_def view_ok_def)
  note g = GetRecord_answer [OF healthy_sound [OF H] I healthy_answered(7) [OF H I], of c ctx]
  show "mongo_GetRecord lib s c ctx d = Ok (ord_Record x)"
    if "x \<in># vw_records (view s (docs d))" "record_owner x = (c, ctx)" for x
    using g that unique_by_eq [OF u] by metis
  show "mongo_GetRecord lib s c ctx d = Err (No_record c ctx)" if "\<forall>x \<in># vw_records (view s (docs d)). record_owner x \<noteq> (c, ctx)"
    using g that by blast
qed

text \<open>Storing a record replaces the one of its client and context and touches no other.\<close>

lemma mongo_records_frame:
  fixes db
  defines "s \<equiv> mongo_collections db"
  assumes H: "mongo_healthy lib docs uniq" and I: "mongo_inv s (docs d)" and U: "indexes_ok s (uniq d)"
    and op: "mongo_PutRecord lib s c ctx b d = (r, d')"
  shows "r = Ok ()" and "mongo_inv s (docs d')" and "indexes_ok s (uniq d')"
    and "mongo_GetRecord lib s c ctx d' = Ok b"
    and "(c', ctx') \<noteq> (c, ctx) \<Longrightarrow> mongo_GetRecord lib s c' ctx' d' = mongo_GetRecord lib s c' ctx' d"
proof -
  show r: "r = Ok ()" using healthy_writes(6) [OF H I [unfolded s_def] U [unfolded s_def], of c ctx b, folded s_def] op by simp
  note e = PutRecord_effect [OF healthy_sound [OF H] I [unfolded s_def] op [unfolded s_def], folded s_def]
  show I': "mongo_inv s (docs d')" and "indexes_ok s (uniq d')" using e U by (simp_all add: kept_def)
  have v: "vw_records (view s (docs d')) = put_entry_mset (\<lambda>x. record_owner x = (c, ctx))
      \<lparr>ord_ClientID = c, ord_Context = ctx, ord_Record = b\<rparr> (vw_records (view s (docs d)))"
    using e r by simp
  note g = mongo_GetRecord_view [OF H, of db, folded s_def]
  show "mongo_GetRecord lib s c ctx d' = Ok b"
    using g(1) [OF I', of "\<lparr>ord_ClientID = c, ord_Context = ctx, ord_Record = b\<rparr>" c ctx] by (simp add: v put_entry_mset_def)
  assume n: "(c', ctx') \<noteq> (c, ctx)"
  have m: "x \<in># vw_records (view s (docs d')) \<longleftrightarrow> x \<in># vw_records (view s (docs d))" if "record_owner x = (c', ctx')" for x
    using that n by (auto simp: v put_entry_mset_def)
  show "mongo_GetRecord lib s c' ctx' d' = mongo_GetRecord lib s c' ctx' d"
  proof (cases "\<exists>x \<in># vw_records (view s (docs d)). record_owner x = (c', ctx')")
    case True
    then obtain x where x: "x \<in># vw_records (view s (docs d))" "record_owner x = (c', ctx')" by blast
    with g(1) [OF I x] g(1) [OF I' _ x(2)] m show ?thesis by simp
  next
    case False
    with g(2) [OF I, of c' ctx'] g(2) [OF I', of c' ctx'] m show ?thesis by metis
  qed
qed

interpretation mongostore: record_store "StoreRecordStore lib (mongo_ops q mlib (mongo_collections db))"
  "mongo_ready mlib docs uniq db" "serialisable lib" "\<lambda>c x c' x'. (c', x') \<noteq> (c, x)"
  for lib :: "'m opaque_lib" and q and mlib :: "'d mongo_lib" and docs uniq db
proof unfold_locales
  let ?ops = "StoreRecordStore lib (mongo_ops q mlib (mongo_collections db))"
  fix v :: "('d, 'm) rec_state" and c x and rec :: "'m ClientRecord"
  assume a: "mongo_ready mlib docs uniq db v"
  then have R: "mongo_healthy mlib docs uniq" "mongo_inv (mongo_collections db) (docs (fst v))"
    "indexes_ok (mongo_collections db) (uniq (fst v))" by (simp_all add: mongo_ready_def)
  obtain r d' where op: "mongo_PutRecord mlib (mongo_collections db) c x (ol_Serialize lib (rec_RegistrationRecord rec)) (fst v) = (r, d')"
    by force
  note f = mongo_records_frame [OF R op]
  have put: "rs_PutRecord ?ops c x rec v = (Ok (), (d', snd v))"
    using op f(1) by (simp add: StoreRecordStore_def store_PutRecord_def mongo_ops_def)
  show "\<exists>v'. rs_PutRecord ?ops c x rec v = (Ok (), v') \<and> mongo_ready mlib docs uniq db v' \<and> rs_GetRecord ?ops c x v' = Ok rec"
    if "serialisable lib c x rec"
    using that put R(1) f by (auto simp: mongo_ready_def serialisable_def StoreRecordStore_def store_GetRecord_def mongo_ops_def)
  show "rs_GetRecord ?ops c' x' v' = rs_GetRecord ?ops c' x' v"
    if "(c', x') \<noteq> (c, x)" "rs_PutRecord ?ops c x rec v = (Ok (), v')" for c' x' v'
    using that(2) put f(5) [OF that(1)] by (simp add: StoreRecordStore_def store_GetRecord_def mongo_ops_def)
qed

section \<open>Properties\<close>

text \<open>C40: A registration with the MongoDB store takes effect, for its client and context alone. On a reachable
  database that only the store has written, for an OPAQUE library whose records survive their serialisation, after
  a registration finalize request a login of that client and context works with exactly the registered record, and
  what the record store answers for any other pair of client and context, whatever their names, is untouched.\<close>

theorem mongo_registration_takes_effect:
  assumes "mongo_healthy mlib docs uniq" and "NewMongoDBStore mlib fs mcfg d0 = (Ok s, d1)"
    and "mongo_inv s (docs (w_store (ds_world st)))" and "indexes_ok s (uniq (w_store (ds_world st)))"
    and d: "d_records d = StoreRecordStore (lib_opaque L) (mongo_ops q mlib s)" and "opaque_records (lib_opaque L)"
    and "sr_Type req = Type2FARegistration" and "Unmarshal_TFARequestData (sr_Data req) = Some tfa"
    and "tfa_phase tfa StateFinalize b" and "ol_GetRegistrationRecord (lib_opaque L) b = Some r"
    and st1: "st1 = snd (route L d env req st)"
  shows "(sr_ClientID req' = sr_ClientID req \<and> sr_Context req' = sr_Context req \<longrightarrow>
        lookup_record L d env' req' st1 =
          Ok (Some \<lparr>rec_RegistrationRecord = r,
                    rec_CredentialIdentifier = cred_id (sr_Context req) (sr_ClientID req), rec_ClientIdentity = []\<rparr>))
     \<and> ((sr_ClientID req', sr_Context req') \<noteq> (sr_ClientID req, sr_Context req) \<longrightarrow>
        rs_GetRecord (d_records d) (sr_ClientID req') (sr_Context req') (rec_view st1) =
        rs_GetRecord (d_records d) (sr_ClientID req') (sr_Context req') (rec_view st))"
proof -
  obtain db where s: "s = mongo_collections db" using new_store_shape [OF assms(2)] by blast
  have "mongo_ready mlib docs uniq db (rec_view st)" using assms(1,3,4) by (simp add: mongo_ready_def s rec_view_def)
  note e = mongostore.registration_stored [OF d [unfolded s] this assms(7-10) serialisable_registered [OF assms(6,10)],
      where env = env, folded st1]
  show ?thesis using e(1) e(2) [of "sr_ClientID req'" "sr_Context req'"] by (simp add: lookup_record_def d s)
qed

text \<open>A server on an empty database.\<close>

abbreviation "small_store \<equiv> mongo_collections ''r2ps''"

definition small_dispatcher :: "(unit, small_db, bytes) Dispatcher" where
  "small_dispatcher =
     \<lparr>d_serverKey = \<lparr>priv_PublicKey = \<lparr>pub_Curve = P256, pub_X = 1, pub_Y = 2\<rparr>, priv_D = 1\<rparr>,
      d_opaque = \<lparr>os_server = None\<rparr>, d_records = StoreRecordStore toy_opaque (mongo_ops (\<lambda>s. s) small_mongo small_store),
      d_clientKeys = None, d_handlers = Map.empty, d_sessionTTL = 300 * Second, d_iatMaxSkew = 300 * Second, d_fido2 = None\<rparr>"

definition small_state :: "small_db \<Rightarrow> (unit, small_db, bytes) dstate" where
  "small_state d =
     \<lparr>ds_sessions = NewSessionStore, ds_counter = NewAttemptCounter 5 (900 * Second), ds_records = Map.empty,
      ds_world = \<lparr>w_hsm = (), w_store = d, w_metrics = [], w_audit = []\<rparr>\<rparr>"

abbreviation "alice_registers \<equiv> demo_req Type2FARegistration [] (Marshal_TFARequestData (demo_tfa StateFinalize [5]))"

theorem mongo_registration_takes_effect_witness:
  "\<exists>d st1. NewMongoDBStore small_mongo demo_files demo_mongo empty_db = (Ok small_store, d)
     \<and> st1 = snd (route demo_libs small_dispatcher demo_env alice_registers (small_state d))
     \<and> lookup_record demo_libs small_dispatcher demo_env (demo_login StateEvaluate [] [1]) st1 =
         Ok (Some \<lparr>rec_RegistrationRecord = [5], rec_CredentialIdentifier = cred_id ''hsm'' ''alice'', rec_ClientIdentity = []\<rparr>)
     \<and> rs_GetRecord (d_records small_dispatcher) ''bob'' ''hsm'' (rec_view st1) = Err (Record_store_error (No_record ''bob'' ''hsm''))"
proof -
  obtain d where d: "NewMongoDBStore small_mongo demo_files demo_mongo empty_db = (Ok small_store, d)"
    using demo_mongo_opens [of small_mongo] by (auto simp: small_calls)
  note new = new_store_view [OF small_sound d demo_mongo_fresh]
  have I: "mongo_inv small_store (small_docs (w_store (ds_world (small_state d))))"
    "indexes_ok small_store (small_uniq (w_store (ds_world (small_state d))))" using new(3,4) by (simp_all add: small_state_def)
  have k: "d_records small_dispatcher = StoreRecordStore (lib_opaque demo_libs) (mongo_ops (\<lambda>s. s) small_mongo small_store)"
    "opaque_records (lib_opaque demo_libs)" "sr_Type alice_registers = Type2FARegistration"
    "Unmarshal_TFARequestData (sr_Data alice_registers) = Some (demo_tfa StateFinalize [5])"
    "tfa_phase (demo_tfa StateFinalize [5]) StateFinalize [5]" "ol_GetRegistrationRecord (lib_opaque demo_libs) [5] = Some [5]"
    using tfa_roundtrip [OF demo_tfa_ok] demo_phase [of "[5]" StateFinalize] toy_opaque_ok(1)
    by (simp_all add: small_dispatcher_def demo_libs_def demo_req_def toy_opaque_def [symmetric]) (simp_all add: toy_opaque_def)
  have "mongo_GetRecord small_mongo small_store ''bob'' ''hsm'' d = Err (No_record ''bob'' ''hsm'')"
    by (rule mongo_GetRecord_view(2) [OF small_healthy new(4)]) (simp add: new(5))
  then have bob: "rs_GetRecord (d_records small_dispatcher) ''bob'' ''hsm'' (rec_view (small_state d)) =
      Err (Record_store_error (No_record ''bob'' ''hsm''))"
    by (simp add: small_dispatcher_def StoreRecordStore_def store_GetRecord_def mongo_ops_def rec_view_def small_state_def)
  note t = mongo_registration_takes_effect [OF small_healthy d I k refl, where env = demo_env and env' = demo_env]
  from t [of "demo_login StateEvaluate [] [1]"] t [of "(demo_login StateEvaluate [] [1])\<lparr>sr_ClientID := ''bob''\<rparr>"] d bob
  show ?thesis by (auto simp: demo_login_def demo_req_def)
qed

end
