(* ===== verification/Spec2Isabelle.thy ===== *)
theory Spec2Isabelle
  imports Pake_Counter Pake_Session Store_Memory Service_SAD WebAuthn WebAuthn_Token Crypto_Jose Service_Eudiw
    Dispatcher_Policies Server_Modes Status_List Admin_Api Hsm_Pool Client_Flows Server_Main Mongo_Properties
    Dispatcher_Answers WebAuthn_Limits Interleaved_Properties Mongo_Records
begin

text \<open>
  A verification library for go-r2ps-service, the server side of R2PS: a service that keeps the keys of wallet
  instances in an HSM and uses them for clients that have proven a second factor (OPAQUE password login or a
  FIDO2 authenticator), that issues wallet attestations, and that publishes and administers their revocation.

  \<^bold>\<open>How the program is put together.\<close> \<^verbatim>\<open>cmd/server/main.go\<close> reads the settings and the roles
  (\<^verbatim>\<open>internal/modes\<close>), opens the HSM (\<^verbatim>\<open>internal/hsm\<close>) and the lifecycle store (\<^verbatim>\<open>internal/store\<close>), registers the
  service handlers the roles ask for (\<^verbatim>\<open>internal/service/handlers.go\<close>, \<^verbatim>\<open>eudiw_handlers.go\<close>) with the dispatcher
  (\<^verbatim>\<open>internal/service/dispatcher.go\<close>, \<^verbatim>\<open>fido2.go\<close>, \<^verbatim>\<open>sad.go\<close>), and serves three HTTP surfaces: the R2PS endpoint,
  the status lists (\<^verbatim>\<open>internal/statuslist\<close>) and the admin API (\<^verbatim>\<open>internal/admin\<close> behind \<^verbatim>\<open>internal/authmw\<close>). A
  request of the protocol is a JWS (\<^verbatim>\<open>internal/crypto\<close>) over a JSON message (\<^verbatim>\<open>pkg/r2ps\<close>); the dispatcher verifies
  it, routes it to the flows of the second factor (\<^verbatim>\<open>internal/pake\<close>, \<^verbatim>\<open>internal/webauthn\<close>) or, behind a verified
  session, to a service handler, and signs the answer. \<^verbatim>\<open>pkg/client\<close> is the other end.

  \<^bold>\<open>How it is modelled.\<close> A Go call gives a \<open>res\<close>: \<open>Ok\<close>, \<open>Err\<close> or \<open>Panic\<close>; every early return and every unguarded
  index of the source is a branch. Structs are records and keep their Go names, with a short prefix before the
  field names; stateful methods take the state and return it. A Go interface value is a record of functions
  (\<open>store_ops\<close>, \<open>backend_ops\<close>, \<open>record_ops\<close>, \<open>Handler\<close>), so the components are composed exactly where the source
  passes the interface. Machine integers are words where they wrap or are combined bitwise, and 64-bit integers are
  \<^typ>\<open>int\<close> with \<open>wrap64\<close>, \<open>dur_mul\<close> and \<open>clamp64\<close> written where the source can overflow. Clock readings and
  randomness are arguments (\<open>req_env\<close> for a request). A map the source ranges over is an association list; theorems
  about such loops hold for every order or name the order they use.

  \<^bold>\<open>The theories\<close>, each opening with the files and functions it models:

  \<^item> The language and its standard library: \<^theory_text>\<open>Go_Prelude\<close> (results, strings, bytes, time, the locale \<open>keyed_machine\<close> of
    state machines that act on one key at a time), \<^theory_text>\<open>Go_Encoding\<close> (base64, hex), \<^theory_text>\<open>Go_Json\<close> and \<^theory_text>\<open>Json_Roundtrip\<close>
    (\<^verbatim>\<open>encoding/json\<close>: what is printed is read back), \<^theory_text>\<open>Go_Asn1\<close>, \<^theory_text>\<open>Go_Http\<close>, \<^theory_text>\<open>Go_Duration\<close>.
  \<^item> Cryptographic envelopes: \<^theory_text>\<open>Crypto_Keys\<close> (\<^verbatim>\<open>crypto/ecdh.go\<close>), \<^theory_text>\<open>Crypto_Jose\<close> (\<^verbatim>\<open>crypto/jws.go\<close>, \<^verbatim>\<open>jwe.go\<close>).
  \<^item> The second factor: \<^theory_text>\<open>Pake_Counter\<close>, \<^theory_text>\<open>Pake_Session\<close>, \<^theory_text>\<open>Pake_Opaque\<close>, \<^theory_text>\<open>WebAuthn\<close>, \<^theory_text>\<open>WebAuthn_Limits\<close>, \<^theory_text>\<open>WebAuthn_Token\<close>,
    \<^theory_text>\<open>Service_Fido2\<close>.
  \<^item> The store: \<^theory_text>\<open>Store_Memory\<close> (the interface, the in-memory store, the locales \<open>status_store\<close>, \<open>revocable_status_store\<close>,
    \<open>reliable_status_store\<close>) and the MongoDB store: \<^theory_text>\<open>Store_Mongo\<close> (the model), \<^theory_text>\<open>Mongo_Driver\<close> (what the driver
    documents), \<^theory_text>\<open>Mongo_Contents\<close> and \<^theory_text>\<open>Mongo_Effects\<close> (what each operation does to the collections, also when calls
    fail), \<^theory_text>\<open>Mongo_Refines\<close> (it provides the contracts), \<^theory_text>\<open>Mongo_Simulation\<close> (it simulates the in-memory store),
    \<^theory_text>\<open>Mongo_Example\<close> (a database that behaves as documented), \<^theory_text>\<open>Mongo_Properties\<close>,
    \<^theory_text>\<open>Mongo_Records\<close> (the OPAQUE records on it).
  \<^item> The HSM: \<^theory_text>\<open>Hsm_Pkcs11\<close> (the backend), \<^theory_text>\<open>Hsm_Pool\<close> (its session pool under interleaving requests; its keys).
  \<^item> The services: \<^theory_text>\<open>Service_SAD\<close>, \<^theory_text>\<open>Service_Handlers\<close>, \<^theory_text>\<open>Service_Eudiw\<close>.
  \<^item> The dispatcher: \<^theory_text>\<open>R2PS_Types\<close> (messages), \<^theory_text>\<open>Service_State\<close> (its state), \<^theory_text>\<open>Service_Dispatcher\<close> (\<open>Process\<close>),
    \<^theory_text>\<open>Dispatcher_Flows\<close> (requests in, answers out), \<^theory_text>\<open>Dispatcher_Answers\<close> (the type of every answer),
    \<^theory_text>\<open>Dispatcher_Safety\<close> (the transition system of a running server and its invariants), \<^theory_text>\<open>Dispatcher_Policies\<close>.
  \<^item> Requests at the same time: \<^theory_text>\<open>Go_Concurrency\<close> (goroutines as programs of atomic steps, their interleavings, the locale
    \<open>rely_guarantee\<close>), \<^theory_text>\<open>Pake_Objects\<close> (the session store with its pointers), \<^theory_text>\<open>Dispatcher_Concurrent\<close> (the handlers of
    the dispatcher as such programs), \<^theory_text>\<open>Dispatcher_Interleaved\<close> (each keeps its guarantee), \<^theory_text>\<open>Interleaved_Properties\<close>.
  \<^item> The client: \<^theory_text>\<open>R2PS_Client\<close>, \<^theory_text>\<open>Client_Flows\<close> (client and dispatcher end to end).
  \<^item> The server: \<^theory_text>\<open>Server_Modes\<close>, \<^theory_text>\<open>Status_List\<close>, \<^theory_text>\<open>Admin_Auth\<close>, \<^theory_text>\<open>Admin_Api\<close>, \<^theory_text>\<open>Server_Main\<close>; and this theory, with
    the properties that span components.

  \<^bold>\<open>What the lemmas show.\<close> Each component has an exact description of its operations on every branch, and an invariant
  where it has state. On top of these: the lockout counter refines one account per key; the session clean-up is
  invisible; sessions become verified only by a proof, live no longer than configured, and guard every 2FA service; a
  signing task bounds what is signed; every answer is a signed response or one of six errors; the Go client and the
  dispatcher complete registration, login and calls; a registration changes the record of its client and context alone (of its joined
  name in memory), and a client without a record is answered as one with the made-up record, on every record store;
  the HTTP answer of every outcome, and of every request to set a status, is fixed by a table; a message of the 2FA mode
  is bound to its session and direction; attestations carry fresh, recorded, valid statuses, and a
  revocation reaches the published list, on either store; the MongoDB store answers as the in-memory store on a
  reachable database and hands out no index twice on a failing one; HSM sessions are exclusive in every interleaving; the
  second factor guards the services in every interleaving of requests, and a request that is not disturbed behaves as
  the sequential model, while one assertion can be accepted twice by requests that race; the
  roles decide what a server offers; the admin API admits exactly the permitted tokens. Where a theorem has a hypothesis,
  a theorem of the same name with \<open>_witness\<close> applies it to concrete input.

  \<^bold>\<open>Interfaces.\<close> \<open>status_store\<close> and its two extensions are what the attestation handlers and the status list rely on; they
  are interpreted on \<open>memory_ops\<close> (\<open>memory\<close>) and proved of \<open>mongo_ops\<close> for every documented driver
  (\<open>mongo_status_store\<close>, \<open>mongo_revocable_store\<close>). \<open>record_store\<close> is what the OPAQUE flows rely on,
  interpreted on the in-memory record store and on the server's adapter over either lifecycle store (\<open>inmem\<close>,
  \<open>memstore\<close>, \<open>mongostore\<close>), \<open>auth_guard\<close> what the
  admin API relies on, \<open>keyed_machine\<close> the shape of the counter and of two tables of the store, \<open>rely_guarantee\<close> what each
  request owes the others (interpreted on the dispatcher's programs as \<open>server\<close>).

  \<^bold>\<open>Parameters and hypotheses.\<close> Third-party code is a parameter, one record field per call the source makes: go-jose
  (\<open>jose_lib\<close>), bytemare/opaque (\<open>opaque_lib\<close>, \<open>opaque_client\<close>), miekg/pkcs11 (\<open>p11_lib\<close>), the MongoDB driver (\<open>mongo_lib\<close>),
  go-tokenauth (\<open>claims_lib\<close>), AES-GCM, SHA-256, HKDF, ECDSA, DEFLATE, the file system and \<^verbatim>\<open>getenv\<close>. Where a theorem needs
  more than the code guarantees, a named predicate states what that library documents: \<open>jose_signs\<close>, \<open>jose_decrypts\<close> and
  \<open>jose_wraps\<close> (what was signed verifies; what was encrypted without inputs to the key agreement decrypts; a wrapped key
  is unwrapped by its own wrapping key only; no round trip is claimed for the 1FA mode, which sets such inputs), \<open>opaque_completes\<close>, \<open>registers\<close> and \<open>logs_in\<close> (an honest OPAQUE
  run), \<open>aead_opens\<close>, \<open>p11_documented\<close> (objects of a token), \<open>serves\<close> (the status list's signer and compressor),
  \<open>mongo_sound\<close> (what an answer of the driver means, failures at any time allowed) and \<open>mongo_healthy\<close> (the database is
  reachable and takes every document; the server's limit of 16 MB per document is not modelled). Each is satisfied by a
  concrete instance in the witnesses.

  \<^bold>\<open>Recursion and fuel.\<close> Loops over lists and counts are structural. The JSON reader starts with \<open>2 * length + 1\<close> units of
  fuel, which \<open>json_fuel\<close> proves enough on every text, so that its equations are free of fuel (\<open>read_value\<close>);
  \<open>skipCBORValue\<close> starts with the bytes that are left, one unit per nesting level, enough by \<open>skip_fuel_enough\<close> and
  \<open>attestation_parsing_ends\<close>; \<open>ParseDuration\<close> with the length of the text (\<open>parse_items_fuel\<close>); \<open>LoadX5CChain\<close> with the length
  of the file. The loop over an HSM's objects may not end, since the token decides: \<open>list_loop\<close> gives \<open>None\<close> when
  its fuel is spent, and \<open>list_loop_fuel\<close> shows that more fuel changes no result.

  \<^bold>\<open>Atomicity.\<close> An operation of the counter, of the session store and of the in-memory store is one step, since its mutex is
  held from its first line to its return. The sequential properties of the dispatcher take a whole call of \<open>Process\<close> as
  one step (\<^theory_text>\<open>Dispatcher_Safety\<close>). \<^theory_text>\<open>Dispatcher_Interleaved\<close> divides it into the calls that lock and the reads of
  \<^verbatim>\<open>sess.Verified\<close> through the shared pointer, and lets any number of requests interleave; there a call of a service handler
  and an operation of the MongoDB store are still one step. The operations on the HSM pool interleave at every acquire,
  use and release.

  \<^bold>\<open>Not modelled.\<close> \<^verbatim>\<open>internal/service/metrics.go\<close> declares Prometheus collectors; the counters the code raises are
  recorded in the state, the durations it observes are not. \<^verbatim>\<open>internal/hsm/testhelper.go\<close> and \<^verbatim>\<open>test/\<close> set up tests. Log
  lines, the listeners with their time-outs, the graceful shutdown and the deadlines of database calls (which
  appear as failures) are left out, as are the algorithms behind the parameters: signatures, encryption, OPAQUE,
  compression and the PKCS#11 token.
\<close>

section \<open>Revocation up to the relying party\<close>

context revocable_status_store begin

lemma revocation_served:
  assumes "inv (w_store w)" and "wp_Store cfg = Some ops" and "Unmarshal_reason d = Some reason"
    and "WIRevokeHandler_Handle cfg now client d w = (res, w')" and "category \<in> {''ka'', ''wia''}"
    and "GetAllStatuses ops category (w_store w') = Ok es" and "\<forall>i. entry (w_store w) category i \<noteq> None \<longrightarrow> i < 2 ^ 49"
    and "serves lib deflate inflate lcfg now'" and "list_request category listID r"
    and "utf8_valid (slc_BaseURI lcfg @ ''/'' @ category @ ''/'' @ listID)"
  shows "\<exists>hw. sl_ServeHTTP lib deflate (NewSLHandler ops lcfg) now' r (w_store w') new_writer = Ok hw
     \<and> status_published lib inflate lcfg now' category listID
         (\<lambda>i. case entry (w_store w) category i of
                None \<Rightarrow> None
              | Some v \<Rightarrow> Some (if i \<in> set (owned (w_store w) client category) then StatusInvalid else v)) hw"
proof -
  have m: "inv (w_store w')"
    "entry (w_store w') = override (owned (w_store w) client) {''ka'', ''wia''} StatusInvalid (entry (w_store w))"
    using revoke_cats_effect [OF assms(1), of "[''ka'', ''wia'']" client StatusInvalid 0] assms(4)
    by (auto simp: WIRevokeHandler_Handle_def revokeAll_def assms(2,3))
  have e: "entry (w_store w') category = (\<lambda>i. case entry (w_store w) category i of
                None \<Rightarrow> None
              | Some v \<Rightarrow> Some (if i \<in> set (owned (w_store w) client category) then StatusInvalid else v))"
    using assms(5) by (auto simp: m(2) override_def fun_eq_iff split: option.split)
  have "\<forall>i. entry (w_store w') category i \<noteq> None \<longrightarrow> i < 2 ^ 49"
    using assms(7) by (auto simp: e split: option.splits)
  from served_statuses [OF m(1) assms(6) this assms(8-10)] show ?thesis unfolding e .
qed

end

text \<open>C8: A revocation is published. After a client's revocation request on the in-memory store, the list of a
  category, fetched over HTTP, verified with the provider's key and inflated, shows Invalid for every index
  the client was issued, and for every other index what the store held before.\<close>

theorem revocation_published:
  assumes "wf_mem (w_store w)" and "wp_Store cfg = Some memory_ops" and "Unmarshal_reason d = Some reason"
    and "WIRevokeHandler_Handle cfg now client d w = (res, w')" and "category \<in> {''ka'', ''wia''}"
    and "map_get 0 (m_counters (w_store w')) category \<le> 2 ^ 49"
    and "serves lib deflate inflate lcfg now'" and "list_request category listID r"
    and "utf8_valid (slc_BaseURI lcfg @ ''/'' @ category @ ''/'' @ listID)"
  shows "\<exists>hw. sl_ServeHTTP lib deflate (NewSLHandler memory_ops lcfg) now' r (w_store w') new_writer = Ok hw
     \<and> status_published lib inflate lcfg now' category listID
         (\<lambda>i. case mem_entry (w_store w) category i of
                None \<Rightarrow> None
              | Some v \<Rightarrow> Some (if i \<in> set (mem_owned (w_store w) client category) then StatusInvalid else v)) hw"
proof -
  have wf: "wf_mem (w_store w')"
    using memory_revoke [OF assms(1), of client StatusInvalid] assms(4)
    by (auto simp: WIRevokeHandler_Handle_def revokeAll_def assms(2,3))
  obtain es where es: "GetAllStatuses memory_ops category (w_store w') = Ok es"
    by (cases "m_statuses (w_store w') category") (simp_all add: memory_ops_def mem_GetAllStatuses_def)
  have "mem_entry (w_store w) category i \<noteq> None \<Longrightarrow> mem_entry (w_store w') category i \<noteq> None" for i
    using memory_revoke [OF assms(1), of client StatusInvalid] assms(4)
    by (auto simp: WIRevokeHandler_Handle_def revokeAll_def assms(2,3) override_def split: option.splits)
  then have "\<forall>i. mem_entry (w_store w) category i \<noteq> None \<longrightarrow> i < 2 ^ 49"
    using assms(6) by (fastforce simp: mem_entry_None_iff [OF wf] simp del: not_None_eq)
  from memory.revocation_served [OF assms(1-5) es this assms(7-9)] show ?thesis .
qed

definition one_attestation :: MemoryStore where
  "one_attestation = snd (mem_RecordWUA ''c'' ''ka'' 0 (snd (mem_AllocateIndex ''ka'' NewMemoryStore)))"

lemma one_attestation_entries:
  "mem_entry one_attestation ''ka'' = [0 \<mapsto> StatusValid]" "mem_owned one_attestation ''c'' ''ka'' = [0]"
  by (simp_all add: one_attestation_def mem_RecordWUA_def mem_AllocateIndex_def NewMemoryStore_def mem_entry_def map_get_def
      mem_owned_def fun_eq_iff Let_def)

theorem revocation_published_witness:
  "\<exists>w' hw. WIRevokeHandler_Handle demo_cfg 0 ''c'' (json_object []) (demo_world\<lparr>w_store := one_attestation\<rparr>)
       = (Ok (Marshal_WIRevokeResponse 1 ''wallet instance revoked''), w')
     \<and> sl_ServeHTTP toy_jose Some (NewSLHandler memory_ops demo_list_cfg) 0 demo_list_request (w_store w') new_writer = Ok hw
     \<and> status_published toy_jose Some demo_list_cfg 0 ''ka'' ''0'' [0 \<mapsto> StatusInvalid] hw"
proof -
  let ?w = "demo_world\<lparr>w_store := one_attestation\<rparr>"
  note m = one_attestation_entries
  have wf: "wf_mem (w_store ?w)"
    using wf_mem_Allocate [OF wf_mem_new, of "''ka''"]
    by (simp add: one_attestation_def mem_RecordWUA_def wf_mem_def Let_def)
  obtain w' where r: "WIRevokeHandler_Handle demo_cfg 0 ''c'' (json_object []) ?w
      = (Ok (Marshal_WIRevokeResponse 1 ''wallet instance revoked''), w')" "map_get 0 (m_counters (w_store w')) ''ka'' \<le> 2 ^ 49"
    by (simp add: WIRevokeHandler_Handle_def demo_reason revokeAll_def demo_cfg_def one_attestation_def memory_ops_def
        mem_RecordWUA_def mem_AllocateIndex_def NewMemoryStore_def map_get_def mem_GetClientIndices_def mem_SetStatus_def pair_key_def
        audit_if_def Let_def)
  have p: "wp_Store demo_cfg = Some memory_ops" "''ka'' \<in> {''ka'', ''wia''}" by (simp_all add: demo_cfg_def)
  have "(\<lambda>i. case mem_entry (w_store ?w) ''ka'' i of None \<Rightarrow> None
        | Some v \<Rightarrow> Some (if i \<in> set (mem_owned (w_store ?w) ''c'' ''ka'') then StatusInvalid else v)) = [0 \<mapsto> StatusInvalid]"
    by (simp add: m fun_eq_iff)
  with revocation_published [OF wf p(1) demo_reason r(1) p(2) r(2) demo_serves demo_list_request demo_list_utf8] r(1)
  show ?thesis by auto
qed

text \<open>C19: A revocation is published from the MongoDB store too. On a reachable database that only the store has written,
  after a client's revocation request the list of a category, fetched over HTTP, verified and inflated, shows Invalid
  for every index recorded for the client, and for every other index what the database held before.\<close>

theorem mongo_revocation_published:
  assumes "mongo_healthy mlib docs uniq" and "NewMongoDBStore mlib fs mcfg d0 = (Ok s, d1)"
    and "mongo_inv s (docs (w_store w))" and "indexes_ok s (uniq (w_store w))"
    and "wp_Store cfg = Some (mongo_ops q mlib s)" and "Unmarshal_reason d = Some reason"
    and "WIRevokeHandler_Handle cfg now client d w = (res, w')" and "category \<in> {''ka'', ''wia''}"
    and "counter (docs (w_store w) (ms_counters s)) category \<le> 2 ^ 49"
    and "serves lib deflate inflate lcfg now'" and "list_request category listID r"
    and "utf8_valid (slc_BaseURI lcfg @ ''/'' @ category @ ''/'' @ listID)"
  shows "\<exists>hw. sl_ServeHTTP lib deflate (NewSLHandler (mongo_ops q mlib s) lcfg) now' r (w_store w') new_writer = Ok hw
     \<and> status_published lib inflate lcfg now' category listID
         (\<lambda>i. case view_entry (view s (docs (w_store w))) category i of
                None \<Rightarrow> None
              | Some v \<Rightarrow> Some (if i \<in># view_owned (view s (docs (w_store w))) client category then StatusInvalid else v)) hw"
proof -
  obtain db where s: "s = mongo_collections db" using new_store_shape [OF assms(2)] by blast
  note R = mongo_revocable_store [OF assms(1), of q db "{}", folded s]
  have I: "mongo_inv s (docs (w_store w)) \<and> indexes_ok s (uniq (w_store w))" using assms(3,4) by simp
  have I': "mongo_inv s (docs (w_store w')) \<and> indexes_ok s (uniq (w_store w'))"
    using revocable_status_store.revoke_cats_effect [OF R I, of "[''ka'', ''wia'']" client StatusInvalid 0] assms(7)
    by (auto simp: WIRevokeHandler_Handle_def revokeAll_def assms(5,6))
  then obtain es where es: "GetAllStatuses (mongo_ops q mlib s) category (w_store w') = Ok es"
    using GetAllStatuses_answer [OF healthy_sound [OF assms(1)] _ healthy_answered(2) [OF assms(1)], of s "w_store w'" category]
    by (auto simp: mongo_ops_def)
  have ok: "view_ok (view s (docs (w_store w)))" using assms(3) by (simp add: mongo_inv_def)
  have "\<forall>i. view_entry (view s (docs (w_store w))) category i \<noteq> None \<longrightarrow> i < 2 ^ 49"
    using ok assms(9) by (auto simp: view_entry_None view_ok_def view_def simp del: not_None_eq)
  from revocable_status_store.revocation_served [OF R I assms(5-8) es this assms(10-12)]
  show ?thesis unfolding set_sorted_list_of_multiset .
qed

text \<open>The database after one attestation, by the simulation of the in-memory store.\<close>

lemma small_attestation:
  "\<exists>d0 d. NewMongoDBStore small_mongo demo_files demo_mongo empty_db = (Ok (mongo_collections ''r2ps''), d0)
     \<and> related small_docs small_uniq (mongo_collections ''r2ps'') d one_attestation"
proof -
  let ?s = "mongo_collections ''r2ps''" and ?cs = "[C_Allocate ''ka'', C_RecordWUA ''c'' ''ka'' 0]"
  obtain d where d: "NewMongoDBStore small_mongo demo_files demo_mongo empty_db = (Ok ?s, d)"
    using demo_mongo_opens [of small_mongo] by (auto simp: small_calls)
  note new = new_store_view [OF small_sound d demo_mongo_fresh]
  have r: "related small_docs small_uniq ?s d NewMemoryStore" using new(3-5) simulates_empty by (simp add: related_def)
  have ok: "calls_ok NewMemoryStore ?cs" by (simp add: NewMemoryStore_def map_get_def max_int64_def)
  note r1 = step_related [OF small_healthy r, of "C_Allocate ''ka''" "\<lambda>s. s"]
  have "related small_docs small_uniq ?s (after_calls (mongo_ops (\<lambda>s. s) small_mongo ?s) ?cs d) (after_calls memory_ops ?cs NewMemoryStore)"
    using r1 step_related [OF small_healthy conjunct2 [OF r1], of "C_RecordWUA ''c'' ''ka'' 0" "\<lambda>s. s"] ok by simp
  moreover have "after_calls memory_ops ?cs NewMemoryStore = one_attestation"
    by (simp add: memory_ops_def one_attestation_def)
  ultimately show ?thesis using d by auto
qed

definition small_provider :: "MongoDBStore \<Rightarrow> small_db WalletProviderConfig" where
  "small_provider s =
     \<lparr>wp_SigningKey = wp_SigningKey demo_cfg, wp_X5CChain = [], wp_WalletLink = [], wp_WalletName = [], wp_WalletVersion = [],
      wp_CertificationInfo = ''null'', wp_KeyStorageLevel = None, wp_UserAuthLevel = None, wp_Certification = [],
      wp_StatusListBaseURI = [], wp_WKATTL = 0, wp_WIATTL = 0, wp_StatusMaintenancePeriod = 0,
      wp_Store = Some (mongo_ops (\<lambda>s. s) small_mongo s), wp_Audit = False\<rparr>"

definition small_world :: "small_db \<Rightarrow> (unit, small_db) world" where
  "small_world d = \<lparr>w_hsm = (), w_store = d, w_metrics = [], w_audit = []\<rparr>"

theorem mongo_revocation_published_witness:
  "\<exists>s d res w' hw. view_entry (view s (small_docs d)) ''ka'' = [0 \<mapsto> StatusValid]
     \<and> WIRevokeHandler_Handle (small_provider s) 0 ''c'' (json_object []) (small_world d) = (res, w')
     \<and> sl_ServeHTTP toy_jose Some (NewSLHandler (mongo_ops (\<lambda>s. s) small_mongo s) demo_list_cfg) 0 demo_list_request (w_store w') new_writer
         = Ok hw
     \<and> status_published toy_jose Some demo_list_cfg 0 ''ka'' ''0'' [0 \<mapsto> StatusInvalid] hw"
proof -
  let ?s = "mongo_collections ''r2ps''"
  obtain d0 d where d: "NewMongoDBStore small_mongo demo_files demo_mongo empty_db = (Ok ?s, d0)"
    "related small_docs small_uniq ?s d one_attestation"
    using small_attestation by blast
  then have inv: "mongo_inv ?s (small_docs (w_store (small_world d)))" "indexes_ok ?s (small_uniq (w_store (small_world d)))"
    and sim: "simulates (view ?s (small_docs d)) one_attestation"
    by (simp_all add: related_def small_world_def)
  have e: "view_entry (view ?s (small_docs d)) ''ka'' = [0 \<mapsto> StatusValid]"
    and o: "view_owned (view ?s (small_docs d)) ''c'' ''ka'' = {#0#}" and c: "counter (small_docs d (ms_counters ?s)) ''ka'' = 1"
    using sim by (simp_all add: simulates_def one_attestation_entries, simp add: view_def one_attestation_def
        mem_RecordWUA_def mem_AllocateIndex_def NewMemoryStore_def map_get_def Let_def)
  obtain res w' where r: "WIRevokeHandler_Handle (small_provider ?s) 0 ''c'' (json_object []) (small_world d) = (res, w')" by force
  have p: "wp_Store (small_provider ?s) = Some (mongo_ops (\<lambda>s. s) small_mongo ?s)" "''ka'' \<in> {''ka'', ''wia''}"
    "counter (small_docs (w_store (small_world d)) (ms_counters ?s)) ''ka'' \<le> 2 ^ 49"
    by (simp_all add: small_provider_def small_world_def c)
  have "(\<lambda>i. case view_entry (view ?s (small_docs (w_store (small_world d)))) ''ka'' i of None \<Rightarrow> None
        | Some v \<Rightarrow> Some (if i \<in># view_owned (view ?s (small_docs (w_store (small_world d)))) ''c'' ''ka'' then StatusInvalid else v))
      = [0 \<mapsto> StatusInvalid]"
    by (simp add: small_world_def e o fun_eq_iff)
  with mongo_revocation_published [OF small_healthy d(1) inv p(1) demo_reason r p(2,3) demo_serves demo_list_request demo_list_utf8] r e
  show ?thesis by (intro exI [of _ ?s] exI [of _ d] exI [of _ res] exI [of _ w']) auto
qed

end
